(* ===== verification/Prelude.thy ===== *)
theory Prelude
  imports Main "HOL-Library.Word"
begin

text \<open>
  Shared ground of the development: the clock, maps with Go's semantics of deletion
  during iteration, the first-match loop, and the rule collections that the component
  theories feed and use.

  Instants are nanoseconds since the epoch and durations are nanoseconds, both as
  unbounded integers; a function of the program that reads \<^verbatim>\<open>time.Now()\<close> takes the reading
  as an argument, one argument per call of \<^verbatim>\<open>time.Now()\<close>.
\<close>

named_theorems model_defs
  \<open>definitions of the model that symbolic evaluation unfolds\<close>

named_theorems keeps
  \<open>operations keep the invariant of their component\<close>

section \<open>Time\<close>

type_synonym time = int
type_synonym duration = int

abbreviation Millisecond :: duration where "Millisecond \<equiv> 1000000"
abbreviation Second :: duration where "Second \<equiv> 1000000000"
abbreviation Minute :: duration where "Minute \<equiv> 60000000000"

text \<open>The zero \<^verbatim>\<open>time.Time\<close> is the first instant of the year 1.\<close>

definition zero_time :: time where "zero_time = -62135596800 * Second"

section \<open>Go maps\<close>

text \<open>
  A Go map is a partial function. A loop \<^verbatim>\<open>for k, v := range m\<close> that deletes or overwrites
  the entry it visits has the same effect in every iteration order, so the loop is the
  pointwise function that \<open>map_retain\<close> and \<open>map_revise\<close> compute.
\<close>

definition map_revise :: "('v \<Rightarrow> 'v option) \<Rightarrow> ('k \<rightharpoonup> 'v) \<Rightarrow> ('k \<rightharpoonup> 'v)" where
  "map_revise f m = (\<lambda>k. case m k of None \<Rightarrow> None | Some v \<Rightarrow> f v)"

definition map_retain :: "('k \<Rightarrow> 'v \<Rightarrow> bool) \<Rightarrow> ('k \<rightharpoonup> 'v) \<Rightarrow> ('k \<rightharpoonup> 'v)" where
  "map_retain P m = (\<lambda>k. case m k of None \<Rightarrow> None | Some v \<Rightarrow> if P k v then Some v else None)"

lemma map_revise_apply [simp]:
  "map_revise f m k = (case m k of None \<Rightarrow> None | Some v \<Rightarrow> f v)"
  by (simp add: map_revise_def)

lemma map_retain_apply [simp]:
  "map_retain P m k = (case m k of None \<Rightarrow> None | Some v \<Rightarrow> if P k v then Some v else None)"
  by (simp add: map_retain_def)

lemma map_retain_eq_Some [simp]:
  "map_retain P m k = Some v \<longleftrightarrow> m k = Some v \<and> P k v"
  by (auto split: option.splits if_splits)

lemma dom_map_retain: "dom (map_retain P m) = {k \<in> dom m. P k (the (m k))}"
  by (auto split: option.splits if_splits)

lemma finite_dom_map_retain [simp]: "finite (dom m) \<Longrightarrow> finite (dom (map_retain P m))"
  by (simp add: dom_map_retain)

lemma finite_dom_map_revise [simp]: "finite (dom m) \<Longrightarrow> finite (dom (map_revise f m))"
  by (rule finite_subset [of _ "dom m"]) (auto split: option.splits)

text \<open>Indexing a Go map with a slice value type: a missing key reads as the empty slice.\<close>

definition map_slice :: "('k \<rightharpoonup> 'v list) \<Rightarrow> 'k \<Rightarrow> 'v list" where
  "map_slice m k = (case m k of None \<Rightarrow> [] | Some vs \<Rightarrow> vs)"

lemma map_slice_upd [simp]:
  "map_slice (m(k \<mapsto> vs)) k' = (if k' = k then vs else map_slice m k')"
  by (simp add: map_slice_def)

lemma map_slice_del [simp]:
  "map_slice (m(k := None)) k' = (if k' = k then [] else map_slice m k')"
  by (simp add: map_slice_def)

lemma map_slice_empty [simp]: "map_slice Map.empty k = []"
  by (simp add: map_slice_def)

section \<open>Loops with an early exit\<close>

text \<open>The loop that returns at the first element satisfying a test.\<close>

fun find_first :: "('a \<Rightarrow> bool) \<Rightarrow> 'a list \<Rightarrow> 'a option" where
  "find_first P [] = None"
| "find_first P (x # xs) = (if P x then Some x else find_first P xs)"

lemma find_first_None_iff: "find_first P xs = None \<longleftrightarrow> (\<forall>x \<in> set xs. \<not> P x)"
  by (induction xs) auto

lemma find_first_SomeD: "find_first P xs = Some x \<Longrightarrow> x \<in> set xs \<and> P x"
  by (induction xs) (auto split: if_splits)

lemma find_first_append:
  "find_first P (xs @ ys) = (case find_first P xs of None \<Rightarrow> find_first P ys | Some x \<Rightarrow> Some x)"
  by (induction xs) auto

text \<open>The loop that deletes the first matching element and breaks.\<close>

fun remove_first :: "('a \<Rightarrow> bool) \<Rightarrow> 'a list \<Rightarrow> 'a list" where
  "remove_first P [] = []"
| "remove_first P (x # xs) = (if P x then xs else x # remove_first P xs)"

lemma set_remove_first_subset: "set (remove_first P xs) \<subseteq> set xs"
  by (induction xs) auto

lemma remove_first_distinct:
  "distinct (map f xs) \<Longrightarrow> remove_first (\<lambda>x. f x = k) xs = filter (\<lambda>x. f x \<noteq> k) xs"
proof (induction xs)
  case Nil
  then show ?case by simp
next
  case (Cons a xs)
  then have "f a = k \<Longrightarrow> filter (\<lambda>x. f x \<noteq> k) xs = xs"
    by (intro filter_True ballI) (metis distinct.simps(2) image_eqI list.simps(9) list.set_map)
  with Cons show ?case by simp
qed

lemma distinct_map_remove_first: "distinct (map f xs) \<Longrightarrow> distinct (map f (remove_first P xs))"
  by (induction xs) (use set_remove_first_subset in \<open>fastforce+\<close>)

section \<open>Separators\<close>

lemma append_sep_inj:
  "c \<notin> set u \<Longrightarrow> c \<notin> set u' \<Longrightarrow> u @ c # r = u' @ c # r' \<longleftrightarrow> u = u' \<and> r = r'"
proof (induction u arbitrary: u')
  case Nil
  then show ?case by (cases u') auto
next
  case (Cons x u)
  then show ?case by (cases u') auto
qed

section \<open>Sorted prefixes\<close>

text \<open>On a sorted list, dropping the leading small elements is filtering.\<close>

lemma dropWhile_sorted_filter:
  fixes xs :: "'a :: linorder list"
  shows "sorted xs \<Longrightarrow> dropWhile (\<lambda>e. e < c) xs = filter (\<lambda>e. c \<le> e) xs"
proof (induction xs)
  case Nil
  then show ?case by simp
next
  case (Cons x xs)
  show ?case
  proof (cases "x < c")
    case True
    with Cons show ?thesis by simp
  next
    case False
    with Cons.prems have "\<forall>e \<in> set (x # xs). c \<le> e" by auto
    then have "filter (\<lambda>e. c \<le> e) (x # xs) = x # xs" by (rule filter_True)
    with False show ?thesis by simp
  qed
qed

section \<open>Machine integers\<close>

text \<open>\<^verbatim>\<open>int\<close> and \<^verbatim>\<open>int64\<close> have 64 bits and wrap around, \<^verbatim>\<open>int32\<close> has 32.\<close>

definition to_int64 :: "int \<Rightarrow> int" where "to_int64 n = signed_take_bit 63 n"

definition to_int32 :: "int \<Rightarrow> int" where "to_int32 n = signed_take_bit 31 n"

lemma to_int64_id: "- (2 ^ 63) \<le> n \<Longrightarrow> n < 2 ^ 63 \<Longrightarrow> to_int64 n = n"
  unfolding to_int64_def by (rule signed_take_bit_int_eq_self)

lemma to_int64_add [simp]: "to_int64 (to_int64 a + b) = to_int64 (a + b)"
  unfolding to_int64_def by (metis signed_take_bit_add signed_take_bit_signed_take_bit min.idem)

lemma to_int64_add_right [simp]: "to_int64 (a + to_int64 b) = to_int64 (a + b)"
  by (metis add.commute to_int64_add)

end
