(* ===== verification/GoStrings.thy ===== *)
theory GoStrings
  imports Prelude
begin

text \<open>
  The part of Go's \<^verbatim>\<open>strings\<close>, \<^verbatim>\<open>unicode\<close> and \<^verbatim>\<open>fmt\<close> packages that the modelled code calls.
  A Go string is a byte sequence and \<open>string\<close> is a list of 8-bit characters, so the two
  agree byte for byte. Loops over runes decode UTF-8 with Go's rules (an invalid byte is
  the rune U+FFFD of width one).
\<close>

section \<open>Prefixes, suffixes, searching\<close>

definition HasPrefix :: "string \<Rightarrow> string \<Rightarrow> bool" where
  "HasPrefix s p \<longleftrightarrow> take (length p) s = p"

definition HasSuffix :: "string \<Rightarrow> string \<Rightarrow> bool" where
  "HasSuffix s p \<longleftrightarrow> HasPrefix (rev s) (rev p)"

definition TrimPrefix :: "string \<Rightarrow> string \<Rightarrow> string" where
  "TrimPrefix s p = (if HasPrefix s p then drop (length p) s else s)"

definition TrimSuffix :: "string \<Rightarrow> string \<Rightarrow> string" where
  "TrimSuffix s p = (if HasSuffix s p then take (length s - length p) s else s)"

text \<open>\<open>Index s sub\<close> is \<open>None\<close> where \<^verbatim>\<open>strings.Index\<close> returns -1.\<close>

fun Index :: "string \<Rightarrow> string \<Rightarrow> nat option" where
  "Index s sub =
     (if HasPrefix s sub then Some 0
      else case s of [] \<Rightarrow> None | _ # t \<Rightarrow> map_option Suc (Index t sub))"

declare Index.simps [simp del]

text \<open>\<open>SplitN2 s c\<close> is \<^verbatim>\<open>strings.SplitN(s, c, 2)\<close> for a one-byte separator.\<close>

definition SplitN2 :: "string \<Rightarrow> char \<Rightarrow> string list" where
  "SplitN2 s c =
     (if c \<in> set s then [takeWhile (\<lambda>x. x \<noteq> c) s, tl (dropWhile (\<lambda>x. x \<noteq> c) s)] else [s])"

text \<open>\<^verbatim>\<open>strings.Split\<close> and \<^verbatim>\<open>strings.Join\<close> for a one-byte separator.\<close>

fun Split :: "string \<Rightarrow> char \<Rightarrow> string list" where
  "Split [] c = [[]]"
| "Split (x # xs) c =
     (if x = c then [] # Split xs c
      else case Split xs c of [] \<Rightarrow> [[x]] | p # ps \<Rightarrow> (x # p) # ps)"

fun Join :: "string list \<Rightarrow> char \<Rightarrow> string" where
  "Join [] c = []"
| "Join [p] c = p"
| "Join (p # q # ps) c = p @ c # Join (q # ps) c"

text \<open>\<^verbatim>\<open>strings.Trim\<close> and \<^verbatim>\<open>strings.TrimRight\<close> with a cutset of one ASCII character.\<close>

definition TrimRight1 :: "string \<Rightarrow> char \<Rightarrow> string" where
  "TrimRight1 s c = rev (dropWhile (\<lambda>x. x = c) (rev s))"

definition Trim1 :: "string \<Rightarrow> char \<Rightarrow> string" where
  "Trim1 s c = TrimRight1 (dropWhile (\<lambda>x. x = c) s) c"

section \<open>Runes\<close>

type_synonym rune = nat

definition RuneError :: rune where "RuneError = 0xFFFD"

definition in_range :: "nat \<Rightarrow> nat \<Rightarrow> char \<Rightarrow> bool" where
  "in_range lo hi c \<longleftrightarrow> lo \<le> of_char c \<and> of_char c \<le> hi"

definition tail_bits :: "char \<Rightarrow> nat" where
  "tail_bits c = of_char c - 0x80"

text \<open>\<^verbatim>\<open>utf8.DecodeRuneInString\<close>: the rune and its width in bytes.\<close>

fun decodeRune :: "string \<Rightarrow> rune \<times> nat" where
  "decodeRune [] = (RuneError, 0)"
| "decodeRune (b # bs) =
     (let n = of_char b :: nat in
      if n < 0x80 then (n, 1)
      else case bs of
        c1 # cs \<Rightarrow>
          if 0xC2 \<le> n \<and> n \<le> 0xDF then
            (if in_range 0x80 0xBF c1 then ((n - 0xC0) * 0x40 + tail_bits c1, 2)
             else (RuneError, 1))
          else if 0xE0 \<le> n \<and> n \<le> 0xEF then
            (case cs of
               c2 # _ \<Rightarrow>
                 if in_range (if n = 0xE0 then 0xA0 else 0x80) (if n = 0xED then 0x9F else 0xBF) c1
                    \<and> in_range 0x80 0xBF c2
                 then ((n - 0xE0) * 0x1000 + tail_bits c1 * 0x40 + tail_bits c2, 3)
                 else (RuneError, 1)
             | [] \<Rightarrow> (RuneError, 1))
          else if 0xF0 \<le> n \<and> n \<le> 0xF4 then
            (case cs of
               c2 # c3 # _ \<Rightarrow>
                 if in_range (if n = 0xF0 then 0x90 else 0x80) (if n = 0xF4 then 0x8F else 0xBF) c1
                    \<and> in_range 0x80 0xBF c2 \<and> in_range 0x80 0xBF c3
                 then ((n - 0xF0) * 0x40000 + tail_bits c1 * 0x1000
                        + tail_bits c2 * 0x40 + tail_bits c3, 4)
                 else (RuneError, 1)
             | _ \<Rightarrow> (RuneError, 1))
          else (RuneError, 1)
      | [] \<Rightarrow> (RuneError, 1))"

lemma decodeRune_width_pos: "s \<noteq> [] \<Longrightarrow> 0 < snd (decodeRune s)"
  by (cases s) (auto simp: Let_def split: list.splits)

text \<open>\<open>runes s\<close>: the runes \<^verbatim>\<open>for _, r := range s\<close> visits, each with the bytes it stands for.\<close>

function runes :: "string \<Rightarrow> (rune \<times> string) list" where
  "runes s =
     (if s = [] then []
      else (fst (decodeRune s), take (snd (decodeRune s)) s) # runes (drop (snd (decodeRune s)) s))"
  by pat_completeness auto
termination
  by (relation "measure length") (simp_all add: decodeRune_width_pos diff_less)

declare runes.simps [simp del]

definition IsSpace :: "rune \<Rightarrow> bool" where
  "IsSpace r \<longleftrightarrow>
     (9 \<le> r \<and> r \<le> 13) \<or> r = 32 \<or> r = 0x85 \<or> r = 0xA0 \<or> r = 0x1680
     \<or> (0x2000 \<le> r \<and> r \<le> 0x200A) \<or> r = 0x2028 \<or> r = 0x2029 \<or> r = 0x202F \<or> r = 0x205F
     \<or> r = 0x3000"

definition TrimSpace :: "string \<Rightarrow> string" where
  "TrimSpace s =
     (let sp = (\<lambda>p. IsSpace (fst p))
      in concat (map snd (rev (dropWhile sp (rev (dropWhile sp (runes s)))))))"

text \<open>
  \<^verbatim>\<open>strings.ToLower\<close>, exact on ASCII. The two runes outside ASCII whose lower case is ASCII
  are U+0130 and U+212A; every other rune outside ASCII keeps its bytes here. The modelled
  callers only compare the result with ASCII constants, for which this decides the same.
\<close>

definition lower_rune :: "rune \<times> string \<Rightarrow> string" where
  "lower_rune p =
     (let r = fst p in
      if 65 \<le> r \<and> r \<le> 90 then [char_of (r + 32)]
      else if r = 0x130 then ''i''
      else if r = 0x212A then ''k''
      else snd p)"

definition ToLower :: "string \<Rightarrow> string" where
  "ToLower s = concat (map lower_rune (runes s))"

text \<open>\<^verbatim>\<open>fmt.Sprintf("%d", n)\<close>.\<close>

fun show_nat :: "nat \<Rightarrow> string" where
  "show_nat n =
     (if n < 10 then [char_of (48 + n)] else show_nat (n div 10) @ [char_of (48 + n mod 10)])"

declare show_nat.simps [simp del]

definition show_int :: "int \<Rightarrow> string" where
  "show_int n = (if n < 0 then CHR ''-'' # show_nat (nat (- n)) else show_nat (nat n))"

text \<open>
  \<^verbatim>\<open>encoding/json\<close> of a string: quotes, backslash and control characters escaped, the HTML
  characters and the two line separators as \<open>u\<close>-escapes, an invalid byte as the escape of U+FFFD.
\<close>

definition hex_digit :: "nat \<Rightarrow> char" where
  "hex_digit n = (if n < 10 then char_of (48 + n) else char_of (87 + n))"

definition u_escape :: "nat \<Rightarrow> string" where
  "u_escape r = [CHR 0x5C, CHR ''u'', hex_digit (r div 0x1000 mod 16), hex_digit (r div 0x100 mod 16),
                 hex_digit (r div 0x10 mod 16), hex_digit (r mod 16)]"

definition json_rune :: "rune \<times> string \<Rightarrow> string" where
  "json_rune p =
     (let r = fst p in
      if r = 0x22 \<or> r = 0x5C then [CHR 0x5C, char_of r]
      else if r = 8 then [CHR 0x5C, CHR ''b'']
      else if r = 12 then [CHR 0x5C, CHR ''f'']
      else if r = 10 then [CHR 0x5C, CHR ''n'']
      else if r = 13 then [CHR 0x5C, CHR ''r'']
      else if r = 9 then [CHR 0x5C, CHR ''t'']
      else if r < 0x20 \<or> r = 0x3C \<or> r = 0x3E \<or> r = 0x26 \<or> r = 0x2028 \<or> r = 0x2029 then u_escape r
      else if r = RuneError \<and> length (snd p) = 1 then u_escape r
      else snd p)"

definition json_string :: "string \<Rightarrow> string" where
  "json_string s = [CHR 0x22] @ concat (map json_rune (runes s)) @ [CHR 0x22]"

text \<open>
  \<^verbatim>\<open>time.RFC3339Nano\<close> in UTC: what follows the seconds is the fraction without its trailing zeros
  and the letter Z. The part up to the seconds has a fixed width.
\<close>

definition nine_digits :: "nat \<Rightarrow> string" where
  "nine_digits n = map (\<lambda>i. char_of (48 + n div 10 ^ (8 - i) mod 10)) [0..<9]"

definition frac_text :: "nat \<Rightarrow> string" where
  "frac_text n = (if n = 0 then ''Z'' else CHR ''.'' # TrimRight1 (nine_digits n) (CHR ''0'') @ ''Z'')"

section \<open>Laws\<close>

lemma HasPrefix_append [simp]: "HasPrefix (p @ s) p"
  by (simp add: HasPrefix_def)

lemma HasPrefix_refl [simp]: "HasPrefix s s"
  by (simp add: HasPrefix_def)

lemma HasPrefix_Nil [simp]: "HasPrefix s []"
  by (simp add: HasPrefix_def)

lemma HasPrefix_Cons [simp]: "HasPrefix (x # xs) (y # ys) \<longleftrightarrow> x = y \<and> HasPrefix xs ys"
  by (auto simp: HasPrefix_def)

lemma HasPrefix_Nil_left [simp]: "HasPrefix [] p \<longleftrightarrow> p = []"
  by (auto simp: HasPrefix_def)

lemma HasPrefix_split: "HasPrefix s p \<Longrightarrow> s = p @ drop (length p) s"
  by (metis HasPrefix_def append_take_drop_id)

lemma TrimPrefix_append [simp]: "TrimPrefix (p @ s) p = s"
  by (simp add: TrimPrefix_def)

lemma HasSuffix_append [simp]: "HasSuffix (s @ p) p"
  by (simp add: HasSuffix_def)

lemma TrimSuffix_append [simp]: "TrimSuffix (s @ p) p = s"
  by (simp add: TrimSuffix_def)

lemma Index_Some_split:
  "Index s sub = Some i \<Longrightarrow> s = take i s @ sub @ drop (i + length sub) s"
proof (induction s sub arbitrary: i rule: Index.induct)
  case (1 s sub)
  show ?case
  proof (cases "HasPrefix s sub")
    case True
    with "1.prems" have "i = 0" by (simp add: Index.simps)
    with HasPrefix_split [OF True] show ?thesis by simp
  next
    case False
    with "1.prems" obtain x t j where s: "s = x # t" and j: "Index t sub = Some j" "i = Suc j"
      by (auto simp: Index.simps [of s] split: list.splits)
    from "1.IH" [OF False s j(1)] s j(2) show ?thesis by simp
  qed
qed

text \<open>The search finds the separator at the boundary when its first byte does not occur before.\<close>

lemma Index_append_marker: "c \<notin> set u \<Longrightarrow> Index (u @ (c # m) @ r) (c # m) = Some (length u)"
proof (induction u)
  case Nil
  have "HasPrefix ((c # m) @ r) (c # m)" by (rule HasPrefix_append)
  then show ?case by (simp add: Index.simps [of "c # m @ r"])
next
  case (Cons x u)
  then have "\<not> HasPrefix (x # u @ (c # m) @ r) (c # m)" by auto
  with Cons show ?case by (simp add: Index.simps [of "x # u @ c # m @ r"])
qed

lemma Split_not_Nil [simp]: "Split s c \<noteq> []"
  by (induction s) (auto split: list.splits)

lemma Join_Cons_nonempty: "ps \<noteq> [] \<Longrightarrow> Join (p # ps) c = p @ c # Join ps c"
  by (cases ps) auto

lemma Join_Split [simp]: "Join (Split s c) c = s"
proof (induction s)
  case Nil
  then show ?case by simp
next
  case (Cons x xs)
  obtain p ps where ps: "Split xs c = p # ps" by (cases "Split xs c") auto
  with Cons show ?case by (cases ps) auto
qed

lemma Split_free: "c \<notin> set s \<Longrightarrow> Split s c = [s]"
  by (induction s) auto

lemma Split_append_sep: "c \<notin> set u \<Longrightarrow> Split (u @ c # s) c = u # Split s c"
  by (induction u) (auto split: list.splits)

lemma SplitN2_append_sep [simp]: "c \<notin> set u \<Longrightarrow> SplitN2 (u @ c # s) c = [u, s]"
  by (auto simp: SplitN2_def takeWhile_append dropWhile_append)

lemma set_TrimRight1: "set (TrimRight1 s c) \<subseteq> set s"
  unfolding TrimRight1_def by (auto dest: set_dropWhileD)

lemma set_Trim1: "set (Trim1 s c) \<subseteq> set s"
  unfolding Trim1_def using set_TrimRight1 set_dropWhileD by fastforce

lemma hd_dropWhile_eq: "dropWhile (\<lambda>x. x = c) s \<noteq> [] \<Longrightarrow> hd (dropWhile (\<lambda>x. x = c) s) \<noteq> c"
  by (rule hd_dropWhile)

lemma TrimRight1_last: "TrimRight1 s c \<noteq> [] \<Longrightarrow> last (TrimRight1 s c) \<noteq> c"
  unfolding TrimRight1_def
  by (metis hd_dropWhile_eq last_rev rev.simps(1))

lemma TrimRight1_prefix: "\<exists>n. TrimRight1 s c = take n s"
  unfolding TrimRight1_def by (metis dropWhile_eq_drop rev_rev_ident length_rev rev_drop)

lemma Trim1_last: "Trim1 s c \<noteq> [] \<Longrightarrow> last (Trim1 s c) \<noteq> c"
  unfolding Trim1_def by (rule TrimRight1_last)

lemma Trim1_hd: "Trim1 s c \<noteq> [] \<Longrightarrow> hd (Trim1 s c) \<noteq> c"
proof -
  assume ne: "Trim1 s c \<noteq> []"
  let ?d = "dropWhile (\<lambda>x. x = c) s"
  obtain n where n: "TrimRight1 ?d c = take n ?d" using TrimRight1_prefix by blast
  with ne have pos: "0 < n" and d: "?d \<noteq> []" by (auto simp: Trim1_def)
  from pos have "hd (take n ?d) = hd ?d" by (rule hd_take)
  with hd_dropWhile_eq [OF d] n show ?thesis by (simp add: Trim1_def)
qed

lemma TrimRight1_id: "s = [] \<or> last s \<noteq> c \<Longrightarrow> TrimRight1 s c = s"
  by (cases s rule: rev_cases) (auto simp: TrimRight1_def)

lemma Trim1_id: "s \<noteq> [] \<Longrightarrow> hd s \<noteq> c \<Longrightarrow> last s \<noteq> c \<Longrightarrow> Trim1 s c = s"
  by (cases s) (simp_all add: Trim1_def TrimRight1_id)

text \<open>A string of ASCII bytes is read one rune per byte.\<close>

lemma runes_ascii: "\<forall>c \<in> set s. of_char c < (128 :: nat) \<Longrightarrow> runes s = map (\<lambda>c. (of_char c, [c])) s"
proof (induction s)
  case Nil
  then show ?case by (simp add: runes.simps)
next
  case (Cons c s)
  then show ?case by (simp add: runes.simps [of "c # s"])
qed

section \<open>Trimming at rune boundaries\<close>

text \<open>The first byte gives the length a sequence should have; what its bytes must be and which rune they are.\<close>

definition lead :: "char \<Rightarrow> nat" where
  "lead b = (let n = of_char b :: nat in
     if n < 0x80 then 1 else if 0xC2 \<le> n \<and> n \<le> 0xDF then 2 else if 0xE0 \<le> n \<and> n \<le> 0xEF then 3
     else if 0xF0 \<le> n \<and> n \<le> 0xF4 then 4 else 0)"

definition tails_ok :: "char list \<Rightarrow> bool" where
  "tails_ok cs = (case cs of
       [b, c1] \<Rightarrow> in_range 0x80 0xBF c1
     | [b, c1, c2] \<Rightarrow> in_range (if of_char b = (0xE0 :: nat) then 0xA0 else 0x80) (if of_char b = (0xED :: nat) then 0x9F else 0xBF) c1
                     \<and> in_range 0x80 0xBF c2
     | [b, c1, c2, c3] \<Rightarrow> in_range (if of_char b = (0xF0 :: nat) then 0x90 else 0x80) (if of_char b = (0xF4 :: nat) then 0x8F else 0xBF) c1
                     \<and> in_range 0x80 0xBF c2 \<and> in_range 0x80 0xBF c3
     | _ \<Rightarrow> True)"

definition rune_of :: "char list \<Rightarrow> rune" where
  "rune_of cs = (case cs of
       [b] \<Rightarrow> of_char b
     | [b, c1] \<Rightarrow> (of_char b - 0xC0) * 0x40 + tail_bits c1
     | [b, c1, c2] \<Rightarrow> (of_char b - 0xE0) * 0x1000 + tail_bits c1 * 0x40 + tail_bits c2
     | [b, c1, c2, c3] \<Rightarrow> (of_char b - 0xF0) * 0x40000 + tail_bits c1 * 0x1000 + tail_bits c2 * 0x40 + tail_bits c3
     | _ \<Rightarrow> RuneError)"

lemma lead_cases:
  obtains "lead b = 1" "of_char b < (0x80 :: nat)" | "lead b = 2" "\<not> of_char b < (0x80 :: nat)" "0xC2 \<le> (of_char b :: nat) \<and> of_char b \<le> (0xDF :: nat)"
  | "lead b = 3" "\<not> of_char b < (0x80 :: nat)" "\<not> (0xC2 \<le> (of_char b :: nat) \<and> of_char b \<le> (0xDF :: nat))" "0xE0 \<le> (of_char b :: nat) \<and> of_char b \<le> (0xEF :: nat)"
  | "lead b = 4" "\<not> of_char b < (0x80 :: nat)" "\<not> (0xC2 \<le> (of_char b :: nat) \<and> of_char b \<le> (0xDF :: nat))" "\<not> (0xE0 \<le> (of_char b :: nat) \<and> of_char b \<le> (0xEF :: nat))"
     "0xF0 \<le> (of_char b :: nat) \<and> of_char b \<le> (0xF4 :: nat)"
  | "lead b = 0" "\<not> of_char b < (0x80 :: nat)" "\<not> (0xC2 \<le> (of_char b :: nat) \<and> of_char b \<le> (0xDF :: nat))" "\<not> (0xE0 \<le> (of_char b :: nat) \<and> of_char b \<le> (0xEF :: nat))"
     "\<not> (0xF0 \<le> (of_char b :: nat) \<and> of_char b \<le> (0xF4 :: nat))"
proof -
  note that = that [unfolded lead_def Let_def]
  show thesis
  proof (cases "of_char b < (0x80 :: nat)")
    case True
    then show thesis by (intro that(1)) simp_all
  next
    case a: False
    show thesis
    proof (cases "0xC2 \<le> (of_char b :: nat) \<and> of_char b \<le> (0xDF :: nat)")
      case True
      with a show thesis by (intro that(2)) simp_all
    next
      case b: False
      show thesis
      proof (cases "0xE0 \<le> (of_char b :: nat) \<and> of_char b \<le> (0xEF :: nat)")
        case True
        with a b show thesis by (intro that(3)) simp_all
      next
        case c: False
        show thesis
        proof (cases "0xF0 \<le> (of_char b :: nat) \<and> of_char b \<le> (0xF4 :: nat)")
          case True
          with a b c show thesis by (intro that(4)) simp_all
        next
          case False
          with a b c show thesis by (intro that(5)) simp_all
        qed
      qed
    qed
  qed
qed

lemma decodeRune_lead:
  "decodeRune (b # bs) =
     (if lead b \<noteq> 0 \<and> lead b \<le> length (b # bs) \<and> tails_ok (take (lead b) (b # bs))
      then (rune_of (take (lead b) (b # bs)), lead b) else (RuneError, 1))"
proof (cases b rule: lead_cases)
  case 1
  then show ?thesis by (simp only: decodeRune.simps Let_def if_True) (simp add: tails_ok_def rune_of_def)
next
  case 2
  then show ?thesis
    by (cases bs) (simp_all only: decodeRune.simps Let_def if_True if_False list.case simp_thms, simp_all add: tails_ok_def rune_of_def)
next
  case 3
  note c = 3
  show ?thesis
  proof (cases bs)
    case (Cons c1 cs)
    then show ?thesis using c
      by (cases cs) (simp_all only: decodeRune.simps Let_def if_True if_False list.case simp_thms, simp_all add: tails_ok_def rune_of_def)
  qed (use c in \<open>simp only: decodeRune.simps Let_def if_True if_False list.case simp_thms, simp\<close>)
next
  case 4
  note c = 4
  show ?thesis
  proof (cases bs)
    case (Cons c1 cs)
    then show ?thesis using c
      by (cases cs rule: remdups_adj.cases)
        (simp_all only: decodeRune.simps Let_def if_True if_False list.case simp_thms, simp_all add: tails_ok_def rune_of_def)
  qed (use c in \<open>simp only: decodeRune.simps Let_def if_True if_False list.case simp_thms, simp\<close>)
next
  case 5
  then show ?thesis by (cases bs) (simp_all only: decodeRune.simps Let_def if_True if_False list.case simp_thms)
qed


declare decodeRune.simps(2) [simp del]

lemma decodeRune_width: "s \<noteq> [] \<Longrightarrow> snd (decodeRune s) \<le> length s"
  by (cases s) (simp_all add: decodeRune_lead)

lemma tails_ok_high:
  "tails_ok cs \<Longrightarrow> length cs \<le> 4 \<Longrightarrow> c \<in> set (tl cs) \<Longrightarrow> 128 \<le> (of_char c :: nat)"
  by (cases cs; cases "tl cs"; cases "tl (tl cs)"; cases "tl (tl (tl cs))"; cases "tl (tl (tl (tl cs)))")
    (auto simp: tails_ok_def in_range_def split: if_splits)

lemma lead_range: "lead b \<le> 4" "lead b \<noteq> 1 \<Longrightarrow> 128 \<le> (of_char b :: nat)" "lead b = 1 \<Longrightarrow> of_char b < (128 :: nat)"
  by (cases b rule: lead_cases; simp)+

lemma decodeRune_take:
  assumes "s \<noteq> []" and "snd (decodeRune s) \<le> n"
  shows "decodeRune (take n s) = decodeRune s"
proof -
  obtain b bs where s: "s = b # bs" using assms(1) by (cases s) auto
  obtain m where n: "n = Suc m" using decodeRune_width_pos [OF assms(1)] assms(2) by (cases n) auto
  have t: "take n s = b # take m bs" by (simp add: s n)
  show ?thesis
  proof (cases "lead b \<noteq> 0 \<and> lead b \<le> length (b # bs) \<and> tails_ok (take (lead b) (b # bs))")
    case True
    then have "lead b \<le> n" using assms(2) by (simp add: s decodeRune_lead)
    then have l: "take (lead b) (b # take m bs) = take (lead b) (b # bs)" by (cases "lead b") (simp_all add: n)
    moreover have "lead b \<le> length (b # take m bs)" using True \<open>lead b \<le> n\<close> n by (simp add: min_def)
    ultimately show ?thesis using True unfolding t unfolding s by (simp only: decodeRune_lead l)
  next
    case False
    then have "\<not> (lead b \<noteq> 0 \<and> lead b \<le> length (b # take m bs) \<and> tails_ok (take (lead b) (b # take m bs)))"
    proof (rule contrapos_nn)
      assume a: "lead b \<noteq> 0 \<and> lead b \<le> length (b # take m bs) \<and> tails_ok (take (lead b) (b # take m bs))"
      then have "take (lead b) (b # take m bs) = take (lead b) (b # bs)" by (cases "lead b") (simp_all add: min_def split: if_splits)
      then show "lead b \<noteq> 0 \<and> lead b \<le> length (b # bs) \<and> tails_ok (take (lead b) (b # bs))" using a by (simp add: min_def split: if_splits)
    qed
    then show ?thesis using False unfolding t unfolding s by (simp only: decodeRune_lead if_False)
  qed
qed

lemma decode_bytes:
  assumes "s \<noteq> []" and "c \<in> set (take (snd (decodeRune s)) s)" and "of_char c < (32 :: nat)"
  shows "fst (decodeRune s) = of_char c \<and> snd (decodeRune s) = 1"
proof -
  obtain b bs where s: "s = b # bs" using assms(1) by (cases s) auto
  show ?thesis
  proof (cases "lead b \<noteq> 0 \<and> lead b \<le> length (b # bs) \<and> tails_ok (take (lead b) (b # bs))")
    case True
    then have d: "decodeRune s = (rune_of (take (lead b) (b # bs)), lead b)" by (simp add: s decodeRune_lead)
    have "c \<notin> set (tl (take (lead b) (b # bs)))" using tails_ok_high [of "take (lead b) (b # bs)" c] True lead_range(1) [of b] assms(3) by auto
    then have cb: "c = b" using assms(2) True d by (cases "lead b") (auto simp: s)
    then have "lead b = 1" using lead_range(2) [of b] assms(3) by force
    then show ?thesis using d cb by (simp add: rune_of_def)
  next
    case False
    then have d: "decodeRune s = (RuneError, 1)" unfolding s decodeRune_lead by (simp only: if_False)
    then have "c = b" using assms(2) by (simp add: s)
    then have "lead b = 1" using lead_range(2) [of b] assms(3) by force
    then show ?thesis using False by (simp add: tails_ok_def)
  qed
qed

declare decodeRune.simps(2) [simp]

lemma concat_runes: "concat (map snd (runes s)) = s"
proof (induction s rule: runes.induct)
  case (1 s)
  show ?case
  proof (cases "s = []")
    case False
    then show ?thesis using 1 by (subst runes.simps) simp
  qed (simp add: runes.simps)
qed

lemma runes_prefix: "runes (concat (map snd (take k (runes s)))) = take k (runes s)"
proof (induction k arbitrary: s)
  case (Suc k)
  show ?case
  proof (cases "s = []")
    case False
    let ?w = "snd (decodeRune s)"
    let ?r = "concat (map snd (take k (runes (drop ?w s))))"
    have w: "0 < ?w" "?w \<le> length s" using False decodeRune_width_pos decodeRune_width by auto
    have "?r = take (length ?r) (drop ?w s)"
    proof -
      have "drop ?w s = concat (map snd (take k (runes (drop ?w s)))) @ concat (map snd (drop k (runes (drop ?w s))))"
        by (metis append_take_drop_id concat_append concat_runes map_append)
      then show ?thesis by (metis append_eq_conv_conj)
    qed
    then have split: "take ?w s @ ?r = take (?w + length ?r) s" by (metis take_add)
    have ne: "take ?w s @ ?r \<noteq> []" using w False by auto
    have dec: "decodeRune (take ?w s @ ?r) = decodeRune s"
      unfolding split using False by (intro decodeRune_take) auto
    have "runes (take ?w s @ ?r) = (fst (decodeRune s), take ?w s) # runes ?r"
      using ne w(2) by (subst runes.simps) (simp add: dec)
    then show ?thesis using False Suc.IH by (simp add: runes.simps [of s])
  qed (simp add: runes.simps)
qed (simp add: runes.simps)

lemma runes_suffix: "runes (concat (map snd (drop k (runes s)))) = drop k (runes s)"
proof (induction k arbitrary: s)
  case (Suc k)
  have "drop (Suc k) (runes s) = drop k (runes (drop (snd (decodeRune s)) s))"
    by (cases "s = []") (simp_all add: runes.simps [of "[]"] runes.simps [of s])
  then show ?case by (simp add: Suc.IH)
qed (simp add: concat_runes)

lemma dropWhile_drop: "\<exists>k. dropWhile P xs = drop k xs"
  by (metis dropWhile_eq_drop)

lemma TrimSpace_idem [simp]: "TrimSpace (TrimSpace s) = TrimSpace s"
proof -
  let ?P = "\<lambda>p :: rune \<times> string. IsSpace (fst p)"
  define m where "m = dropWhile ?P (runes s)"
  define t where "t = rev (dropWhile ?P (rev m))"
  obtain j where j: "m = drop j (runes s)" unfolding m_def using dropWhile_drop by blast
  obtain k where k: "dropWhile ?P (rev m) = drop k (rev m)" using dropWhile_drop by blast
  have t: "t = take (length m - k) m" unfolding t_def k by (simp add: rev_drop)
  have m: "runes (concat (map snd m)) = m" unfolding j by (rule runes_suffix)
  have r: "runes (concat (map snd t)) = t"
    using runes_prefix [of "length m - k" "concat (map snd m)"] unfolding m t .
  have hd: "dropWhile ?P t = t"
  proof (cases "t = []")
    case False
    then have "hd t = hd m" unfolding t by (metis hd_take gr0I take_eq_Nil)
    moreover have "\<not> ?P (hd m)" unfolding m_def
      by (metis False hd_dropWhile m_def t take_Nil)
    ultimately show ?thesis by (cases t) auto
  qed simp
  have tl: "dropWhile ?P (rev t) = rev t" unfolding t_def by (simp add: dropWhile_idem)
  have "TrimSpace s = concat (map snd t)" unfolding TrimSpace_def Let_def t_def m_def ..
  then show ?thesis by (simp add: TrimSpace_def [of "concat (map snd t)"] r hd tl)
qed

lemma TrimSpace_Nil [simp]: "TrimSpace [] = []"
  by (simp add: TrimSpace_def runes.simps [of "[]"])

section \<open>Text through JSON\<close>

text \<open>
  What a string is after encoding it with \<^verbatim>\<open>encoding/json\<close> and decoding it again: each byte that
  is not part of a UTF-8 sequence has become the three bytes of U+FFFD. A valid text is kept.
\<close>

definition replacement :: string where "replacement = [CHR 0xEF, CHR 0xBF, CHR 0xBD]"

definition invalid_byte :: "rune \<times> string \<Rightarrow> bool" where
  "invalid_byte p \<longleftrightarrow> fst p = RuneError \<and> length (snd p) = 1"

definition json_decoded :: "string \<Rightarrow> string" where
  "json_decoded s = concat (map (\<lambda>p. if invalid_byte p then replacement else snd p) (runes s))"

definition valid_text :: "string \<Rightarrow> bool" where
  "valid_text s \<longleftrightarrow> list_all (\<lambda>p. \<not> invalid_byte p) (runes s)"

lemma json_decoded_valid: "valid_text s \<Longrightarrow> json_decoded s = s"
proof -
  assume "valid_text s"
  then have "map (\<lambda>p. if invalid_byte p then replacement else snd p) (runes s) = map snd (runes s)"
    by (auto simp: valid_text_def list_all_iff)
  then show ?thesis by (simp only: json_decoded_def concat_runes)
qed

lemma valid_ascii: "\<forall>c \<in> set s. of_char c < (128 :: nat) \<Longrightarrow> valid_text s"
  by (auto simp: valid_text_def runes_ascii list_all_iff invalid_byte_def RuneError_def)

lemma json_decoded_Nil [simp]: "json_decoded [] = []"
  by (simp add: json_decoded_def runes.simps [of "[]"])

text \<open>
  Decoding what was decoded: the bad bytes are now U+FFFD in its three bytes, every other rune is
  as it was. So text is the same after the first time, and its encoding does not grow.
\<close>

lemma decodeRune_append:
  assumes "s \<noteq> []" and "\<not> invalid_byte (fst (decodeRune s), take (snd (decodeRune s)) s)"
  shows "decodeRune (take (snd (decodeRune s)) s @ v) = decodeRune s"
proof -
  obtain b bs where s: "s = b # bs" using assms(1) by (cases s) auto
  have ok: "lead b \<noteq> 0 \<and> lead b \<le> length s \<and> tails_ok (take (lead b) s)"
    using assms(2) by (auto simp: s decodeRune_lead invalid_byte_def simp del: decodeRune.simps split: if_splits)
  then have w: "snd (decodeRune s) = lead b" by (simp add: s decodeRune_lead del: decodeRune.simps)
  obtain cs where cs: "take (lead b) s = b # cs" using ok by (cases "lead b") (auto simp: s)
  have len: "length (b # cs) = lead b" using ok cs by (metis length_take min.absorb2)
  then have "take (lead b) ((b # cs) @ v) = take (lead b) s" unfolding cs by (metis append_eq_conv_conj)
  then show ?thesis
    using ok cs len by (simp add: w decodeRune_lead [of b "cs @ v"] s decodeRune_lead [of b bs] del: decodeRune.simps)
qed

lemma decodeRune_replacement: "decodeRune (replacement @ v) = (RuneError, 3)"
  by (simp add: replacement_def in_range_def tail_bits_def RuneError_def)

lemma runes_json_decoded:
  "runes (json_decoded s) = map (\<lambda>p. if invalid_byte p then (RuneError, replacement) else p) (runes s)"
proof (induction s rule: runes.induct)
  case (1 s)
  show ?case
  proof (cases "s = []")
    case True
    then show ?thesis by (simp add: runes.simps [of "[]"])
  next
    case False
    let ?p = "(fst (decodeRune s), take (snd (decodeRune s)) s)"
    let ?rest = "json_decoded (drop (snd (decodeRune s)) s)"
    have r: "runes s = ?p # runes (drop (snd (decodeRune s)) s)" using False by (simp add: runes.simps [of s])
    have IH: "runes ?rest = map (\<lambda>p. if invalid_byte p then (RuneError, replacement) else p)
        (runes (drop (snd (decodeRune s)) s))" using 1 False by simp
    have j: "json_decoded s = (if invalid_byte ?p then replacement else snd ?p) @ ?rest"
      unfolding json_decoded_def r by simp
    show ?thesis
    proof (cases "invalid_byte ?p")
      case True
      have "runes (replacement @ ?rest) = (RuneError, replacement) # runes ?rest"
        by (subst runes.simps) (simp add: decodeRune_replacement, simp add: replacement_def)
      then show ?thesis using True j r IH by simp
    next
      case bad: False
      have w: "length (take (snd (decodeRune s)) s) = snd (decodeRune s)"
        using decodeRune_width [OF False] by simp
      have ne: "take (snd (decodeRune s)) s \<noteq> []" using decodeRune_width_pos [OF False] False by simp
      have "runes (take (snd (decodeRune s)) s @ ?rest) = ?p # runes ?rest"
        using ne w by (subst runes.simps) (simp add: decodeRune_append [OF False bad])
      then show ?thesis using bad j r IH by simp
    qed
  qed
qed

lemma valid_json_decoded: "valid_text (json_decoded s)"
  by (auto simp: valid_text_def runes_json_decoded list_all_iff invalid_byte_def replacement_def)

lemma json_decoded_idem [simp]: "json_decoded (json_decoded s) = json_decoded s"
  by (rule json_decoded_valid [OF valid_json_decoded])

lemma json_rune_decoded:
  "length (json_rune (if invalid_byte p then (RuneError, replacement) else p)) \<le> length (json_rune p)"
  by (auto simp: json_rune_def invalid_byte_def RuneError_def u_escape_def replacement_def)

lemma json_string_decoded: "length (json_string (json_decoded s)) \<le> length (json_string s)"
proof -
  have "sum_list (map (length \<circ> json_rune \<circ> (\<lambda>p. if invalid_byte p then (RuneError, replacement) else p)) (runes s))
      \<le> sum_list (map (length \<circ> json_rune) (runes s))"
    by (rule sum_list_mono) (simp only: comp_def json_rune_decoded)
  then show ?thesis by (simp add: json_string_def runes_json_decoded length_concat comp_assoc)
qed

lemma runes_nonempty: "p \<in> set (runes s) \<Longrightarrow> snd p \<noteq> []"
proof (induction s rule: runes.induct)
  case (1 s)
  show ?case
  proof (cases "s = []")
    case True
    then show ?thesis using 1(2) by (simp add: runes.simps [of "[]"])
  next
    case False
    then have w: "snd (decodeRune s) \<noteq> 0" using decodeRune_width_pos by blast
    have "p = (fst (decodeRune s), take (snd (decodeRune s)) s) \<or> p \<in> set (runes (drop (snd (decodeRune s)) s))"
      using 1(2) False by (simp add: runes.simps [of s])
    then show ?thesis using 1(1) [OF False] False w by auto
  qed
qed

lemma frac_text_length: "length (frac_text n) \<le> 11"
proof -
  have "length (nine_digits n) = 9" by (simp add: nine_digits_def)
  then have "length (TrimRight1 (nine_digits n) c) \<le> 9" for c
    unfolding TrimRight1_def using length_dropWhile_le [of "\<lambda>x. x = c" "rev (nine_digits n)"] by simp
  then show ?thesis by (auto simp: frac_text_def intro: le_trans)
qed

lemma json_string_length: "length (json_string s) \<le> 6 * length s + 2"
proof -
  have "length (json_rune p) \<le> 6 * length (snd p)" if "p \<in> set (runes s)" for p
    using runes_nonempty [OF that] by (cases "snd p") (auto simp: json_rune_def u_escape_def Let_def)
  then have "sum_list (map (length \<circ> json_rune) (runes s)) \<le> sum_list (map (\<lambda>p. 6 * length (snd p)) (runes s))"
    by (intro sum_list_mono) simp
  also have "\<dots> = 6 * length (concat (map snd (runes s)))"
    by (simp add: length_concat sum_list_const_mult comp_def)
  finally show ?thesis by (simp add: json_string_def length_concat concat_runes)
qed

text \<open>A control character is a rune of its own wherever it stands.\<close>

lemma runes_control:
  assumes "of_char c < (32 :: nat)"
  shows "runes (u @ c # v) = runes u @ (of_char c, [c]) # runes v"
proof (induction u rule: length_induct)
  case (1 u)
  show ?case
  proof (cases "u = []")
    case True
    have "decodeRune (c # v) = (of_char c, 1)" using assms by (simp add: Let_def)
    then show ?thesis using True by (simp add: runes.simps [of "c # v"] runes.simps [of "[]"])
  next
    case False
    let ?s = "u @ c # v" and ?w = "snd (decodeRune (u @ c # v))"
    have ne: "?s \<noteq> []" by simp
    have w: "?w \<le> length u"
    proof (rule ccontr)
      assume "\<not> ?w \<le> length u"
      then have "c \<in> set (take ?w ?s)" by (auto simp: take_Cons' )
      from decode_bytes [OF ne this assms] False \<open>\<not> ?w \<le> length u\<close> show False by (cases u) auto
    qed
    then have d: "decodeRune u = decodeRune ?s" using decodeRune_take [OF ne, of "length u"] by simp
    have pos: "0 < ?w" using decodeRune_width_pos [OF ne] .
    have "runes (drop ?w u @ c # v) = runes (drop ?w u) @ (of_char c, [c]) # runes v"
      using 1 pos False by simp
    then show ?thesis
      using w d False by (simp add: runes.simps [of ?s] runes.simps [of u])
  qed
qed

lemma valid_text_control:
  "of_char c < (32 :: nat) \<Longrightarrow> valid_text (u @ c # v) \<longleftrightarrow> valid_text u \<and> valid_text v"
  by (auto simp: valid_text_def runes_control invalid_byte_def RuneError_def)

end
