(* ===== verification/RateLimit.thy ===== *)
theory RateLimit
  imports Prelude
begin

text \<open>
  The sliding-window rate limiter (\<^verbatim>\<open>internal/ratelimit/limiter.go\<close>), the contract its
  clients rely on (locale \<open>rate_limiter\<close>), and its correctness: at most \<open>max\<close> admissions in
  every window, the exactness of the retry hint, and that the periodic cleanup is
  unobservable.
\<close>

section \<open>Model\<close>

record limiter =
  lim_windows :: "string \<rightharpoonup> time list"
  lim_max :: int
  lim_window :: duration

definition NewLimiter :: "int \<Rightarrow> duration \<Rightarrow> limiter" where
  "NewLimiter mx wd = \<lparr>lim_windows = Map.empty, lim_max = mx, lim_window = wd\<rparr>"

text \<open>\<^verbatim>\<open>prune\<close>: the index loop stops at the first event that is not before the cutoff.\<close>

definition prune :: "time \<Rightarrow> time list \<Rightarrow> time list" where
  "prune cutoff events = dropWhile (\<lambda>e. e < cutoff) events"

definition allowAt :: "limiter \<Rightarrow> string \<Rightarrow> time \<Rightarrow> limiter \<times> bool \<times> duration" where
  "allowAt l key now =
     (let w = prune (now - lim_window l) (map_slice (lim_windows l) key) in
      if lim_max l \<le> int (length w) then
        (let retryAfter = (if w \<noteq> [] then hd w + lim_window l - now else lim_window l)
         in (l\<lparr>lim_windows := (lim_windows l)(key \<mapsto> w)\<rparr>, False,
             if retryAfter < 0 then 0 else retryAfter))
      else (l\<lparr>lim_windows := (lim_windows l)(key \<mapsto> w @ [now])\<rparr>, True, 0))"

definition Reset_limiter :: "limiter \<Rightarrow> string \<Rightarrow> limiter" where
  "Reset_limiter l key = l\<lparr>lim_windows := (lim_windows l)(key := None)\<rparr>"

definition countAt :: "limiter \<Rightarrow> string \<Rightarrow> time \<Rightarrow> limiter \<times> nat" where
  "countAt l key now =
     (case lim_windows l key of
        None \<Rightarrow> (l, 0)
      | Some w \<Rightarrow>
          (let w' = prune (now - lim_window l) w
           in (l\<lparr>lim_windows := (lim_windows l)(key \<mapsto> w')\<rparr>, length w')))"

definition cleanupAt :: "limiter \<Rightarrow> time \<Rightarrow> limiter" where
  "cleanupAt l now =
     l\<lparr>lim_windows := map_revise
         (\<lambda>w. let w' = prune (now - lim_window l) w in if w' = [] then None else Some w')
         (lim_windows l)\<rparr>"

section \<open>Sequences of calls\<close>

text \<open>A sequence of calls \<open>(key, instant)\<close> and the calls that were admitted.\<close>

fun admit_run ::
  "('l \<Rightarrow> string \<Rightarrow> time \<Rightarrow> 'l \<times> bool \<times> duration) \<Rightarrow> 'l \<Rightarrow> (string \<times> time) list
     \<Rightarrow> 'l \<times> (string \<times> time) list" where
  "admit_run al l [] = (l, [])"
| "admit_run al l ((k, t) # cs) =
     (case al l k t of (l', ok, _) \<Rightarrow>
        (case admit_run al l' cs of (l'', adm) \<Rightarrow> (l'', if ok then (k, t) # adm else adm)))"

definition admitted_at :: "(string \<times> time) list \<Rightarrow> string \<Rightarrow> time list" where
  "admitted_at adm k = map snd (filter (\<lambda>c. fst c = k) adm)"

definition in_span :: "duration \<Rightarrow> time \<Rightarrow> time list \<Rightarrow> time list" where
  "in_span sp T es = filter (\<lambda>e. T - sp \<le> e \<and> e \<le> T) es"

lemma admitted_at_simps [simp]:
  "admitted_at [] k = []"
  "admitted_at ((k', t) # adm) k = (if k' = k then t # admitted_at adm k else admitted_at adm k)"
  by (simp_all add: admitted_at_def)

section \<open>The contract of a rate limiter\<close>

text \<open>
  \<open>tracks l H now\<close> relates a limiter to the history \<open>H\<close> of instants it has admitted for each
  key up to \<open>now\<close>. A limiter extends the history exactly when it answers yes, and no
  history it tracks has more than \<open>quota\<close> instants in an interval of length \<open>span\<close>.
\<close>

locale rate_limiter =
  fixes al :: "'l \<Rightarrow> string \<Rightarrow> time \<Rightarrow> 'l \<times> bool \<times> duration"
    and tracks :: "'l \<Rightarrow> (string \<Rightarrow> time list) \<Rightarrow> time \<Rightarrow> bool"
    and quota :: int
    and span :: duration
  assumes admit: "tracks l H now \<Longrightarrow> now \<le> t \<Longrightarrow> al l k t = (l', True, d)
                    \<Longrightarrow> tracks l' (H(k := H k @ [t])) t"
    and refuse: "tracks l H now \<Longrightarrow> now \<le> t \<Longrightarrow> al l k t = (l', False, d) \<Longrightarrow> tracks l' H t"
    and bounded: "tracks l H now \<Longrightarrow> int (length (in_span span T (H k))) \<le> quota"
begin

lemma run_tracks:
  assumes "tracks l H now" "sorted (now # map snd cs)" "admit_run al l cs = (l', adm)"
  shows "tracks l' (\<lambda>k. H k @ admitted_at adm k) (last (now # map snd cs))"
  using assms
proof (induction cs arbitrary: l H now adm)
  case Nil
  then show ?case by (simp add: fun_eq_iff)
next
  case (Cons c cs)
  obtain k t where c: "c = (k, t)" by (cases c)
  obtain l1 ok d where a: "al l k t = (l1, ok, d)" by (cases "al l k t")
  obtain adm1 where r: "admit_run al l1 cs = (l', adm1)"
    and adm: "adm = (if ok then (k, t) # adm1 else adm1)"
    using Cons.prems(3) by (auto simp: c a split: prod.splits)
  have now: "now \<le> t" and srt: "sorted (t # map snd cs)"
    using Cons.prems(2) by (auto simp: c)
  show ?case
  proof (cases ok)
    case True
    with a have "al l k t = (l1, True, d)" by simp
    from admit [OF Cons.prems(1) now this] have "tracks l1 (H(k := H k @ [t])) t" .
    from Cons.IH [OF this srt r]
    have "tracks l' (\<lambda>k'. (H(k := H k @ [t])) k' @ admitted_at adm1 k') (last (t # map snd cs))" .
    moreover have "(\<lambda>k'. (H(k := H k @ [t])) k' @ admitted_at adm1 k')
        = (\<lambda>k'. H k' @ admitted_at adm k')"
      using True by (auto simp: adm fun_eq_iff)
    ultimately show ?thesis by (simp add: c)
  next
    case False
    with a have "al l k t = (l1, False, d)" by simp
    from refuse [OF Cons.prems(1) now this] have "tracks l1 H t" .
    from Cons.IH [OF this srt r] False show ?thesis by (simp add: adm c)
  qed
qed

lemma run_bounded:
  assumes "tracks l (\<lambda>_. []) now" "sorted (now # map snd cs)" "admit_run al l cs = (l', adm)"
  shows "int (length (in_span span T (admitted_at adm k))) \<le> quota"
  using bounded [OF run_tracks [OF assms], of T k] by simp

end

section \<open>The limiter meets the contract\<close>

definition tracks_key :: "int \<Rightarrow> duration \<Rightarrow> time list \<Rightarrow> time list \<Rightarrow> time \<Rightarrow> bool" where
  "tracks_key m wd s h now \<longleftrightarrow>
     sorted h \<and> (\<forall>e \<in> set h. e \<le> now) \<and> (\<exists>c \<le> now - wd. s = filter (\<lambda>e. c \<le> e) h)
     \<and> (\<forall>T. int (length (in_span wd T h)) \<le> m)"

definition tracks :: "int \<Rightarrow> duration \<Rightarrow> limiter \<Rightarrow> (string \<Rightarrow> time list) \<Rightarrow> time \<Rightarrow> bool" where
  "tracks m wd l H now \<longleftrightarrow>
     lim_max l = m \<and> lim_window l = wd \<and> 0 \<le> wd \<and> 0 \<le> m \<and>
     (\<forall>k. tracks_key m wd (map_slice (lim_windows l) k) (H k) now)"

lemma prune_prune: "c \<le> c' \<Longrightarrow> prune c' (prune c xs) = prune c' xs"
  unfolding prune_def by (induction xs) auto

lemma prune_sorted: "sorted xs \<Longrightarrow> prune c xs = filter (\<lambda>e. c \<le> e) xs"
  unfolding prune_def by (rule dropWhile_sorted_filter)

lemma tracks_key_mono:
  assumes "tracks_key m wd s h now" "now \<le> t"
  shows "tracks_key m wd s h t"
proof -
  from assms(1) obtain c where "c \<le> now - wd" "s = filter (\<lambda>e. c \<le> e) h"
    unfolding tracks_key_def by blast
  with assms(2) have "\<exists>c \<le> t - wd. s = filter (\<lambda>e. c \<le> e) h"
    by (intro exI [of _ c]) simp
  with assms show ?thesis unfolding tracks_key_def by force
qed

lemma tracks_key_prune:
  assumes "tracks_key m wd s h now" "now \<le> t"
  shows "prune (t - wd) s = filter (\<lambda>e. t - wd \<le> e) h"
proof -
  from assms obtain c where c: "c \<le> now - wd" and s: "s = filter (\<lambda>e. c \<le> e) h" and srt: "sorted h"
    unfolding tracks_key_def by blast
  have "prune (t - wd) s = filter (\<lambda>e. c \<le> e \<and> t - wd \<le> e) h"
    using srt by (simp add: s prune_sorted sorted_filter [where f = "\<lambda>x. x", simplified])
  also have "\<dots> = filter (\<lambda>e. t - wd \<le> e) h"
    using c assms(2) by (intro filter_cong) auto
  finally show ?thesis .
qed

lemma tracks_key_pruned:
  assumes "tracks_key m wd s h now" "now \<le> t"
  shows "tracks_key m wd (filter (\<lambda>e. t - wd \<le> e) h) h t"
  using tracks_key_mono [OF assms] unfolding tracks_key_def by blast

lemma length_filter_mono:
  "(\<And>x. x \<in> set xs \<Longrightarrow> P x \<Longrightarrow> Q x) \<Longrightarrow> length (filter P xs) \<le> length (filter Q xs)"
  by (induction xs) auto

lemma in_span_snoc_bound:
  assumes "\<forall>T. int (length (in_span wd T h)) \<le> m" "int (length (filter (\<lambda>e. t - wd \<le> e) h)) < m"
  shows "int (length (in_span wd T (h @ [t]))) \<le> m"
proof (cases "t \<le> T")
  case False
  with assms(1) show ?thesis by (simp add: in_span_def)
next
  case True
  then have "length (in_span wd T h) \<le> length (filter (\<lambda>e. t - wd \<le> e) h)"
    unfolding in_span_def by (intro length_filter_mono) auto
  with assms(2) show ?thesis by (simp add: in_span_def)
qed

lemma tracks_key_admit:
  assumes "tracks_key m wd s h now" "now \<le> t" "0 \<le> wd"
    "int (length (filter (\<lambda>e. t - wd \<le> e) h)) < m"
  shows "tracks_key m wd (filter (\<lambda>e. t - wd \<le> e) h @ [t]) (h @ [t]) t"
proof -
  have "filter (\<lambda>e. t - wd \<le> e) h @ [t] = filter (\<lambda>e. t - wd \<le> e) (h @ [t])"
    using assms(3) by simp
  moreover have "sorted (h @ [t])" "\<forall>e \<in> set (h @ [t]). e \<le> t"
    using assms(1,2) by (fastforce simp: tracks_key_def sorted_append)+
  moreover have "\<forall>T. int (length (in_span wd T (h @ [t]))) \<le> m"
    using assms(1,4) by (blast intro: in_span_snoc_bound dest: tracks_key_def [THEN iffD1])
  ultimately show ?thesis unfolding tracks_key_def by blast
qed

lemma tracks_admit:
  assumes tr: "tracks m wd l H now" and t: "now \<le> t" and al: "allowAt l k t = (l', True, d)"
  shows "tracks m wd l' (H(k := H k @ [t])) t"
proof -
  have tk: "tracks_key m wd (map_slice (lim_windows l) k') (H k') now" for k'
    using tr by (simp add: tracks_def)
  have p: "lim_window l = wd" "lim_max l = m" "0 \<le> wd" "0 \<le> m" using tr by (auto simp: tracks_def)
  let ?w = "filter (\<lambda>e. t - wd \<le> e) (H k)"
  have len: "int (length ?w) < m"
    and l': "l' = l\<lparr>lim_windows := (lim_windows l)(k \<mapsto> ?w @ [t])\<rparr>"
    using al p by (auto simp: allowAt_def tracks_key_prune [OF tk t] Let_def split: if_splits)
  have "tracks_key m wd (map_slice (lim_windows l') k') ((H(k := H k @ [t])) k') t" for k'
    using tracks_key_mono [OF tk t] tracks_key_admit [OF tk t p(3) len] by (simp add: l')
  with p show ?thesis by (simp add: tracks_def l')
qed

lemma tracks_refuse:
  assumes tr: "tracks m wd l H now" and t: "now \<le> t" and al: "allowAt l k t = (l', False, d)"
  shows "tracks m wd l' H t"
proof -
  have tk: "tracks_key m wd (map_slice (lim_windows l) k') (H k') now" for k'
    using tr by (simp add: tracks_def)
  have p: "lim_window l = wd" "lim_max l = m" "0 \<le> wd" "0 \<le> m" using tr by (auto simp: tracks_def)
  have l': "l' = l\<lparr>lim_windows := (lim_windows l)(k \<mapsto> filter (\<lambda>e. t - wd \<le> e) (H k))\<rparr>"
    using al p by (auto simp: allowAt_def tracks_key_prune [OF tk t] Let_def split: if_splits)
  have "tracks_key m wd (map_slice (lim_windows l') k') (H k') t" for k'
    using tracks_key_mono [OF tk t] tracks_key_pruned [OF tk t] by (simp add: l')
  with p show ?thesis by (simp add: tracks_def l')
qed

lemma tracks_new: "0 \<le> m \<Longrightarrow> 0 \<le> wd \<Longrightarrow> tracks m wd (NewLimiter m wd) (\<lambda>_. []) now"
  by (auto simp: tracks_def tracks_key_def NewLimiter_def in_span_def)

lemma tracks_bounded: "tracks m wd l H now \<Longrightarrow> int (length (in_span wd T (H k))) \<le> m"
  by (simp add: tracks_def tracks_key_def)

interpretation rl: rate_limiter allowAt "tracks m wd" m wd for m wd
  by unfold_locales (blast intro: tracks_admit tracks_refuse tracks_bounded)+

section \<open>Properties\<close>

lemma admit_run_reaches:
  assumes "0 \<le> m" "0 \<le> wd" "sorted (map snd cs)" "admit_run allowAt (NewLimiter m wd) cs = (l, adm)"
    "\<forall>c \<in> set cs. snd c \<le> now"
  shows "tracks m wd l (admitted_at adm) now"
proof -
  let ?t0 = "if cs = [] then now else snd (hd cs)"
  have "sorted (?t0 # map snd cs)" using assms(3) by (cases cs) auto
  from rl.run_tracks [OF tracks_new [OF assms(1,2)] this assms(4)]
  have "tracks m wd l (admitted_at adm) (last (?t0 # map snd cs))" by simp
  moreover have "last (?t0 # map snd cs) \<le> now"
    using assms(5) by (cases cs rule: rev_cases) auto
  ultimately show ?thesis by (auto simp: tracks_def intro: tracks_key_mono)
qed

text \<open>
  C9: over any sequence of calls made in time order on a fresh limiter, no interval whose
  length is the window holds more than \<open>max\<close> admitted calls of one key.
\<close>

theorem limiter_window_bound:
  assumes "0 \<le> m" and "0 \<le> wd" and "sorted (map snd cs)"
  shows "int (length (in_span wd T (admitted_at
           (snd (admit_run allowAt (NewLimiter m wd) cs)) k))) \<le> m"
proof -
  obtain l adm where r: "admit_run allowAt (NewLimiter m wd) cs = (l, adm)" by force
  let ?t0 = "case cs of [] \<Rightarrow> 0 | c # _ \<Rightarrow> snd c"
  have "sorted (?t0 # map snd cs)" using assms(3) by (cases cs) auto
  from rl.run_bounded [OF tracks_new [OF assms(1,2)] this r] show ?thesis by (simp add: r)
qed

theorem limiter_window_bound_witness:
  "int (length (in_span 10 9 (admitted_at
     (snd (admit_run allowAt (NewLimiter 2 10) [(''u'', 1), (''u'', 5), (''u'', 9)])) ''u''))) \<le> 2
   \<and> snd (admit_run allowAt (NewLimiter 2 10) [(''u'', 1), (''u'', 5), (''u'', 9), (''u'', 12)])
       = [(''u'', 1), (''u'', 5), (''u'', 12)]"
proof
  show "int (length (in_span 10 9 (admitted_at
     (snd (admit_run allowAt (NewLimiter 2 10) [(''u'', 1), (''u'', 5), (''u'', 9)])) ''u''))) \<le> 2"
    by (rule limiter_window_bound) simp_all
qed (simp add: allowAt_def NewLimiter_def prune_def map_slice_def)

section \<open>The retry hint\<close>

lemma prune_hd_kept: "es \<noteq> [] \<Longrightarrow> c \<le> hd es \<Longrightarrow> prune c es = es"
  by (cases es) (auto simp: prune_def)

lemma prune_hd_dropped: "es \<noteq> [] \<Longrightarrow> hd es < c \<Longrightarrow> length (prune c es) < length es"
  unfolding prune_def by (cases es) (auto simp: le_imp_less_Suc length_dropWhile_le)

text \<open>
  The duration returned with a refusal is exact. If nothing else happens in between, a
  retry is admitted precisely when it comes after that duration, and not before.
\<close>

theorem limiter_retry_exact:
  assumes "0 < m" and "0 \<le> wd" and "sorted (map snd cs)" and "\<forall>c \<in> set cs. snd c \<le> now"
    and run: "admit_run allowAt (NewLimiter m wd) cs = (l, adm)"
    and refused: "allowAt l k now = (l', False, d)" and "now \<le> t"
  shows "fst (snd (allowAt l' k t)) \<longleftrightarrow> now + d < t"
proof -
  have tr: "tracks m wd l (admitted_at adm) now"
    using assms by (intro admit_run_reaches [OF _ _ _ run]) auto
  let ?w = "filter (\<lambda>e. now - wd \<le> e) (admitted_at adm k)"
  have p: "lim_window l = wd" "lim_max l = m" using tr by (auto simp: tracks_def)
  have tk: "tracks_key m wd (map_slice (lim_windows l) k) (admitted_at adm k) now"
    using tr by (simp add: tracks_def)
  have w: "prune (now - wd) (map_slice (lim_windows l) k) = ?w"
    by (rule tracks_key_prune [OF tk order_refl])
  have span: "in_span wd now (admitted_at adm k) = ?w"
    unfolding in_span_def using tk by (intro filter_cong) (auto simp: tracks_key_def)
  have len: "int (length ?w) = m"
    using refused p w tracks_bounded [OF tr, of now k]
    by (auto simp: allowAt_def Let_def span split: if_splits)
  then have "0 < length ?w" using \<open>0 < m\<close> by linarith
  then have ne: "?w \<noteq> []" by (rule length_greater_0_conv [THEN iffD1])
  have "now - wd \<le> hd ?w" using ne hd_in_set [OF ne] by auto
  then have d: "d = hd ?w + wd - now"
    and l': "l' = l\<lparr>lim_windows := (lim_windows l)(k \<mapsto> ?w)\<rparr>"
    using refused p w len ne by (auto simp: allowAt_def Let_def split: if_splits)
  show ?thesis
  proof (cases "hd ?w < t - wd")
    case True
    then show ?thesis
      using prune_hd_dropped [OF ne True] len by (simp add: l' p d allowAt_def Let_def)
  next
    case False
    then show ?thesis using len prune_hd_kept [OF ne, of "t - wd"] by (simp add: l' p d allowAt_def Let_def)
  qed
qed

theorem limiter_retry_exact_witness:
  "allowAt (fst (admit_run allowAt (NewLimiter 1 10) [(''u'', 3)])) ''u'' 7
     = (fst (allowAt (fst (admit_run allowAt (NewLimiter 1 10) [(''u'', 3)])) ''u'' 7), False, 6)
   \<and> fst (snd (allowAt (fst (allowAt (fst (admit_run allowAt (NewLimiter 1 10) [(''u'', 3)])) ''u'' 7))
               ''u'' 14))"
proof -
  let ?l = "fst (admit_run allowAt (NewLimiter 1 10) [(''u'', 3)])"
  have r: "admit_run allowAt (NewLimiter 1 10) [(''u'', 3)] = (?l, [(''u'', 3)])"
    by (simp add: allowAt_def NewLimiter_def prune_def map_slice_def)
  have f: "allowAt ?l ''u'' 7 = (fst (allowAt ?l ''u'' 7), False, 6)"
    by (simp add: allowAt_def NewLimiter_def prune_def map_slice_def)
  show ?thesis using limiter_retry_exact [OF _ _ _ _ r f, of 14] f by simp
qed

section \<open>Cleanup is unobservable\<close>

definition same_from :: "time \<Rightarrow> limiter \<Rightarrow> limiter \<Rightarrow> bool" where
  "same_from c l1 l2 \<longleftrightarrow>
     lim_max l1 = lim_max l2 \<and> lim_window l1 = lim_window l2
     \<and> (\<forall>k. prune c (map_slice (lim_windows l1) k) = prune c (map_slice (lim_windows l2) k))"

lemma same_from_prune:
  assumes "same_from c l1 l2" "c \<le> c'"
  shows "prune c' (map_slice (lim_windows l1) k) = prune c' (map_slice (lim_windows l2) k)"
proof -
  have "prune c' (prune c (map_slice (lim_windows l1) k)) = prune c' (prune c (map_slice (lim_windows l2) k))"
    using assms(1) by (simp add: same_from_def)
  then show ?thesis using assms(2) by (simp add: prune_prune)
qed

lemma allowAt_same_from:
  assumes "same_from c l1 l2" "c \<le> t - lim_window l1"
  shows "snd (allowAt l1 k t) = snd (allowAt l2 k t)"
    and "same_from c (fst (allowAt l1 k t)) (fst (allowAt l2 k t))"
  using assms same_from_prune [OF assms, of k]
  by (auto simp: allowAt_def same_from_def Let_def)

lemma admit_run_same_from:
  "same_from c l1 l2 \<Longrightarrow> \<forall>x \<in> set cs. c \<le> snd x - lim_window l1
    \<Longrightarrow> snd (admit_run allowAt l1 cs) = snd (admit_run allowAt l2 cs)"
proof (induction cs arbitrary: l1 l2)
  case Nil
  then show ?case by simp
next
  case (Cons x cs)
  obtain k t where x: "x = (k, t)" by (cases x)
  with Cons.prems have ct: "c \<le> t - lim_window l1" by simp
  have "lim_window (fst (allowAt l1 k t)) = lim_window l1" by (simp add: allowAt_def Let_def)
  with Cons.prems(2) Cons.IH [OF allowAt_same_from(2) [OF Cons.prems(1) ct], of k]
  have "snd (admit_run allowAt (fst (allowAt l1 k t)) cs) = snd (admit_run allowAt (fst (allowAt l2 k t)) cs)"
    by simp
  with allowAt_same_from(1) [OF Cons.prems(1) ct, of k] show ?case
    by (auto simp: x prod_eq_iff split: prod.splits)
qed

lemma cleanup_same_from: "same_from (now - lim_window l) (cleanupAt l now) l"
  by (auto simp: same_from_def cleanupAt_def map_slice_def Let_def prune_prune split: option.splits)
     (simp add: prune_def)

text \<open>
  C18: a cleanup pass never changes an answer. Whatever calls follow it in time, the calls
  admitted are those that would have been admitted without the pass.
\<close>

theorem limiter_cleanup_unobservable:
  assumes "\<forall>c \<in> set cs. now \<le> snd c"
  shows "snd (admit_run allowAt (cleanupAt l now) cs) = snd (admit_run allowAt l cs)"
proof (rule admit_run_same_from [OF cleanup_same_from])
  show "\<forall>x \<in> set cs. now - lim_window l \<le> snd x - lim_window (cleanupAt l now)"
    using assms by (simp add: cleanupAt_def)
qed

theorem limiter_cleanup_unobservable_witness:
  "snd (admit_run allowAt
      (cleanupAt \<lparr>lim_windows = [''u'' \<mapsto> [1, 5], ''v'' \<mapsto> [2]], lim_max = 2, lim_window = 10\<rparr> 14)
      [(''u'', 14), (''u'', 14), (''v'', 15)])
   = [(''u'', 14), (''v'', 15)]"
proof -
  let ?l = "\<lparr>lim_windows = [''u'' \<mapsto> [1, 5], ''v'' \<mapsto> [2]], lim_max = 2, lim_window = 10\<rparr> :: limiter"
  have "snd (admit_run allowAt ?l [(''u'', 14), (''u'', 14), (''v'', 15)]) = [(''u'', 14), (''v'', 15)]"
    by (simp add: allowAt_def prune_def map_slice_def)
  with limiter_cleanup_unobservable [of "[(''u'', 14), (''u'', 14), (''v'', 15)]" 14 ?l]
  show ?thesis by simp
qed

end
