(* ===== verification/Models.thy ===== *)
theory Models
  imports GoStrings
begin

text \<open>
  The canonical data types of the gateway (\<^verbatim>\<open>internal/models\<close>): messages, events, responses,
  delivery contexts, sessions, users, queue items. Field names carry the initials of their
  struct. String-typed enumerations of the source stay strings, since channel types and
  event types arrive from the wire and unknown values take the default branches.

  Representation: \<^verbatim>\<open>float64\<close> fields are their 64 bits, since the modelled code only copies them
  or tests them against zero; a nil pointer or nil interface is \<open>None\<close>; values of type
  \<^verbatim>\<open>any\<close> are the JSON text they serialise to.
\<close>

section \<open>Channels\<close>

type_synonym ChannelType = string

abbreviation ChannelTypeWhatsApp :: ChannelType where "ChannelTypeWhatsApp \<equiv> ''whatsapp''"
abbreviation ChannelTypeSlack :: ChannelType where "ChannelTypeSlack \<equiv> ''slack''"
abbreviation ChannelTypeCron :: ChannelType where "ChannelTypeCron \<equiv> ''cron''"
abbreviation ChannelTypeMQTT :: ChannelType where "ChannelTypeMQTT \<equiv> ''mqtt''"
abbreviation ChannelTypeRabbitMQ :: ChannelType where "ChannelTypeRabbitMQ \<equiv> ''rabbitmq''"
abbreviation ChannelTypeWebSocket :: ChannelType where "ChannelTypeWebSocket \<equiv> ''websocket''"

type_synonym float64 = "64 word"
type_synonym json_text = string

record ChannelCapabilities =
  SupportsMarkdown :: bool
  SupportsStreaming :: bool
  SupportsImages :: bool
  SupportsDocuments :: bool
  SupportsAudio :: bool
  SupportsReactions :: bool
  SupportsThreads :: bool
  SupportsMessageEdits :: bool

definition WhatsAppCapabilities :: ChannelCapabilities where
  "WhatsAppCapabilities =
     \<lparr>SupportsMarkdown = False, SupportsStreaming = False, SupportsImages = True,
      SupportsDocuments = True, SupportsAudio = True, SupportsReactions = False,
      SupportsThreads = False, SupportsMessageEdits = False\<rparr>"

definition SlackCapabilities :: ChannelCapabilities where
  "SlackCapabilities =
     \<lparr>SupportsMarkdown = True, SupportsStreaming = True, SupportsImages = True,
      SupportsDocuments = True, SupportsAudio = False, SupportsReactions = True,
      SupportsThreads = True, SupportsMessageEdits = True\<rparr>"

definition CronCapabilities :: ChannelCapabilities where
  "CronCapabilities =
     \<lparr>SupportsMarkdown = False, SupportsStreaming = False, SupportsImages = False,
      SupportsDocuments = False, SupportsAudio = False, SupportsReactions = False,
      SupportsThreads = False, SupportsMessageEdits = False\<rparr>"

definition MQTTCapabilities :: ChannelCapabilities where
  "MQTTCapabilities =
     \<lparr>SupportsMarkdown = False, SupportsStreaming = False, SupportsImages = False,
      SupportsDocuments = False, SupportsAudio = False, SupportsReactions = False,
      SupportsThreads = False, SupportsMessageEdits = False\<rparr>"

definition RabbitMQCapabilities :: ChannelCapabilities where
  "RabbitMQCapabilities =
     \<lparr>SupportsMarkdown = False, SupportsStreaming = False, SupportsImages = False,
      SupportsDocuments = False, SupportsAudio = False, SupportsReactions = False,
      SupportsThreads = False, SupportsMessageEdits = False\<rparr>"

record DeliveryContext =
  dc_ChannelType :: ChannelType
  dc_ChannelID :: string
  dc_ReplyMode :: string
  dc_ThreadID :: string
  dc_NotifyChannels :: "string list"
  dc_Capabilities :: ChannelCapabilities

text \<open>The zero value \<^verbatim>\<open>models.DeliveryContext{}\<close>.\<close>

definition zeroDeliveryContext :: DeliveryContext where
  "zeroDeliveryContext =
     \<lparr>dc_ChannelType = [], dc_ChannelID = [], dc_ReplyMode = [], dc_ThreadID = [],
      dc_NotifyChannels = [],
      dc_Capabilities =
        \<lparr>SupportsMarkdown = False, SupportsStreaming = False, SupportsImages = False,
         SupportsDocuments = False, SupportsAudio = False, SupportsReactions = False,
         SupportsThreads = False, SupportsMessageEdits = False\<rparr>\<rparr>"

section \<open>Channel metadata\<close>

record WhatsAppMeta =
  wm_WuzapiUserID :: string
  wm_WuzapiInstanceName :: string
  wm_WuzapiBaseURL :: string
  wm_ChatJID :: string
  wm_SenderJID :: string
  wm_MessageID :: string
  wm_PushName :: string
  wm_IsGroup :: bool
  wm_IsFromMe :: bool
  wm_QuotedMessageID :: string
  wm_QuotedParticipant :: string
  wm_HasMedia :: bool
  wm_MediaType :: string
  wm_S3URL :: string
  wm_MediaKey :: string

record SlackMeta =
  sm_TeamID :: string
  sm_ChannelID :: string
  sm_SlackUserID :: string
  sm_ThreadTS :: string
  sm_MessageTS :: string
  sm_AppID :: string
  sm_BotID :: string
  sm_BotToken :: string

record CronMeta =
  cm_JobID :: string
  cm_ScheduleAt :: string

record MqttMeta =
  mm_Broker :: string
  mm_Topic :: string
  mm_QoS :: int
  mm_Retain :: bool
  mm_ClientID :: string
  mm_CorrelationID :: string
  mm_ResponseTopic :: string

record RabbitMqMeta =
  rm_Exchange :: string
  rm_RoutingKey :: string
  rm_CorrelationID :: string
  rm_ReplyTo :: string
  rm_MessageID :: string

text \<open>The marker interface \<^verbatim>\<open>ChannelMeta\<close> with its implementations.\<close>

datatype ChannelMeta =
  MetaWhatsApp WhatsAppMeta
| MetaSlack SlackMeta
| MetaCron CronMeta
| MetaMqtt MqttMeta
| MetaRabbitMq RabbitMqMeta
| RawMeta string

section \<open>Messages\<close>

record ContentPart =
  cp_Type :: string
  cp_Text :: string
  cp_URL :: string
  cp_MimeType :: string
  cp_Caption :: string
  cp_Transcript :: string
  cp_Latitude :: float64
  cp_Longitude :: float64
  cp_Address :: string

definition zeroContentPart :: ContentPart where
  "zeroContentPart =
     \<lparr>cp_Type = [], cp_Text = [], cp_URL = [], cp_MimeType = [], cp_Caption = [],
      cp_Transcript = [], cp_Latitude = 0, cp_Longitude = 0, cp_Address = []\<rparr>"

record MessageContent =
  mc_Text :: string
  mc_Parts :: "ContentPart list"

record NipperMessage =
  nm_MessageID :: string
  nm_OriginMessageID :: string
  nm_UserID :: string
  nm_SessionKey :: string
  nm_ChannelType :: ChannelType
  nm_ChannelIdentity :: string
  nm_Content :: MessageContent
  nm_DeliveryContext :: DeliveryContext
  nm_Meta :: "ChannelMeta option"
  nm_Timestamp :: time
  nm_DedupeKey :: string

record ContextUsage =
  cu_InputTokens :: int
  cu_OutputTokens :: int
  cu_CacheReadTokens :: int
  cu_ContextWindow :: int
  cu_UsagePercent :: float64

section \<open>Agent events and responses\<close>

type_synonym NipperEventType = string

abbreviation EventTypeDelta :: NipperEventType where "EventTypeDelta \<equiv> ''delta''"
abbreviation EventTypeToolStart :: NipperEventType where "EventTypeToolStart \<equiv> ''tool_start''"
abbreviation EventTypeToolProgress :: NipperEventType where "EventTypeToolProgress \<equiv> ''tool_progress''"
abbreviation EventTypeToolEnd :: NipperEventType where "EventTypeToolEnd \<equiv> ''tool_end''"
abbreviation EventTypeThinking :: NipperEventType where "EventTypeThinking \<equiv> ''thinking''"
abbreviation EventTypeError :: NipperEventType where "EventTypeError \<equiv> ''error''"
abbreviation EventTypeDone :: NipperEventType where "EventTypeDone \<equiv> ''done''"

record EventToolInfo =
  ti_ToolName :: string
  ti_ToolCallID :: string
  ti_Input :: "json_text option"
  ti_Output :: "json_text option"
  ti_ExitCode :: int

record EventSkillInfo =
  si_SkillName :: string
  si_HasConfig :: bool
  si_HasEntrypoint :: bool
  si_Args :: string
  si_ExitCode :: int
  si_DurationMs :: int
  si_SecretName :: string
  si_Provider :: string

record EventError =
  er_Code :: string
  er_Message :: string
  er_Recoverable :: bool

record NipperEvent =
  ev_EventID :: string
  ev_Type :: NipperEventType
  ev_SessionKey :: string
  ev_ResponseID :: string
  ev_Timestamp :: time
  ev_Delta :: "string option"
  ev_ToolInfo :: "EventToolInfo option"
  ev_SkillInfo :: "EventSkillInfo option"
  ev_Thinking :: "string option"
  ev_Error :: "EventError option"
  ev_ContextUsage :: "ContextUsage option"
  ev_UserID :: string

record NipperResponse =
  nr_ResponseID :: string
  nr_SessionKey :: string
  nr_UserID :: string
  nr_ChannelType :: ChannelType
  nr_ChannelIdentity :: string
  nr_Text :: string
  nr_Parts :: "ContentPart list"
  nr_DeliveryContext :: DeliveryContext
  nr_Meta :: "ChannelMeta option"
  nr_OriginMessageID :: string
  nr_Timestamp :: time
  nr_ContextUsage :: "ContextUsage option"

section \<open>Queues\<close>

text \<open>The queue mode of a user comes from the configuration file and may be any string.\<close>

type_synonym QueueMode = string

abbreviation QueueModeSteer :: QueueMode where "QueueModeSteer \<equiv> ''steer''"
abbreviation QueueModeCollect :: QueueMode where "QueueModeCollect \<equiv> ''collect''"
abbreviation QueueModeInterrupt :: QueueMode where "QueueModeInterrupt \<equiv> ''interrupt''"
abbreviation QueueModeQueue :: QueueMode where "QueueModeQueue \<equiv> ''queue''"

record QueueItem =
  qi_ID :: string
  qi_Message :: "NipperMessage option"
  qi_Mode :: QueueMode
  qi_Priority :: int
  qi_EnqueuedAt :: time
  qi_CollectedMessages :: "NipperMessage list"

datatype ControlMessageType = ControlMessageInterrupt | ControlMessageAbort

record ControlMessage =
  ct_Type :: ControlMessageType
  ct_UserID :: string
  ct_SessionKey :: string
  ct_Timestamp :: time

section \<open>Users and agents\<close>

text \<open>Preference values are the JSON texts they serialise to.\<close>

record User =
  us_ID :: string
  us_Name :: string
  us_Enabled :: bool
  us_DefaultModel :: string
  us_CreatedAt :: time
  us_UpdatedAt :: time
  us_Preferences :: "string \<rightharpoonup> json_text"

record CreateUserRequest =
  cr_Name :: string
  cr_DefaultModel :: string
  cr_Preferences :: "(string \<rightharpoonup> json_text) option"

record UpdateUserRequest =
  ur_Name :: "string option"
  ur_DefaultModel :: "string option"
  ur_Enabled :: "bool option"
  ur_Preferences :: "(string \<rightharpoonup> json_text) option"

record Identity =
  id_ID :: int
  id_UserID :: string
  id_ChannelType :: string
  id_ChannelIdentity :: string
  id_Verified :: bool
  id_CreatedAt :: time

record AllowlistEntry =
  al_ID :: int
  al_UserID :: string
  al_ChannelType :: string
  al_Enabled :: bool
  al_CreatedAt :: time
  al_CreatedBy :: string

datatype AgentStatus = AgentStatusProvisioned | AgentStatusRegistered | AgentStatusRevoked

record Agent =
  ag_ID :: string
  ag_UserID :: string
  ag_Label :: string
  ag_TokenHash :: string
  ag_TokenPrefix :: string
  ag_RMQUsername :: string
  ag_Status :: AgentStatus
  ag_LastRegisteredAt :: "time option"
  ag_LastRegisteredIP :: string
  ag_CreatedAt :: time
  ag_UpdatedAt :: time

record ProvisionAgentRequest =
  pr_UserID :: string
  pr_Label :: string
  pr_TokenHash :: string
  pr_TokenPrefix :: string

record AgentRegistrationMeta =
  am_IP :: string
  am_AgentType :: string
  am_Version :: string

record AdminAuditEntry =
  au_ID :: int
  au_Timestamp :: time
  au_Action :: string
  au_Actor :: string
  au_TargetUserID :: string
  au_Details :: string
  au_IPAddress :: string

record AgentHealthInfo =
  hi_UserID :: string
  hi_Queue :: string
  hi_ConsumerCount :: int
  hi_MessagesReady :: int
  hi_Status :: string

section \<open>Sessions\<close>

datatype SessionStatus = SessionStatusActive | SessionStatusArchived | SessionStatusExpired

record SessionMetadata =
  md_Model :: string
  md_CompactionLevel :: string
  md_CompactionCount :: int
  md_MessageCount :: int
  md_ContextUsage :: ContextUsage
  md_LastActivityAt :: time
  md_DeliveryContext :: DeliveryContext

record Session =
  ss_Key :: string
  ss_ID :: string
  ss_UserID :: string
  ss_ChannelType :: ChannelType
  ss_Status :: SessionStatus
  ss_Metadata :: SessionMetadata
  ss_CreatedAt :: time
  ss_UpdatedAt :: time

record TranscriptLine =
  tl_Role :: string
  tl_Content :: string
  tl_Timestamp :: time
  tl_RunID :: string
  tl_TokenCount :: int

end
