(* ===== verification/Datastore.thy ===== *)
theory Datastore
  imports Models "HOL-Library.List_Lexorder" "HOL-Library.Product_Lexorder" "HOL-Library.Char_ord"
begin

text \<open>
  The datastore: the SQLite store (\<^verbatim>\<open>internal/datastore/sqlite\<close>) as tables of rows with the
  constraints of its migrations, and the \<^verbatim>\<open>Repository\<close> interface (\<^verbatim>\<open>internal/datastore/interface.go\<close>)
  that the gateway programs against.

  A table is the list of its rows in insertion order. Each statement is the list operation
  its SQL text describes, with the primary keys, unique constraints, foreign keys and
  cascades the migrations declare. A closed or unreachable database fails every statement
  (\<open>db_open\<close>). Timestamps are written as RFC 3339 text with nanoseconds and read back as
  the same instant. Row ids of the AUTOINCREMENT tables come from counters that only grow.
\<close>

section \<open>Tables\<close>

record PolicyData =
  pd_Allow :: "string list"
  pd_Deny :: "string list"
  pd_RateLimit :: "string \<rightharpoonup> json_text"
  pd_Models :: "string \<rightharpoonup> json_text"
  pd_Extra :: "string \<rightharpoonup> json_text"

record UserPolicy =
  up_ID :: int
  up_UserID :: string
  up_PolicyType :: string
  up_Data :: PolicyData
  up_CreatedAt :: time
  up_UpdatedAt :: time

record CronJob =
  cj_ID :: string
  cj_Schedule :: string
  cj_UserID :: string
  cj_Prompt :: string
  cj_NotifyChannels :: "string list"

record AtJob =
  aj_ID :: string
  aj_RunAt :: string
  aj_UserID :: string
  aj_Prompt :: string
  aj_NotifyChannels :: "string list"

record Store =
  db_open :: bool
  db_users :: "User list"
  db_identities :: "Identity list"
  db_identity_seq :: int
  db_allowed :: "AllowlistEntry list"
  db_allowed_seq :: int
  db_policies :: "UserPolicy list"
  db_policy_seq :: int
  db_agents :: "Agent list"
  db_cron_jobs :: "CronJob list"
  db_at_jobs :: "AtJob list"
  db_audit :: "AdminAuditEntry list"
  db_audit_seq :: int

definition emptyStore :: Store where
  "emptyStore =
     \<lparr>db_open = True, db_users = [], db_identities = [], db_identity_seq = 0, db_allowed = [],
      db_allowed_seq = 0, db_policies = [], db_policy_seq = 0, db_agents = [], db_cron_jobs = [],
      db_at_jobs = [], db_audit = [], db_audit_seq = 0\<rparr>"

datatype repo_error = DbFailure | ConstraintFailed | NotFound | InvalidRequest

type_synonym 'a result = "repo_error + 'a"

text \<open>Every statement goes through the connection.\<close>

definition exec :: "Store \<Rightarrow> Store \<times> 'a result \<Rightarrow> Store \<times> 'a result" where
  "exec s body = (if db_open s then body else (s, Inl DbFailure))"

definition fetch :: "Store \<Rightarrow> 'a result \<Rightarrow> 'a result" where
  "fetch s body = (if db_open s then body else Inl DbFailure)"

definition Close :: "Store \<Rightarrow> Store" where
  "Close s = s\<lparr>db_open := False\<rparr>"

definition has_user :: "Store \<Rightarrow> string \<Rightarrow> bool" where
  "has_user s userID \<longleftrightarrow> (\<exists>u \<in> set (db_users s). us_ID u = userID)"

section \<open>Users\<close>

definition GetUser :: "Store \<Rightarrow> string \<Rightarrow> User result" where
  "GetUser s userID =
     fetch s (case find_first (\<lambda>u. us_ID u = userID) (db_users s) of
                None \<Rightarrow> Inl NotFound | Some u \<Rightarrow> Inr u)"

text \<open>\<open>userID\<close> is the value \<^verbatim>\<open>models.GenerateUserID\<close> returned, \<open>ts\<close> the reading of \<^verbatim>\<open>now()\<close>.\<close>

definition CreateUser :: "Store \<Rightarrow> CreateUserRequest \<Rightarrow> string \<Rightarrow> time \<Rightarrow> Store \<times> User result" where
  "CreateUser s req userID ts =
     (if cr_Name req = [] then (s, Inl InvalidRequest)
      else let model = (if cr_DefaultModel req = [] then ''claude-sonnet-4-20250514'' else cr_DefaultModel req);
               prefs = (case cr_Preferences req of None \<Rightarrow> Map.empty | Some p \<Rightarrow> p);
               row = \<lparr>us_ID = userID, us_Name = cr_Name req, us_Enabled = True, us_DefaultModel = model,
                      us_CreatedAt = ts, us_UpdatedAt = ts, us_Preferences = prefs\<rparr>
           in exec s (if has_user s userID then (s, Inl ConstraintFailed)
                      else let s' = s\<lparr>db_users := db_users s @ [row]\<rparr> in (s', GetUser s' userID)))"

definition apply_updates :: "UpdateUserRequest \<Rightarrow> User \<Rightarrow> User" where
  "apply_updates updates u =
     (let u1 = (case ur_Name updates of None \<Rightarrow> u | Some n \<Rightarrow> u\<lparr>us_Name := n\<rparr>);
          u2 = (case ur_DefaultModel updates of None \<Rightarrow> u1 | Some m \<Rightarrow> u1\<lparr>us_DefaultModel := m\<rparr>);
          u3 = (case ur_Enabled updates of None \<Rightarrow> u2 | Some b \<Rightarrow> u2\<lparr>us_Enabled := b\<rparr>)
      in case ur_Preferences updates of None \<Rightarrow> u3 | Some p \<Rightarrow> u3\<lparr>us_Preferences := p\<rparr>)"

definition write_user :: "User \<Rightarrow> time \<Rightarrow> User \<Rightarrow> User" where
  "write_user u ts row =
     row\<lparr>us_Name := us_Name u, us_Enabled := us_Enabled u, us_DefaultModel := us_DefaultModel u,
         us_Preferences := us_Preferences u, us_UpdatedAt := ts\<rparr>"

definition UpdateUser :: "Store \<Rightarrow> string \<Rightarrow> UpdateUserRequest \<Rightarrow> time \<Rightarrow> Store \<times> User result" where
  "UpdateUser s userID updates ts =
     (case GetUser s userID of
        Inl e \<Rightarrow> (s, Inl e)
      | Inr u \<Rightarrow>
          let u' = apply_updates updates u
          in exec s
               (s\<lparr>db_users := map (\<lambda>r. if us_ID r = userID then write_user u' ts r else r) (db_users s)\<rparr>,
                Inr (u'\<lparr>us_UpdatedAt := ts\<rparr>)))"

definition DeleteUser :: "Store \<Rightarrow> string \<Rightarrow> Store \<times> unit result" where
  "DeleteUser s userID =
     exec s
       (if \<not> has_user s userID then (s, Inl NotFound)
        else (s\<lparr>db_users := filter (\<lambda>u. us_ID u \<noteq> userID) (db_users s),
                db_identities := filter (\<lambda>i. id_UserID i \<noteq> userID) (db_identities s),
                db_allowed := filter (\<lambda>a. al_UserID a \<noteq> userID) (db_allowed s),
                db_policies := filter (\<lambda>p. up_UserID p \<noteq> userID) (db_policies s),
                db_agents := filter (\<lambda>a. ag_UserID a \<noteq> userID) (db_agents s),
                db_cron_jobs := filter (\<lambda>j. cj_UserID j \<noteq> userID) (db_cron_jobs s),
                db_at_jobs := filter (\<lambda>j. aj_UserID j \<noteq> userID) (db_at_jobs s)\<rparr>, Inr ()))"

definition IsUserEnabled :: "Store \<Rightarrow> string \<Rightarrow> bool result" where
  "IsUserEnabled s userID =
     fetch s (case find_first (\<lambda>u. us_ID u = userID) (db_users s) of
                None \<Rightarrow> Inr False | Some u \<Rightarrow> Inr (us_Enabled u))"

section \<open>Identities\<close>

definition AddIdentity :: "Store \<Rightarrow> string \<Rightarrow> string \<Rightarrow> string \<Rightarrow> time \<Rightarrow> Store \<times> unit result" where
  "AddIdentity s userID channelType channelIdentity ts =
     exec s
       (if \<exists>i \<in> set (db_identities s). id_ChannelType i = channelType \<and> id_ChannelIdentity i = channelIdentity
        then (s, Inr ())
        else if \<not> has_user s userID then (s, Inl ConstraintFailed)
        else let n = db_identity_seq s + 1;
                 row = \<lparr>id_ID = n, id_UserID = userID, id_ChannelType = channelType,
                        id_ChannelIdentity = channelIdentity, id_Verified = False, id_CreatedAt = ts\<rparr>
             in (s\<lparr>db_identities := db_identities s @ [row], db_identity_seq := n\<rparr>, Inr ()))"

definition RemoveIdentity :: "Store \<Rightarrow> int \<Rightarrow> Store \<times> unit result" where
  "RemoveIdentity s rowid =
     exec s
       (if \<exists>i \<in> set (db_identities s). id_ID i = rowid
        then (s\<lparr>db_identities := filter (\<lambda>i. id_ID i \<noteq> rowid) (db_identities s)\<rparr>, Inr ())
        else (s, Inl NotFound))"

text \<open>An unknown identity is the empty user id, not an error.\<close>

definition ResolveIdentity :: "Store \<Rightarrow> string \<Rightarrow> string \<Rightarrow> string result" where
  "ResolveIdentity s channelType channelIdentity =
     fetch s (case find_first (\<lambda>i. id_ChannelType i = channelType \<and> id_ChannelIdentity i = channelIdentity)
                     (db_identities s) of
                None \<Rightarrow> Inr [] | Some i \<Rightarrow> Inr (id_UserID i))"

section \<open>Allowlist\<close>

text \<open>
  The query orders the matching rows with the exact channel type first and takes one row;
  among rows of equal rank SQLite keeps the scan order.
\<close>

definition IsAllowed :: "Store \<Rightarrow> string \<Rightarrow> string \<Rightarrow> bool result" where
  "IsAllowed s userID channelType =
     fetch s
       (let rows = filter (\<lambda>a. al_UserID a = userID \<and> (al_ChannelType a = channelType \<or> al_ChannelType a = ''*''))
                     (db_allowed s)
        in case sort_key (\<lambda>a. al_ChannelType a \<noteq> channelType) rows of
             [] \<Rightarrow> Inr False
           | a # _ \<Rightarrow> Inr (al_Enabled a))"

definition SetAllowed :: "Store \<Rightarrow> string \<Rightarrow> string \<Rightarrow> bool \<Rightarrow> string \<Rightarrow> time \<Rightarrow> Store \<times> unit result" where
  "SetAllowed s userID channelType enabled createdBy ts =
     exec s
       (if \<exists>a \<in> set (db_allowed s). al_UserID a = userID \<and> al_ChannelType a = channelType
        then (s\<lparr>db_allowed := map (\<lambda>a. if al_UserID a = userID \<and> al_ChannelType a = channelType
                                      then a\<lparr>al_Enabled := enabled\<rparr> else a) (db_allowed s)\<rparr>, Inr ())
        else if \<not> has_user s userID then (s, Inl ConstraintFailed)
        else let n = db_allowed_seq s + 1;
                 row = \<lparr>al_ID = n, al_UserID = userID, al_ChannelType = channelType,
                        al_Enabled = enabled, al_CreatedAt = ts, al_CreatedBy = createdBy\<rparr>
             in (s\<lparr>db_allowed := db_allowed s @ [row], db_allowed_seq := n\<rparr>, Inr ()))"

definition RemoveAllowed :: "Store \<Rightarrow> string \<Rightarrow> string \<Rightarrow> Store \<times> unit result" where
  "RemoveAllowed s userID channelType =
     exec s
       (if \<exists>a \<in> set (db_allowed s). al_UserID a = userID \<and> al_ChannelType a = channelType
        then (s\<lparr>db_allowed := filter (\<lambda>a. \<not> (al_UserID a = userID \<and> al_ChannelType a = channelType))
                               (db_allowed s)\<rparr>, Inr ())
        else (s, Inl NotFound))"

section \<open>Policies\<close>

definition GetUserPolicy :: "Store \<Rightarrow> string \<Rightarrow> string \<Rightarrow> PolicyData option result" where
  "GetUserPolicy s userID policyType =
     fetch s (Inr (map_option up_Data
       (find_first (\<lambda>p. up_UserID p = userID \<and> up_PolicyType p = policyType) (db_policies s))))"

definition SetUserPolicy :: "Store \<Rightarrow> string \<Rightarrow> string \<Rightarrow> PolicyData \<Rightarrow> time \<Rightarrow> Store \<times> unit result" where
  "SetUserPolicy s userID policyType data ts =
     exec s
       (if \<exists>p \<in> set (db_policies s). up_UserID p = userID \<and> up_PolicyType p = policyType
        then (s\<lparr>db_policies := map (\<lambda>p. if up_UserID p = userID \<and> up_PolicyType p = policyType
                then p\<lparr>up_Data := data, up_UpdatedAt := ts\<rparr> else p) (db_policies s)\<rparr>, Inr ())
        else if \<not> has_user s userID then (s, Inl ConstraintFailed)
        else let n = db_policy_seq s + 1;
                 row = \<lparr>up_ID = n, up_UserID = userID, up_PolicyType = policyType, up_Data = data,
                        up_CreatedAt = ts, up_UpdatedAt = ts\<rparr>
             in (s\<lparr>db_policies := db_policies s @ [row], db_policy_seq := n\<rparr>, Inr ()))"

definition DeleteUserPolicy :: "Store \<Rightarrow> string \<Rightarrow> string \<Rightarrow> Store \<times> unit result" where
  "DeleteUserPolicy s userID policyType =
     exec s (s\<lparr>db_policies := filter (\<lambda>p. \<not> (up_UserID p = userID \<and> up_PolicyType p = policyType))
                                (db_policies s)\<rparr>, Inr ())"

text \<open>\<^verbatim>\<open>ORDER BY policy_type\<close> compares the bytes of the text.\<close>

definition ListUserPolicies :: "Store \<Rightarrow> string \<Rightarrow> UserPolicy list result" where
  "ListUserPolicies s userID =
     fetch s (Inr (sort_key up_PolicyType (filter (\<lambda>p. up_UserID p = userID) (db_policies s))))"

section \<open>Agents\<close>

definition agent_id :: "string \<Rightarrow> string \<Rightarrow> string" where
  "agent_id userID label = ''agt-'' @ userID @ ''-'' @ label"

definition GetAgent :: "Store \<Rightarrow> string \<Rightarrow> Agent result" where
  "GetAgent s agentID =
     fetch s (case find_first (\<lambda>a. ag_ID a = agentID) (db_agents s) of
                None \<Rightarrow> Inl NotFound | Some a \<Rightarrow> Inr a)"

definition GetAgentByTokenHash :: "Store \<Rightarrow> string \<Rightarrow> Agent result" where
  "GetAgentByTokenHash s tokenHash =
     fetch s (case find_first (\<lambda>a. ag_TokenHash a = tokenHash) (db_agents s) of
                None \<Rightarrow> Inl NotFound | Some a \<Rightarrow> Inr a)"

definition ProvisionAgent :: "Store \<Rightarrow> ProvisionAgentRequest \<Rightarrow> time \<Rightarrow> Store \<times> Agent result" where
  "ProvisionAgent s req ts =
     (let agentID = agent_id (pr_UserID req) (pr_Label req);
          row = \<lparr>ag_ID = agentID, ag_UserID = pr_UserID req, ag_Label = pr_Label req,
                 ag_TokenHash = pr_TokenHash req, ag_TokenPrefix = pr_TokenPrefix req,
                 ag_RMQUsername = [], ag_Status = AgentStatusProvisioned, ag_LastRegisteredAt = None,
                 ag_LastRegisteredIP = [], ag_CreatedAt = ts, ag_UpdatedAt = ts\<rparr>
      in exec s
           (if (\<exists>a \<in> set (db_agents s). ag_ID a = agentID
                   \<or> (ag_UserID a = pr_UserID req \<and> ag_Label a = pr_Label req))
               \<or> \<not> has_user s (pr_UserID req)
            then (s, Inl ConstraintFailed)
            else let s' = s\<lparr>db_agents := db_agents s @ [row]\<rparr> in (s', GetAgent s' agentID)))"

definition update_agent :: "Store \<Rightarrow> string \<Rightarrow> (Agent \<Rightarrow> Agent) \<Rightarrow> Store \<times> unit result" where
  "update_agent s agentID f =
     exec s (s\<lparr>db_agents := map (\<lambda>a. if ag_ID a = agentID then f a else a) (db_agents s)\<rparr>, Inr ())"

definition UpdateAgentStatus ::
  "Store \<Rightarrow> string \<Rightarrow> AgentStatus \<Rightarrow> AgentRegistrationMeta option \<Rightarrow> time \<Rightarrow> Store \<times> unit result" where
  "UpdateAgentStatus s agentID status meta ts =
     update_agent s agentID
       (case meta of
          Some m \<Rightarrow> (\<lambda>a. a\<lparr>ag_Status := status, ag_LastRegisteredAt := Some ts,
                          ag_LastRegisteredIP := am_IP m, ag_UpdatedAt := ts\<rparr>)
        | None \<Rightarrow> (\<lambda>a. a\<lparr>ag_Status := status, ag_UpdatedAt := ts\<rparr>))"

definition SetAgentRMQUsername :: "Store \<Rightarrow> string \<Rightarrow> string \<Rightarrow> time \<Rightarrow> Store \<times> unit result" where
  "SetAgentRMQUsername s agentID rmqUsername ts =
     update_agent s agentID (\<lambda>a. a\<lparr>ag_RMQUsername := rmqUsername, ag_UpdatedAt := ts\<rparr>)"

definition RotateAgentToken :: "Store \<Rightarrow> string \<Rightarrow> string \<Rightarrow> string \<Rightarrow> time \<Rightarrow> Store \<times> unit result" where
  "RotateAgentToken s agentID newTokenHash newTokenPrefix ts =
     update_agent s agentID
       (\<lambda>a. a\<lparr>ag_TokenHash := newTokenHash, ag_TokenPrefix := newTokenPrefix, ag_UpdatedAt := ts\<rparr>)"

definition RevokeAgent :: "Store \<Rightarrow> string \<Rightarrow> time \<Rightarrow> Store \<times> unit result" where
  "RevokeAgent s agentID ts =
     update_agent s agentID (\<lambda>a. a\<lparr>ag_Status := AgentStatusRevoked, ag_UpdatedAt := ts\<rparr>)"

definition DeleteAgent :: "Store \<Rightarrow> string \<Rightarrow> Store \<times> unit result" where
  "DeleteAgent s agentID =
     exec s
       (if \<exists>a \<in> set (db_agents s). ag_ID a = agentID
        then (s\<lparr>db_agents := filter (\<lambda>a. ag_ID a \<noteq> agentID) (db_agents s)\<rparr>, Inr ())
        else (s, Inl NotFound))"

section \<open>Scheduled jobs\<close>

definition ListCronJobs :: "Store \<Rightarrow> CronJob list result" where
  "ListCronJobs s = fetch s (Inr (sort_key (\<lambda>j. (cj_UserID j, cj_ID j)) (db_cron_jobs s)))"

definition ListCronJobsByUser :: "Store \<Rightarrow> string \<Rightarrow> CronJob list result" where
  "ListCronJobsByUser s userID =
     fetch s (Inr (sort_key cj_ID (filter (\<lambda>j. cj_UserID j = userID) (db_cron_jobs s))))"

definition AddCronJob :: "Store \<Rightarrow> CronJob \<Rightarrow> Store \<times> unit result" where
  "AddCronJob s job =
     exec s
       (if (\<exists>j \<in> set (db_cron_jobs s). cj_UserID j = cj_UserID job \<and> cj_ID j = cj_ID job)
           \<or> \<not> has_user s (cj_UserID job)
        then (s, Inl ConstraintFailed)
        else (s\<lparr>db_cron_jobs := db_cron_jobs s @ [job]\<rparr>, Inr ()))"

definition RemoveCronJob :: "Store \<Rightarrow> string \<Rightarrow> string \<Rightarrow> Store \<times> unit result" where
  "RemoveCronJob s jobID userID =
     exec s
       (if \<exists>j \<in> set (db_cron_jobs s). cj_ID j = jobID \<and> cj_UserID j = userID
        then (s\<lparr>db_cron_jobs := filter (\<lambda>j. \<not> (cj_ID j = jobID \<and> cj_UserID j = userID))
                                 (db_cron_jobs s)\<rparr>, Inr ())
        else (s, Inl NotFound))"

definition ListAtJobs :: "Store \<Rightarrow> AtJob list result" where
  "ListAtJobs s = fetch s (Inr (sort_key (\<lambda>j. (aj_UserID j, aj_RunAt j)) (db_at_jobs s)))"

definition ListAtJobsByUser :: "Store \<Rightarrow> string \<Rightarrow> AtJob list result" where
  "ListAtJobsByUser s userID =
     fetch s (Inr (sort_key aj_RunAt (filter (\<lambda>j. aj_UserID j = userID) (db_at_jobs s))))"

definition AddAtJob :: "Store \<Rightarrow> AtJob \<Rightarrow> Store \<times> unit result" where
  "AddAtJob s job =
     exec s
       (if (\<exists>j \<in> set (db_at_jobs s). aj_UserID j = aj_UserID job \<and> aj_ID j = aj_ID job)
           \<or> \<not> has_user s (aj_UserID job)
        then (s, Inl ConstraintFailed)
        else (s\<lparr>db_at_jobs := db_at_jobs s @ [job]\<rparr>, Inr ()))"

definition RemoveAtJob :: "Store \<Rightarrow> string \<Rightarrow> string \<Rightarrow> Store \<times> unit result" where
  "RemoveAtJob s jobID userID =
     exec s
       (if \<exists>j \<in> set (db_at_jobs s). aj_ID j = jobID \<and> aj_UserID j = userID
        then (s\<lparr>db_at_jobs := filter (\<lambda>j. \<not> (aj_ID j = jobID \<and> aj_UserID j = userID))
                               (db_at_jobs s)\<rparr>, Inr ())
        else (s, Inl NotFound))"

section \<open>Audit log\<close>

definition LogAdminAction :: "Store \<Rightarrow> AdminAuditEntry \<Rightarrow> time \<Rightarrow> Store \<times> unit result" where
  "LogAdminAction s entry now =
     (let e = (if au_Timestamp entry = zero_time then entry\<lparr>au_Timestamp := now\<rparr> else entry);
          n = db_audit_seq s + 1
      in exec s (s\<lparr>db_audit := db_audit s @ [e\<lparr>au_ID := n\<rparr>], db_audit_seq := n\<rparr>, Inr ()))"

section \<open>Integrity\<close>

text \<open>
  The constraints of the schema as an invariant: keys are unique, row ids are below their
  counter, and every row that names a user names an existing one.
\<close>

definition table_ok :: "string set \<Rightarrow> ('r \<Rightarrow> string) \<Rightarrow> ('r \<Rightarrow> 'k) \<Rightarrow> 'r list \<Rightarrow> bool" where
  "table_ok U owner key rows \<longleftrightarrow> distinct (map key rows) \<and> (\<forall>r \<in> set rows. owner r \<in> U)"

definition rowids_ok :: "('r \<Rightarrow> int) \<Rightarrow> int \<Rightarrow> 'r list \<Rightarrow> bool" where
  "rowids_ok rid seq rows \<longleftrightarrow> distinct (map rid rows) \<and> (\<forall>r \<in> set rows. rid r \<le> seq)"

definition user_ids :: "Store \<Rightarrow> string set" where
  "user_ids s = set (map us_ID (db_users s))"

definition store_wf :: "Store \<Rightarrow> bool" where
  "store_wf s \<longleftrightarrow>
     distinct (map us_ID (db_users s))
     \<and> table_ok (user_ids s) id_UserID (\<lambda>i. (id_ChannelType i, id_ChannelIdentity i)) (db_identities s)
     \<and> rowids_ok id_ID (db_identity_seq s) (db_identities s)
     \<and> table_ok (user_ids s) al_UserID (\<lambda>a. (al_UserID a, al_ChannelType a)) (db_allowed s)
     \<and> rowids_ok al_ID (db_allowed_seq s) (db_allowed s)
     \<and> table_ok (user_ids s) up_UserID (\<lambda>p. (up_UserID p, up_PolicyType p)) (db_policies s)
     \<and> rowids_ok up_ID (db_policy_seq s) (db_policies s)
     \<and> table_ok (user_ids s) ag_UserID (\<lambda>a. (ag_UserID a, ag_Label a)) (db_agents s)
     \<and> distinct (map ag_ID (db_agents s))
     \<and> table_ok (user_ids s) cj_UserID (\<lambda>j. (cj_UserID j, cj_ID j)) (db_cron_jobs s)
     \<and> table_ok (user_ids s) aj_UserID (\<lambda>j. (aj_UserID j, aj_ID j)) (db_at_jobs s)
     \<and> rowids_ok au_ID (db_audit_seq s) (db_audit s)"

lemma table_ok_Nil [simp]: "table_ok U owner key []"
  by (simp add: table_ok_def)

lemma table_ok_snoc [simp]:
  "table_ok U owner key (rows @ [r]) \<longleftrightarrow>
     table_ok U owner key rows \<and> owner r \<in> U \<and> key r \<notin> key ` set rows"
  by (auto simp: table_ok_def)

lemma table_ok_filter: "table_ok U owner key rows \<Longrightarrow> table_ok U owner key (filter P rows)"
  by (simp add: table_ok_def distinct_map_filter)

lemma table_ok_map:
  assumes "\<And>r. owner (f r) = owner r" "\<And>r. key (f r) = key r"
  shows "table_ok U owner key (map f rows) = table_ok U owner key rows"
  using assms by (simp add: table_ok_def comp_def)

lemma table_ok_mono: "table_ok U owner key rows \<Longrightarrow> U \<subseteq> U' \<Longrightarrow> table_ok U' owner key rows"
  by (auto simp: table_ok_def)

lemma table_ok_cascade:
  "table_ok U owner key rows \<Longrightarrow> table_ok (U - {u}) owner key (filter (\<lambda>r. owner r \<noteq> u) rows)"
  by (auto simp: table_ok_def distinct_map_filter)

lemma rowids_ok_Nil [simp]: "rowids_ok rid seq []"
  by (simp add: rowids_ok_def)

lemma rowids_ok_snoc: "rowids_ok rid seq rows \<Longrightarrow> rid r = seq + 1 \<Longrightarrow> rowids_ok rid (seq + 1) (rows @ [r])"
  by (force simp: rowids_ok_def)

lemma rowids_ok_filter: "rowids_ok rid seq rows \<Longrightarrow> rowids_ok rid seq (filter P rows)"
  by (simp add: rowids_ok_def distinct_map_filter)

lemma rowids_ok_map: "(\<And>r. rid (f r) = rid r) \<Longrightarrow> rowids_ok rid seq (map f rows) = rowids_ok rid seq rows"
  by (simp add: rowids_ok_def comp_def)

lemma has_user_iff: "has_user s u \<longleftrightarrow> u \<in> user_ids s"
  by (auto simp: has_user_def user_ids_def)

lemmas exec_simps = exec_def fetch_def Let_def

lemma store_wf_empty [keeps]: "store_wf emptyStore"
  by (simp add: store_wf_def emptyStore_def)

lemma store_wf_CreateUser [keeps]: "store_wf s \<Longrightarrow> store_wf (fst (CreateUser s req uid ts))"
  unfolding CreateUser_def exec_simps store_wf_def
  by (auto simp: has_user_iff user_ids_def intro: table_ok_mono)

lemma map_us_ID_write: "map us_ID (map (\<lambda>r. if us_ID r = uid then write_user u ts r else r) rows) = map us_ID rows"
  by (induction rows) (auto simp: write_user_def)

lemma store_wf_UpdateUser [keeps]: "store_wf s \<Longrightarrow> store_wf (fst (UpdateUser s uid upd ts))"
  unfolding UpdateUser_def exec_simps store_wf_def user_ids_def
  by (simp add: map_us_ID_write del: map_map set_map split: sum.split)

lemma store_wf_DeleteUser [keeps]:
  assumes "store_wf s"
  shows "store_wf (fst (DeleteUser s uid))"
proof -
  have "user_ids (fst (DeleteUser s uid)) = user_ids s - {uid}" if "db_open s" "has_user s uid"
    using that by (auto simp: DeleteUser_def exec_simps user_ids_def)
  with assms show ?thesis
    by (cases "db_open s \<and> has_user s uid")
       (auto simp: store_wf_def DeleteUser_def exec_simps distinct_map_filter
          intro: table_ok_cascade rowids_ok_filter)
qed

lemma store_wf_AddIdentity [keeps]: "store_wf s \<Longrightarrow> store_wf (fst (AddIdentity s uid c i ts))"
  unfolding AddIdentity_def exec_simps store_wf_def
  by (auto simp: has_user_iff user_ids_def intro: rowids_ok_snoc)

lemma store_wf_RemoveIdentity [keeps]: "store_wf s \<Longrightarrow> store_wf (fst (RemoveIdentity s rid))"
  unfolding RemoveIdentity_def exec_simps store_wf_def
  by (auto simp: user_ids_def intro: table_ok_filter rowids_ok_filter)

lemma store_wf_SetAllowed [keeps]: "store_wf s \<Longrightarrow> store_wf (fst (SetAllowed s uid c b who ts))"
  unfolding SetAllowed_def exec_simps store_wf_def
  by (auto simp: has_user_iff user_ids_def table_ok_map rowids_ok_map intro: rowids_ok_snoc)

lemma store_wf_RemoveAllowed [keeps]: "store_wf s \<Longrightarrow> store_wf (fst (RemoveAllowed s uid c))"
  unfolding RemoveAllowed_def exec_simps store_wf_def
  by (auto simp: user_ids_def intro: table_ok_filter rowids_ok_filter)

lemma store_wf_SetUserPolicy [keeps]: "store_wf s \<Longrightarrow> store_wf (fst (SetUserPolicy s uid t d ts))"
  unfolding SetUserPolicy_def exec_simps store_wf_def
  by (auto simp: has_user_iff user_ids_def table_ok_map rowids_ok_map intro: rowids_ok_snoc)

lemma store_wf_DeleteUserPolicy [keeps]: "store_wf s \<Longrightarrow> store_wf (fst (DeleteUserPolicy s uid t))"
  unfolding DeleteUserPolicy_def exec_simps store_wf_def
  by (auto simp: user_ids_def intro: table_ok_filter rowids_ok_filter)

lemma store_wf_ProvisionAgent [keeps]: "store_wf s \<Longrightarrow> store_wf (fst (ProvisionAgent s req ts))"
  unfolding ProvisionAgent_def exec_simps store_wf_def
  by (auto simp: has_user_iff user_ids_def)

lemma store_wf_update_agent [keeps]:
  assumes "store_wf s" "\<And>a. ag_ID (f a) = ag_ID a" "\<And>a. ag_UserID (f a) = ag_UserID a" "\<And>a. ag_Label (f a) = ag_Label a"
  shows "store_wf (fst (update_agent s aid f))"
proof -
  let ?g = "\<lambda>a. if ag_ID a = aid then f a else a"
  have "ag_ID (?g a) = ag_ID a" "ag_UserID (?g a) = ag_UserID a" "ag_Label (?g a) = ag_Label a" for a
    using assms(2-4) by auto
  with assms(1) show ?thesis
    unfolding update_agent_def exec_simps store_wf_def
    by (simp add: user_ids_def table_ok_map comp_def)
qed

lemma store_wf_agent_updates [keeps]:
  assumes "store_wf s"
  shows "store_wf (fst (UpdateAgentStatus s aid st meta ts))" "store_wf (fst (SetAgentRMQUsername s aid n ts))"
    "store_wf (fst (RotateAgentToken s aid h p ts))" "store_wf (fst (RevokeAgent s aid ts))"
  unfolding UpdateAgentStatus_def SetAgentRMQUsername_def RotateAgentToken_def RevokeAgent_def
  using assms by (auto intro!: store_wf_update_agent split: option.split)

lemma store_wf_DeleteAgent [keeps]: "store_wf s \<Longrightarrow> store_wf (fst (DeleteAgent s aid))"
  unfolding DeleteAgent_def exec_simps store_wf_def
  by (auto simp: user_ids_def distinct_map_filter intro: table_ok_filter)

lemma store_wf_jobs [keeps]:
  assumes "store_wf s"
  shows "store_wf (fst (AddCronJob s j))" "store_wf (fst (RemoveCronJob s jid uid))"
    "store_wf (fst (AddAtJob s j'))" "store_wf (fst (RemoveAtJob s jid uid))"
  using assms
  unfolding AddCronJob_def RemoveCronJob_def AddAtJob_def RemoveAtJob_def exec_simps store_wf_def
  by (auto simp: has_user_iff user_ids_def intro: table_ok_filter)

lemma store_wf_LogAdminAction [keeps]: "store_wf s \<Longrightarrow> store_wf (fst (LogAdminAction s e now))"
  unfolding LogAdminAction_def exec_simps store_wf_def
  by (auto simp: user_ids_def intro: rowids_ok_snoc)

lemma store_wf_Close [keeps]: "store_wf s \<Longrightarrow> store_wf (Close s)"
  by (simp add: Close_def store_wf_def user_ids_def)

text \<open>Every write of the store as a step; the reads do not change it.\<close>

inductive db_step :: "Store \<Rightarrow> Store \<Rightarrow> bool" where
  "db_step s (fst (CreateUser s req uid ts))"
| "db_step s (fst (UpdateUser s uid upd ts))"
| "db_step s (fst (DeleteUser s uid))"
| "db_step s (fst (AddIdentity s uid c i ts))"
| "db_step s (fst (RemoveIdentity s rid))"
| "db_step s (fst (SetAllowed s uid c b who ts))"
| "db_step s (fst (RemoveAllowed s uid c))"
| "db_step s (fst (SetUserPolicy s uid t d ts))"
| "db_step s (fst (DeleteUserPolicy s uid t))"
| "db_step s (fst (ProvisionAgent s preq ts))"
| "db_step s (fst (UpdateAgentStatus s aid st meta ts))"
| "db_step s (fst (SetAgentRMQUsername s aid n ts))"
| "db_step s (fst (RotateAgentToken s aid h p ts))"
| "db_step s (fst (RevokeAgent s aid ts))"
| "db_step s (fst (DeleteAgent s aid))"
| "db_step s (fst (AddCronJob s cj))"
| "db_step s (fst (RemoveCronJob s jid uid))"
| "db_step s (fst (AddAtJob s aj))"
| "db_step s (fst (RemoveAtJob s jid uid))"
| "db_step s (fst (LogAdminAction s e now))"
| "db_step s (Close s)"

lemma db_step_wf: "db_step s s' \<Longrightarrow> store_wf s \<Longrightarrow> store_wf s'"
  by (induction rule: db_step.induct) (auto intro: keeps)

lemma db_reachable_wf: "db_step\<^sup>*\<^sup>* s s' \<Longrightarrow> store_wf s \<Longrightarrow> store_wf s'"
  by (induction rule: rtranclp_induct) (auto intro: db_step_wf)

section \<open>Lookups\<close>

definition allow_row :: "Store \<Rightarrow> string \<Rightarrow> string \<Rightarrow> bool option" where
  "allow_row s u c =
     map_option al_Enabled (find_first (\<lambda>a. al_UserID a = u \<and> al_ChannelType a = c) (db_allowed s))"

definition owner_of :: "Store \<Rightarrow> string \<Rightarrow> string \<Rightarrow> string option" where
  "owner_of s c i =
     map_option id_UserID
       (find_first (\<lambda>x. id_ChannelType x = c \<and> id_ChannelIdentity x = i) (db_identities s))"

definition active_user :: "Store \<Rightarrow> string \<Rightarrow> bool" where
  "active_user s u \<longleftrightarrow> (\<exists>x \<in> set (db_users s). us_ID x = u \<and> us_Enabled x)"

lemma insort_key_bool:
  fixes f :: "'a \<Rightarrow> bool"
  shows "insort_key f x (filter (\<lambda>y. \<not> f y) xs @ filter f xs) =
    (if f x then filter (\<lambda>y. \<not> f y) xs @ x # filter f xs else x # filter (\<lambda>y. \<not> f y) xs @ filter f xs)"
proof -
  have front: "insort_key f x ys = x # ys" if "\<forall>y \<in> set ys. f x \<le> f y" for ys
    using that by (cases ys) auto
  have pass: "insort_key f x (as @ bs) = as @ insort_key f x bs" if "f x" "\<forall>a \<in> set as. \<not> f a" for as bs
    using that by (induction as) auto
  show ?thesis
  proof (cases "f x")
    case True
    have "insort_key f x (filter f xs) = x # filter f xs" by (rule front) auto
    with True pass [OF True, of "filter (\<lambda>y. \<not> f y) xs"] show ?thesis by simp
  next
    case False
    then show ?thesis by (auto intro: front)
  qed
qed

lemma sort_key_bool:
  fixes f :: "'a \<Rightarrow> bool"
  shows "sort_key f xs = filter (\<lambda>y. \<not> f y) xs @ filter f xs"
  by (induction xs) (simp_all add: insort_key_bool)

lemma find_first_filter: "find_first P xs = (case filter P xs of [] \<Rightarrow> None | x # _ \<Rightarrow> Some x)"
  by (induction xs) auto

text \<open>The allowlist query prefers the row of the channel and falls back to the wildcard row.\<close>

lemma IsAllowed_rows:
  assumes "db_open s"
  shows "IsAllowed s u c =
    Inr (case allow_row s u c of Some b \<Rightarrow> b
         | None \<Rightarrow> (case allow_row s u ''*'' of Some b \<Rightarrow> b | None \<Rightarrow> False))"
proof -
  let ?m = "\<lambda>a. al_UserID a = u \<and> (al_ChannelType a = c \<or> al_ChannelType a = ''*'')"
  have e: "filter (\<lambda>a. al_UserID a = u \<and> al_ChannelType a = c) (db_allowed s)
      = filter (\<lambda>y. \<not> al_ChannelType y \<noteq> c) (filter ?m (db_allowed s))"
    by (auto intro: filter_cong)
  have w: "filter (\<lambda>a. al_UserID a = u \<and> al_ChannelType a = ''*'') (db_allowed s)
      = filter (\<lambda>y. al_ChannelType y \<noteq> c) (filter ?m (db_allowed s))" if "c \<noteq> ''*''"
    using that by (auto intro: filter_cong)
  show ?thesis
  proof (cases "c = ''*''")
    case True
    with assms show ?thesis
      by (auto simp: IsAllowed_def fetch_def allow_row_def find_first_filter sort_key_bool Let_def
          split: list.splits)
  next
    case False
    from w [OF False] e assms show ?thesis
      by (auto simp: IsAllowed_def fetch_def allow_row_def find_first_filter sort_key_bool Let_def
          simp del: filter_filter split: list.splits)
  qed
qed

lemma ResolveIdentity_owner:
  "db_open s \<Longrightarrow> ResolveIdentity s c i = Inr (case owner_of s c i of None \<Rightarrow> [] | Some u \<Rightarrow> u)"
  by (simp add: ResolveIdentity_def fetch_def owner_of_def split: option.split)

lemma IsUserEnabled_active:
  assumes "db_open s" "store_wf s"
  shows "IsUserEnabled s u = Inr (active_user s u)"
proof (cases "find_first (\<lambda>x. us_ID x = u) (db_users s)")
  case None
  then have "\<not> active_user s u" by (auto simp: active_user_def find_first_None_iff)
  with None assms(1) show ?thesis by (simp add: IsUserEnabled_def fetch_def)
next
  case (Some x)
  from find_first_SomeD [OF Some] have x: "x \<in> set (db_users s)" "us_ID x = u" by auto
  have "inj_on us_ID (set (db_users s))" using assms(2) by (simp add: store_wf_def distinct_map)
  then have "y = x" if "y \<in> set (db_users s)" "us_ID y = u" for y
    using x that by (auto dest: inj_onD)
  with x have "active_user s u = us_Enabled x" unfolding active_user_def by blast
  with Some assms(1) show ?thesis by (simp add: IsUserEnabled_def fetch_def)
qed

lemma find_first_snoc: "find_first P (xs @ [x]) = (case find_first P xs of None \<Rightarrow> (if P x then Some x else None) | Some y \<Rightarrow> Some y)"
  by (simp add: find_first_append split: option.split)

lemma owner_AddIdentity:
  assumes "AddIdentity s u c i ts = (s', Inr ())"
  shows "owner_of s' c' i' =
    (if c' = c \<and> i' = i \<and> owner_of s c i = None then Some u else owner_of s c' i')"
proof (cases "\<exists>x \<in> set (db_identities s). id_ChannelType x = c \<and> id_ChannelIdentity x = i")
  case True
  then have "find_first (\<lambda>x. id_ChannelType x = c \<and> id_ChannelIdentity x = i) (db_identities s) \<noteq> None"
    by (auto simp only: find_first_None_iff)
  with True assms show ?thesis by (auto simp: AddIdentity_def exec_simps owner_of_def split: if_splits)
next
  case False
  then have "find_first (\<lambda>x. id_ChannelType x = c \<and> id_ChannelIdentity x = i) (db_identities s) = None"
    by (auto simp: find_first_None_iff)
  with False assms show ?thesis
    by (auto simp: AddIdentity_def exec_simps owner_of_def find_first_snoc split: if_splits option.splits)
qed

lemma find_first_map:
  "(\<And>x. P (f x) = P x) \<Longrightarrow> find_first P (map f xs) = map_option f (find_first P xs)"
  by (induction xs) auto

lemma allow_row_SetAllowed:
  assumes "SetAllowed s u c b who ts = (s', Inr ())"
  shows "allow_row s' u' c' = (if u' = u \<and> c' = c then Some b else allow_row s u' c')"
proof (cases "\<exists>a \<in> set (db_allowed s). al_UserID a = u \<and> al_ChannelType a = c")
  case True
  let ?f = "\<lambda>a. if al_UserID a = u \<and> al_ChannelType a = c then a\<lparr>al_Enabled := b\<rparr> else a"
  have s': "db_allowed s' = map ?f (db_allowed s)"
    using assms True by (auto simp: SetAllowed_def exec_simps split: if_splits)
  have ff: "find_first (\<lambda>a. al_UserID a = u' \<and> al_ChannelType a = c') (map ?f (db_allowed s))
      = map_option ?f (find_first (\<lambda>a. al_UserID a = u' \<and> al_ChannelType a = c') (db_allowed s))"
    by (rule find_first_map) auto
  show ?thesis
  proof (cases "find_first (\<lambda>a. al_UserID a = u' \<and> al_ChannelType a = c') (db_allowed s)")
    case None
    with True have "\<not> (u' = u \<and> c' = c)" by (auto simp: find_first_None_iff)
    with None show ?thesis by (simp add: allow_row_def s' ff)
  next
    case (Some a)
    with find_first_SomeD [OF Some] show ?thesis by (auto simp: allow_row_def s' ff)
  qed
next
  case False
  then have "find_first (\<lambda>a. al_UserID a = u \<and> al_ChannelType a = c) (db_allowed s) = None"
    by (auto simp: find_first_None_iff)
  with False assms show ?thesis
    by (auto simp: SetAllowed_def exec_simps allow_row_def find_first_snoc split: if_splits option.splits)
qed

section \<open>The repository interface\<close>

text \<open>
  The methods of \<^verbatim>\<open>datastore.Repository\<close> that the message pipeline calls, over an arbitrary
  backend state. Reads return the state too, since a backend may cache.
\<close>

record 's Repository =
  repo_IsUserEnabled :: "'s \<Rightarrow> string \<Rightarrow> 's \<times> bool result"
  repo_IsAllowed :: "'s \<Rightarrow> string \<Rightarrow> string \<Rightarrow> 's \<times> bool result"
  repo_ResolveIdentity :: "'s \<Rightarrow> string \<Rightarrow> string \<Rightarrow> 's \<times> string result"
  repo_AddIdentity :: "'s \<Rightarrow> string \<Rightarrow> string \<Rightarrow> string \<Rightarrow> time \<Rightarrow> 's \<times> unit result"
  repo_LogAdminAction :: "'s \<Rightarrow> AdminAuditEntry \<Rightarrow> time \<Rightarrow> 's \<times> unit result"

definition sqlite_repo :: "Store Repository" where
  "sqlite_repo =
     \<lparr>repo_IsUserEnabled = (\<lambda>s u. (s, IsUserEnabled s u)),
      repo_IsAllowed = (\<lambda>s u c. (s, IsAllowed s u c)),
      repo_ResolveIdentity = (\<lambda>s c i. (s, ResolveIdentity s c i)),
      repo_AddIdentity = AddIdentity,
      repo_LogAdminAction = LogAdminAction\<rparr>"

lemma sqlite_repo_simps [simp]:
  "repo_IsUserEnabled sqlite_repo s u = (s, IsUserEnabled s u)"
  "repo_IsAllowed sqlite_repo s u c = (s, IsAllowed s u c)"
  "repo_ResolveIdentity sqlite_repo s c i = (s, ResolveIdentity s c i)"
  "repo_AddIdentity sqlite_repo = AddIdentity"
  "repo_LogAdminAction sqlite_repo = LogAdminAction"
  by (simp_all add: sqlite_repo_def)

text \<open>
  What the pipeline relies on: a read that answers tells the truth about accounts, allowlist
  rows and identities and does not change them, an alias is learned only for an identity
  nobody owns, and writing the audit log changes none of the three.
\<close>

locale access_store =
  fixes repo :: "'s Repository"
    and inv :: "'s \<Rightarrow> bool"
    and active :: "'s \<Rightarrow> string \<Rightarrow> bool"
    and allow :: "'s \<Rightarrow> string \<Rightarrow> string \<Rightarrow> bool option"
    and owner :: "'s \<Rightarrow> string \<Rightarrow> string \<Rightarrow> string option"
  assumes enabled_frame: "inv s \<Longrightarrow> repo_IsUserEnabled repo s u = (s', r)
      \<Longrightarrow> inv s' \<and> active s' = active s \<and> allow s' = allow s \<and> owner s' = owner s"
    and enabled_true: "inv s \<Longrightarrow> repo_IsUserEnabled repo s u = (s', Inr b) \<Longrightarrow> b = active s u"
    and allowed_frame: "inv s \<Longrightarrow> repo_IsAllowed repo s u c = (s', r)
      \<Longrightarrow> inv s' \<and> active s' = active s \<and> allow s' = allow s \<and> owner s' = owner s"
    and allowed_true: "inv s \<Longrightarrow> repo_IsAllowed repo s u c = (s', Inr b)
      \<Longrightarrow> b = (case allow s u c of Some b \<Rightarrow> b
             | None \<Rightarrow> (case allow s u ''*'' of Some b \<Rightarrow> b | None \<Rightarrow> False))"
    and resolve_frame: "inv s \<Longrightarrow> repo_ResolveIdentity repo s c i = (s', rs)
      \<Longrightarrow> inv s' \<and> active s' = active s \<and> allow s' = allow s \<and> owner s' = owner s"
    and resolve_true: "inv s \<Longrightarrow> repo_ResolveIdentity repo s c i = (s', Inr u)
      \<Longrightarrow> u = (case owner s c i of None \<Rightarrow> [] | Some v \<Rightarrow> v)"
    and add_frame: "inv s \<Longrightarrow> repo_AddIdentity repo s u c i ts = (s', ru)
      \<Longrightarrow> inv s' \<and> active s' = active s \<and> allow s' = allow s"
    and add_owner: "inv s \<Longrightarrow> repo_AddIdentity repo s u c i ts = (s', ru) \<Longrightarrow> owner s c' i' = Some v
      \<Longrightarrow> owner s' c' i' = Some v"
    and log_frame: "inv s \<Longrightarrow> repo_LogAdminAction repo s e ts = (s', ru)
      \<Longrightarrow> inv s' \<and> active s' = active s \<and> allow s' = allow s \<and> owner s' = owner s"

lemma AddIdentity_frame:
  "AddIdentity s u c i ts = (s', r) \<Longrightarrow> (store_wf s \<longrightarrow> store_wf s') \<and> db_users s' = db_users s \<and> db_allowed s' = db_allowed s
     \<and> db_open s' = db_open s"
  using store_wf_AddIdentity [of s u c i ts] by (auto simp: AddIdentity_def exec_simps split: if_splits)

lemma AddIdentity_failed: "AddIdentity s u c i ts = (s', Inl e) \<Longrightarrow> s' = s"
  by (auto simp: AddIdentity_def exec_simps split: if_splits)

lemma LogAdminAction_frame:
  "LogAdminAction s e ts = (s', r) \<Longrightarrow> (store_wf s \<longrightarrow> store_wf s') \<and> db_users s' = db_users s
     \<and> db_allowed s' = db_allowed s \<and> db_identities s' = db_identities s \<and> db_open s' = db_open s"
  using store_wf_LogAdminAction [of s e ts] by (auto simp: LogAdminAction_def exec_simps split: if_splits)

lemma AddIdentity_keeps_owner:
  assumes "AddIdentity s u c i ts = (s', r)" "owner_of s c' i' = Some v"
  shows "owner_of s' c' i' = Some v"
proof (cases r)
  case (Inl e)
  with assms show ?thesis by (auto dest: AddIdentity_failed)
next
  case (Inr b)
  with assms(1) have "AddIdentity s u c i ts = (s', Inr ())" by simp
  from owner_AddIdentity [OF this, of c' i'] assms(2) show ?thesis by auto
qed

lemma frame_views:
  "db_users s' = db_users s \<Longrightarrow> active_user s' = active_user s"
  "db_allowed s' = db_allowed s \<Longrightarrow> allow_row s' = allow_row s"
  "db_identities s' = db_identities s \<Longrightarrow> owner_of s' = owner_of s"
  by (auto simp: active_user_def allow_row_def owner_of_def fun_eq_iff)

lemma closed_fails:
  "\<not> db_open s \<Longrightarrow> IsUserEnabled s u = Inl DbFailure"
  "\<not> db_open s \<Longrightarrow> IsAllowed s u c = Inl DbFailure"
  "\<not> db_open s \<Longrightarrow> ResolveIdentity s c i = Inl DbFailure"
  by (simp_all add: IsUserEnabled_def IsAllowed_def ResolveIdentity_def fetch_def)

lemma answers_true:
  assumes "store_wf s"
  shows "IsUserEnabled s u = Inr b \<Longrightarrow> b = active_user s u"
    and "IsAllowed s u c = Inr b \<Longrightarrow> b = (case allow_row s u c of Some b \<Rightarrow> b
          | None \<Rightarrow> (case allow_row s u ''*'' of Some b \<Rightarrow> b | None \<Rightarrow> False))"
    and "ResolveIdentity s c i = Inr v \<Longrightarrow> v = (case owner_of s c i of None \<Rightarrow> [] | Some w \<Rightarrow> w)"
  using assms
  by (cases "db_open s"; simp add: IsUserEnabled_active IsAllowed_rows ResolveIdentity_owner closed_fails)+

interpretation sq: access_store sqlite_repo store_wf active_user allow_row owner_of
  apply unfold_locales
  subgoal by simp
  subgoal by (rule answers_true(1)) auto
  subgoal by simp
  subgoal by (rule answers_true(2)) auto
  subgoal by simp
  subgoal by (rule answers_true(3)) auto
  subgoal for s u c i ts s' ru using AddIdentity_frame [of s u c i ts s' ru] frame_views [of s' s] by simp
  subgoal by (auto dest: AddIdentity_keeps_owner)
  subgoal for s e ts s' ru using LogAdminAction_frame [of s e ts s' ru] frame_views [of s' s] by simp
  done

section \<open>Properties\<close>

text \<open>
  C17: whatever sequence of writes reaches it, the store satisfies its schema: user ids, the
  identity pairs, the allowlist, policy, agent and job keys are unique, row ids lie below
  their counters, and every row that names a user names an existing user.
\<close>

theorem store_integrity:
  assumes "db_step\<^sup>*\<^sup>* emptyStore s"
  shows "store_wf s"
  using assms store_wf_empty by (rule db_reachable_wf)

theorem store_integrity_witness:
  "store_wf (fst (AddIdentity
     (fst (CreateUser emptyStore \<lparr>cr_Name = ''ann'', cr_DefaultModel = [], cr_Preferences = None\<rparr> ''usr_1'' 5))
     ''usr_1'' ''slack'' ''U1'' 6))"
proof -
  let ?req = "\<lparr>cr_Name = ''ann'', cr_DefaultModel = [], cr_Preferences = None\<rparr> :: CreateUserRequest"
  have "db_step emptyStore (fst (CreateUser emptyStore ?req ''usr_1'' 5))" by (rule db_step.intros)
  moreover have "db_step (fst (CreateUser emptyStore ?req ''usr_1'' 5))
      (fst (AddIdentity (fst (CreateUser emptyStore ?req ''usr_1'' 5)) ''usr_1'' ''slack'' ''U1'' 6))"
    by (rule db_step.intros)
  ultimately show ?thesis by (intro store_integrity) (rule converse_rtranclp_into_rtranclp, assumption, rule r_into_rtranclp)
qed

text \<open>
  Linking identities is first come, first served. After a successful \<^verbatim>\<open>AddIdentity\<close> the
  pair resolves to its previous owner if it had one and to the given user otherwise, and
  every other pair resolves as before: a link cannot be taken over by adding it again.
\<close>

theorem identity_first_claim:
  assumes "AddIdentity s u c i ts = (s', Inr ())"
  shows "ResolveIdentity s' c' i' =
    (if c' = c \<and> i' = i \<and> owner_of s c i = None then Inr u else ResolveIdentity s c' i')"
proof -
  from assms have "db_open s" by (auto simp: AddIdentity_def exec_def split: if_splits)
  moreover with AddIdentity_frame [OF assms] have "db_open s'" by simp
  ultimately show ?thesis by (auto simp: ResolveIdentity_owner owner_AddIdentity [OF assms])
qed

theorem identity_first_claim_witness:
  "let s0 = fst (CreateUser emptyStore \<lparr>cr_Name = ''ann'', cr_DefaultModel = [], cr_Preferences = None\<rparr> ''usr_1'' 5);
       s1 = fst (AddIdentity s0 ''usr_1'' ''slack'' ''U1'' 6)
   in ResolveIdentity s1 ''slack'' ''U1'' = Inr ''usr_1''
      \<and> ResolveIdentity (fst (AddIdentity s1 ''usr_2'' ''slack'' ''U1'' 7)) ''slack'' ''U1'' = Inr ''usr_1''"
proof -
  let ?s0 = "fst (CreateUser emptyStore \<lparr>cr_Name = ''ann'', cr_DefaultModel = [], cr_Preferences = None\<rparr> ''usr_1'' 5)"
  let ?s1 = "fst (AddIdentity ?s0 ''usr_1'' ''slack'' ''U1'' 6)"
  have a: "AddIdentity ?s0 ''usr_1'' ''slack'' ''U1'' 6 = (?s1, Inr ())"
    by (simp add: AddIdentity_def CreateUser_def emptyStore_def exec_simps has_user_def)
  have b: "AddIdentity ?s1 ''usr_2'' ''slack'' ''U1'' 7 = (fst (AddIdentity ?s1 ''usr_2'' ''slack'' ''U1'' 7), Inr ())"
    by (simp add: AddIdentity_def CreateUser_def emptyStore_def exec_simps has_user_def)
  have o0: "owner_of ?s0 ''slack'' ''U1'' = None" and o1: "owner_of ?s1 ''slack'' ''U1'' = Some ''usr_1''"
    by (simp_all add: owner_of_def AddIdentity_def CreateUser_def emptyStore_def exec_simps has_user_def)
  show ?thesis
    using identity_first_claim [OF a, of "''slack''" "''U1''"] identity_first_claim [OF b, of "''slack''" "''U1''"] o0 o1
    by (simp only: Let_def if_True HOL.simp_thms option.distinct if_False)
qed

lemma find_first_owner_filter:
  "find_first P (filter (\<lambda>r. owner r \<noteq> u) rows) = find_first (\<lambda>r. P r \<and> owner r \<noteq> u) rows"
  by (induction rows) auto

lemma find_first_none: "(\<And>x. x \<in> set xs \<Longrightarrow> \<not> P x) \<Longrightarrow> find_first P xs = None"
  by (auto simp: find_first_None_iff)

text \<open>
  Deleting a user removes every trace that grants access: no identity resolves to the
  user any more, the account is not enabled, no allowlist row, no agent token and no job of
  the user is left; accounts, allowlist decisions and agents of other users are unchanged.
\<close>

theorem delete_user_cascades:
  assumes "DeleteUser s u = (s', Inr ())" and "u \<noteq> []"
  shows "ResolveIdentity s' c i \<noteq> Inr u \<and> IsUserEnabled s' u = Inr False \<and> IsAllowed s' u c = Inr False
    \<and> (\<forall>a. GetAgentByTokenHash s' h = Inr a \<longrightarrow> ag_UserID a \<noteq> u)
    \<and> ListCronJobsByUser s' u = Inr [] \<and> ListAtJobsByUser s' u = Inr []
    \<and> (v \<noteq> u \<longrightarrow> IsUserEnabled s' v = IsUserEnabled s v \<and> IsAllowed s' v c = IsAllowed s v c)"
proof -
  have op: "db_open s" and s': "db_users s' = filter (\<lambda>x. us_ID x \<noteq> u) (db_users s)"
    "db_identities s' = filter (\<lambda>x. id_UserID x \<noteq> u) (db_identities s)"
    "db_allowed s' = filter (\<lambda>x. al_UserID x \<noteq> u) (db_allowed s)"
    "db_agents s' = filter (\<lambda>x. ag_UserID x \<noteq> u) (db_agents s)"
    "db_cron_jobs s' = filter (\<lambda>x. cj_UserID x \<noteq> u) (db_cron_jobs s)"
    "db_at_jobs s' = filter (\<lambda>x. aj_UserID x \<noteq> u) (db_at_jobs s)" "db_open s'"
    using assms(1) by (auto simp: DeleteUser_def exec_def split: if_splits)
  have r: "ResolveIdentity s' c i \<noteq> Inr u"
    using assms(2) s'(7) by (auto simp: ResolveIdentity_def fetch_def s' split: option.splits dest!: find_first_SomeD)
  have row: "allow_row s' u c' = None" for c'
    by (auto simp: allow_row_def s' intro!: find_first_none)
  have same: "v \<noteq> u \<Longrightarrow> allow_row s' v c' = allow_row s v c'" for c'
    by (simp add: allow_row_def s' find_first_owner_filter) (metis (mono_tags, lifting))
  have en: "IsUserEnabled s' u = Inr False" using s'(7) find_first_none [of "db_users s'" "\<lambda>x. us_ID x = u"]
    by (simp add: IsUserEnabled_def fetch_def s')
  have en': "v \<noteq> u \<Longrightarrow> IsUserEnabled s' v = IsUserEnabled s v"
    using s'(7) op by (simp add: IsUserEnabled_def fetch_def s' find_first_owner_filter) (metis (mono_tags, lifting))
  have ag: "GetAgentByTokenHash s' h = Inr a \<Longrightarrow> ag_UserID a \<noteq> u" for a
    by (auto simp: GetAgentByTokenHash_def fetch_def s' split: option.splits if_splits dest!: find_first_SomeD)
  have al: "v \<noteq> u \<Longrightarrow> IsAllowed s' v c = IsAllowed s v c"
    by (simp add: IsAllowed_rows s'(7) op same split: option.split)
  show ?thesis
    using r row al en en' ag s'(7)
    by (auto simp: IsAllowed_rows ListCronJobsByUser_def ListAtJobsByUser_def fetch_def s'(5,6))
qed

theorem delete_user_cascades_witness:
  "let s0 = fst (CreateUser emptyStore \<lparr>cr_Name = ''ann'', cr_DefaultModel = [], cr_Preferences = None\<rparr> ''usr_1'' 5);
       s1 = fst (AddIdentity s0 ''usr_1'' ''slack'' ''U1'' 6)
   in ResolveIdentity s1 ''slack'' ''U1'' = Inr ''usr_1''
      \<and> ResolveIdentity (fst (DeleteUser s1 ''usr_1'')) ''slack'' ''U1'' \<noteq> Inr ''usr_1''"
proof -
  let ?s0 = "fst (CreateUser emptyStore \<lparr>cr_Name = ''ann'', cr_DefaultModel = [], cr_Preferences = None\<rparr> ''usr_1'' 5)"
  let ?s1 = "fst (AddIdentity ?s0 ''usr_1'' ''slack'' ''U1'' 6)"
  have d: "DeleteUser ?s1 ''usr_1'' = (fst (DeleteUser ?s1 ''usr_1''), Inr ())"
    by (simp add: DeleteUser_def AddIdentity_def CreateUser_def emptyStore_def exec_simps has_user_def)
  have "ResolveIdentity ?s1 ''slack'' ''U1'' = Inr ''usr_1''"
    by (simp add: ResolveIdentity_def AddIdentity_def CreateUser_def emptyStore_def exec_simps has_user_def)
  with delete_user_cascades [OF d, of "''slack''" "''U1''"] show ?thesis by (simp only: Let_def) simp
qed

end
