(* ===== verification/Guard.thy ===== *)
theory Guard
  imports Datastore
begin

text \<open>
  The allowlist guard (\<^verbatim>\<open>internal/allowlist/guard.go\<close>), written against the repository
  interface. What it decides is proved once for every backend that meets \<open>access_store\<close>;
  the SQLite store is the instance the gateway runs on.
\<close>

section \<open>Model\<close>

datatype RejectionReason = RejectionUnknownIdentity | RejectionUserDisabled | RejectionNotInAllowlist

fun reason_text :: "RejectionReason \<Rightarrow> string" where
  "reason_text RejectionUnknownIdentity = ''unknown_identity''"
| "reason_text RejectionUserDisabled = ''user_disabled''"
| "reason_text RejectionNotInAllowlist = ''not_in_allowlist''"

text \<open>The JSON object of the details; \<^verbatim>\<open>json.Marshal\<close> sorts the keys of a map.\<close>

definition rejection_details :: "RejectionReason \<Rightarrow> string \<Rightarrow> string" where
  "rejection_details reason channelType =
     ''{'' @ json_string ''channel_identity'' @ '':'' @ json_string ''[REDACTED]'' @ '',''
           @ json_string ''channel_type'' @ '':'' @ json_string channelType @ '',''
           @ json_string ''reason'' @ '':'' @ json_string (reason_text reason) @ ''}''"

definition rejection_entry :: "RejectionReason \<Rightarrow> string \<Rightarrow> string \<Rightarrow> time \<Rightarrow> AdminAuditEntry" where
  "rejection_entry reason channelType userID now =
     \<lparr>au_ID = 0, au_Timestamp = now, au_Action = ''message.rejected'', au_Actor = ''system'',
      au_TargetUserID = userID, au_Details = rejection_details reason channelType, au_IPAddress = []\<rparr>"

text \<open>A failure to write the audit entry is logged and otherwise ignored.\<close>

definition writeRejection ::
  "'s Repository \<Rightarrow> 's \<Rightarrow> RejectionReason \<Rightarrow> string \<Rightarrow> string \<Rightarrow> string \<Rightarrow> time \<Rightarrow> 's" where
  "writeRejection repo s reason channelType channelIdentity userID now =
     fst (repo_LogAdminAction repo s (rejection_entry reason channelType userID now) now)"

definition Guard_Check ::
  "'s Repository \<Rightarrow> 's \<Rightarrow> string \<Rightarrow> string \<Rightarrow> string \<Rightarrow> time \<Rightarrow> 's \<times> bool result" where
  "Guard_Check repo s userID channelType channelIdentity now =
     (if userID = [] then
        (writeRejection repo s RejectionUnknownIdentity channelType channelIdentity [] now, Inr False)
      else case repo_IsUserEnabled repo s userID of
        (s1, Inl e) \<Rightarrow> (s1, Inl e)
      | (s1, Inr enabled) \<Rightarrow>
          if \<not> enabled then
            (writeRejection repo s1 RejectionUserDisabled channelType channelIdentity userID now, Inr False)
          else case repo_IsAllowed repo s1 userID channelType of
            (s2, Inl e) \<Rightarrow> (s2, Inl e)
          | (s2, Inr True) \<Rightarrow> (s2, Inr True)
          | (s2, Inr False) \<Rightarrow>
              (case repo_IsAllowed repo s2 userID ''*'' of
                 (s3, Inl e) \<Rightarrow> (s3, Inl e)
               | (s3, Inr True) \<Rightarrow> (s3, Inr True)
               | (s3, Inr False) \<Rightarrow>
                   (writeRejection repo s3 RejectionNotInAllowlist channelType channelIdentity userID now,
                    Inr False)))"

section \<open>What the guard decides\<close>

context access_store
begin

lemma reject_frame:
  assumes "inv s"
  shows "inv (writeRejection repo s reason c i u now)
    \<and> active (writeRejection repo s reason c i u now) = active s
    \<and> allow (writeRejection repo s reason c i u now) = allow s
    \<and> owner (writeRejection repo s reason c i u now) = owner s"
  using log_frame [OF assms] unfolding writeRejection_def
  by (cases "repo_LogAdminAction repo s (rejection_entry reason c u now) now") force

definition permits :: "'s \<Rightarrow> string \<Rightarrow> string \<Rightarrow> bool" where
  "permits s u c \<longleftrightarrow> u \<noteq> [] \<and> active s u \<and> (allow s u c = Some True \<or> allow s u ''*'' = Some True)"

text \<open>The two allowlist queries of a check on an enabled account.\<close>

lemma allow_stage:
  assumes inv: "inv s" and al: "repo_IsAllowed repo s u c = (s2, Inr False)"
    and wl: "repo_IsAllowed repo s2 u ''*'' = (s3, Inr w)"
  shows "w = (allow s u c = Some True \<or> allow s u ''*'' = Some True)"
proof -
  from allowed_frame [OF inv al] have inv2: "inv s2" and same: "allow s2 = allow s" by auto
  have "(case allow s u c of Some d \<Rightarrow> d | None \<Rightarrow> (case allow s u ''*'' of Some d \<Rightarrow> d | None \<Rightarrow> False)) = False"
    using allowed_true [OF inv al] by simp
  moreover have "w = (case allow s u ''*'' of Some d \<Rightarrow> d | None \<Rightarrow> (case allow s u ''*'' of Some d \<Rightarrow> d | None \<Rightarrow> False))"
    using allowed_true [OF inv2 wl] unfolding same .
  ultimately show ?thesis by (auto split: option.splits)
qed

lemma allow_stage_first:
  assumes "inv s" "repo_IsAllowed repo s u c = (s2, Inr True)"
  shows "allow s u c = Some True \<or> allow s u ''*'' = Some True"
  using allowed_true [OF assms] by (auto split: option.splits)

text \<open>The outcome of a check: an error, a rejection, or an admission.\<close>

lemma check_exact:
  assumes inv: "inv s" and run: "Guard_Check repo s u c i now = (s', Inr b)"
  shows "b = permits s u c"
proof (cases "u = []")
  case True
  with run show ?thesis by (auto simp: Guard_Check_def permits_def)
next
  case False
  obtain s1 r1 where en: "repo_IsUserEnabled repo s u = (s1, r1)" by force
  with run False obtain e where r1: "r1 = Inr e" by (cases r1) (auto simp: Guard_Check_def)
  from enabled_true [OF inv] en r1 have e: "e = active s u" by simp
  from enabled_frame [OF inv en] have inv1: "inv s1" and same: "allow s1 = allow s" by auto
  obtain s2 r2 where al: "repo_IsAllowed repo s1 u c = (s2, r2)" by force
  obtain s3 r3 where wl: "repo_IsAllowed repo s2 u ''*'' = (s3, r3)" by force
  from run en r1 al wl False have outcome:
    "b \<longleftrightarrow> e \<and> (r2 = Inr True \<or> r2 = Inr False \<and> r3 = Inr True)"
    "e \<Longrightarrow> r2 \<noteq> Inr True \<Longrightarrow> r2 = Inr False \<and> (\<exists>w. r3 = Inr w)"
    by (auto simp: Guard_Check_def split: sum.splits bool.splits if_splits)
  from outcome False e same show ?thesis
    using allow_stage_first [OF inv1, of u c s2] allow_stage [OF inv1, of u c s2 s3] al wl
    by (auto simp: permits_def)
qed

lemma check_frame:
  assumes inv: "inv s" and run: "Guard_Check repo s u c i now = (s', r)"
  shows "inv s' \<and> active s' = active s \<and> allow s' = allow s \<and> owner s' = owner s"
proof -
  obtain s1 r1 where en: "repo_IsUserEnabled repo s u = (s1, r1)" by force
  obtain s2 r2 where al: "repo_IsAllowed repo s1 u c = (s2, r2)" by force
  obtain s3 r3 where wl: "repo_IsAllowed repo s2 u ''*'' = (s3, r3)" by force
  note f1 = enabled_frame [OF inv en]
  note f2 = allowed_frame [OF conjunct1 [OF f1] al]
  note f3 = allowed_frame [OF conjunct1 [OF f2] wl]
  have "s' \<in> {s1, s2, s3} \<or> (\<exists>t reason v. t \<in> {s, s1, s3} \<and> s' = writeRejection repo t reason c i v now)"
    using run en al wl by (auto simp: Guard_Check_def split: sum.splits bool.splits if_splits)
  then show ?thesis using inv f1 f2 f3 reject_frame by auto
qed

end

section \<open>Properties\<close>

lemma sq_permits:
  "sq.permits s u c \<longleftrightarrow> u \<noteq> [] \<and> active_user s u \<and> (allow_row s u c = Some True \<or> allow_row s u ''*'' = Some True)"
  by (rule sq.permits_def)

lemma check_keeps_open:
  "Guard_Check sqlite_repo s u c i now = (s', r) \<Longrightarrow> db_open s' = db_open s"
  by (auto simp: Guard_Check_def writeRejection_def LogAdminAction_def exec_simps
      split: if_splits sum.splits bool.splits)

lemma check_answers:
  assumes "db_open s" "store_wf s"
  shows "\<exists>s' b. Guard_Check sqlite_repo s u c i now = (s', Inr b)"
  using assms by (auto simp: Guard_Check_def IsUserEnabled_active IsAllowed_rows split: bool.split)

text \<open>
  C10: on a reachable open store the guard always answers, and it admits a message exactly
  when the user is known, the account is enabled and an enabled allowlist row exists for the
  channel or for the wildcard; the check itself changes no account, allowlist row or
  identity.
\<close>

theorem guard_decides:
  assumes "db_step\<^sup>*\<^sup>* emptyStore s" and "db_open s"
  shows "\<exists>s'. Guard_Check sqlite_repo s u c i now =
      (s', Inr (u \<noteq> [] \<and> active_user s u \<and> (allow_row s u c = Some True \<or> allow_row s u ''*'' = Some True)))
    \<and> active_user s' = active_user s \<and> allow_row s' = allow_row s \<and> owner_of s' = owner_of s"
proof -
  have wf: "store_wf s" using db_reachable_wf [OF assms(1) store_wf_empty] .
  obtain s' b where r: "Guard_Check sqlite_repo s u c i now = (s', Inr b)"
    using check_answers [OF assms(2) wf] by blast
  from sq.check_exact [OF wf r] sq.check_frame [OF wf r] r show ?thesis by (simp add: sq_permits)
qed

definition demo_user :: Store where
  "demo_user = fst (CreateUser emptyStore \<lparr>cr_Name = ''ann'', cr_DefaultModel = [], cr_Preferences = None\<rparr> ''usr_1'' 5)"

definition demo_denied :: Store where
  "demo_denied = fst (SetAllowed (fst (SetAllowed demo_user ''usr_1'' ''*'' True ''admin'' 6))
     ''usr_1'' ''slack'' False ''admin'' 7)"

lemma demo_denied_reachable: "db_step\<^sup>*\<^sup>* emptyStore demo_denied" "db_open demo_denied"
proof -
  have "db_step emptyStore demo_user" unfolding demo_user_def by (rule db_step.intros)
  moreover have "db_step demo_user (fst (SetAllowed demo_user ''usr_1'' ''*'' True ''admin'' 6))"
    by (rule db_step.intros)
  moreover have "db_step (fst (SetAllowed demo_user ''usr_1'' ''*'' True ''admin'' 6)) demo_denied"
    unfolding demo_denied_def by (rule db_step.intros)
  ultimately show "db_step\<^sup>*\<^sup>* emptyStore demo_denied"
    by (meson converse_rtranclp_into_rtranclp r_into_rtranclp)
  show "db_open demo_denied"
    by (simp add: demo_denied_def demo_user_def SetAllowed_def CreateUser_def emptyStore_def exec_simps has_user_def)
qed

lemma demo_denied_rows:
  "active_user demo_denied ''usr_1''" "allow_row demo_denied ''usr_1'' ''*'' = Some True"
  "allow_row demo_denied ''usr_1'' ''slack'' = Some False"
  by (simp_all add: active_user_def allow_row_def demo_denied_def demo_user_def SetAllowed_def CreateUser_def
      emptyStore_def exec_simps has_user_def)

theorem guard_decides_witness:
  "\<exists>s'. Guard_Check sqlite_repo demo_denied ''usr_1'' ''mqtt'' ''dev'' 9 = (s', Inr True)"
  using guard_decides [OF demo_denied_reachable, of "''usr_1''" "''mqtt''" "''dev''" 9] demo_denied_rows by auto

text \<open>
  The guard does not honour a channel-specific denial. Where an administrator disabled
  one channel of a user whose wildcard entry is enabled, the store answers that the channel
  is not allowed, and the guard, which then asks for the wildcard, still admits the message.
\<close>

theorem guard_ignores_channel_denial:
  assumes "store_wf s" and "db_open s" and "u \<noteq> []" and "active_user s u"
    and "allow_row s u c = Some False" and "allow_row s u ''*'' = Some True"
  shows "IsAllowed s u c = Inr False \<and> snd (Guard_Check sqlite_repo s u c i now) = Inr True"
proof -
  obtain s' b where r: "Guard_Check sqlite_repo s u c i now = (s', Inr b)"
    using check_answers [OF assms(2,1)] by blast
  from sq.check_exact [OF assms(1) r] r assms show ?thesis by (simp add: sq_permits IsAllowed_rows)
qed

theorem guard_ignores_channel_denial_witness:
  "IsAllowed demo_denied ''usr_1'' ''slack'' = Inr False
   \<and> snd (Guard_Check sqlite_repo demo_denied ''usr_1'' ''slack'' ''U1'' 9) = Inr True"
  by (rule guard_ignores_channel_denial)
     (use demo_denied_reachable demo_denied_rows db_reachable_wf [OF _ store_wf_empty] in auto)

text \<open>
  Every refusal leaves exactly one audit entry and an admission leaves none. On an open
  store the audit log grows by the entry of the rejection, which names the user and the
  reason and holds the fixed text \<^verbatim>\<open>[REDACTED]\<close> in place of the channel identity.
\<close>

theorem guard_audits_rejections:
  assumes "db_open s" and "now \<noteq> zero_time" and "Guard_Check sqlite_repo s u c i now = (s', Inr b)"
  shows "if b then db_audit s' = db_audit s
    else \<exists>reason. db_audit s' = db_audit s @ [(rejection_entry reason c u now)\<lparr>au_ID := db_audit_seq s + 1\<rparr>]"
proof -
  have log: "writeRejection sqlite_repo s reason c i v now
      = s\<lparr>db_audit := db_audit s @ [(rejection_entry reason c v now)\<lparr>au_ID := db_audit_seq s + 1\<rparr>],
          db_audit_seq := db_audit_seq s + 1\<rparr>" for reason v
    using assms(1,2) by (simp add: writeRejection_def LogAdminAction_def exec_simps rejection_entry_def)
  from assms(3) show ?thesis
    by (auto simp: Guard_Check_def log split: if_splits sum.splits bool.splits)
qed

theorem guard_audits_rejections_witness:
  "\<exists>s' reason. Guard_Check sqlite_repo demo_user ''usr_1'' ''slack'' ''U1'' 9 = (s', Inr False)
     \<and> db_audit s' = [(rejection_entry reason ''slack'' ''usr_1'' 9)\<lparr>au_ID := 1\<rparr>]"
proof -
  have op: "db_open demo_user" and au: "db_audit demo_user = []" "db_audit_seq demo_user = 0"
    by (simp_all add: demo_user_def CreateUser_def emptyStore_def exec_simps has_user_def)
  have r: "Guard_Check sqlite_repo demo_user ''usr_1'' ''slack'' ''U1'' 9
      = (fst (Guard_Check sqlite_repo demo_user ''usr_1'' ''slack'' ''U1'' 9), Inr False)"
    by (simp add: Guard_Check_def IsUserEnabled_def IsAllowed_def demo_user_def CreateUser_def emptyStore_def
        exec_simps has_user_def)
  from guard_audits_rejections [OF op _ r] r au show ?thesis by (auto simp: zero_time_def)
qed

end
