(* ===== verification/SessionKey.thy ===== *)
theory SessionKey
  imports Models
begin

text \<open>
  Session keys (\<^verbatim>\<open>pkg/session/key.go\<close>): the canonical \<^verbatim>\<open>user:U:channel:C:session:S\<close> string,
  its parser and the sanitiser that turns an external identifier into a file name.
  The locale \<open>keyed_sessions\<close> is what the clients of a key codec use.
\<close>

section \<open>Model\<close>

definition BuildSessionKey :: "string \<Rightarrow> string \<Rightarrow> string \<Rightarrow> string" where
  "BuildSessionKey userID channelType sessionID =
     ''user:'' @ userID @ '':channel:'' @ channelType @ '':session:'' @ sessionID"

datatype key_error = MissingUserPrefix | MissingChannel | MissingSession | EmptyComponent

definition userPrefix :: string where "userPrefix = ''user:''"

definition chanMarker :: string where "chanMarker = '':channel:''"

definition sessMarker :: string where "sessMarker = '':session:''"

definition ParseSessionKey :: "string \<Rightarrow> key_error + string \<times> string \<times> string" where
  "ParseSessionKey key =
     (if \<not> HasPrefix key userPrefix then Inl MissingUserPrefix
      else let rest = drop (length userPrefix) key in
        case Index rest chanMarker of
          None \<Rightarrow> Inl MissingChannel
        | Some chanIdx \<Rightarrow>
            let userID = take chanIdx rest;
                rest2 = drop (chanIdx + length chanMarker) rest
            in case Index rest2 sessMarker of
                 None \<Rightarrow> Inl MissingSession
               | Some sessIdx \<Rightarrow>
                   let channelType = take sessIdx rest2;
                       sessionID = drop (sessIdx + length sessMarker) rest2
                   in if userID = [] \<or> channelType = [] \<or> sessionID = [] then Inl EmptyComponent
                      else Inr (userID, channelType, sessionID))"

definition safe_rune :: "rune \<Rightarrow> bool" where
  "safe_rune r \<longleftrightarrow> r = 45 \<or> r = 95 \<or> (97 \<le> r \<and> r \<le> 122) \<or> (65 \<le> r \<and> r \<le> 90) \<or> (48 \<le> r \<and> r \<le> 57)"

definition sanitize_rune :: "rune \<times> string \<Rightarrow> string" where
  "sanitize_rune p =
     (if safe_rune (fst p) then [char_of (fst p)]
      else if IsSpace (fst p) then []
      else ''-'')"

definition SanitizeSessionID :: "string \<Rightarrow> string" where
  "SanitizeSessionID s =
     (if s = [] then ''default''
      else let result = Trim1 (concat (map sanitize_rune (runes s))) (CHR ''-'')
           in if result = [] then ''default'' else result)"

text \<open>A safe file name component: the sanitiser's alphabet, no hyphen at the ends.\<close>

definition safe_char :: "char \<Rightarrow> bool" where
  "safe_char c \<longleftrightarrow> safe_rune (of_char c)"

definition safe_component :: "string \<Rightarrow> bool" where
  "safe_component s \<longleftrightarrow>
     s \<noteq> [] \<and> list_all safe_char s \<and> hd s \<noteq> CHR ''-'' \<and> last s \<noteq> CHR ''-''"

section \<open>The contract of a key codec\<close>

text \<open>
  Clients hold keys as opaque strings and read the owner back from them. All they need is
  that building and parsing are inverse on well-formed components.
\<close>

locale keyed_sessions =
  fixes build :: "string \<Rightarrow> string \<Rightarrow> string \<Rightarrow> string"
    and parse :: "string \<Rightarrow> key_error + string \<times> string \<times> string"
    and part :: "string \<Rightarrow> bool"
    and tail_part :: "string \<Rightarrow> bool"
  assumes parse_build: "part u \<Longrightarrow> part c \<Longrightarrow> tail_part s \<Longrightarrow> parse (build u c s) = Inr (u, c, s)"
    and build_parse: "parse k = Inr (u, c, s) \<Longrightarrow> build u c s = k"
begin

lemma build_inj:
  assumes "part u" "part c" "tail_part s" "part u'" "part c'" "tail_part s'"
    and "build u c s = build u' c' s'"
  shows "u = u' \<and> c = c' \<and> s = s'"
  using arg_cong [OF assms(7), of parse]
  unfolding parse_build [OF assms(1-3)] parse_build [OF assms(4-6)] by simp

lemma parse_inj:
  assumes "parse k = Inr (u, c, s)" "parse k' = Inr (u, c, s)"
  shows "k = k'"
  using build_parse [OF assms(1)] build_parse [OF assms(2)] by simp

end

section \<open>The codec meets the contract\<close>

definition key_part :: "string \<Rightarrow> bool" where
  "key_part s \<longleftrightarrow> s \<noteq> [] \<and> CHR '':'' \<notin> set s"

lemma Build_markers:
  "BuildSessionKey u c s = userPrefix @ u @ chanMarker @ c @ sessMarker @ s"
  by (simp add: BuildSessionKey_def userPrefix_def chanMarker_def sessMarker_def)

lemma Index_markers:
  assumes "CHR '':'' \<notin> set u"
  shows "Index (u @ chanMarker @ r) chanMarker = Some (length u)"
    and "Index (u @ sessMarker @ r) sessMarker = Some (length u)"
  unfolding chanMarker_def sessMarker_def by (rule Index_append_marker [OF assms])+

lemma Parse_Build:
  "key_part u \<Longrightarrow> key_part c \<Longrightarrow> s \<noteq> [] \<Longrightarrow> ParseSessionKey (BuildSessionKey u c s) = Inr (u, c, s)"
  by (simp add: ParseSessionKey_def Build_markers Index_markers key_part_def)

lemma Build_Parse:
  assumes "ParseSessionKey k = Inr (u, c, s)"
  shows "BuildSessionKey u c s = k \<and> u \<noteq> [] \<and> c \<noteq> [] \<and> s \<noteq> []"
proof -
  let ?r = "drop (length userPrefix) k"
  have p: "HasPrefix k userPrefix" using assms by (simp add: ParseSessionKey_def split: if_splits)
  then obtain i where i: "Index ?r chanMarker = Some i"
    using assms by (cases "Index ?r chanMarker") (simp_all add: ParseSessionKey_def)
  let ?r2 = "drop (i + length chanMarker) ?r"
  obtain j where j: "Index ?r2 sessMarker = Some j"
    using assms p i by (cases "Index ?r2 sessMarker") (simp_all add: ParseSessionKey_def del: drop_drop)
  have parts: "u = take i ?r" "c = take j ?r2" "s = drop (j + length sessMarker) ?r2"
    "u \<noteq> []" "c \<noteq> []" "s \<noteq> []"
    using assms p i j
    by (auto simp: ParseSessionKey_def Let_def simp del: drop_drop take_eq_Nil take_eq_Nil2 drop_eq_Nil drop_eq_Nil2 split: if_splits)
  have "k = userPrefix @ ?r" by (rule HasPrefix_split [OF p])
  also have "?r = u @ chanMarker @ ?r2" using Index_Some_split [OF i] parts(1) by simp
  also have "?r2 = c @ sessMarker @ s" using Index_Some_split [OF j] parts(2,3) by simp
  finally have "k = userPrefix @ u @ chanMarker @ c @ sessMarker @ s" .
  with parts(4-6) show ?thesis by (simp add: Build_markers)
qed

interpretation sk: keyed_sessions BuildSessionKey ParseSessionKey key_part "\<lambda>s. s \<noteq> []"
  by unfold_locales (use Parse_Build Build_Parse in blast)+

section \<open>Sanitising\<close>

lemma safe_rune_ascii: "safe_rune r \<Longrightarrow> r < 128"
  by (auto simp: safe_rune_def)

lemma safe_char_of: "safe_rune r \<Longrightarrow> safe_char (char_of r)"
  using safe_rune_ascii [of r] by (simp add: safe_char_def of_char_of)

lemma sanitize_rune_safe: "c \<in> set (sanitize_rune p) \<Longrightarrow> safe_char c"
  by (auto simp: sanitize_rune_def safe_char_of split: if_splits) (simp add: safe_char_def safe_rune_def)

lemma sanitize_safe_id:
  assumes "list_all safe_char s"
  shows "concat (map sanitize_rune (runes s)) = s"
proof -
  have "\<forall>c \<in> set s. of_char c < (128 :: nat)"
    using assms safe_rune_ascii by (auto simp: list_all_iff safe_char_def)
  then have "map sanitize_rune (runes s) = map (\<lambda>c. sanitize_rune (of_char c, [c])) s"
    by (simp add: runes_ascii)
  also have "\<dots> = map (\<lambda>c. [c]) s"
    using assms by (simp add: sanitize_rune_def safe_char_def list_all_iff)
  finally show ?thesis by simp
qed

lemma safe_component_default: "safe_component ''default''"
  by (simp add: safe_component_def safe_char_def safe_rune_def)

lemma Sanitize_safe: "safe_component (SanitizeSessionID s)"
proof -
  let ?b = "concat (map sanitize_rune (runes s))"
  have "list_all safe_char ?b" using sanitize_rune_safe by (auto simp: list_all_iff)
  then have "list_all safe_char (Trim1 ?b (CHR ''-''))"
    using set_Trim1 [of ?b "CHR ''-''"] unfolding list_all_iff by blast
  then show ?thesis
    by (simp add: SanitizeSessionID_def Let_def safe_component_default safe_component_def
        Trim1_hd Trim1_last)
       (auto simp: safe_char_def safe_rune_def)
qed

lemma Sanitize_fixed: "safe_component s \<Longrightarrow> SanitizeSessionID s = s"
  by (simp add: SanitizeSessionID_def safe_component_def sanitize_safe_id Trim1_id)

section \<open>Properties\<close>

text \<open>
  C16: a key built from a user and a channel without colons and a non-empty session id is
  parsed back into its parts, and every key the parser accepts is rebuilt from the parts
  it returns, none of which is empty. So keys and their parts determine each other.
\<close>

theorem session_key_roundtrip:
  "(key_part u \<and> key_part c \<and> s \<noteq> [] \<longrightarrow> ParseSessionKey (BuildSessionKey u c s) = Inr (u, c, s))
   \<and> (ParseSessionKey k = Inr (u, c, s) \<longrightarrow>
        BuildSessionKey u c s = k \<and> u \<noteq> [] \<and> c \<noteq> [] \<and> s \<noteq> [])"
  using sk.parse_build Build_Parse by blast

theorem session_key_roundtrip_witness:
  "ParseSessionKey (BuildSessionKey ''usr_1'' ''slack'' ''C1:session:2'') = Inr (''usr_1'', ''slack'', ''C1:session:2'')
   \<and> ParseSessionKey ''user:a:channel:mqtt:session:s'' = Inr (''a'', ''mqtt'', ''s'')
   \<and> BuildSessionKey ''a'' ''mqtt'' ''s'' = ''user:a:channel:mqtt:session:s''"
proof -
  have p: "ParseSessionKey ''user:a:channel:mqtt:session:s'' = Inr (''a'', ''mqtt'', ''s'')"
    using Parse_Build [of "''a''" "''mqtt''" "''s''"] by (simp add: key_part_def BuildSessionKey_def)
  show ?thesis
    using session_key_roundtrip [of "''usr_1''" "''slack''" "''C1:session:2''"]
      session_key_roundtrip [of "''a''" "''mqtt''" "''s''" "''user:a:channel:mqtt:session:s''"] p
    by (simp add: key_part_def)
qed

text \<open>
  Whatever bytes come in, the sanitised identifier is a safe path component (letters,
  digits, hyphen and underscore only, so no separator and no dot; not empty; no hyphen at
  either end), and sanitising is a projection: it changes exactly the identifiers that are
  not safe components already.
\<close>

theorem sanitize_safe_projection:
  "safe_component (SanitizeSessionID s) \<and> SanitizeSessionID (SanitizeSessionID s) = SanitizeSessionID s
   \<and> (SanitizeSessionID s = s \<longleftrightarrow> safe_component s)"
  using Sanitize_safe [of s] Sanitize_fixed by metis

end
