(* ===== verification/Resolver.thy ===== *)
theory Resolver
  imports SessionKey
begin

text \<open>
  The session resolver (\<^verbatim>\<open>internal/gateway/resolver.go\<close>): a pure function from a message to its
  session key.
\<close>

section \<open>Model\<close>

definition channel_context :: "NipperMessage \<Rightarrow> string option" where
  "channel_context msg =
     (if nm_ChannelType msg = ChannelTypeWhatsApp then
        (case nm_Meta msg of
           Some (MetaWhatsApp m) \<Rightarrow> if wm_ChatJID m \<noteq> [] then Some (wm_ChatJID m) else None
         | _ \<Rightarrow> None)
      else if nm_ChannelType msg = ChannelTypeSlack then
        (case nm_Meta msg of
           Some (MetaSlack m) \<Rightarrow>
             if sm_ChannelID m \<noteq> [] then
               (if sm_ThreadTS m \<noteq> [] then Some (sm_ChannelID m @ ''-'' @ sm_ThreadTS m)
                else Some (sm_ChannelID m))
             else None
         | _ \<Rightarrow> None)
      else if nm_ChannelType msg = ChannelTypeCron then
        (case nm_Meta msg of
           Some (MetaCron m) \<Rightarrow> if cm_JobID m \<noteq> [] then Some (cm_JobID m) else None
         | _ \<Rightarrow> None)
      else if nm_ChannelType msg = ChannelTypeMQTT then
        (case nm_Meta msg of
           Some (MetaMqtt m) \<Rightarrow> if mm_ClientID m \<noteq> [] then Some (mm_ClientID m) else None
         | _ \<Rightarrow> None)
      else if nm_ChannelType msg = ChannelTypeRabbitMQ then
        (case nm_Meta msg of
           Some (MetaRabbitMq m) \<Rightarrow>
             if rm_CorrelationID m \<noteq> [] then Some (rm_CorrelationID m)
             else if rm_RoutingKey m \<noteq> [] then Some (rm_RoutingKey m)
             else None
         | _ \<Rightarrow> None)
      else None)"

definition deriveSessionID :: "NipperMessage \<Rightarrow> string" where
  "deriveSessionID msg =
     (case channel_context msg of
        Some ctx \<Rightarrow> SanitizeSessionID ctx
      | None \<Rightarrow>
          if nm_ChannelIdentity msg \<noteq> [] then SanitizeSessionID (nm_ChannelIdentity msg)
          else SanitizeSessionID (nm_MessageID msg))"

datatype resolve_error = NoUserID

definition Resolve :: "NipperMessage \<Rightarrow> resolve_error + string" where
  "Resolve msg =
     (if nm_UserID msg = [] then Inl NoUserID
      else Inr (BuildSessionKey (nm_UserID msg) (nm_ChannelType msg) (deriveSessionID msg)))"

section \<open>Facts\<close>

lemma deriveSessionID_safe: "safe_component (deriveSessionID msg)"
  unfolding deriveSessionID_def by (simp add: Sanitize_safe split: option.split)

lemma safe_component_nonempty: "safe_component s \<Longrightarrow> s \<noteq> []"
  by (simp add: safe_component_def)

lemma Resolve_parses:
  assumes "Resolve msg = Inr k" "key_part (nm_UserID msg)" "key_part (nm_ChannelType msg)"
  shows "ParseSessionKey k = Inr (nm_UserID msg, nm_ChannelType msg, deriveSessionID msg)"
  using assms Parse_Build [OF assms(2,3) safe_component_nonempty [OF deriveSessionID_safe]]
  by (auto simp: Resolve_def split: if_splits)

section \<open>A message of the examples\<close>

definition slack_message :: "string \<Rightarrow> string \<Rightarrow> NipperMessage" where
  "slack_message origin txt =
     \<lparr>nm_MessageID = ''m1'', nm_OriginMessageID = origin, nm_UserID = ''usr_1'', nm_SessionKey = [],
      nm_ChannelType = ChannelTypeSlack, nm_ChannelIdentity = ''U1'',
      nm_Content = \<lparr>mc_Text = txt, mc_Parts = []\<rparr>, nm_DeliveryContext = zeroDeliveryContext,
      nm_Meta = None, nm_Timestamp = 10, nm_DedupeKey = []\<rparr>"

lemma slack_message_fields [simp]:
  "nm_UserID (slack_message o1 t) = ''usr_1''" "nm_ChannelType (slack_message o1 t) = ''slack''"
  "nm_ChannelIdentity (slack_message o1 t) = ''U1''" "nm_OriginMessageID (slack_message o1 t) = o1"
  "nm_Timestamp (slack_message o1 t) = 10" "nm_MessageID (slack_message o1 t) = ''m1''"
  by (simp_all add: slack_message_def)

lemma slack_message_key: "Resolve (slack_message o1 t) = Inr (BuildSessionKey ''usr_1'' ''slack'' ''U1'')"
proof -
  have "safe_component ''U1''" by (simp add: safe_component_def safe_char_def safe_rune_def)
  then show ?thesis
    by (simp add: Resolve_def slack_message_def deriveSessionID_def channel_context_def Sanitize_fixed)
qed

section \<open>Session identifiers of usual external identifiers\<close>



































section \<open>Properties\<close>




end
