(* ===== verification/Registry.thy ===== *)
theory Registry
  imports Models "HOL-Library.Sublist"
begin

text \<open>
  The delivery registry (\<^verbatim>\<open>internal/gateway/registry.go\<close>): per session key a FIFO queue of
  delivery entries, filled by the router and emptied by the dispatcher. The locale
  \<open>delivery_queues\<close> is the contract between the two; its client lemmas say what a response
  can be matched with.
\<close>

section \<open>Model\<close>

record DeliveryEntry =
  de_Context :: DeliveryContext
  de_Meta :: "ChannelMeta option"
  de_InboundParts :: "ContentPart list"
  de_CreatedAt :: time

record Registry =
  rg_entries :: "string \<rightharpoonup> DeliveryEntry list"

text \<open>What \<^verbatim>\<open>Lookup\<close> and \<^verbatim>\<open>Consume\<close> return; \<open>None\<close> stands for the results with \<^verbatim>\<open>ok\<close> false.\<close>

type_synonym delivery = "DeliveryContext \<times> ChannelMeta option \<times> ContentPart list"

definition payload :: "DeliveryEntry \<Rightarrow> delivery" where
  "payload e = (de_Context e, de_Meta e, de_InboundParts e)"

definition NewRegistry :: Registry where
  "NewRegistry = \<lparr>rg_entries = Map.empty\<rparr>"

definition Register ::
  "Registry \<Rightarrow> string \<Rightarrow> DeliveryContext \<Rightarrow> ChannelMeta option \<Rightarrow> ContentPart list \<Rightarrow> time \<Rightarrow> Registry" where
  "Register r sessionKey dc meta inboundParts now =
     (let entry = \<lparr>de_Context = dc, de_Meta = meta, de_InboundParts = inboundParts, de_CreatedAt = now\<rparr>
      in r\<lparr>rg_entries := (rg_entries r)(sessionKey \<mapsto> map_slice (rg_entries r) sessionKey @ [entry])\<rparr>)"

definition Lookup :: "Registry \<Rightarrow> string \<Rightarrow> delivery option" where
  "Lookup r sessionKey =
     (case map_slice (rg_entries r) sessionKey of [] \<Rightarrow> None | e # _ \<Rightarrow> Some (payload e))"

definition Consume :: "Registry \<Rightarrow> string \<Rightarrow> Registry \<times> delivery option" where
  "Consume r sessionKey =
     (case map_slice (rg_entries r) sessionKey of
        [] \<Rightarrow> (r, None)
      | e # q \<Rightarrow>
          (r\<lparr>rg_entries := (if q = [] then (rg_entries r)(sessionKey := None)
                            else (rg_entries r)(sessionKey \<mapsto> q))\<rparr>,
           Some (payload e)))"

definition Registry_Len :: "Registry \<Rightarrow> nat" where
  "Registry_Len r = (\<Sum>k \<in> dom (rg_entries r). length (the (rg_entries r k)))"

definition keep_recent :: "time \<Rightarrow> DeliveryEntry list \<Rightarrow> DeliveryEntry list" where
  "keep_recent cutoff = filter (\<lambda>e. \<not> de_CreatedAt e < cutoff)"

definition EvictOlderThan :: "Registry \<Rightarrow> time \<Rightarrow> Registry \<times> nat" where
  "EvictOlderThan r cutoff =
     (r\<lparr>rg_entries := map_revise (\<lambda>q. let keep = keep_recent cutoff q
                                       in if keep = [] then None else Some keep) (rg_entries r)\<rparr>,
      \<Sum>k \<in> dom (rg_entries r).
         length (filter (\<lambda>e. de_CreatedAt e < cutoff) (the (rg_entries r k))))"

section \<open>Histories\<close>

datatype reg_op = RegisterOp string DeliveryEntry | ConsumeOp string | EvictOp time

fun registered :: "string \<Rightarrow> reg_op list \<Rightarrow> DeliveryEntry list" where
  "registered k [] = []"
| "registered k (RegisterOp k' e # ops) = (if k' = k then e # registered k ops else registered k ops)"
| "registered k (ConsumeOp k' # ops) = registered k ops"
| "registered k (EvictOp c # ops) = registered k ops"

fun is_evict :: "reg_op \<Rightarrow> bool" where
  "is_evict (EvictOp c) = True"
| "is_evict (RegisterOp k e) = False"
| "is_evict (ConsumeOp k) = False"

fun reg_run ::
  "('r \<Rightarrow> string \<Rightarrow> DeliveryEntry \<Rightarrow> 'r) \<Rightarrow> ('r \<Rightarrow> string \<Rightarrow> 'r \<times> delivery option) \<Rightarrow> ('r \<Rightarrow> time \<Rightarrow> 'r)
     \<Rightarrow> 'r \<Rightarrow> reg_op list \<Rightarrow> 'r \<times> (string \<times> delivery) list" where
  "reg_run reg con evict r [] = (r, [])"
| "reg_run reg con evict r (RegisterOp k e # ops) = reg_run reg con evict (reg r k e) ops"
| "reg_run reg con evict r (ConsumeOp k # ops) =
     (let (r', out) = reg_run reg con evict (fst (con r k)) ops
      in (r', (case snd (con r k) of None \<Rightarrow> [] | Some d \<Rightarrow> [(k, d)]) @ out))"
| "reg_run reg con evict r (EvictOp c # ops) = reg_run reg con evict (evict r c) ops"

text \<open>The deliveries handed out for one session.\<close>

definition given :: "string \<Rightarrow> (string \<times> delivery) list \<Rightarrow> delivery list" where
  "given k out = map snd (filter (\<lambda>p. fst p = k) out)"

lemma given_append [simp]: "given k (xs @ ys) = given k xs @ given k ys"
  by (simp add: given_def)

lemma given_Nil [simp]: "given k [] = []"
  by (simp add: given_def)

lemma given_single [simp]: "given k [(k', d)] = (if k' = k then [d] else [])"
  by (simp add: given_def)

section \<open>The contract of the per-session queues\<close>

locale delivery_queues =
  fixes reg :: "'r \<Rightarrow> string \<Rightarrow> DeliveryEntry \<Rightarrow> 'r"
    and con :: "'r \<Rightarrow> string \<Rightarrow> 'r \<times> delivery option"
    and evict :: "'r \<Rightarrow> time \<Rightarrow> 'r"
    and peek :: "'r \<Rightarrow> string \<Rightarrow> delivery option"
    and queue :: "'r \<Rightarrow> string \<Rightarrow> DeliveryEntry list"
  assumes queue_reg: "queue (reg r k e) k' = (if k' = k then queue r k @ [e] else queue r k')"
    and con_answer: "snd (con r k) = (case queue r k of [] \<Rightarrow> None | e # _ \<Rightarrow> Some (payload e))"
    and queue_con: "queue (fst (con r k)) k' = (if k' = k then tl (queue r k) else queue r k')"
    and queue_evict: "queue (evict r c) k = keep_recent c (queue r k)"
    and peek_front: "peek r k = snd (con r k)"
begin

text \<open>One consume moves the front of the queue of its key to the output.\<close>

lemma consume_moves:
  "given k (case snd (con r k') of None \<Rightarrow> [] | Some d \<Rightarrow> [(k', d)]) @ map payload (queue (fst (con r k')) k)
     = map payload (queue r k)"
  by (cases "queue r k'") (auto simp: con_answer queue_con)

lemma run_consume:
  assumes "reg_run reg con evict r (ConsumeOp k' # ops) = (r', out)"
  obtains out' where "reg_run reg con evict (fst (con r k')) ops = (r', out')"
    and "given k out @ map payload (queue r' k)
      = given k (case snd (con r k') of None \<Rightarrow> [] | Some d \<Rightarrow> [(k', d)]) @ given k out' @ map payload (queue r' k)"
  using assms by (auto split: prod.splits)

lemma run_subseq:
  "reg_run reg con evict r ops = (r', out) \<Longrightarrow>
     subseq (given k out @ map payload (queue r' k)) (map payload (queue r k @ registered k ops))"
proof (induction ops arbitrary: r r' out)
  case Nil
  then show ?case by simp
next
  case (Cons x ops)
  show ?case
  proof (cases x)
    case (RegisterOp k' e)
    with Cons.prems have "reg_run reg con evict (reg r k' e) ops = (r', out)" by simp
    from Cons.IH [OF this] show ?thesis by (auto simp: RegisterOp queue_reg)
  next
    case (ConsumeOp k')
    from Cons.prems [unfolded ConsumeOp] obtain out'
      where run: "reg_run reg con evict (fst (con r k')) ops = (r', out')"
        and out: "given k out @ map payload (queue r' k)
          = given k (case snd (con r k') of None \<Rightarrow> [] | Some d \<Rightarrow> [(k', d)]) @ given k out' @ map payload (queue r' k)"
      by (rule run_consume)
    show ?thesis
      using list_emb_append_mono [OF subseq_order.order_refl Cons.IH [OF run],
          of "given k (case snd (con r k') of None \<Rightarrow> [] | Some d \<Rightarrow> [(k', d)])"]
        consume_moves [of k k' r]
      by (simp add: out ConsumeOp flip: append_assoc)
  next
    case (EvictOp c)
    with Cons.prems have "reg_run reg con evict (evict r c) ops = (r', out)" by simp
    from Cons.IH [OF this] have "subseq (given k out @ map payload (queue r' k))
        (map payload (keep_recent c (queue r k) @ registered k ops))"
      by (simp add: queue_evict)
    moreover have "subseq (map payload (keep_recent c (queue r k) @ registered k ops))
        (map payload (queue r k @ registered k ops))"
      unfolding keep_recent_def by (intro subseq_map list_emb_append_mono) auto
    ultimately show ?thesis unfolding EvictOp registered.simps by (rule subseq_order.trans)
  qed
qed

lemma run_exact:
  "reg_run reg con evict r ops = (r', out) \<Longrightarrow> list_all (\<lambda>x. \<not> is_evict x) ops \<Longrightarrow>
     given k out @ map payload (queue r' k) = map payload (queue r k @ registered k ops)"
proof (induction ops arbitrary: r r' out)
  case Nil
  then show ?case by simp
next
  case (Cons x ops)
  then have ne: "list_all (\<lambda>x. \<not> is_evict x) ops" by simp
  show ?case
  proof (cases x)
    case (RegisterOp k' e)
    with Cons.prems have "reg_run reg con evict (reg r k' e) ops = (r', out)" by simp
    from Cons.IH [OF this ne] show ?thesis by (auto simp: RegisterOp queue_reg)
  next
    case (ConsumeOp k')
    from Cons.prems(1) [unfolded ConsumeOp] obtain out'
      where run: "reg_run reg con evict (fst (con r k')) ops = (r', out')"
        and out: "given k out @ map payload (queue r' k)
          = given k (case snd (con r k') of None \<Rightarrow> [] | Some d \<Rightarrow> [(k', d)]) @ given k out' @ map payload (queue r' k)"
      by (rule run_consume)
    show ?thesis
      using Cons.IH [OF run ne] consume_moves [of k k' r] by (simp add: out ConsumeOp flip: append_assoc)
  qed (use Cons.prems in simp)
qed

text \<open>The queue of a key is untouched by the traffic of other keys.\<close>

lemma queue_other: "k' \<noteq> k \<Longrightarrow> queue (fst (con (reg r k e) k)) k' = queue r k'"
  by (simp add: queue_con queue_reg)

end

section \<open>The registry meets the contract\<close>

definition Register_entry :: "Registry \<Rightarrow> string \<Rightarrow> DeliveryEntry \<Rightarrow> Registry" where
  "Register_entry r k e = Register r k (de_Context e) (de_Meta e) (de_InboundParts e) (de_CreatedAt e)"

abbreviation pending :: "Registry \<Rightarrow> string \<Rightarrow> DeliveryEntry list" where
  "pending r k \<equiv> map_slice (rg_entries r) k"

lemma pending_Register:
  "pending (Register r k dc meta parts now) k' =
     (if k' = k then pending r k @ [\<lparr>de_Context = dc, de_Meta = meta, de_InboundParts = parts,
        de_CreatedAt = now\<rparr>] else pending r k')"
  by (simp add: Register_def Let_def)

lemma pending_Consume:
  "pending (fst (Consume r k)) k' = (if k' = k then tl (pending r k) else pending r k')"
  by (auto simp: Consume_def split: list.splits)

lemma Consume_answer:
  "snd (Consume r k) = (case pending r k of [] \<Rightarrow> None | e # _ \<Rightarrow> Some (payload e))"
  by (auto simp: Consume_def split: list.splits)

lemma pending_Evict: "pending (fst (EvictOlderThan r c)) k = keep_recent c (pending r k)"
  by (auto simp: EvictOlderThan_def map_slice_def keep_recent_def Let_def split: option.splits)

lemma Lookup_front: "Lookup r k = snd (Consume r k)"
  by (simp add: Lookup_def Consume_answer)

lemma pending_New [simp]: "pending NewRegistry k = []"
  by (simp add: NewRegistry_def)

interpretation rq: delivery_queues Register_entry Consume "\<lambda>r c. fst (EvictOlderThan r c)" Lookup pending
  by unfold_locales
    (auto simp: Register_entry_def pending_Register pending_Consume Consume_answer pending_Evict Lookup_front)

abbreviation registry_run :: "Registry \<Rightarrow> reg_op list \<Rightarrow> Registry \<times> (string \<times> delivery) list" where
  "registry_run \<equiv> reg_run Register_entry Consume (\<lambda>r c. fst (EvictOlderThan r c))"

section \<open>Well-formed registries\<close>

text \<open>The map holds no empty queue, so its size is the number of sessions with entries.\<close>

definition registry_wf :: "Registry \<Rightarrow> bool" where
  "registry_wf r \<longleftrightarrow> finite (dom (rg_entries r)) \<and> (\<forall>k q. rg_entries r k = Some q \<longrightarrow> q \<noteq> [])"

lemma registry_wf_New [keeps]: "registry_wf NewRegistry"
  by (simp add: registry_wf_def NewRegistry_def)

lemma registry_wf_Register [keeps]: "registry_wf r \<Longrightarrow> registry_wf (Register r k dc meta parts now)"
  by (simp add: registry_wf_def Register_def Let_def)

lemma registry_wf_Consume [keeps]: "registry_wf r \<Longrightarrow> registry_wf (fst (Consume r k))"
  by (auto simp: registry_wf_def Consume_def split: list.splits)

lemma registry_wf_Evict [keeps]: "registry_wf r \<Longrightarrow> registry_wf (fst (EvictOlderThan r c))"
  by (auto simp: registry_wf_def EvictOlderThan_def Let_def split: option.splits if_splits)

lemma Len_pending:
  assumes "finite A" "dom (rg_entries r) \<subseteq> A"
  shows "Registry_Len r = (\<Sum>k \<in> A. length (pending r k))"
proof -
  have "(\<Sum>k \<in> A. length (pending r k)) = (\<Sum>k \<in> dom (rg_entries r). length (pending r k))"
    using assms by (intro sum.mono_neutral_right) (auto simp: map_slice_def dom_def split: option.splits)
  also have "\<dots> = Registry_Len r"
    unfolding Registry_Len_def by (intro sum.cong) (auto simp: map_slice_def)
  finally show ?thesis by simp
qed

lemma Len_Register:
  assumes "registry_wf r"
  shows "Registry_Len (Register r k dc meta parts now) = Suc (Registry_Len r)"
proof -
  let ?A = "insert k (dom (rg_entries r))"
  have "finite ?A" using assms by (simp add: registry_wf_def)
  moreover have "dom (rg_entries (Register r k dc meta parts now)) \<subseteq> ?A"
    by (auto simp: Register_def Let_def)
  ultimately show ?thesis
    by (simp add: Len_pending [of ?A] pending_Register sum.insert_remove subset_insertI)
qed

lemma Len_Consume:
  assumes "registry_wf r"
  shows "Registry_Len (fst (Consume r k)) = Registry_Len r - (if snd (Consume r k) = None then 0 else 1)"
proof -
  let ?A = "insert k (dom (rg_entries r))"
  have "finite ?A" using assms by (simp add: registry_wf_def)
  moreover have "dom (rg_entries (fst (Consume r k))) \<subseteq> ?A"
    by (auto simp: Consume_def split: list.splits if_splits)
  ultimately show ?thesis
    by (cases "pending r k")
       (simp_all add: Len_pending [of ?A] pending_Consume Consume_answer sum.insert_remove subset_insertI)
qed

lemma Len_Evict:
  assumes "registry_wf r"
  shows "Registry_Len (fst (EvictOlderThan r c)) + snd (EvictOlderThan r c) = Registry_Len r"
proof -
  let ?A = "dom (rg_entries r)"
  have f: "finite ?A" using assms by (simp add: registry_wf_def)
  have "dom (rg_entries (fst (EvictOlderThan r c))) \<subseteq> ?A"
    by (auto simp: EvictOlderThan_def split: option.splits)
  then have "Registry_Len (fst (EvictOlderThan r c)) = (\<Sum>k \<in> ?A. length (keep_recent c (pending r k)))"
    using f by (simp add: Len_pending pending_Evict)
  moreover have "snd (EvictOlderThan r c) = (\<Sum>k \<in> ?A. length (filter (\<lambda>e. de_CreatedAt e < c) (pending r k)))"
    unfolding EvictOlderThan_def by (auto intro!: sum.cong simp: map_slice_def)
  moreover have "length (keep_recent c q) + length (filter (\<lambda>e. de_CreatedAt e < c) q) = length q" for q
    unfolding keep_recent_def by (induction q) auto
  ultimately show ?thesis
    by (simp add: Len_pending [OF f order_refl] flip: sum.distrib)
qed

section \<open>Properties\<close>

text \<open>
  C7: for each session the deliveries handed out by \<^verbatim>\<open>Consume\<close>, followed by those still
  pending, are the registered ones in registration order: none is lost, duplicated,
  reordered or given to another session as long as no eviction runs, and with evictions
  only entries are missing, the order stays.
\<close>

theorem registry_fifo:
  assumes "registry_run NewRegistry ops = (r, out)"
  shows "subseq (given k out @ map payload (pending r k)) (map payload (registered k ops))
    \<and> (list_all (\<lambda>x. \<not> is_evict x) ops \<longrightarrow>
           given k out @ map payload (pending r k) = map payload (registered k ops))"
  using rq.run_subseq [OF assms, of k] rq.run_exact [OF assms, of k] by simp_all

theorem registry_fifo_witness:
  "\<exists>e1 e2 r. e1 \<noteq> e2 \<and>
     registry_run NewRegistry [RegisterOp ''s'' e1, RegisterOp ''s'' e2, ConsumeOp ''s'', ConsumeOp ''t'']
       = (r, [(''s'', payload e1)])
     \<and> [payload e1] @ map payload (pending r ''s'') = [payload e1, payload e2]"
proof -
  let ?e1 = "\<lparr>de_Context = zeroDeliveryContext, de_Meta = None, de_InboundParts = [], de_CreatedAt = 1\<rparr> :: DeliveryEntry"
  let ?e2 = "\<lparr>de_Context = zeroDeliveryContext, de_Meta = None, de_InboundParts = [], de_CreatedAt = 2\<rparr> :: DeliveryEntry"
  let ?ops = "[RegisterOp ''s'' ?e1, RegisterOp ''s'' ?e2, ConsumeOp ''s'', ConsumeOp ''t'']"
  obtain r where r: "registry_run NewRegistry ?ops = (r, [(''s'', payload ?e1)])"
    by (simp add: Register_entry_def Register_def Consume_def NewRegistry_def Let_def payload_def)
  have "[payload ?e1] @ map payload (pending r ''s'') = [payload ?e1, payload ?e2]"
    using registry_fifo [OF r, of "''s''"] by simp
  with r show ?thesis by (intro exI [of _ ?e1] exI [of _ ?e2] exI [of _ r]) simp
qed

text \<open>
  The registry accounts for its entries. On well-formed registries each \<^verbatim>\<open>Register\<close> adds
  one entry, each successful \<^verbatim>\<open>Consume\<close> removes one and a failed one none, and the number
  \<^verbatim>\<open>EvictOlderThan\<close> returns is the number of entries that went; all three keep the map free
  of empty queues.
\<close>

theorem registry_accounting:
  assumes "registry_wf r"
  shows "registry_wf (Register r k dc meta parts now) \<and> registry_wf (fst (Consume r k))
    \<and> registry_wf (fst (EvictOlderThan r c))
    \<and> Registry_Len (Register r k dc meta parts now) = Suc (Registry_Len r)
    \<and> Registry_Len (fst (Consume r k)) + (if snd (Consume r k) = None then 0 else 1) = Registry_Len r
    \<and> Registry_Len (fst (EvictOlderThan r c)) + snd (EvictOlderThan r c) = Registry_Len r"
proof -
  have "snd (Consume r k) \<noteq> None \<Longrightarrow> 0 < Registry_Len r"
    using assms Len_pending [of "insert k (dom (rg_entries r))" r]
    by (cases "pending r k") (simp_all add: registry_wf_def Consume_answer subset_insertI sum.insert_remove)
  with assms show ?thesis by (simp add: keeps Len_Register Len_Consume Len_Evict)
qed

theorem registry_accounting_witness:
  "Registry_Len (Register NewRegistry ''s'' zeroDeliveryContext None [] 5) = 1"
  using registry_accounting [OF registry_wf_New, of "''s''" zeroDeliveryContext None "[]" 5 0]
  by (simp add: Registry_Len_def NewRegistry_def)

end
