(* ===== verification/Dedup.thy ===== *)
theory Dedup
  imports GoStrings
begin

text \<open>
  The message deduplicator (\<^verbatim>\<open>internal/gateway/dedup.go\<close>): an expiring set of keys built from
  user, strategy and raw key. The locale \<open>dedup_cache\<close> is the contract the router relies
  on; the interpretation shows that the string-keyed map with its background eviction
  answers exactly like a specification that remembers every accepted sighting.
\<close>

section \<open>Model\<close>

datatype DeduplicationStrategy =
  DeduplicationByMessageID | DeduplicationByPrompt | DeduplicationNone

fun strategy_text :: "DeduplicationStrategy \<Rightarrow> string" where
  "strategy_text DeduplicationByMessageID = ''message-id''"
| "strategy_text DeduplicationByPrompt = ''prompt''"
| "strategy_text DeduplicationNone = ''none''"

record Deduplicator =
  dd_entries :: "string \<rightharpoonup> time"  \<comment> \<open>key to \<open>expiresAt\<close>\<close>
  dd_window :: duration

definition NewDeduplicator :: "duration \<Rightarrow> Deduplicator" where
  "NewDeduplicator wd = \<lparr>dd_entries = Map.empty, dd_window = wd\<rparr>"

definition buildKey :: "string \<Rightarrow> DeduplicationStrategy \<Rightarrow> string \<Rightarrow> string" where
  "buildKey userID strategy rawKey = userID @ '':'' @ strategy_text strategy @ '':'' @ rawKey"

text \<open>\<^verbatim>\<open>IsDuplicate\<close> reads the clock for the expiry test (\<open>n1\<close>) and again for the new entry (\<open>n2\<close>).\<close>

definition IsDuplicate ::
  "Deduplicator \<Rightarrow> string \<Rightarrow> DeduplicationStrategy \<Rightarrow> string \<Rightarrow> time \<Rightarrow> time \<Rightarrow> Deduplicator \<times> bool" where
  "IsDuplicate d userID strategy rawKey n1 n2 =
     (if strategy = DeduplicationNone \<or> rawKey = [] then (d, False)
      else let key = buildKey userID strategy rawKey;
               fresh = d\<lparr>dd_entries := (dd_entries d)(key \<mapsto> n2 + dd_window d)\<rparr>
           in case dd_entries d key of
                Some expiresAt \<Rightarrow> if n1 < expiresAt then (d, True) else (fresh, False)
              | None \<Rightarrow> (fresh, False))"

definition evictExpired :: "Deduplicator \<Rightarrow> time \<Rightarrow> Deduplicator" where
  "evictExpired d now = d\<lparr>dd_entries := map_retain (\<lambda>_ expiresAt. \<not> expiresAt < now) (dd_entries d)\<rparr>"

definition dedup_Len :: "Deduplicator \<Rightarrow> nat" where
  "dedup_Len d = card (dom (dd_entries d))"

section \<open>Histories\<close>

text \<open>
  What happens to the cache: sightings of messages and passes of the eviction goroutine,
  one after the other (the mutex serialises them).
\<close>

datatype dd_event =
  Sighting string DeduplicationStrategy string time time
| Eviction time

fun ev_start :: "dd_event \<Rightarrow> time" where
  "ev_start (Sighting u s k n1 n2) = n1"
| "ev_start (Eviction n) = n"

fun ev_end :: "dd_event \<Rightarrow> time" where
  "ev_end (Sighting u s k n1 n2) = n2"
| "ev_end (Eviction n) = n"

fun chronological :: "time \<Rightarrow> dd_event list \<Rightarrow> bool" where
  "chronological c [] = True"
| "chronological c (e # es) = (c \<le> ev_start e \<and> ev_start e \<le> ev_end e \<and> chronological (ev_end e) es)"

text \<open>User identifiers are generated as \<^verbatim>\<open>usr_<uuid>\<close>: they hold no colon.\<close>

fun plain_user :: "dd_event \<Rightarrow> bool" where
  "plain_user (Sighting u s k n1 n2) = (CHR '':'' \<notin> set u)"
| "plain_user (Eviction n) = True"

fun dd_run ::
  "('d \<Rightarrow> string \<Rightarrow> DeduplicationStrategy \<Rightarrow> string \<Rightarrow> time \<Rightarrow> time \<Rightarrow> 'd \<times> bool) \<Rightarrow> ('d \<Rightarrow> time \<Rightarrow> 'd)
     \<Rightarrow> 'd \<Rightarrow> dd_event list \<Rightarrow> bool list" where
  "dd_run dup evict d [] = []"
| "dd_run dup evict d (Sighting u s k n1 n2 # es) =
     snd (dup d u s k n1 n2) # dd_run dup evict (fst (dup d u s k n1 n2)) es"
| "dd_run dup evict d (Eviction n # es) = dd_run dup evict (evict d n) es"

text \<open>
  The specification keeps every accepted sighting with the instant it was recorded at. A
  sighting is a duplicate iff the same message was accepted less than a window ago.
\<close>

type_synonym sighting = "string \<times> DeduplicationStrategy \<times> string \<times> time"

definition seen_within ::
  "duration \<Rightarrow> sighting set \<Rightarrow> string \<Rightarrow> DeduplicationStrategy \<Rightarrow> string \<Rightarrow> time \<Rightarrow> bool" where
  "seen_within wd acc u s k now \<longleftrightarrow>
     s \<noteq> DeduplicationNone \<and> k \<noteq> [] \<and> (\<exists>n. (u, s, k, n) \<in> acc \<and> now < n + wd)"

fun dd_spec :: "duration \<Rightarrow> sighting set \<Rightarrow> dd_event list \<Rightarrow> bool list" where
  "dd_spec wd acc [] = []"
| "dd_spec wd acc (Sighting u s k n1 n2 # es) =
     (if seen_within wd acc u s k n1 then True # dd_spec wd acc es
      else False # dd_spec wd (insert (u, s, k, n2) acc) es)"
| "dd_spec wd acc (Eviction n # es) = dd_spec wd acc es"

section \<open>The contract of a deduplication cache\<close>

locale dedup_cache =
  fixes dup :: "'d \<Rightarrow> string \<Rightarrow> DeduplicationStrategy \<Rightarrow> string \<Rightarrow> time \<Rightarrow> time \<Rightarrow> 'd \<times> bool"
    and evict :: "'d \<Rightarrow> time \<Rightarrow> 'd"
    and remembers :: "'d \<Rightarrow> sighting set \<Rightarrow> time \<Rightarrow> bool"
    and wd :: duration
  assumes answer: "remembers d acc c \<Longrightarrow> c \<le> n1 \<Longrightarrow> n1 \<le> n2 \<Longrightarrow> CHR '':'' \<notin> set u
      \<Longrightarrow> snd (dup d u s k n1 n2) = seen_within wd acc u s k n1"
    and repeated: "remembers d acc c \<Longrightarrow> c \<le> n1 \<Longrightarrow> n1 \<le> n2 \<Longrightarrow> CHR '':'' \<notin> set u
      \<Longrightarrow> seen_within wd acc u s k n1 \<Longrightarrow> remembers (fst (dup d u s k n1 n2)) acc n2"
    and accepted: "remembers d acc c \<Longrightarrow> c \<le> n1 \<Longrightarrow> n1 \<le> n2 \<Longrightarrow> CHR '':'' \<notin> set u
      \<Longrightarrow> \<not> seen_within wd acc u s k n1
      \<Longrightarrow> remembers (fst (dup d u s k n1 n2)) (insert (u, s, k, n2) acc) n2"
    and evicted: "remembers d acc c \<Longrightarrow> c \<le> n \<Longrightarrow> remembers (evict d n) acc n"
begin

lemma run_is_spec:
  "remembers d acc c \<Longrightarrow> chronological c es \<Longrightarrow> list_all plain_user es
    \<Longrightarrow> dd_run dup evict d es = dd_spec wd acc es"
proof (induction es arbitrary: d acc c)
  case Nil
  then show ?case by simp
next
  case (Cons e es)
  show ?case
  proof (cases e)
    case (Eviction n)
    with Cons.prems have n: "c \<le> n" and es: "chronological n es" "list_all plain_user es" by auto
    from Cons.IH [OF evicted [OF Cons.prems(1) n] es] show ?thesis by (simp add: Eviction)
  next
    case (Sighting u s k n1 n2)
    with Cons.prems have c: "c \<le> n1" "n1 \<le> n2" "CHR '':'' \<notin> set u"
      and es: "chronological n2 es" "list_all plain_user es" by auto
    note pre = Cons.prems(1) c
    show ?thesis
    proof (cases "seen_within wd acc u s k n1")
      case True
      with Cons.IH [OF repeated [OF pre True] es] show ?thesis
        by (simp add: Sighting answer [OF pre])
    next
      case False
      with Cons.IH [OF accepted [OF pre False] es] show ?thesis
        by (simp add: Sighting answer [OF pre])
    qed
  qed
qed

end

section \<open>The deduplicator meets the contract\<close>

lemma strategy_text_inj: "strategy_text s = strategy_text s' \<Longrightarrow> s = s'"
  by (cases s; cases s') auto

lemma strategy_text_plain: "CHR '':'' \<notin> set (strategy_text s)"
  by (cases s) auto

lemma buildKey_inj:
  assumes "CHR '':'' \<notin> set u" "CHR '':'' \<notin> set u'"
  shows "buildKey u s k = buildKey u' s' k' \<longleftrightarrow> u = u' \<and> s = s' \<and> k = k'"
  using assms strategy_text_plain strategy_text_inj
  by (auto simp: buildKey_def append_sep_inj)

text \<open>
  The map agrees with the accepted sightings: an entry holds the latest expiry among the
  sightings of its key, and a key without entry has only sightings that expired by \<open>now\<close>.
\<close>

fun entry_ok :: "duration \<Rightarrow> time option \<Rightarrow> time set \<Rightarrow> time \<Rightarrow> bool" where
  "entry_ok wd None ns now = (\<forall>n \<in> ns. n + wd \<le> now)"
| "entry_ok wd (Some e) ns now = ((\<exists>n \<in> ns. e = n + wd) \<and> (\<forall>n \<in> ns. n + wd \<le> e))"

definition instants :: "sighting set \<Rightarrow> string \<Rightarrow> DeduplicationStrategy \<Rightarrow> string \<Rightarrow> time set" where
  "instants acc u s k = {n. (u, s, k, n) \<in> acc}"

definition effective :: "string \<Rightarrow> DeduplicationStrategy \<Rightarrow> string \<Rightarrow> bool" where
  "effective u s k \<longleftrightarrow> CHR '':'' \<notin> set u \<and> s \<noteq> DeduplicationNone \<and> k \<noteq> []"

definition remembers :: "duration \<Rightarrow> Deduplicator \<Rightarrow> sighting set \<Rightarrow> time \<Rightarrow> bool" where
  "remembers wd d acc now \<longleftrightarrow>
     dd_window d = wd \<and> (\<forall>u s k. \<forall>n \<in> instants acc u s k. n \<le> now) \<and>
     (\<forall>u s k. effective u s k \<longrightarrow>
        entry_ok wd (dd_entries d (buildKey u s k)) (instants acc u s k) now)"

lemma instants_empty [simp]: "instants {} u s k = {}"
  by (simp add: instants_def)

lemma instants_insert [simp]:
  "instants (insert (u, s, k, n) acc) u' s' k' =
     (if u' = u \<and> s' = s \<and> k' = k then insert n (instants acc u' s' k') else instants acc u' s' k')"
  by (auto simp: instants_def)

lemma seen_within_instants:
  "seen_within wd acc u s k now \<longleftrightarrow>
     s \<noteq> DeduplicationNone \<and> k \<noteq> [] \<and> (\<exists>n \<in> instants acc u s k. now < n + wd)"
  by (auto simp: seen_within_def instants_def)

lemma entry_ok_mono: "entry_ok wd e ns c \<Longrightarrow> c \<le> c' \<Longrightarrow> entry_ok wd e ns c'"
  by (cases e) auto

lemma remembers_new: "remembers wd (NewDeduplicator wd) {} now"
  by (simp add: remembers_def NewDeduplicator_def)

lemma remembers_mono:
  assumes "remembers wd d acc c" "c \<le> c'"
  shows "remembers wd d acc c'"
proof -
  have "n \<le> c'" if "n \<in> instants acc u s k" for u s k n
    using assms that by (force simp: remembers_def)
  with assms(1) entry_ok_mono [OF _ assms(2)] show ?thesis unfolding remembers_def by blast
qed

lemma remembers_entry: "remembers wd d acc c \<Longrightarrow> effective u s k
    \<Longrightarrow> entry_ok wd (dd_entries d (buildKey u s k)) (instants acc u s k) c"
  by (simp add: remembers_def)

lemma dedup_answer:
  assumes "remembers wd d acc c" "c \<le> n1" "n1 \<le> n2" "CHR '':'' \<notin> set u"
  shows "snd (IsDuplicate d u s k n1 n2) = seen_within wd acc u s k n1"
proof (cases "effective u s k")
  case False
  with assms(4) show ?thesis by (auto simp: IsDuplicate_def seen_within_def effective_def)
next
  case True
  then have dup: "snd (IsDuplicate d u s k n1 n2) =
      (case dd_entries d (buildKey u s k) of None \<Rightarrow> False | Some e \<Rightarrow> n1 < e)"
    by (auto simp: IsDuplicate_def effective_def Let_def split: option.splits)
  have seen: "seen_within wd acc u s k n1 = (\<exists>n \<in> instants acc u s k. n1 < n + wd)"
    using True by (simp add: seen_within_instants effective_def)
  show ?thesis
  proof (cases "dd_entries d (buildKey u s k)")
    case None
    with remembers_entry [OF assms(1) True] assms(2) show ?thesis by (force simp: dup seen)
  next
    case (Some e)
    with remembers_entry [OF assms(1) True] show ?thesis by (force simp: dup seen)
  qed
qed

lemma IsDuplicate_unchanged:
  "snd (IsDuplicate d u s k n1 n2) \<or> s = DeduplicationNone \<or> k = []
    \<Longrightarrow> fst (IsDuplicate d u s k n1 n2) = d"
  by (auto simp: IsDuplicate_def Let_def split: option.splits if_splits)

lemma IsDuplicate_accepts:
  assumes "\<not> snd (IsDuplicate d u s k n1 n2)" "s \<noteq> DeduplicationNone" "k \<noteq> []"
  shows "fst (IsDuplicate d u s k n1 n2)
     = d\<lparr>dd_entries := (dd_entries d)(buildKey u s k \<mapsto> n2 + dd_window d)\<rparr>"
  using assms by (auto simp: IsDuplicate_def Let_def split: option.splits)

lemma dedup_repeated:
  assumes "remembers wd d acc c" "c \<le> n1" "n1 \<le> n2" "CHR '':'' \<notin> set u"
    "seen_within wd acc u s k n1"
  shows "remembers wd (fst (IsDuplicate d u s k n1 n2)) acc n2"
proof -
  have "fst (IsDuplicate d u s k n1 n2) = d"
    using dedup_answer [OF assms(1-4)] assms(5) by (intro IsDuplicate_unchanged) simp
  with remembers_mono [OF assms(1)] assms(2,3) show ?thesis by auto
qed

lemma dedup_evicted:
  assumes "remembers wd d acc c" "c \<le> n"
  shows "remembers wd (evictExpired d n) acc n"
proof -
  have "entry_ok wd (dd_entries (evictExpired d n) (buildKey u s k)) (instants acc u s k) n"
    if "effective u s k" for u s k
    using remembers_entry [OF remembers_mono [OF assms] that]
    by (cases "dd_entries d (buildKey u s k)") (fastforce simp: evictExpired_def)+
  with remembers_mono [OF assms] show ?thesis by (simp add: remembers_def evictExpired_def)
qed

lemma dedup_accepted:
  assumes "remembers wd d acc c" "c \<le> n1" "n1 \<le> n2" "CHR '':'' \<notin> set u"
    "\<not> seen_within wd acc u s k n1"
  shows "remembers wd (fst (IsDuplicate d u s k n1 n2)) (insert (u, s, k, n2) acc) n2"
proof (cases "effective u s k")
  case False
  with assms(4) have "fst (IsDuplicate d u s k n1 n2) = d"
    by (intro IsDuplicate_unchanged) (auto simp: effective_def)
  moreover have "remembers wd d acc n2" using remembers_mono [OF assms(1)] assms(2,3) by auto
  ultimately show ?thesis using False by (auto simp: remembers_def)
next
  case True
  have m: "remembers wd d acc n2" using remembers_mono [OF assms(1)] assms(2,3) by auto
  have d': "fst (IsDuplicate d u s k n1 n2)
      = d\<lparr>dd_entries := (dd_entries d)(buildKey u s k \<mapsto> n2 + wd)\<rparr>"
    using IsDuplicate_accepts dedup_answer [OF assms(1-4)] assms(5) True m
    by (auto simp: effective_def remembers_def)
  have key: "buildKey u' s' k' = buildKey u s k \<longleftrightarrow> u' = u \<and> s' = s \<and> k' = k"
    if "effective u' s' k'" for u' s' k'
    using buildKey_inj that True by (simp add: effective_def)
  show ?thesis using m by (auto simp: remembers_def d' key)
qed

interpretation dd: dedup_cache IsDuplicate evictExpired "remembers wd" wd for wd
  by unfold_locales (fact dedup_answer dedup_repeated dedup_accepted dedup_evicted)+

section \<open>Properties\<close>

text \<open>
  C8: the cache answers exactly like the specification. Over any sequence of sightings and
  eviction passes in time order, a message is reported as a duplicate iff it was accepted
  less than one window earlier: nothing is processed twice within the window, no first
  sighting is suppressed, and eviction is unobservable.
\<close>

theorem dedup_run_exact:
  assumes "chronological c es" and "list_all plain_user es"
  shows "dd_run IsDuplicate evictExpired (NewDeduplicator wd) es = dd_spec wd {} es"
  by (rule dd.run_is_spec [OF remembers_new assms])

theorem dedup_run_exact_witness:
  "dd_run IsDuplicate evictExpired (NewDeduplicator 30)
     [Sighting ''u1'' DeduplicationByMessageID ''m'' 1 2, Eviction 20,
      Sighting ''u1'' DeduplicationByMessageID ''m'' 25 26,
      Sighting ''u2'' DeduplicationByMessageID ''m'' 27 27,
      Sighting ''u1'' DeduplicationByMessageID ''m'' 32 33] = [False, True, False, False]"
proof -
  let ?es = "[Sighting ''u1'' DeduplicationByMessageID ''m'' 1 2, Eviction 20,
      Sighting ''u1'' DeduplicationByMessageID ''m'' 25 26,
      Sighting ''u2'' DeduplicationByMessageID ''m'' 27 27,
      Sighting ''u1'' DeduplicationByMessageID ''m'' 32 33]"
  have "dd_run IsDuplicate evictExpired (NewDeduplicator 30) ?es = dd_spec 30 {} ?es"
    by (rule dedup_run_exact [of 0]) simp_all
  also have "\<dots> = [False, True, False, False]" by (simp add: seen_within_def)
  finally show ?thesis .
qed

end
