(* ===== verification/Router.thy ===== *)
theory Router
  imports Guard Resolver Registry Dedup "HOL-Library.Multiset"
begin

text \<open>
  The router (\<^verbatim>\<open>internal/gateway/router.go\<close>): the pipeline every inbound message runs through, from
  user resolution over the allowlist, the session key, the delivery registry and
  deduplication to publishing, and the collect buffers with their debounce timers.

  The effects on the outside are appended to a log (\<open>rt_log\<close>): notifications of the adapter
  and publications, successful or failed. What the environment chooses (fresh identifiers,
  clock readings, the broker's answers) is the record \<open>route_env\<close>. The timers and the
  goroutines the router starts are part of its state, and firing one is a step of the
  relation \<open>router_step\<close>; the mutexes make each handler and each flush atomic.
\<close>

section \<open>Configuration and state\<close>

record ChannelQueueMode =
  cq_Mode :: QueueMode
  cq_DebounceMS :: int
  cq_CollectCap :: int
  cq_Priority :: int

text \<open>The part of the configuration the router reads; a nil \<^verbatim>\<open>PerChannel\<close> map reads as an empty one.\<close>

record QueueConfig =
  qc_DefaultMode :: QueueMode
  qc_PerChannel :: "string \<rightharpoonup> ChannelQueueMode"

record collectBuffer =
  cb_msgs :: "NipperMessage list"
  cb_timer :: nat
  cb_cap :: int
  cb_mode :: QueueMode
  cb_priority :: int

datatype effect =
  InboundNotified NipperMessage
| MessagePublished QueueItem
| PublishFailed QueueItem
| PublisherMissing QueueItem  \<comment> \<open>logged by a flush without a publisher\<close>
| ControlPublished string ControlMessage
| ControlFailed string ControlMessage

record 's Router =
  rt_store :: 's
  rt_registry :: Registry
  rt_dedup :: Deduplicator
  rt_buffers :: "string \<rightharpoonup> collectBuffer"
  rt_armed :: "nat \<rightharpoonup> string"  \<comment> \<open>debounce timers that have not fired: id to buffer key\<close>
  rt_next_timer :: nat
  rt_flushers :: "string list"  \<comment> \<open>goroutines \<^verbatim>\<open>go r.flushCollectBuffer(bufKey)\<close> not yet run\<close>
  rt_log :: "effect list"

record 's RouterDeps =
  dp_repo :: "'s Repository"
  dp_config :: "QueueConfig option"
  dp_publisher :: bool  \<comment> \<open>a publisher is configured\<close>
  dp_PromptHash :: "string \<Rightarrow> string"  \<comment> \<open>hex SHA-256 of a text\<close>

record route_env =
  en_uuid :: string
  en_now :: time
  en_alias_at :: time
  en_guard_now :: time
  en_registered_at :: time
  en_dedup_now :: time
  en_dedup_store :: time
  en_item_id :: string
  en_enqueued_at :: time
  en_publish_ok :: bool
  en_control_at :: time
  en_control_ok :: bool

definition NewRouter :: "'s \<Rightarrow> Registry \<Rightarrow> Deduplicator \<Rightarrow> 's Router" where
  "NewRouter st reg dd =
     \<lparr>rt_store = st, rt_registry = reg, rt_dedup = dd, rt_buffers = Map.empty, rt_armed = Map.empty,
      rt_next_timer = 0, rt_flushers = [], rt_log = []\<rparr>"

datatype route_error = AllowlistError repo_error | ResolverError resolve_error | NoPublisher | PublishError
  | NormaliseError

text \<open>How a call ends. All but \<open>RouteFailed\<close> return nil to the caller.\<close>

datatype outcome = Ignored | Rejected | Suppressed | Buffered | Routed | RouteFailed route_error

section \<open>User resolution\<close>

text \<open>The candidates in order, without empty strings and repetitions.\<close>

fun uniq_from :: "string list \<Rightarrow> string list \<Rightarrow> string list" where
  "uniq_from seen [] = []"
| "uniq_from seen (c # cs) =
     (if c = [] \<or> c \<in> set seen then uniq_from seen cs else c # uniq_from (c # seen) cs)"

definition candidates :: "NipperMessage \<Rightarrow> string list" where
  "candidates msg =
     nm_ChannelIdentity msg #
       (if nm_ChannelType msg = ChannelTypeWhatsApp
        then (case nm_Meta msg of Some (MetaWhatsApp m) \<Rightarrow> [wm_SenderJID m, wm_ChatJID m] | _ \<Rightarrow> [])
        else [])"

fun resolve_loop ::
  "'s Repository \<Rightarrow> string \<Rightarrow> string \<Rightarrow> time \<Rightarrow> 's \<Rightarrow> string list \<Rightarrow> 's \<times> string" where
  "resolve_loop repo channel channelIdentity ts s [] = (s, [])"
| "resolve_loop repo channel channelIdentity ts s (identity # rest) =
     (case repo_ResolveIdentity repo s channel identity of
        (s1, Inl e) \<Rightarrow> resolve_loop repo channel channelIdentity ts s1 rest
      | (s1, Inr userID) \<Rightarrow>
          if identity \<noteq> channelIdentity
          then (fst (repo_AddIdentity repo s1 userID channel channelIdentity ts), userID)
          else (s1, userID))"

definition resolveUser :: "'s Repository \<Rightarrow> 's \<Rightarrow> NipperMessage \<Rightarrow> time \<Rightarrow> 's \<times> string" where
  "resolveUser repo s msg ts =
     (if nm_ChannelIdentity msg = [] then (s, [])
      else resolve_loop repo (nm_ChannelType msg) (nm_ChannelIdentity msg) ts s
             (uniq_from [] (candidates msg)))"

section \<open>Deduplication key and queue mode\<close>

definition dedupStrategy :: "NipperMessage \<Rightarrow> DeduplicationStrategy" where
  "dedupStrategy msg =
     (if nm_OriginMessageID msg \<noteq> [] then DeduplicationByMessageID
      else if mc_Text (nm_Content msg) \<noteq> [] then DeduplicationByPrompt
      else DeduplicationNone)"

definition deriveDedupKey :: "(string \<Rightarrow> string) \<Rightarrow> NipperMessage \<Rightarrow> string" where
  "deriveDedupKey prompt_hash msg =
     (if nm_OriginMessageID msg \<noteq> [] then nm_OriginMessageID msg
      else if mc_Text (nm_Content msg) \<noteq> [] then prompt_hash (mc_Text (nm_Content msg))
      else [])"

definition queueModeFor :: "QueueConfig option \<Rightarrow> ChannelType \<Rightarrow> QueueMode \<times> int" where
  "queueModeFor cfg ct =
     (case cfg of
        None \<Rightarrow> (QueueModeQueue, 0)
      | Some q \<Rightarrow>
          (case qc_PerChannel q ct of
             Some ch \<Rightarrow> (cq_Mode ch, cq_Priority ch)
           | None \<Rightarrow> (if qc_DefaultMode q \<noteq> [] then qc_DefaultMode q else QueueModeQueue, 0)))"

definition buildQueueItem :: "route_env \<Rightarrow> NipperMessage \<Rightarrow> QueueMode \<Rightarrow> int \<Rightarrow> QueueItem" where
  "buildQueueItem env msg mode priority =
     \<lparr>qi_ID = en_item_id env, qi_Message = Some msg, qi_Mode = mode, qi_Priority = priority,
      qi_EnqueuedAt = en_enqueued_at env, qi_CollectedMessages = []\<rparr>"

section \<open>Collect buffers\<close>

definition bufKey :: "NipperMessage \<Rightarrow> string" where
  "bufKey msg = nm_UserID msg @ '':'' @ nm_ChannelType msg"

definition collect_cap :: "QueueConfig option \<Rightarrow> ChannelType \<Rightarrow> int" where
  "collect_cap cfg ct =
     (case cfg of
        None \<Rightarrow> 5
      | Some q \<Rightarrow> (case qc_PerChannel q ct of
                    Some ch \<Rightarrow> if 0 < cq_CollectCap ch then cq_CollectCap ch else 5
                  | None \<Rightarrow> 5))"

definition open_buffer ::
  "QueueConfig option \<Rightarrow> 's Router \<Rightarrow> NipperMessage \<Rightarrow> QueueMode \<Rightarrow> int \<Rightarrow> 's Router \<times> collectBuffer" where
  "open_buffer cfg rt msg mode priority =
     (case rt_buffers rt (bufKey msg) of
        Some buf \<Rightarrow> (rt, buf)
      | None \<Rightarrow>
          (rt\<lparr>rt_armed := (rt_armed rt)(rt_next_timer rt \<mapsto> bufKey msg),
              rt_next_timer := Suc (rt_next_timer rt)\<rparr>,
           \<lparr>cb_msgs = [], cb_timer = rt_next_timer rt, cb_cap = collect_cap cfg (nm_ChannelType msg),
            cb_mode = mode, cb_priority = priority\<rparr>))"

text \<open>\<^verbatim>\<open>timer.Stop()\<close> disarms a timer that has not fired and has no effect otherwise.\<close>

definition enqueueCollect ::
  "QueueConfig option \<Rightarrow> 's Router \<Rightarrow> NipperMessage \<Rightarrow> QueueMode \<Rightarrow> int \<Rightarrow> 's Router" where
  "enqueueCollect cfg rt msg mode priority =
     (let (rt1, buf) = open_buffer cfg rt msg mode priority;
          buf' = buf\<lparr>cb_msgs := cb_msgs buf @ [msg]\<rparr>;
          rt2 = rt1\<lparr>rt_buffers := (rt_buffers rt1)(bufKey msg \<mapsto> buf')\<rparr>
      in if cb_cap buf' \<le> int (length (cb_msgs buf'))
         then rt2\<lparr>rt_armed := (rt_armed rt2)(cb_timer buf' := None),
                  rt_flushers := rt_flushers rt2 @ [bufKey msg]\<rparr>
         else rt2)"

definition flush_item :: "route_env \<Rightarrow> collectBuffer \<Rightarrow> QueueItem" where
  "flush_item env buf =
     \<lparr>qi_ID = en_item_id env, qi_Message = Some (last (cb_msgs buf)), qi_Mode = cb_mode buf,
      qi_Priority = cb_priority buf, qi_EnqueuedAt = en_enqueued_at env,
      qi_CollectedMessages = cb_msgs buf\<rparr>"

definition flushCollectBuffer :: "'s RouterDeps \<Rightarrow> route_env \<Rightarrow> 's Router \<Rightarrow> string \<Rightarrow> 's Router" where
  "flushCollectBuffer deps env rt key =
     (case rt_buffers rt key of
        None \<Rightarrow> rt
      | Some buf \<Rightarrow>
          if cb_msgs buf = [] then rt
          else let rt1 = rt\<lparr>rt_buffers := (rt_buffers rt)(key := None)\<rparr>;
                   item = flush_item env buf
               in if \<not> dp_publisher deps
                  then rt1\<lparr>rt_log := rt_log rt1 @ [PublisherMissing item]\<rparr>
                  else if \<not> en_publish_ok env
                  then rt1\<lparr>rt_log := rt_log rt1 @ [PublishFailed item]\<rparr>
                  else rt1\<lparr>rt_log := rt_log rt1 @ [MessagePublished item]\<rparr>)"

section \<open>The pipeline\<close>

text \<open>The hook \<^verbatim>\<open>onAccepted\<close> is called once the message is neither rejected nor a duplicate.\<close>

definition onAccepted :: "bool \<Rightarrow> NipperMessage \<Rightarrow> 's Router \<Rightarrow> 's Router" where
  "onAccepted notify msg rt =
     (if notify then rt\<lparr>rt_log := rt_log rt @ [InboundNotified msg]\<rparr> else rt)"

text \<open>Steps 7 to 10: from the accepted message to the queue.\<close>

definition dispatch_accepted ::
  "'s RouterDeps \<Rightarrow> route_env \<Rightarrow> bool \<Rightarrow> 's Router \<Rightarrow> NipperMessage \<Rightarrow> 's Router \<times> outcome" where
  "dispatch_accepted deps env notify rt0 msg =
     (let rt = onAccepted notify msg rt0;
          (mode, priority) = queueModeFor (dp_config deps) (nm_ChannelType msg)
      in if mode = QueueModeCollect then (enqueueCollect (dp_config deps) rt msg mode priority, Buffered)
         else let item = buildQueueItem env msg mode priority in
           if \<not> dp_publisher deps then (rt, RouteFailed NoPublisher)
           else if \<not> en_publish_ok env
             then (rt\<lparr>rt_log := rt_log rt @ [PublishFailed item]\<rparr>, RouteFailed PublishError)
           else let rt1 = rt\<lparr>rt_log := rt_log rt @ [MessagePublished item]\<rparr>;
                    ctrl = \<lparr>ct_Type = ControlMessageInterrupt, ct_UserID = nm_UserID msg,
                            ct_SessionKey = nm_SessionKey msg, ct_Timestamp = en_control_at env\<rparr>
             in (if mode = QueueModeInterrupt
                 then rt1\<lparr>rt_log := rt_log rt1 @
                        [if en_control_ok env then ControlPublished (nm_UserID msg) ctrl
                         else ControlFailed (nm_UserID msg) ctrl]\<rparr>
                 else rt1, Routed))"

text \<open>Steps 5 and 6: registration of the delivery context, then deduplication.\<close>

definition register_and_dedup ::
  "'s RouterDeps \<Rightarrow> route_env \<Rightarrow> bool \<Rightarrow> 's Router \<Rightarrow> NipperMessage \<Rightarrow> 's Router \<times> outcome" where
  "register_and_dedup deps env notify rt msg =
     (let rt1 = rt\<lparr>rt_registry := Register (rt_registry rt) (nm_SessionKey msg) (nm_DeliveryContext msg)
                      (nm_Meta msg) (mc_Parts (nm_Content msg)) (en_registered_at env)\<rparr>;
          (dd, dup) = IsDuplicate (rt_dedup rt1) (nm_UserID msg) (dedupStrategy msg)
                        (deriveDedupKey (dp_PromptHash deps) msg) (en_dedup_now env) (en_dedup_store env);
          rt2 = rt1\<lparr>rt_dedup := dd\<rparr>
      in if dup then (rt2, Suppressed) else dispatch_accepted deps env notify rt2 msg)"

text \<open>Step 4.\<close>

definition resolve_session ::
  "'s RouterDeps \<Rightarrow> route_env \<Rightarrow> bool \<Rightarrow> 's Router \<Rightarrow> NipperMessage \<Rightarrow> 's Router \<times> outcome" where
  "resolve_session deps env notify rt msg =
     (case Resolve msg of
        Inl e \<Rightarrow> (rt, RouteFailed (ResolverError e))
      | Inr key \<Rightarrow> register_and_dedup deps env notify rt (msg\<lparr>nm_SessionKey := key\<rparr>))"

text \<open>The defaults filled in before the pipeline starts.\<close>

definition stamp :: "route_env \<Rightarrow> NipperMessage \<Rightarrow> NipperMessage" where
  "stamp env msg =
     (let m1 = (if nm_MessageID msg = [] then msg\<lparr>nm_MessageID := en_uuid env\<rparr> else msg)
      in if nm_Timestamp m1 = zero_time then m1\<lparr>nm_Timestamp := en_now env\<rparr> else m1)"

definition handleNormalizedMessage ::
  "'s RouterDeps \<Rightarrow> route_env \<Rightarrow> bool \<Rightarrow> 's Router \<Rightarrow> NipperMessage option \<Rightarrow> 's Router \<times> outcome" where
  "handleNormalizedMessage deps env notify rt omsg =
     (case omsg of
        None \<Rightarrow> (rt, Ignored)
      | Some msg0 \<Rightarrow>
          let msg1 = stamp env msg0;
              (st, uid) = (if nm_UserID msg1 = []
                           then resolveUser (dp_repo deps) (rt_store rt) msg1 (en_alias_at env)
                           else (rt_store rt, nm_UserID msg1));
              msg = msg1\<lparr>nm_UserID := uid\<rparr>;
              rt1 = rt\<lparr>rt_store := st\<rparr>
          in if nm_ChannelType msg \<noteq> ChannelTypeCron
             then (case Guard_Check (dp_repo deps) st (nm_UserID msg) (nm_ChannelType msg)
                          (nm_ChannelIdentity msg) (en_guard_now env) of
                     (st2, Inl e) \<Rightarrow> (rt1\<lparr>rt_store := st2\<rparr>, RouteFailed (AllowlistError e))
                   | (st2, Inr False) \<Rightarrow> (rt1\<lparr>rt_store := st2\<rparr>, Rejected)
                   | (st2, Inr True) \<Rightarrow> resolve_session deps env notify (rt1\<lparr>rt_store := st2\<rparr>) msg)
             else resolve_session deps env notify rt1 msg)"

text \<open>
  The webhook entry: the adapter normalises the raw bytes (an error, a message, or nothing
  to do) and may offer the notification hook.
\<close>

definition HandleMessage ::
  "(string \<Rightarrow> unit + NipperMessage option) \<Rightarrow> bool \<Rightarrow> 's RouterDeps \<Rightarrow> route_env \<Rightarrow> 's Router \<Rightarrow> string
     \<Rightarrow> 's Router \<times> outcome" where
  "HandleMessage normalise notifier deps env rt raw =
     (case normalise raw of
        Inl _ \<Rightarrow> (rt, RouteFailed NormaliseError)
      | Inr None \<Rightarrow> (rt, Ignored)
      | Inr (Some msg) \<Rightarrow> handleNormalizedMessage deps env notifier rt (Some msg))"

definition HandleNormalizedMessage ::
  "'s RouterDeps \<Rightarrow> route_env \<Rightarrow> 's Router \<Rightarrow> NipperMessage option \<Rightarrow> 's Router \<times> outcome" where
  "HandleNormalizedMessage deps env rt msg = handleNormalizedMessage deps env False rt msg"

section \<open>Stages of a call\<close>

text \<open>The message as the pipeline carries it from step 4 on.\<close>

definition prepared :: "'s RouterDeps \<Rightarrow> route_env \<Rightarrow> 's Router \<Rightarrow> NipperMessage \<Rightarrow> NipperMessage" where
  "prepared deps env rt msg0 =
     (let msg1 = stamp env msg0;
          uid = (if nm_UserID msg1 = []
                 then snd (resolveUser (dp_repo deps) (rt_store rt) msg1 (en_alias_at env))
                 else nm_UserID msg1);
          msg = msg1\<lparr>nm_UserID := uid\<rparr>
      in msg\<lparr>nm_SessionKey := BuildSessionKey uid (nm_ChannelType msg) (deriveSessionID msg)\<rparr>)"

lemma resolve_session_cases:
  assumes "resolve_session deps env n rt m = (rt', out)"
  shows "rt' = rt \<and> out = RouteFailed (ResolverError NoUserID) \<and> nm_UserID m = []
    \<or> nm_UserID m \<noteq> [] \<and> (rt', out) = register_and_dedup deps env n rt
        (m\<lparr>nm_SessionKey := BuildSessionKey (nm_UserID m) (nm_ChannelType m) (deriveSessionID m)\<rparr>)"
  using assms by (auto simp: resolve_session_def Resolve_def split: if_splits)

text \<open>
  Either the call stops before step 5 and only the store can have changed, or it enters
  step 5 with the prepared message, after the guard admitted it (cron messages skip the
  guard).
\<close>

lemma handle_cases:
  assumes run: "handleNormalizedMessage deps env n rt (Some m) = (rt', out)"
  obtains (stopped) st where "rt' = rt\<lparr>rt_store := st\<rparr>"
      "out = Rejected \<or> (\<exists>e. out = RouteFailed (AllowlistError e)) \<or> (\<exists>e. out = RouteFailed (ResolverError e))"
  | (entered) st0 st where
      "(rt', out) = register_and_dedup deps env n (rt\<lparr>rt_store := st\<rparr>) (prepared deps env rt m)"
      "nm_UserID (prepared deps env rt m) \<noteq> []"
      "nm_UserID (stamp env m) \<noteq> [] \<Longrightarrow> st0 = rt_store rt"
      "nm_UserID (stamp env m) = [] \<Longrightarrow>
         st0 = fst (resolveUser (dp_repo deps) (rt_store rt) (stamp env m) (en_alias_at env))"
      "nm_ChannelType m \<noteq> ChannelTypeCron \<Longrightarrow>
         Guard_Check (dp_repo deps) st0 (nm_UserID (prepared deps env rt m)) (nm_ChannelType m)
           (nm_ChannelIdentity m) (en_guard_now env) = (st, Inr True)"
proof -
  obtain st0 uid where su: "(if nm_UserID (stamp env m) = []
      then resolveUser (dp_repo deps) (rt_store rt) (stamp env m) (en_alias_at env)
      else (rt_store rt, nm_UserID (stamp env m))) = (st0, uid)" by force
  let ?m = "(stamp env m)\<lparr>nm_UserID := uid\<rparr>"
  have ch: "nm_ChannelType (stamp env m) = nm_ChannelType m"
    "nm_ChannelIdentity (stamp env m) = nm_ChannelIdentity m"
    by (auto simp: stamp_def Let_def)
  have prep: "prepared deps env rt m =
      ?m\<lparr>nm_SessionKey := BuildSessionKey (nm_UserID ?m) (nm_ChannelType ?m) (deriveSessionID ?m)\<rparr>"
    using su by (auto simp: prepared_def Let_def split: if_splits)
  have uid: "nm_UserID (prepared deps env rt m) = uid" by (simp add: prep)
  have enter: thesis
    if "resolve_session deps env n (rt\<lparr>rt_store := st\<rparr>) ?m = (rt', out)"
      and "nm_ChannelType m \<noteq> ChannelTypeCron \<Longrightarrow> Guard_Check (dp_repo deps) st0 uid (nm_ChannelType m)
        (nm_ChannelIdentity m) (en_guard_now env) = (st, Inr True)" for st
  proof -
    from resolve_session_cases [OF that(1)]
    consider (failed) "rt' = rt\<lparr>rt_store := st\<rparr>" "out = RouteFailed (ResolverError NoUserID)"
      | (ok) "uid \<noteq> []" "(rt', out) = register_and_dedup deps env n (rt\<lparr>rt_store := st\<rparr>) (prepared deps env rt m)"
      by (auto simp: prep)
    then show thesis
    proof cases
      case failed
      then show thesis by (intro stopped [of st]) auto
    next
      case ok
      with su that(2) show thesis by (intro entered [of st st0]) (auto simp: uid split: if_splits)
    qed
  qed
  show thesis
  proof (cases "nm_ChannelType m = ChannelTypeCron")
    case True
    with run su ch have "resolve_session deps env n (rt\<lparr>rt_store := st0\<rparr>) ?m = (rt', out)"
      by (auto simp: handleNormalizedMessage_def Let_def)
    from enter [OF this] True show thesis by simp
  next
    case False
    obtain st2 r where g: "Guard_Check (dp_repo deps) st0 uid (nm_ChannelType m) (nm_ChannelIdentity m)
        (en_guard_now env) = (st2, r)" by force
    show thesis
    proof (cases "r = Inr True")
      case True
      with run su ch False g have "resolve_session deps env n (rt\<lparr>rt_store := st2\<rparr>) ?m = (rt', out)"
        by (auto simp: handleNormalizedMessage_def Let_def)
      from enter [OF this] g True show thesis by simp
    next
      case r: False
      with run su ch False g have "rt' = rt\<lparr>rt_store := st2\<rparr>
          \<and> (out = Rejected \<or> (\<exists>e. out = RouteFailed (AllowlistError e)))"
        by (cases r) (auto simp: handleNormalizedMessage_def Let_def split: bool.splits)
      then show thesis by (intro stopped [of st2]) auto
    qed
  qed
qed

section \<open>Steps of the router\<close>

text \<open>The message a call hands over to a buffer or to the publisher.\<close>

definition taken_over :: "outcome \<Rightarrow> bool" where
  "taken_over out \<longleftrightarrow> out = Buffered \<or> out = Routed \<or> out = RouteFailed PublishError"

text \<open>
  A run of the router: calls of the handler, timers that fire, flush goroutines that get to
  run, evictions of the deduplicator, and the changes the dispatcher makes to the shared
  registry. The list collects the messages taken over, in order.
\<close>

inductive router_run ::
  "'s RouterDeps \<Rightarrow> 's Router \<Rightarrow> NipperMessage list \<Rightarrow> 's Router \<Rightarrow> bool" for deps where
  start: "router_run deps rt [] rt"
| handle: "router_run deps rt0 ms rt \<Longrightarrow> handleNormalizedMessage deps env n rt (Some m) = (rt', out)
    \<Longrightarrow> router_run deps rt0 (ms @ (if taken_over out then [prepared deps env rt m] else [])) rt'"
| timer: "router_run deps rt0 ms rt \<Longrightarrow> rt_armed rt t = Some k
    \<Longrightarrow> router_run deps rt0 ms (flushCollectBuffer deps env (rt\<lparr>rt_armed := (rt_armed rt)(t := None)\<rparr>) k)"
| flusher: "router_run deps rt0 ms rt \<Longrightarrow> rt_flushers rt = xs @ k # ys
    \<Longrightarrow> router_run deps rt0 ms (flushCollectBuffer deps env (rt\<lparr>rt_flushers := xs @ ys\<rparr>) k)"
| expire: "router_run deps rt0 ms rt
    \<Longrightarrow> router_run deps rt0 ms (rt\<lparr>rt_dedup := evictExpired (rt_dedup rt) now\<rparr>)"
| deliver: "router_run deps rt0 ms rt
    \<Longrightarrow> router_run deps rt0 ms (rt\<lparr>rt_registry := fst (Consume (rt_registry rt) k)\<rparr>)"
| forget: "router_run deps rt0 ms rt
    \<Longrightarrow> router_run deps rt0 ms (rt\<lparr>rt_registry := fst (EvictOlderThan (rt_registry rt) cutoff)\<rparr>)"

inductive_cases router_runE: "router_run deps rt0 ms rt"

section \<open>Collected messages are neither lost nor stuck\<close>

text \<open>The messages of the items the log shows as published or failed.\<close>

fun item_messages :: "QueueItem \<Rightarrow> NipperMessage list" where
  "item_messages it =
     (if qi_CollectedMessages it \<noteq> [] then qi_CollectedMessages it
      else case qi_Message it of None \<Rightarrow> [] | Some m \<Rightarrow> [m])"

fun effect_messages :: "effect \<Rightarrow> NipperMessage list" where
  "effect_messages (MessagePublished it) = item_messages it"
| "effect_messages (PublishFailed it) = item_messages it"
| "effect_messages (PublisherMissing it) = item_messages it"
| "effect_messages (InboundNotified m) = []"
| "effect_messages (ControlPublished u c) = []"
| "effect_messages (ControlFailed u c) = []"

definition sent :: "'s Router \<Rightarrow> NipperMessage multiset" where
  "sent rt = mset (concat (map effect_messages (rt_log rt)))"

definition held :: "(string \<rightharpoonup> collectBuffer) \<Rightarrow> NipperMessage multiset" where
  "held bufs = (\<Sum>k \<in> dom bufs. mset (cb_msgs (the (bufs k))))"

definition buffered :: "'s Router \<Rightarrow> NipperMessage multiset" where
  "buffered rt = held (rt_buffers rt)"

text \<open>
  Every buffer holds a message and has somebody who will flush it: its own timer, still
  armed, or a flush goroutine. Timer ids are fresh and belong to one buffer key.
\<close>

definition timers_of :: "(nat \<Rightarrow> string) \<Rightarrow> (string \<rightharpoonup> collectBuffer) \<Rightarrow> (nat \<rightharpoonup> string) \<Rightarrow> nat \<Rightarrow> bool" where
  "timers_of key_of bufs armed next_t \<longleftrightarrow>
     (\<forall>t k. armed t = Some k \<longrightarrow> key_of t = k \<and> t < next_t)
     \<and> (\<forall>k b. bufs k = Some b \<longrightarrow> key_of (cb_timer b) = k \<and> cb_timer b < next_t)"

definition attended :: "(string \<rightharpoonup> collectBuffer) \<Rightarrow> (nat \<rightharpoonup> string) \<Rightarrow> string list \<Rightarrow> bool" where
  "attended bufs armed flushers \<longleftrightarrow>
     (\<forall>k b. bufs k = Some b \<longrightarrow>
        cb_msgs b \<noteq> [] \<and> (armed (cb_timer b) = Some k \<or> k \<in> set flushers))"

definition collect_ok ::
  "(string \<rightharpoonup> collectBuffer) \<Rightarrow> (nat \<rightharpoonup> string) \<Rightarrow> nat \<Rightarrow> string list \<Rightarrow> bool" where
  "collect_ok bufs armed next_t flushers \<longleftrightarrow>
     finite (dom bufs) \<and> attended bufs armed flushers \<and> (\<exists>key_of. timers_of key_of bufs armed next_t)"

definition collect_inv :: "'s Router \<Rightarrow> bool" where
  "collect_inv rt \<longleftrightarrow> collect_ok (rt_buffers rt) (rt_armed rt) (rt_next_timer rt) (rt_flushers rt)"

lemma held_remove:
  assumes "finite (dom m)" "m k = Some b"
  shows "held m = mset (cb_msgs b) + held (m(k := None))"
proof -
  have "held m = mset (cb_msgs b) + (\<Sum>j \<in> dom m - {k}. mset (cb_msgs (the (m j))))"
    unfolding held_def using assms by (subst sum.remove [of _ k]) auto
  also have "(\<Sum>j \<in> dom m - {k}. mset (cb_msgs (the (m j)))) = held (m(k := None))"
    unfolding held_def by (rule sum.cong) auto
  finally show ?thesis .
qed

lemma held_empty [simp]: "held Map.empty = {#}"
  by (simp add: held_def)

lemma held_update:
  assumes "finite (dom m)"
  shows "held (m(k \<mapsto> b)) = mset (cb_msgs b) + held (m(k := None))"
  using held_remove [of "m(k \<mapsto> b)" k b] assms by simp

text \<open>Dropping a buffer, and what else a flush or a timer changes.\<close>

lemma collect_ok_drop:
  assumes ok: "collect_ok bufs armed nt fl"
    and armed: "\<And>t j. armed' t = Some j \<Longrightarrow> armed t = Some j"
    and waits: "\<And>j b. bufs j = Some b \<Longrightarrow> j \<noteq> k \<Longrightarrow> armed' (cb_timer b) = Some j \<or> j \<in> set fl'"
  shows "collect_ok (bufs(k := None)) armed' nt fl'"
proof -
  from ok obtain key_of where "timers_of key_of bufs armed nt" by (auto simp: collect_ok_def)
  then have "timers_of key_of (bufs(k := None)) armed' nt" using armed by (auto simp: timers_of_def)
  moreover have "attended (bufs(k := None)) armed' fl'"
    using ok waits by (auto simp: collect_ok_def attended_def)
  ultimately show ?thesis using ok unfolding collect_ok_def by auto
qed

text \<open>Opening a buffer arms a fresh timer for its key.\<close>

lemma collect_ok_open:
  assumes ok: "collect_ok bufs armed nt fl" and b: "bufs k = None" "cb_timer b = nt" "cb_msgs b \<noteq> []"
  shows "collect_ok (bufs(k \<mapsto> b)) (armed(nt \<mapsto> k)) (Suc nt) fl"
proof -
  from ok obtain key_of where key_of: "timers_of key_of bufs armed nt" by (auto simp: collect_ok_def)
  then have "timers_of (key_of(nt := k)) (bufs(k \<mapsto> b)) (armed(nt \<mapsto> k)) (Suc nt)"
    using b by (auto simp: timers_of_def less_Suc_eq) (metis less_irrefl)
  moreover have "attended (bufs(k \<mapsto> b)) (armed(nt \<mapsto> k)) fl"
    using ok b key_of by (fastforce simp: collect_ok_def attended_def timers_of_def)
  ultimately show ?thesis using ok unfolding collect_ok_def by auto
qed

lemma collect_ok_append:
  assumes ok: "collect_ok bufs armed nt fl" and b: "bufs k = Some b" "cb_timer b' = cb_timer b" "cb_msgs b' \<noteq> []"
  shows "collect_ok (bufs(k \<mapsto> b')) armed nt fl"
proof -
  from ok obtain key_of where "timers_of key_of bufs armed nt" by (auto simp: collect_ok_def)
  then have "timers_of key_of (bufs(k \<mapsto> b')) armed nt" using b by (auto simp: timers_of_def)
  moreover have "attended (bufs(k \<mapsto> b')) armed fl" using ok b by (auto simp: collect_ok_def attended_def)
  ultimately show ?thesis using ok unfolding collect_ok_def by auto
qed

text \<open>At the cap the buffer's timer is stopped and a goroutine takes its place.\<close>

lemma collect_ok_stop:
  assumes ok: "collect_ok bufs armed nt fl" and b: "bufs k = Some b"
  shows "collect_ok bufs (armed(cb_timer b := None)) nt (fl @ [k])"
proof -
  from ok obtain key_of where key_of: "timers_of key_of bufs armed nt" by (auto simp: collect_ok_def)
  then have "timers_of key_of bufs (armed(cb_timer b := None)) nt" by (auto simp: timers_of_def)
  moreover have "attended bufs (armed(cb_timer b := None)) (fl @ [k])"
    using ok b key_of by (auto simp: collect_ok_def attended_def timers_of_def) metis
  ultimately show ?thesis using ok unfolding collect_ok_def by auto
qed

lemma flush_same:
  "rt_armed (flushCollectBuffer deps env rt k) = rt_armed rt"
  "rt_next_timer (flushCollectBuffer deps env rt k) = rt_next_timer rt"
  "rt_flushers (flushCollectBuffer deps env rt k) = rt_flushers rt"
  by (auto simp: flushCollectBuffer_def Let_def split: option.split)

lemma flush_buffers:
  "attended (rt_buffers rt) armed fl \<Longrightarrow>
     rt_buffers (flushCollectBuffer deps env rt k) = (rt_buffers rt)(k := None)"
  by (auto simp: flushCollectBuffer_def attended_def Let_def fun_eq_iff split: option.split)

lemma flush_conserves:
  assumes "finite (dom (rt_buffers rt))" "attended (rt_buffers rt) armed fl"
  shows "buffered (flushCollectBuffer deps env rt k) + sent (flushCollectBuffer deps env rt k)
    = buffered rt + sent rt"
proof (cases "rt_buffers rt k")
  case None
  then show ?thesis by (simp add: flushCollectBuffer_def)
next
  case (Some b)
  with assms(2) have "cb_msgs b \<noteq> []" by (auto simp: attended_def)
  with Some have "sent (flushCollectBuffer deps env rt k) = sent rt + mset (cb_msgs b)"
    by (auto simp: flushCollectBuffer_def sent_def Let_def flush_item_def)
  moreover have "buffered rt = mset (cb_msgs b) + buffered (flushCollectBuffer deps env rt k)"
    unfolding buffered_def flush_buffers [OF assms(2)] by (rule held_remove [OF assms(1) Some])
  ultimately show ?thesis by simp
qed

lemma enqueue_inv:
  assumes "collect_inv rt"
  shows "collect_inv (enqueueCollect cfg rt msg mode pri)"
proof (cases "rt_buffers rt (bufKey msg)")
  case None
  let ?b = "\<lparr>cb_msgs = [msg], cb_timer = rt_next_timer rt, cb_cap = collect_cap cfg (nm_ChannelType msg),
    cb_mode = mode, cb_priority = pri\<rparr>"
  have open_ok: "collect_ok ((rt_buffers rt)(bufKey msg \<mapsto> ?b)) ((rt_armed rt)(rt_next_timer rt \<mapsto> bufKey msg))
      (Suc (rt_next_timer rt)) (rt_flushers rt)"
    using assms None by (intro collect_ok_open) (auto simp: collect_inv_def)
  from collect_ok_stop [OF this, of "bufKey msg" ?b] open_ok None show ?thesis
    by (simp add: collect_inv_def enqueueCollect_def open_buffer_def Let_def)
next
  case (Some b)
  let ?b = "b\<lparr>cb_msgs := cb_msgs b @ [msg]\<rparr>"
  have app_ok: "collect_ok ((rt_buffers rt)(bufKey msg \<mapsto> ?b)) (rt_armed rt) (rt_next_timer rt) (rt_flushers rt)"
    using assms Some by (intro collect_ok_append) (auto simp: collect_inv_def)
  from collect_ok_stop [OF this, of "bufKey msg" ?b] app_ok Some show ?thesis
    by (simp add: collect_inv_def enqueueCollect_def open_buffer_def Let_def)
qed

lemma enqueue_buffered:
  assumes "finite (dom (rt_buffers rt))"
  shows "buffered (enqueueCollect cfg rt msg mode pri) = add_mset msg (buffered rt)"
proof -
  have "rt_buffers (enqueueCollect cfg rt msg mode pri) (bufKey msg) \<noteq> None
    \<and> mset (cb_msgs (the (rt_buffers (enqueueCollect cfg rt msg mode pri) (bufKey msg))))
      = add_mset msg (mset (case rt_buffers rt (bufKey msg) of None \<Rightarrow> [] | Some b \<Rightarrow> cb_msgs b))
    \<and> (rt_buffers (enqueueCollect cfg rt msg mode pri))(bufKey msg := None) = (rt_buffers rt)(bufKey msg := None)"
    by (cases "rt_buffers rt (bufKey msg)") (auto simp: enqueueCollect_def open_buffer_def Let_def)
  then obtain b' where b': "rt_buffers (enqueueCollect cfg rt msg mode pri) = (rt_buffers rt)(bufKey msg \<mapsto> b')"
    and m: "mset (cb_msgs b') = add_mset msg (mset (case rt_buffers rt (bufKey msg) of None \<Rightarrow> [] | Some b \<Rightarrow> cb_msgs b))"
    by (metis fun_upd_triv fun_upd_upd option.collapse)
  show ?thesis
  proof (cases "rt_buffers rt (bufKey msg)")
    case None
    then have "(rt_buffers rt)(bufKey msg := None) = rt_buffers rt" by auto
    with None m show ?thesis by (simp add: buffered_def b' held_update [OF assms])
  next
    case (Some b)
    with m held_remove [OF assms Some] show ?thesis by (simp add: buffered_def b' held_update [OF assms])
  qed
qed

text \<open>Outside collect mode the handler only appends to the log.\<close>

lemma dispatch_logs:
  assumes "dispatch_accepted deps env n rt m = (rt', out)"
    and "queueModeFor (dp_config deps) (nm_ChannelType m) = (mode, pri)" and "mode \<noteq> QueueModeCollect"
  shows "\<exists>es. rt' = (onAccepted n m rt)\<lparr>rt_log := rt_log (onAccepted n m rt) @ es\<rparr>
    \<and> concat (map effect_messages es) = (if taken_over out then [m] else [])"
proof -
  define R where "R = onAccepted n m rt"
  let ?i = "buildQueueItem env m mode pri"
  have one: "item_messages ?i = [m]" by (simp add: buildQueueItem_def)
  note run = assms(1) [unfolded dispatch_accepted_def assms(2) R_def [symmetric] Let_def prod.case if_not_P [OF assms(3)]]
  consider (off) "\<not> dp_publisher deps" | (bad) "dp_publisher deps" "\<not> en_publish_ok env" | (ok) "dp_publisher deps" "en_publish_ok env"
    by blast
  then show ?thesis
  proof cases
    case off
    then have "rt' = R" "out = RouteFailed NoPublisher" using run by simp_all
    then show ?thesis by (intro exI [of _ "[]"]) (simp add: taken_over_def R_def)
  next
    case bad
    then have "rt' = R\<lparr>rt_log := rt_log R @ [PublishFailed ?i]\<rparr>" "out = RouteFailed PublishError" using run by simp_all
    then show ?thesis using one by (intro exI [of _ "[PublishFailed ?i]"]) (simp add: taken_over_def R_def)
  next
    case ok
    then obtain cs where "rt' = R\<lparr>rt_log := rt_log R @ MessagePublished ?i # cs\<rparr>" "out = Routed" "concat (map effect_messages cs) = []"
      using run by (cases "mode = QueueModeInterrupt"; cases "en_control_ok env") auto
    then show ?thesis using one by (intro exI [of _ "MessagePublished ?i # cs"]) (simp add: taken_over_def R_def)
  qed
qed

lemma dispatch_dedup:
  "(rt', out) = dispatch_accepted deps env n rt m \<Longrightarrow> rt_dedup rt' = rt_dedup rt"
  by (auto simp: dispatch_accepted_def onAccepted_def enqueueCollect_def open_buffer_def Let_def
      split: prod.splits option.splits if_splits)

lemma dispatch_not_suppressed: "(rt', Suppressed) \<noteq> dispatch_accepted deps env n rt m"
  by (auto simp: dispatch_accepted_def Let_def split: prod.split)

lemma onAccepted_same:
  assumes "collect_inv rt"
  shows "collect_inv (onAccepted n m rt)" "buffered (onAccepted n m rt) = buffered rt"
    "sent (onAccepted n m rt) = sent rt"
  using assms by (auto simp: onAccepted_def collect_inv_def buffered_def sent_def)

lemma dispatch_effects:
  assumes "dispatch_accepted deps env n rt m = (rt', out)" "collect_inv rt"
  shows "collect_inv rt' \<and> buffered rt' + sent rt' = buffered rt + sent rt + (if taken_over out then {#m#} else {#})"
proof -
  define R where "R = onAccepted n m rt"
  have same: "collect_inv R" "buffered R = buffered rt" "sent R = sent rt"
    using onAccepted_same [OF assms(2)] by (simp_all add: R_def)
  obtain mode pri where q: "queueModeFor (dp_config deps) (nm_ChannelType m) = (mode, pri)" by force
  show ?thesis
  proof (cases "mode = QueueModeCollect")
    case True
    with assms(1) q have r: "rt' = enqueueCollect (dp_config deps) R m mode pri" "out = Buffered"
      by (auto simp: dispatch_accepted_def Let_def R_def)
    have fin: "finite (dom (rt_buffers R))" using same(1) by (simp add: collect_inv_def collect_ok_def)
    have "rt_log rt' = rt_log R"
      by (auto simp: r enqueueCollect_def open_buffer_def Let_def split: option.split)
    then have "sent rt' = sent rt" using same(3) by (simp add: sent_def)
    with enqueue_inv [OF same(1)] enqueue_buffered [OF fin] same(2) show ?thesis
      by (simp add: r taken_over_def)
  next
    case False
    from dispatch_logs [OF assms(1) q False] obtain es where rt': "rt' = R\<lparr>rt_log := rt_log R @ es\<rparr>"
      and es: "concat (map effect_messages es) = (if taken_over out then [m] else [])"
      unfolding R_def by blast
    have "collect_inv rt'" "buffered rt' = buffered rt"
      using same by (simp_all add: rt' collect_inv_def buffered_def)
    moreover have "sent rt' = sent R + mset (concat (map effect_messages es))" by (simp add: rt' sent_def)
    ultimately show ?thesis using same(3) es by simp
  qed
qed

text \<open>The state after steps 5 and 6, and the verdict of step 6.\<close>

definition after_dedup :: "'s RouterDeps \<Rightarrow> route_env \<Rightarrow> 's Router \<Rightarrow> NipperMessage \<Rightarrow> 's Router" where
  "after_dedup deps env rt m =
     rt\<lparr>rt_registry := Register (rt_registry rt) (nm_SessionKey m) (nm_DeliveryContext m)
          (nm_Meta m) (mc_Parts (nm_Content m)) (en_registered_at env),
        rt_dedup := fst (IsDuplicate (rt_dedup rt) (nm_UserID m) (dedupStrategy m)
          (deriveDedupKey (dp_PromptHash deps) m) (en_dedup_now env) (en_dedup_store env))\<rparr>"

definition is_dup :: "'s RouterDeps \<Rightarrow> route_env \<Rightarrow> 's Router \<Rightarrow> NipperMessage \<Rightarrow> bool" where
  "is_dup deps env rt m = snd (IsDuplicate (rt_dedup rt) (nm_UserID m) (dedupStrategy m)
     (deriveDedupKey (dp_PromptHash deps) m) (en_dedup_now env) (en_dedup_store env))"

lemma register_and_dedup_eq:
  "register_and_dedup deps env n rt m =
     (if is_dup deps env rt m then (after_dedup deps env rt m, Suppressed)
      else dispatch_accepted deps env n (after_dedup deps env rt m) m)"
  unfolding register_and_dedup_def is_dup_def after_dedup_def
  by (simp add: Let_def case_prod_beta)

lemma register_effects:
  assumes "register_and_dedup deps env n rt m = (rt', out)" "collect_inv rt"
  shows "collect_inv rt' \<and> buffered rt' + sent rt' = buffered rt + sent rt + (if taken_over out then {#m#} else {#})"
proof -
  have same: "collect_inv (after_dedup deps env rt m)" "buffered (after_dedup deps env rt m) = buffered rt"
    "sent (after_dedup deps env rt m) = sent rt"
    using assms(2) by (auto simp: collect_inv_def buffered_def sent_def after_dedup_def)
  show ?thesis
  proof (cases "is_dup deps env rt m")
    case True
    with assms(1) have "rt' = after_dedup deps env rt m" "out = Suppressed"
      by (simp_all add: register_and_dedup_eq)
    with same show ?thesis by (simp add: taken_over_def)
  next
    case False
    with assms(1) have "dispatch_accepted deps env n (after_dedup deps env rt m) m = (rt', out)"
      by (simp add: register_and_dedup_eq)
    from dispatch_effects [OF this same(1)] same show ?thesis by simp
  qed
qed

lemma handle_effects:
  assumes "handleNormalizedMessage deps env n rt (Some m) = (rt', out)" "collect_inv rt"
  shows "collect_inv rt' \<and> buffered rt' + sent rt'
    = buffered rt + sent rt + (if taken_over out then {#prepared deps env rt m#} else {#})"
  using assms(1)
proof (cases rule: handle_cases)
  case (stopped st)
  then show ?thesis using assms(2) by (auto simp: collect_inv_def buffered_def sent_def taken_over_def)
next
  case (entered st0 st)
  have "collect_inv (rt\<lparr>rt_store := st\<rparr>)" using assms(2) by (simp add: collect_inv_def)
  from register_effects [OF entered(1) [symmetric] this] show ?thesis
    by (simp add: buffered_def sent_def)
qed

lemma flush_inv:
  assumes inv: "collect_inv rt" and bufs: "rt_buffers rt1 = rt_buffers rt" "rt_next_timer rt1 = rt_next_timer rt"
    "rt_log rt1 = rt_log rt"
    and armed: "\<And>t j. rt_armed rt1 t = Some j \<Longrightarrow> rt_armed rt t = Some j"
    and waits: "\<And>j b. rt_buffers rt j = Some b \<Longrightarrow> j \<noteq> k \<Longrightarrow>
      rt_armed rt1 (cb_timer b) = Some j \<or> j \<in> set (rt_flushers rt1)"
  shows "collect_inv (flushCollectBuffer deps env rt1 k)
    \<and> buffered (flushCollectBuffer deps env rt1 k) + sent (flushCollectBuffer deps env rt1 k) = buffered rt + sent rt"
proof -
  from inv bufs have att: "attended (rt_buffers rt1) (rt_armed rt) (rt_flushers rt)"
    and fin: "finite (dom (rt_buffers rt1))" by (auto simp: collect_inv_def collect_ok_def)
  have "collect_ok ((rt_buffers rt)(k := None)) (rt_armed rt1) (rt_next_timer rt) (rt_flushers rt1)"
    using inv armed waits unfolding collect_inv_def by (rule collect_ok_drop)
  then show ?thesis using flush_conserves [OF fin att]
    by (simp add: collect_inv_def flush_buffers [OF att] flush_same bufs buffered_def sent_def)
qed

lemma timer_waits:
  assumes "collect_inv rt" "rt_armed rt t = Some k" "rt_buffers rt j = Some b" "j \<noteq> k"
  shows "((rt_armed rt)(t := None)) (cb_timer b) = Some j \<or> j \<in> set (rt_flushers rt)"
  using assms by (auto simp: collect_inv_def collect_ok_def attended_def timers_of_def) metis

lemma router_run_inv:
  "router_run deps rt0 ms rt \<Longrightarrow> collect_inv rt0
    \<Longrightarrow> collect_inv rt \<and> buffered rt + sent rt = buffered rt0 + sent rt0 + mset ms"
proof (induction rule: router_run.induct)
  case (handle rt0 ms rt env n m rt' out)
  from handle handle_effects [OF handle.hyps(2)] show ?case by auto
next
  case (timer rt0 ms rt t k env)
  then have inv: "collect_inv rt" by simp
  have "collect_inv (flushCollectBuffer deps env (rt\<lparr>rt_armed := (rt_armed rt)(t := None)\<rparr>) k)
    \<and> buffered (flushCollectBuffer deps env (rt\<lparr>rt_armed := (rt_armed rt)(t := None)\<rparr>) k)
      + sent (flushCollectBuffer deps env (rt\<lparr>rt_armed := (rt_armed rt)(t := None)\<rparr>) k) = buffered rt + sent rt"
    using timer_waits [OF inv timer.hyps(2)] by (intro flush_inv [OF inv]) (auto split: if_splits)
  with timer show ?case by simp
next
  case (flusher rt0 ms rt xs k ys env)
  then have inv: "collect_inv rt" by simp
  have "collect_inv (flushCollectBuffer deps env (rt\<lparr>rt_flushers := xs @ ys\<rparr>) k)
    \<and> buffered (flushCollectBuffer deps env (rt\<lparr>rt_flushers := xs @ ys\<rparr>) k)
      + sent (flushCollectBuffer deps env (rt\<lparr>rt_flushers := xs @ ys\<rparr>) k) = buffered rt + sent rt"
    using inv flusher.hyps(2)
    by (intro flush_inv [OF inv]) (auto simp: collect_inv_def collect_ok_def attended_def)
  with flusher show ?case by simp
qed (auto simp: collect_inv_def buffered_def sent_def)

section \<open>Who a message is attributed to\<close>

context access_store
begin

lemma resolve_loop_sound:
  "inv s \<Longrightarrow> resolve_loop repo ch ci ts s cs = (s', u) \<Longrightarrow>
     inv s' \<and> active s' = active s \<and> allow s' = allow s \<and> (u \<noteq> [] \<longrightarrow> (\<exists>i \<in> set cs. owner s ch i = Some u))"
proof (induction cs arbitrary: s)
  case Nil
  then show ?case by simp
next
  case (Cons i cs)
  obtain s1 r where q: "repo_ResolveIdentity repo s ch i = (s1, r)" by force
  note f = resolve_frame [OF Cons.prems(1) q]
  show ?case
  proof (cases r)
    case (Inl e)
    with Cons.prems(2) q have "resolve_loop repo ch ci ts s1 cs = (s', u)" by simp
    from Cons.IH [OF conjunct1 [OF f] this] f show ?thesis by auto
  next
    case (Inr v)
    with Cons.prems(2) q have u: "u = v"
      and s': "s' = s1 \<or> s' = fst (repo_AddIdentity repo s1 v ch ci ts)" by (auto split: if_splits)
    have o: "u \<noteq> [] \<Longrightarrow> owner s ch i = Some u"
      using resolve_true [OF Cons.prems(1) q [unfolded Inr]] u by (auto split: option.splits)
    have "inv s' \<and> active s' = active s \<and> allow s' = allow s"
      using s' f add_frame [OF conjunct1 [OF f]]
      by (cases "repo_AddIdentity repo s1 v ch ci ts") auto
    with o show ?thesis by auto
  qed
qed

lemma resolveUser_sound:
  assumes "inv s" "resolveUser repo s m ts = (s', u)"
  shows "inv s' \<and> active s' = active s \<and> allow s' = allow s
    \<and> (u \<noteq> [] \<longrightarrow> (\<exists>i \<in> set (uniq_from [] (candidates m)). owner s (nm_ChannelType m) i = Some u))"
  using assms resolve_loop_sound [OF assms(1)] by (auto simp: resolveUser_def split: if_splits)

end

lemma set_uniq_from: "set (uniq_from seen cs) \<subseteq> set cs - {[]}"
  by (induction seen cs rule: uniq_from.induct) auto

section \<open>Properties\<close>

text \<open>A small configuration on which the witnesses of the properties run: Slack in collect mode.\<close>

definition demo_deps :: "Store RouterDeps" where
  "demo_deps = \<lparr>dp_repo = sqlite_repo,
     dp_config = Some \<lparr>qc_DefaultMode = [], qc_PerChannel =
       [''slack'' \<mapsto> \<lparr>cq_Mode = QueueModeCollect, cq_DebounceMS = 100, cq_CollectCap = 2, cq_Priority = 1\<rparr>]\<rparr>,
     dp_publisher = True, dp_PromptHash = (\<lambda>t. t)\<rparr>"

definition demo_env :: route_env where
  "demo_env = \<lparr>en_uuid = ''u'', en_now = 1, en_alias_at = 2, en_guard_now = 3, en_registered_at = 4,
     en_dedup_now = 5, en_dedup_store = 6, en_item_id = ''i'', en_enqueued_at = 7, en_publish_ok = True,
     en_control_at = 8, en_control_ok = True\<rparr>"

definition demo_router :: "Store Router" where
  "demo_router = NewRouter demo_denied NewRegistry (NewDeduplicator 30)"

lemma demo_fields [simp]:
  "dp_repo demo_deps = sqlite_repo" "en_guard_now demo_env = 3" "rt_store demo_router = demo_denied"
  "dp_publisher demo_deps = True" "rt_buffers demo_router = Map.empty"
  "rt_dedup demo_router = NewDeduplicator 30" "en_dedup_now demo_env = 5" "en_dedup_store demo_env = 6"
  by (simp_all add: demo_deps_def demo_env_def demo_router_def NewRouter_def)

lemma demo_mode [simp]: "queueModeFor (dp_config demo_deps) ''slack'' = (QueueModeCollect, 1)"
  "collect_cap (dp_config demo_deps) ''slack'' = 2"
  by (simp_all add: demo_deps_def queueModeFor_def collect_cap_def)

lemma demo_stamp: "stamp demo_env (slack_message o1 t) = slack_message o1 t"
  by (simp add: stamp_def zero_time_def)

lemma demo_user_field: "(slack_message o1 t)\<lparr>nm_UserID := ''usr_1''\<rparr> = slack_message o1 t"
  by (simp add: slack_message_def)

lemma demo_prepared:
  "prepared demo_deps demo_env rt (slack_message o1 t)
    = (slack_message o1 t)\<lparr>nm_SessionKey := BuildSessionKey ''usr_1'' ''slack'' ''U1''\<rparr>"
  using slack_message_key [of o1 t] by (simp add: prepared_def demo_stamp demo_user_field Resolve_def Let_def)

text \<open>A store on which the demonstration user is admitted.\<close>

definition demo_admits :: "Store \<Rightarrow> bool" where
  "demo_admits s \<longleftrightarrow> store_wf s \<and> db_open s \<and> active_user s ''usr_1'' \<and> allow_row s ''usr_1'' ''*'' = Some True"

abbreviation demo_message :: "string \<Rightarrow> NipperMessage" where
  "demo_message o1 \<equiv> (slack_message o1 ''hi'')\<lparr>nm_SessionKey := BuildSessionKey ''usr_1'' ''slack'' ''U1''\<rparr>"

lemma demo_admits_start: "demo_admits demo_denied"
  using demo_denied_reachable demo_denied_rows db_reachable_wf [OF _ store_wf_empty]
  by (simp add: demo_admits_def)

lemma demo_enters:
  assumes "demo_admits (rt_store rt)"
  obtains st where "demo_admits st"
    "handleNormalizedMessage demo_deps demo_env False rt (Some (slack_message o1 ''hi''))
      = register_and_dedup demo_deps demo_env False (rt\<lparr>rt_store := st\<rparr>) (demo_message o1)"
proof -
  have wf: "store_wf (rt_store rt)" and op: "db_open (rt_store rt)" using assms by (auto simp: demo_admits_def)
  obtain st b where gb: "Guard_Check sqlite_repo (rt_store rt) ''usr_1'' ''slack'' ''U1'' 3 = (st, Inr b)"
    using check_answers [OF op wf] by blast
  have b using sq.check_exact [OF wf gb] assms by (simp add: sq_permits demo_admits_def)
  have "demo_admits st"
    using sq.check_frame [OF wf gb] check_keeps_open [OF gb] assms by (simp add: demo_admits_def)
  moreover have "handleNormalizedMessage demo_deps demo_env False rt (Some (slack_message o1 ''hi''))
      = register_and_dedup demo_deps demo_env False (rt\<lparr>rt_store := st\<rparr>) (demo_message o1)"
    using gb \<open>b\<close> slack_message_key [of o1 "''hi''"]
    by (simp add: handleNormalizedMessage_def demo_stamp demo_user_field resolve_session_def Let_def)
  ultimately show thesis by (rule that)
qed

lemma demo_first:
  obtains rt' where "handleNormalizedMessage demo_deps demo_env False demo_router (Some (slack_message ''x'' ''hi'')) = (rt', Buffered)"
    "rt_buffers rt' ''usr_1:slack'' \<noteq> None" "demo_admits (rt_store rt')"
proof -
  obtain st where st: "demo_admits st" and h: "handleNormalizedMessage demo_deps demo_env False demo_router
      (Some (slack_message ''x'' ''hi''))
      = register_and_dedup demo_deps demo_env False (demo_router\<lparr>rt_store := st\<rparr>) (demo_message ''x'')"
    using demo_enters [of demo_router "''x''"] demo_admits_start by auto
  have "\<not> is_dup demo_deps demo_env (demo_router\<lparr>rt_store := st\<rparr>) (demo_message ''x'')"
    by (simp add: is_dup_def NewDeduplicator_def IsDuplicate_def)
  with h st that show thesis
    by (simp add: register_and_dedup_eq dispatch_accepted_def onAccepted_def enqueueCollect_def
        open_buffer_def after_dedup_def bufKey_def Let_def)
qed

lemma demo_handle:
  "\<exists>rt'. handleNormalizedMessage demo_deps demo_env False demo_router (Some (slack_message ''x'' ''hi'')) = (rt', Buffered)
     \<and> rt_buffers rt' ''usr_1:slack'' \<noteq> None"
  by (rule demo_first) blast

text \<open>
  C4: nothing enters the queues past the guard. A message that is buffered, published or
  recognised as a duplicate, and did not come from the internal cron channel, belongs to a
  user whose account is enabled and who is allowed on the channel or by the wildcard; when
  the message came without user id, that user owns one of the sender's identities.
\<close>

theorem router_admits:
  assumes "handleNormalizedMessage deps env n rt (Some m) = (rt', out)"
    and "dp_repo deps = sqlite_repo" and "store_wf (rt_store rt)"
    and "taken_over out \<or> out = Suppressed" and "nm_ChannelType m \<noteq> ChannelTypeCron"
    and u: "u = nm_UserID (prepared deps env rt m)"
  shows "u \<noteq> [] \<and> active_user (rt_store rt) u
    \<and> (allow_row (rt_store rt) u (nm_ChannelType m) = Some True \<or> allow_row (rt_store rt) u ''*'' = Some True)
    \<and> (nm_UserID m = [] \<longrightarrow>
        (\<exists>i \<in> set (candidates m). owner_of (rt_store rt) (nm_ChannelType m) i = Some u))"
  using assms(1)
proof (cases rule: handle_cases)
  case (stopped st)
  with assms(4) show ?thesis by (auto simp: taken_over_def)
next
  case (entered st0 st)
  have st: "nm_UserID (stamp env m) = nm_UserID m" "nm_ChannelType (stamp env m) = nm_ChannelType m"
    "candidates (stamp env m) = candidates m"
    by (simp_all add: stamp_def candidates_def Let_def)
  obtain s1 v where r: "resolveUser sqlite_repo (rt_store rt) (stamp env m) (en_alias_at env) = (s1, v)" by force
  note sound = sq.resolveUser_sound [OF assms(3) r]
  have uv: "nm_UserID m = [] \<Longrightarrow> u = v"
    using u r assms(2) st by (simp add: prepared_def Let_def)
  have st0: "store_wf st0 \<and> active_user st0 = active_user (rt_store rt) \<and> allow_row st0 = allow_row (rt_store rt)"
    using entered(3,4) assms(2,3) st r sound by (cases "nm_UserID m = []") auto
  have "Guard_Check sqlite_repo st0 u (nm_ChannelType m) (nm_ChannelIdentity m) (en_guard_now env) = (st, Inr True)"
    using entered(5) assms(2,5) u by simp
  from sq.check_exact [OF conjunct1 [OF st0] this] have p: "sq.permits st0 u (nm_ChannelType m)" by simp
  have "nm_UserID m = [] \<longrightarrow> (\<exists>i \<in> set (candidates m). owner_of (rt_store rt) (nm_ChannelType m) i = Some u)"
    using sound uv p set_uniq_from [of "[]" "candidates m"] by (auto simp: st sq_permits)
  with p st0 show ?thesis by (auto simp: sq_permits)
qed

theorem router_admits_witness:
  "active_user demo_denied ''usr_1'' \<and> (allow_row demo_denied ''usr_1'' ''slack'' = Some True
     \<or> allow_row demo_denied ''usr_1'' ''*'' = Some True)"
proof -
  obtain rt' where h: "handleNormalizedMessage demo_deps demo_env False demo_router (Some (slack_message ''x'' ''hi'')) = (rt', Buffered)"
    using demo_handle by blast
  have "store_wf (rt_store demo_router)"
    using db_reachable_wf [OF demo_denied_reachable(1) store_wf_empty] by (simp add: demo_router_def NewRouter_def)
  from router_admits [OF h _ this _ _ refl] show ?thesis
    by (simp add: taken_over_def demo_prepared)
qed

text \<open>
  On an open store only the first candidate is ever asked. The store answers an unknown
  identity with an empty user id and no error, which the loop takes for a match: the
  alternative WhatsApp identifiers listed for the case that the first one is unknown are not
  tried, and no alias is ever learned.
\<close>

theorem resolve_user_first_candidate_only:
  assumes "db_open s"
  shows "resolveUser sqlite_repo s m ts =
    (s, if nm_ChannelIdentity m = [] then []
        else case owner_of s (nm_ChannelType m) (nm_ChannelIdentity m) of None \<Rightarrow> [] | Some u \<Rightarrow> u)"
proof (cases "nm_ChannelIdentity m = []")
  case True
  then show ?thesis by (simp add: resolveUser_def)
next
  case False
  then obtain rest where "uniq_from [] (candidates m) = nm_ChannelIdentity m # rest"
    by (simp add: candidates_def)
  with False assms show ?thesis by (simp add: resolveUser_def ResolveIdentity_owner)
qed

theorem resolve_user_first_candidate_only_witness:
  "resolveUser sqlite_repo demo_user (slack_message ''x'' ''hi'') 3 = (demo_user, [])"
proof -
  have op: "db_open demo_user" and ids: "db_identities demo_user = []"
    by (simp_all add: demo_user_def CreateUser_def emptyStore_def exec_simps has_user_def)
  show ?thesis
    using resolve_user_first_candidate_only [OF op, of "slack_message ''x'' ''hi''" 3] ids
    by (simp add: owner_of_def)
qed


lemma demo_run:
  "\<exists>rt. router_run demo_deps demo_router [prepared demo_deps demo_env demo_router (slack_message ''x'' ''hi'')] rt
     \<and> rt_buffers rt ''usr_1:slack'' \<noteq> None"
proof -
  obtain rt' where h: "handleNormalizedMessage demo_deps demo_env False demo_router (Some (slack_message ''x'' ''hi'')) = (rt', Buffered)"
    and b: "rt_buffers rt' ''usr_1:slack'' \<noteq> None"
    using demo_handle by blast
  from router_run.handle [OF router_run.start h] b show ?thesis by (auto simp: taken_over_def)
qed


text \<open>The two steps that make a buffer's flush run: its timer fires, or the goroutine is scheduled.\<close>

inductive flush_due :: "'s Router \<Rightarrow> string \<Rightarrow> 's Router \<Rightarrow> bool" where
  timer_fires: "rt_armed rt t = Some k \<Longrightarrow> flush_due rt k (rt\<lparr>rt_armed := (rt_armed rt)(t := None)\<rparr>)"
| goroutine_runs: "rt_flushers rt = xs @ k # ys \<Longrightarrow> flush_due rt k (rt\<lparr>rt_flushers := xs @ ys\<rparr>)"

lemma flush_due_run:
  "flush_due rt k rt1 \<Longrightarrow> router_run deps rt0 ms rt \<Longrightarrow> router_run deps rt0 ms (flushCollectBuffer deps env rt1 k)"
  by (induction rule: flush_due.induct) (blast intro: router_run.timer router_run.flusher)+

lemma flush_due_state: "flush_due rt k rt1 \<Longrightarrow> rt_buffers rt1 = rt_buffers rt \<and> rt_log rt1 = rt_log rt"
  by (induction rule: flush_due.induct) simp_all

text \<open>
  C14: no buffer is stuck. In every reachable state with a buffer, one of the two steps that
  run its flush (its debounce timer firing, or a flush goroutine already started) is enabled
  in that state; whatever the environment does then, the flush removes this buffer and no
  other, and logs exactly one effect: one queue item with all the buffer's messages in the
  order they were collected, accepted by the publisher, refused by it (the messages are then
  logged as a failed publish), or not sent when no publisher is configured.
\<close>

theorem collect_buffer_flushes:
  assumes run: "router_run deps (NewRouter st reg dd) ms rt" and buf: "rt_buffers rt k = Some b"
  shows "\<exists>rt1. flush_due rt k rt1 \<and>
    (\<forall>env. let rt2 = flushCollectBuffer deps env rt1 k; item = flush_item env b in
       router_run deps (NewRouter st reg dd) ms rt2 \<and> rt_buffers rt2 = (rt_buffers rt)(k := None)
       \<and> rt_log rt2 = rt_log rt @ [if \<not> dp_publisher deps then PublisherMissing item
                                  else if en_publish_ok env then MessagePublished item else PublishFailed item]
       \<and> qi_CollectedMessages item = cb_msgs b)"
proof -
  have "collect_inv (NewRouter st reg dd)"
    by (simp add: collect_inv_def NewRouter_def collect_ok_def attended_def timers_of_def)
  from router_run_inv [OF run this] have att: "attended (rt_buffers rt) (rt_armed rt) (rt_flushers rt)"
    by (simp add: collect_inv_def collect_ok_def)
  with buf have ne: "cb_msgs b \<noteq> []" by (auto simp: attended_def)
  from att buf consider "rt_armed rt (cb_timer b) = Some k" | "k \<in> set (rt_flushers rt)"
    by (auto simp: attended_def)
  then obtain rt1 where due: "flush_due rt k rt1"
  proof cases
    case 1
    then show ?thesis using flush_due.timer_fires that by blast
  next
    case 2
    then obtain xs ys where "rt_flushers rt = xs @ k # ys" by (auto simp: in_set_conv_decomp)
    then show ?thesis using flush_due.goroutine_runs that by blast
  qed
  with flush_due_state [OF due] flush_due_run [OF due run] buf ne show ?thesis
    by (intro exI [of _ rt1]) (auto simp: flushCollectBuffer_def flush_item_def Let_def)
qed

theorem collect_buffer_flushes_witness:
  "\<exists>ms rt b rt1. router_run demo_deps demo_router ms rt \<and> rt_buffers rt ''usr_1:slack'' = Some b
     \<and> flush_due rt ''usr_1:slack'' rt1
     \<and> rt_log (flushCollectBuffer demo_deps demo_env rt1 ''usr_1:slack'')
         = rt_log rt @ [MessagePublished (flush_item demo_env b)]"
proof -
  obtain ms rt b where run: "router_run demo_deps demo_router ms rt" and b: "rt_buffers rt ''usr_1:slack'' = Some b"
    using demo_run by blast
  have ok: "dp_publisher demo_deps" "en_publish_ok demo_env" by (simp_all add: demo_deps_def demo_env_def)
  from collect_buffer_flushes [OF run [unfolded demo_router_def] b] obtain rt1 where
    due: "flush_due rt ''usr_1:slack'' rt1"
    and all: "\<forall>env. let rt2 = flushCollectBuffer demo_deps env rt1 ''usr_1:slack''; item = flush_item env b in
       rt_log rt2 = rt_log rt @ [if \<not> dp_publisher demo_deps then PublisherMissing item
                                 else if en_publish_ok env then MessagePublished item else PublishFailed item]"
    by (auto simp: Let_def)
  from spec [OF all, of demo_env] ok have "rt_log (flushCollectBuffer demo_deps demo_env rt1 ''usr_1:slack'')
      = rt_log rt @ [MessagePublished (flush_item demo_env b)]" by (simp add: Let_def)
  with run b due show ?thesis by blast
qed

text \<open>The window of an accepted message is recorded, and a later call inside it is suppressed.\<close>

lemma dispatch_registry:
  "dispatch_accepted deps env n rt m = (rt', out) \<Longrightarrow> rt_registry rt' = rt_registry rt"
  by (auto simp: dispatch_accepted_def onAccepted_def enqueueCollect_def open_buffer_def Let_def
      split: prod.splits option.splits if_splits)

lemma prepared_keeps:
  "nm_DeliveryContext (prepared deps env rt m) = nm_DeliveryContext m"
  "nm_Meta (prepared deps env rt m) = nm_Meta m" "nm_Content (prepared deps env rt m) = nm_Content m"
  by (simp_all add: prepared_def stamp_def Let_def)

lemma cron_enters:
  assumes "nm_UserID m \<noteq> []" "nm_ChannelType m = ChannelTypeCron"
  shows "handleNormalizedMessage deps env n rt (Some m) = register_and_dedup deps env n rt (prepared deps env rt m)"
proof -
  have s: "nm_UserID (stamp env m) = nm_UserID m" "nm_ChannelType (stamp env m) = nm_ChannelType m"
    by (simp_all add: stamp_def Let_def)
  have "(stamp env m)\<lparr>nm_UserID := nm_UserID m\<rparr> = stamp env m" using s(1) [symmetric] by simp
  then show ?thesis using assms s
    by (simp add: handleNormalizedMessage_def prepared_def resolve_session_def Resolve_def Let_def)
qed

lemma register_registry:
  "rt_registry (fst (register_and_dedup deps env n rt m)) = Register (rt_registry rt) (nm_SessionKey m) (nm_DeliveryContext m)
     (nm_Meta m) (mc_Parts (nm_Content m)) (en_registered_at env)"
proof -
  obtain rt' out where d: "dispatch_accepted deps env n (after_dedup deps env rt m) m = (rt', out)" by force
  then show ?thesis using dispatch_registry [OF d] by (simp add: register_and_dedup_eq after_dedup_def)
qed

definition origin_key :: "string \<Rightarrow> string \<Rightarrow> string" where
  "origin_key userID origin = buildKey userID DeduplicationByMessageID origin"

lemma prepared_origin: "nm_OriginMessageID (prepared deps env r m) = nm_OriginMessageID m"
  by (simp add: prepared_def stamp_def Let_def)

lemma origin_strategy:
  "nm_OriginMessageID m \<noteq> [] \<Longrightarrow> dedupStrategy m = DeduplicationByMessageID"
  "nm_OriginMessageID m \<noteq> [] \<Longrightarrow> deriveDedupKey h m = nm_OriginMessageID m"
  by (simp_all add: dedupStrategy_def deriveDedupKey_def)

lemma accepted_recorded:
  assumes "handleNormalizedMessage deps env n rt (Some m) = (rt', out)" "taken_over out" "nm_OriginMessageID m \<noteq> []"
  shows "dd_entries (rt_dedup rt') (origin_key (nm_UserID (prepared deps env rt m)) (nm_OriginMessageID m))
    = Some (en_dedup_store env + dd_window (rt_dedup rt))"
  using assms(1)
proof (cases rule: handle_cases)
  case (stopped st)
  with assms(2) show ?thesis by (auto simp: taken_over_def)
next
  case (entered st0 st)
  let ?r = "rt\<lparr>rt_store := st\<rparr>" and ?p = "prepared deps env rt m"
  have nd: "\<not> is_dup deps env ?r ?p"
    using entered(1) assms(2) by (auto simp: register_and_dedup_eq taken_over_def)
  with entered(1) have "rt_dedup rt' = rt_dedup (after_dedup deps env ?r ?p)"
    by (simp add: register_and_dedup_eq dispatch_dedup)
  with nd show ?thesis
    using IsDuplicate_accepts [of "rt_dedup rt"] assms(3)
    by (simp add: after_dedup_def is_dup_def origin_strategy prepared_origin origin_key_def)
qed

lemma recorded_suppresses:
  assumes "handleNormalizedMessage deps env n rt (Some m) = (rt', out)" "nm_OriginMessageID m \<noteq> []"
    and "dd_entries (rt_dedup rt) (origin_key (nm_UserID (prepared deps env rt m)) (nm_OriginMessageID m)) = Some t"
    and "en_dedup_now env < t"
  shows "rt_log rt' = rt_log rt \<and> rt_buffers rt' = rt_buffers rt
    \<and> (out \<in> {Suppressed, Rejected} \<or> (\<exists>e. out = RouteFailed (AllowlistError e)) \<or> (\<exists>e. out = RouteFailed (ResolverError e)))"
  using assms(1)
proof (cases rule: handle_cases)
  case (stopped st)
  then show ?thesis by auto
next
  case (entered st0 st)
  have "is_dup deps env (rt\<lparr>rt_store := st\<rparr>) (prepared deps env rt m)"
    using assms(2-4) by (simp add: is_dup_def origin_strategy prepared_origin origin_key_def IsDuplicate_def Let_def)
  with entered(1) show ?thesis by (simp add: register_and_dedup_eq after_dedup_def)
qed

text \<open>
  C13: a repeated delivery is suppressed. When a message with an origin id was accepted, the
  next call with the same origin id and user, made before the window has passed, publishes
  nothing and notifies nobody: it ends as a suppressed duplicate unless it was stopped
  earlier.
\<close>

theorem router_suppresses_repeat:
  assumes h1: "handleNormalizedMessage deps env1 n1 rt (Some m1) = (rt1, out1)"
    and h2: "handleNormalizedMessage deps env2 n2 rt1 (Some m2) = (rt2, out2)"
    and "taken_over out1"
    and "nm_UserID (prepared deps env2 rt1 m2) = nm_UserID (prepared deps env1 rt m1)"
    and "nm_OriginMessageID m2 = nm_OriginMessageID m1" and "nm_OriginMessageID m1 \<noteq> []"
    and "en_dedup_now env2 < en_dedup_store env1 + dd_window (rt_dedup rt)"
  shows "rt_log rt2 = rt_log rt1 \<and> \<not> taken_over out2 \<and> rt_buffers rt2 = rt_buffers rt1"
proof -
  have "dd_entries (rt_dedup rt1) (origin_key (nm_UserID (prepared deps env2 rt1 m2)) (nm_OriginMessageID m2))
      = Some (en_dedup_store env1 + dd_window (rt_dedup rt))"
    using accepted_recorded [OF h1 assms(3,6)] assms(4,5) by simp
  from recorded_suppresses [OF h2 _ this] assms(5-7) show ?thesis by (auto simp: taken_over_def)
qed

theorem router_suppresses_repeat_witness:
  "\<exists>rt1 rt2 out2.
     handleNormalizedMessage demo_deps demo_env False demo_router (Some (slack_message ''x'' ''hi'')) = (rt1, Buffered)
     \<and> handleNormalizedMessage demo_deps demo_env False rt1 (Some (slack_message ''x'' ''hi'')) = (rt2, out2)
     \<and> rt_log rt2 = rt_log rt1 \<and> \<not> taken_over out2"
proof -
  obtain rt1 where h1: "handleNormalizedMessage demo_deps demo_env False demo_router (Some (slack_message ''x'' ''hi'')) = (rt1, Buffered)"
    using demo_handle by blast
  obtain rt2 out2 where h2: "handleNormalizedMessage demo_deps demo_env False rt1 (Some (slack_message ''x'' ''hi'')) = (rt2, out2)"
    by force
  have "rt_log rt2 = rt_log rt1 \<and> \<not> taken_over out2 \<and> rt_buffers rt2 = rt_buffers rt1"
    by (rule router_suppresses_repeat [OF h1 h2])
       (simp_all add: taken_over_def demo_prepared NewDeduplicator_def)
  with h1 h2 show ?thesis by blast
qed

text \<open>
  A suppressed duplicate leaves an orphan. Its delivery context is registered before the
  deduplication check, so the registry of the session grows by an entry for which nothing
  was published and no response will ever come; the next response of the session is still
  matched with the front of that queue.
\<close>

theorem duplicate_leaves_orphan:
  assumes "handleNormalizedMessage deps env n rt (Some m) = (rt', Suppressed)"
  shows "\<exists>e. pending (rt_registry rt') (nm_SessionKey (prepared deps env rt m))
      = pending (rt_registry rt) (nm_SessionKey (prepared deps env rt m)) @ [e]
    \<and> rt_log rt' = rt_log rt \<and> rt_buffers rt' = rt_buffers rt"
  using assms
proof (cases rule: handle_cases)
  case (stopped st)
  then show ?thesis by simp
next
  case (entered st0 st)
  from entered(1) have "is_dup deps env (rt\<lparr>rt_store := st\<rparr>) (prepared deps env rt m)"
    by (metis dispatch_not_suppressed register_and_dedup_eq)
  with entered(1) show ?thesis
    by (simp add: register_and_dedup_eq after_dedup_def pending_Register)
qed

theorem duplicate_leaves_orphan_witness:
  "\<exists>rt rt' e. handleNormalizedMessage demo_deps demo_env False rt (Some (slack_message ''x'' ''hi'')) = (rt', Suppressed)
     \<and> pending (rt_registry rt') (BuildSessionKey ''usr_1'' ''slack'' ''U1'')
         = pending (rt_registry rt) (BuildSessionKey ''usr_1'' ''slack'' ''U1'') @ [e] \<and> rt_log rt' = rt_log rt"
proof -
  let ?rt = "demo_router\<lparr>rt_dedup := \<lparr>dd_entries = [''usr_1:message-id:x'' \<mapsto> 40], dd_window = 30\<rparr>\<rparr>"
  obtain st where h: "handleNormalizedMessage demo_deps demo_env False ?rt (Some (slack_message ''x'' ''hi''))
      = register_and_dedup demo_deps demo_env False (?rt\<lparr>rt_store := st\<rparr>) (demo_message ''x'')"
    using demo_enters [of ?rt "''x''"] demo_admits_start by auto
  have "is_dup demo_deps demo_env (?rt\<lparr>rt_store := st\<rparr>) (demo_message ''x'')"
    by (simp add: is_dup_def IsDuplicate_def dedupStrategy_def deriveDedupKey_def buildKey_def demo_env_def)
  with h have s: "handleNormalizedMessage demo_deps demo_env False ?rt (Some (slack_message ''x'' ''hi''))
      = (after_dedup demo_deps demo_env (?rt\<lparr>rt_store := st\<rparr>) (demo_message ''x''), Suppressed)"
    by (simp add: register_and_dedup_eq)
  from duplicate_leaves_orphan [OF s] obtain e where
    "pending (rt_registry (after_dedup demo_deps demo_env (?rt\<lparr>rt_store := st\<rparr>) (demo_message ''x'')))
        (BuildSessionKey ''usr_1'' ''slack'' ''U1'')
      = pending (rt_registry ?rt) (BuildSessionKey ''usr_1'' ''slack'' ''U1'') @ [e]"
    "rt_log (after_dedup demo_deps demo_env (?rt\<lparr>rt_store := st\<rparr>) (demo_message ''x'')) = rt_log ?rt"
    unfolding demo_prepared by auto
  with s show ?thesis by blast
qed

end
