(* ===== verification/Dispatcher.thy ===== *)
theory Dispatcher
  imports Registry
begin

text \<open>
  The dispatcher (\<^verbatim>\<open>internal/gateway/dispatcher.go\<close>): it takes the events of the agents, finds
  the delivery context of the session in the registry and delivers to the channel adapter,
  directly for streaming channels and as one assembled response for the others.

  Adapters are known by the optional interfaces they implement; what they are asked to do is
  appended to a log, and how each delivery attempt ends is chosen by the environment. The
  event consumer calls \<^verbatim>\<open>HandleEvent\<close> for one event after the other.
\<close>

section \<open>State\<close>

record accumulator =
  ac_text :: string
  ac_createdAt :: time
  ac_userID :: string
  ac_event :: "NipperEvent option"

text \<open>Which optional interfaces an adapter implements.\<close>

record adapter =
  ad_TypingIndicator :: bool
  ad_TypingIndicatorRemover :: bool

datatype attempt = Delivered | AttemptFailed | Cancelled

datatype delivery_effect =
  TypingSent ChannelType DeliveryContext "ChannelMeta option"
| TypingRemoved ChannelType DeliveryContext "ChannelMeta option"
| EventForwarded ChannelType NipperEvent
| ResponseTried ChannelType NipperResponse "attempt list"
| WebSocketSent nat NipperEvent

record Dispatcher =
  ds_registry :: Registry
  ds_adapters :: "ChannelType \<rightharpoonup> adapter"
  ds_accumulators :: "string \<rightharpoonup> accumulator"
  ds_typingSent :: "string \<rightharpoonup> bool"
  ds_wsSubscribers :: "string \<rightharpoonup> nat list"
  ds_log :: "delivery_effect list"

text \<open>
  The environment of one call: clock readings, a fresh id, whether a subscriber channel has
  room, and the end of the \<open>a\<close>-th attempt of the \<open>n\<close>-th delivery; an attempt ends as
  \<open>Cancelled\<close> when it failed and the context is done while the retry delay runs.
\<close>

record deliver_env =
  dv_now :: time
  dv_uuid :: string
  dv_ws_room :: "nat \<Rightarrow> bool"
  dv_attempt :: "nat \<Rightarrow> nat \<Rightarrow> attempt"

definition NewDispatcher :: "Registry \<Rightarrow> (ChannelType \<rightharpoonup> adapter) \<Rightarrow> Dispatcher" where
  "NewDispatcher reg adapters =
     \<lparr>ds_registry = reg, ds_adapters = adapters, ds_accumulators = Map.empty, ds_typingSent = Map.empty,
      ds_wsSubscribers = Map.empty, ds_log = []\<rparr>"

definition accumulatorTimeout :: duration where "accumulatorTimeout = 5 * Minute"

definition deliveryMaxRetries :: nat where "deliveryMaxRetries = 3"

definition log_effects :: "delivery_effect list \<Rightarrow> Dispatcher \<Rightarrow> Dispatcher" where
  "log_effects es d = d\<lparr>ds_log := ds_log d @ es\<rparr>"

section \<open>Delivery with retries\<close>

text \<open>The attempts made from attempt number \<open>n\<close> on when \<open>left\<close> attempts are allowed.\<close>

fun attempts_from :: "(nat \<Rightarrow> attempt) \<Rightarrow> nat \<Rightarrow> nat \<Rightarrow> attempt list" where
  "attempts_from f n 0 = []"
| "attempts_from f n (Suc left) =
     (case f n of
        Delivered \<Rightarrow> [Delivered]
      | AttemptFailed \<Rightarrow> AttemptFailed # attempts_from f (Suc n) left
      | Cancelled \<Rightarrow> if left = 0 then [AttemptFailed] else [Cancelled])"

definition deliverWithRetry ::
  "deliver_env \<Rightarrow> nat \<Rightarrow> ChannelType \<Rightarrow> NipperResponse \<Rightarrow> Dispatcher \<Rightarrow> Dispatcher" where
  "deliverWithRetry env n ct resp d =
     log_effects [ResponseTried ct resp (attempts_from (dv_attempt env n) 1 deliveryMaxRetries)] d"

section \<open>Responses\<close>

definition is_image :: "ContentPart \<Rightarrow> bool" where
  "is_image p \<longleftrightarrow>
     cp_Type p = ''image'' \<or> HasPrefix (ToLower (TrimSpace (cp_MimeType p))) ''image/''"

fun outbound_loop :: "ContentPart list \<Rightarrow> ContentPart list" where
  "outbound_loop [] = []"
| "outbound_loop (p # ps) =
     (if cp_URL p = [] then outbound_loop ps
      else if is_image p
        then [zeroContentPart\<lparr>cp_Type := ''image'', cp_URL := cp_URL p, cp_MimeType := cp_MimeType p\<rparr>]
      else outbound_loop ps)"

definition outboundMediaParts :: "DeliveryContext \<Rightarrow> ContentPart list \<Rightarrow> ContentPart list" where
  "outboundMediaParts dc inboundParts =
     (if dc_ChannelType dc \<noteq> ChannelTypeWhatsApp then [] else outbound_loop inboundParts)"

definition delta_text :: "NipperEvent \<Rightarrow> string" where
  "delta_text event = (case ev_Delta event of None \<Rightarrow> [] | Some t \<Rightarrow> t)"

definition accumulated :: "Dispatcher \<Rightarrow> string \<Rightarrow> string" where
  "accumulated d sessionKey =
     (case ds_accumulators d sessionKey of None \<Rightarrow> [] | Some acc \<Rightarrow> ac_text acc)"

text \<open>The text of a buffered response: what was accumulated, else the text of the final event.\<close>

definition final_text :: "Dispatcher \<Rightarrow> NipperEvent \<Rightarrow> string" where
  "final_text d event =
     (let text = accumulated d (ev_SessionKey event)
      in if text = [] \<and> ev_Delta event \<noteq> None then delta_text event else text)"

definition response ::
  "deliver_env \<Rightarrow> NipperEvent \<Rightarrow> DeliveryContext \<Rightarrow> ChannelMeta option \<Rightarrow> string \<Rightarrow> ContentPart list \<Rightarrow> NipperResponse" where
  "response env event dc meta text parts =
     \<lparr>nr_ResponseID = ev_ResponseID event, nr_SessionKey = ev_SessionKey event, nr_UserID = ev_UserID event,
      nr_ChannelType = dc_ChannelType dc, nr_ChannelIdentity = [], nr_Text = text, nr_Parts = parts,
      nr_DeliveryContext = dc, nr_Meta = meta, nr_OriginMessageID = [], nr_Timestamp = dv_now env,
      nr_ContextUsage = ev_ContextUsage event\<rparr>"

definition assembleFinalResponse ::
  "deliver_env \<Rightarrow> Dispatcher \<Rightarrow> NipperEvent \<Rightarrow> DeliveryContext \<Rightarrow> ChannelMeta option \<Rightarrow> ContentPart list \<Rightarrow> NipperResponse" where
  "assembleFinalResponse env d event dc meta inboundParts =
     response env event dc meta (final_text d event) (outboundMediaParts dc inboundParts)"

definition assembleResponseFromEvent ::
  "deliver_env \<Rightarrow> NipperEvent \<Rightarrow> DeliveryContext \<Rightarrow> ChannelMeta option \<Rightarrow> ContentPart list \<Rightarrow> NipperResponse" where
  "assembleResponseFromEvent env event dc meta inboundParts =
     response env event dc meta (delta_text event) (outboundMediaParts dc inboundParts)"

definition assembleErrorResponse ::
  "deliver_env \<Rightarrow> NipperEvent \<Rightarrow> DeliveryContext \<Rightarrow> ChannelMeta option \<Rightarrow> NipperResponse" where
  "assembleErrorResponse env event dc meta =
     (let text = (case ev_Error event of
                    Some e \<Rightarrow> if er_Message e \<noteq> [] then er_Message e
                              else ''An error occurred while processing your message.''
                  | None \<Rightarrow> ''An error occurred while processing your message.'')
      in (response env event dc meta text [])\<lparr>nr_ResponseID := dv_uuid env, nr_ContextUsage := None\<rparr>)"

section \<open>Accumulators, typing indicator, subscribers\<close>

definition clearAccumulator :: "string \<Rightarrow> Dispatcher \<Rightarrow> Dispatcher" where
  "clearAccumulator sessionKey d = d\<lparr>ds_accumulators := (ds_accumulators d)(sessionKey := None)\<rparr>"

definition accumulate :: "deliver_env \<Rightarrow> NipperEvent \<Rightarrow> Dispatcher \<Rightarrow> Dispatcher" where
  "accumulate env event d =
     (let acc = (case ds_accumulators d (ev_SessionKey event) of
                   Some a \<Rightarrow> a
                 | None \<Rightarrow> \<lparr>ac_text = [], ac_createdAt = dv_now env, ac_userID = ev_UserID event, ac_event = None\<rparr>);
          acc' = acc\<lparr>ac_text := ac_text acc @ delta_text event, ac_event := Some event\<rparr>
      in d\<lparr>ds_accumulators := (ds_accumulators d)(ev_SessionKey event \<mapsto> acc')\<rparr>)"

definition maybeSendTypingIndicator ::
  "adapter \<Rightarrow> string \<Rightarrow> DeliveryContext \<Rightarrow> ChannelMeta option \<Rightarrow> Dispatcher \<Rightarrow> Dispatcher" where
  "maybeSendTypingIndicator ad sessionKey dc meta d =
     (if ds_typingSent d sessionKey = Some True then d
      else let d1 = d\<lparr>ds_typingSent := (ds_typingSent d)(sessionKey \<mapsto> True)\<rparr>
           in if ad_TypingIndicator ad then log_effects [TypingSent (dc_ChannelType dc) dc meta] d1 else d1)"

definition clearTypingSent ::
  "adapter \<Rightarrow> string \<Rightarrow> DeliveryContext \<Rightarrow> ChannelMeta option \<Rightarrow> Dispatcher \<Rightarrow> Dispatcher" where
  "clearTypingSent ad sessionKey dc meta d =
     (let wasSent = (ds_typingSent d sessionKey = Some True);
          d1 = d\<lparr>ds_typingSent := (ds_typingSent d)(sessionKey := None)\<rparr>
      in if wasSent \<and> ad_TypingIndicatorRemover ad
         then log_effects [TypingRemoved (dc_ChannelType dc) dc meta] d1 else d1)"

definition SubscribeWebSocket :: "string \<Rightarrow> nat \<Rightarrow> Dispatcher \<Rightarrow> Dispatcher" where
  "SubscribeWebSocket sessionKey ch d =
     d\<lparr>ds_wsSubscribers := (ds_wsSubscribers d)(sessionKey \<mapsto> map_slice (ds_wsSubscribers d) sessionKey @ [ch])\<rparr>"

definition UnsubscribeWebSocket :: "string \<Rightarrow> nat \<Rightarrow> Dispatcher \<Rightarrow> Dispatcher" where
  "UnsubscribeWebSocket sessionKey ch d =
     (let subs = remove_first (\<lambda>s. s = ch) (map_slice (ds_wsSubscribers d) sessionKey)
      in d\<lparr>ds_wsSubscribers := (if subs = [] then (ds_wsSubscribers d)(sessionKey := None)
                               else (ds_wsSubscribers d)(sessionKey \<mapsto> subs))\<rparr>)"

definition fanOutToWebSocket :: "deliver_env \<Rightarrow> NipperEvent \<Rightarrow> Dispatcher \<Rightarrow> Dispatcher" where
  "fanOutToWebSocket env event d =
     log_effects (map (\<lambda>ch. WebSocketSent ch event)
       (filter (dv_ws_room env) (map_slice (ds_wsSubscribers d) (ev_SessionKey event)))) d"

section \<open>Event handling\<close>

definition broadcast_meta :: "ChannelType \<Rightarrow> string \<Rightarrow> ChannelMeta option" where
  "broadcast_meta ct channelID =
     (if ct = ChannelTypeWhatsApp then
        Some (MetaWhatsApp \<lparr>wm_WuzapiUserID = [], wm_WuzapiInstanceName = [], wm_WuzapiBaseURL = [],
          wm_ChatJID = channelID, wm_SenderJID = channelID, wm_MessageID = [], wm_PushName = [],
          wm_IsGroup = False, wm_IsFromMe = False, wm_QuotedMessageID = [], wm_QuotedParticipant = [],
          wm_HasMedia = False, wm_MediaType = [], wm_S3URL = [], wm_MediaKey = []\<rparr>)
      else if ct = ChannelTypeSlack then
        Some (MetaSlack \<lparr>sm_TeamID = [], sm_ChannelID = channelID, sm_SlackUserID = [], sm_ThreadTS = [],
          sm_MessageTS = [], sm_AppID = [], sm_BotID = [], sm_BotToken = []\<rparr>)
      else None)"

text \<open>The loop over the targets; \<open>n\<close> counts the deliveries.\<close>

fun broadcast_loop ::
  "deliver_env \<Rightarrow> NipperEvent \<Rightarrow> string \<Rightarrow> nat \<Rightarrow> string list \<Rightarrow> Dispatcher \<Rightarrow> Dispatcher" where
  "broadcast_loop env event text n [] d = d"
| "broadcast_loop env event text n (target # rest) d =
     (case SplitN2 target (CHR '':'') of
        [ct, channelID] \<Rightarrow>
          (case ds_adapters d ct of
             None \<Rightarrow> broadcast_loop env event text n rest d
           | Some ad \<Rightarrow>
               let dc = zeroDeliveryContext\<lparr>dc_ChannelType := ct, dc_ChannelID := channelID\<rparr>;
                   resp = response env event dc (broadcast_meta ct channelID) text []
               in broadcast_loop env event text (Suc n) rest (deliverWithRetry env n ct resp d))
      | _ \<Rightarrow> broadcast_loop env event text n rest d)"

definition deliverBroadcast :: "deliver_env \<Rightarrow> NipperEvent \<Rightarrow> DeliveryContext \<Rightarrow> Dispatcher \<Rightarrow> Dispatcher" where
  "deliverBroadcast env event dc d =
     clearAccumulator (ev_SessionKey event)
       (broadcast_loop env event (final_text d event) 0 (dc_NotifyChannels dc) d)"

definition handleStreamingEvent ::
  "deliver_env \<Rightarrow> NipperEvent \<Rightarrow> DeliveryContext \<Rightarrow> ChannelMeta option \<Rightarrow> ContentPart list \<Rightarrow> Dispatcher \<Rightarrow> Dispatcher" where
  "handleStreamingEvent env event dc meta inboundParts d =
     (if ev_Type event = EventTypeDone
      then deliverWithRetry env 0 (dc_ChannelType dc) (assembleResponseFromEvent env event dc meta inboundParts) d
      else log_effects [EventForwarded (dc_ChannelType dc) event] d)"

definition handleBufferedEvent ::
  "deliver_env \<Rightarrow> NipperEvent \<Rightarrow> DeliveryContext \<Rightarrow> ChannelMeta option \<Rightarrow> ContentPart list \<Rightarrow> Dispatcher \<Rightarrow> Dispatcher" where
  "handleBufferedEvent env event dc meta inboundParts d =
     (if ev_Type event = EventTypeDelta then accumulate env event d
      else if ev_Type event = EventTypeError then
        clearAccumulator (ev_SessionKey event)
          (deliverWithRetry env 0 (dc_ChannelType dc) (assembleErrorResponse env event dc meta) d)
      else if ev_Type event = EventTypeDone then
        clearAccumulator (ev_SessionKey event)
          (deliverWithRetry env 0 (dc_ChannelType dc) (assembleFinalResponse env d event dc meta inboundParts) d)
      else d)"

definition is_terminal :: "NipperEvent \<Rightarrow> bool" where
  "is_terminal event \<longleftrightarrow> ev_Type event = EventTypeDone \<or> ev_Type event = EventTypeError"

text \<open>The part of the handler behind the registry lookup.\<close>

definition route_event ::
  "deliver_env \<Rightarrow> NipperEvent \<Rightarrow> delivery \<Rightarrow> Dispatcher \<Rightarrow> Dispatcher" where
  "route_event env event dl d0 =
     (let (dc, meta, inboundParts) = dl;
          d = fanOutToWebSocket env event d0
      in if dc_ReplyMode dc = ''broadcast'' \<and> ev_Type event = EventTypeDone then deliverBroadcast env event dc d
         else case ds_adapters d (dc_ChannelType dc) of
           None \<Rightarrow> d
         | Some ad \<Rightarrow>
             let d1 = (if ev_Type event = EventTypeThinking \<or> ev_Type event = EventTypeToolStart
                       then maybeSendTypingIndicator ad (ev_SessionKey event) dc meta d else d);
                 d2 = (if is_terminal event then clearTypingSent ad (ev_SessionKey event) dc meta d1 else d1)
             in if SupportsStreaming (dc_Capabilities dc)
                then handleStreamingEvent env event dc meta inboundParts d2
                else handleBufferedEvent env event dc meta inboundParts d2)"

definition HandleEvent :: "deliver_env \<Rightarrow> Dispatcher \<Rightarrow> NipperEvent option \<Rightarrow> Dispatcher" where
  "HandleEvent env d oevent =
     (case oevent of
        None \<Rightarrow> d
      | Some event \<Rightarrow>
          (let (reg, found) = (if is_terminal event then Consume (ds_registry d) (ev_SessionKey event)
                               else (ds_registry d, Lookup (ds_registry d) (ev_SessionKey event)));
               d1 = d\<lparr>ds_registry := reg\<rparr>
           in case found of None \<Rightarrow> d1 | Some dl \<Rightarrow> route_event env event dl d1))"

definition evictStaleAccumulators :: "time \<Rightarrow> Dispatcher \<Rightarrow> Dispatcher" where
  "evictStaleAccumulators now d =
     (let accs = map_retain (\<lambda>_ acc. \<not> ac_createdAt acc < now - accumulatorTimeout) (ds_accumulators d)
      in d\<lparr>ds_accumulators := accs,
           ds_typingSent := map_retain (\<lambda>k _. accs k \<noteq> None) (ds_typingSent d)\<rparr>)"

section \<open>Frame facts\<close>

lemma log_effects_simps [simp]:
  "ds_registry (log_effects es d) = ds_registry d" "ds_adapters (log_effects es d) = ds_adapters d"
  "ds_accumulators (log_effects es d) = ds_accumulators d" "ds_typingSent (log_effects es d) = ds_typingSent d"
  "ds_wsSubscribers (log_effects es d) = ds_wsSubscribers d" "ds_log (log_effects es d) = ds_log d @ es"
  by (simp_all add: log_effects_def)

lemma broadcast_loop_frame:
  "ds_registry (broadcast_loop env event t n ts d) = ds_registry d
   \<and> ds_adapters (broadcast_loop env event t n ts d) = ds_adapters d
   \<and> ds_accumulators (broadcast_loop env event t n ts d) = ds_accumulators d
   \<and> ds_typingSent (broadcast_loop env event t n ts d) = ds_typingSent d
   \<and> ds_wsSubscribers (broadcast_loop env event t n ts d) = ds_wsSubscribers d"
proof (induction env event t n ts d rule: broadcast_loop.induct)
  case (2 env event body n target rest d)
  then show ?case by (auto simp: deliverWithRetry_def Let_def SplitN2_def split: option.splits)
qed simp

text \<open>Whatever an event does, the queues and texts of other sessions stay.\<close>

lemma route_event_frame:
  "ds_registry (route_event env event dl d) = ds_registry d
   \<and> ds_adapters (route_event env event dl d) = ds_adapters d
   \<and> (k \<noteq> ev_SessionKey event \<longrightarrow> ds_accumulators (route_event env event dl d) k = ds_accumulators d k
        \<and> ds_typingSent (route_event env event dl d) k = ds_typingSent d k)"
  by (auto simp: route_event_def Let_def fanOutToWebSocket_def deliverBroadcast_def clearAccumulator_def
      broadcast_loop_frame handleStreamingEvent_def handleBufferedEvent_def accumulate_def deliverWithRetry_def
      maybeSendTypingIndicator_def clearTypingSent_def split: prod.split option.split)

section \<open>Runs of events\<close>

fun handle_all :: "Dispatcher \<Rightarrow> (deliver_env \<times> NipperEvent) list \<Rightarrow> Dispatcher" where
  "handle_all d [] = d"
| "handle_all d ((env, event) # es) = handle_all (HandleEvent env d (Some event)) es"

text \<open>The deltas of a session in a sequence of events, joined.\<close>

definition deltas_of :: "string \<Rightarrow> (deliver_env \<times> NipperEvent) list \<Rightarrow> string" where
  "deltas_of k es =
     concat (map (\<lambda>p. delta_text (snd p))
       (filter (\<lambda>p. ev_SessionKey (snd p) = k \<and> ev_Type (snd p) = EventTypeDelta) es))"

text \<open>Session \<open>k\<close> answers to entry \<open>e\<close>, on a channel that buffers and has an adapter.\<close>

definition buffering :: "Dispatcher \<Rightarrow> string \<Rightarrow> DeliveryEntry \<Rightarrow> DeliveryEntry list \<Rightarrow> bool" where
  "buffering d k e q \<longleftrightarrow>
     pending (ds_registry d) k = e # q
     \<and> \<not> SupportsStreaming (dc_Capabilities (de_Context e))
     \<and> ds_adapters d (dc_ChannelType (de_Context e)) \<noteq> None
     \<and> dc_ReplyMode (de_Context e) \<noteq> ''broadcast''"

lemma HandleEvent_registry:
  "ds_registry (HandleEvent env d (Some event)) =
     (if is_terminal event then fst (Consume (ds_registry d) (ev_SessionKey event)) else ds_registry d)"
  by (auto simp: HandleEvent_def Let_def route_event_frame [THEN conjunct1] split: prod.split option.split)

lemma HandleEvent_adapters: "ds_adapters (HandleEvent env d (Some event)) = ds_adapters d"
  by (auto simp: HandleEvent_def Let_def route_event_frame [THEN conjunct2, THEN conjunct1]
      split: prod.split option.split)

lemma HandleEvent_other_session:
  "k \<noteq> ev_SessionKey event \<Longrightarrow> accumulated (HandleEvent env d (Some event)) k = accumulated d k"
  by (auto simp: HandleEvent_def accumulated_def Let_def
      route_event_frame [THEN conjunct2, THEN conjunct2, rule_format] split: prod.split option.split)

lemma HandleEvent_pending:
  assumes "\<not> (ev_SessionKey event = k \<and> is_terminal event)"
  shows "pending (ds_registry (HandleEvent env d (Some event))) k = pending (ds_registry d) k"
  using assms by (auto simp: HandleEvent_registry pending_Consume)

lemma buffering_step:
  assumes "buffering d k e q" "\<not> (ev_SessionKey event = k \<and> is_terminal event)"
  shows "buffering (HandleEvent env d (Some event)) k e q"
  using assms unfolding buffering_def by (simp add: HandleEvent_pending HandleEvent_adapters)

lemma accumulated_step:
  assumes b: "buffering d k e q" and nt: "\<not> (ev_SessionKey event = k \<and> is_terminal event)"
  shows "accumulated (HandleEvent env d (Some event)) k = accumulated d k @ deltas_of k [(env, event)]"
proof (cases "ev_SessionKey event = k")
  case False
  then show ?thesis by (simp add: HandleEvent_other_session deltas_of_def)
next
  case True
  with nt have t: "\<not> is_terminal event" by simp
  obtain ad where ad: "ds_adapters d (dc_ChannelType (de_Context e)) = Some ad" "\<not> SupportsStreaming (dc_Capabilities (de_Context e))"
    "dc_ReplyMode (de_Context e) \<noteq> ''broadcast''" using b by (auto simp: buffering_def)
  from b have "Lookup (ds_registry d) k = Some (payload e)" by (simp add: Lookup_def buffering_def)
  with t have h: "HandleEvent env d (Some event) = route_event env event (payload e) d"
    using True by (simp add: HandleEvent_def)
  let ?w = "fanOutToWebSocket env event d"
  have w: "ds_adapters ?w = ds_adapters d" "ds_accumulators ?w = ds_accumulators d" by (simp_all add: fanOutToWebSocket_def)
  define d1 where "d1 = (if ev_Type event = EventTypeThinking \<or> ev_Type event = EventTypeToolStart
     then maybeSendTypingIndicator ad (ev_SessionKey event) (de_Context e) (de_Meta e) ?w else ?w)"
  have acc: "ds_accumulators d1 = ds_accumulators d" by (simp add: d1_def maybeSendTypingIndicator_def w Let_def)
  have "route_event env event (payload e) d = handleBufferedEvent env event (de_Context e) (de_Meta e) (de_InboundParts e) d1"
    using t ad by (simp add: route_event_def payload_def Let_def w d1_def)
  moreover have "accumulated (handleBufferedEvent env event (de_Context e) (de_Meta e) (de_InboundParts e) d1) k
      = accumulated d k @ deltas_of k [(env, event)]"
    using t True acc by (simp add: handleBufferedEvent_def is_terminal_def accumulated_def accumulate_def deltas_of_def split: option.split)
  ultimately show ?thesis using h by simp
qed

lemma deltas_of_Cons: "deltas_of k (x # es) = deltas_of k [x] @ deltas_of k es"
  by (simp add: deltas_of_def)

lemma buffering_run:
  "buffering d k e q \<Longrightarrow> \<forall>p \<in> set es. \<not> (ev_SessionKey (snd p) = k \<and> is_terminal (snd p))
    \<Longrightarrow> buffering (handle_all d es) k e q \<and> accumulated (handle_all d es) k = accumulated d k @ deltas_of k es"
proof (induction es arbitrary: d)
  case Nil
  then show ?case by (simp add: deltas_of_def)
next
  case (Cons p es)
  obtain env event where p: "p = (env, event)" by force
  from Cons.prems(2) have nt: "\<not> (ev_SessionKey event = k \<and> is_terminal event)" by (auto simp: p)
  from Cons.prems(2) have rest: "\<forall>p \<in> set es. \<not> (ev_SessionKey (snd p) = k \<and> is_terminal (snd p))" by simp
  from Cons.IH [OF buffering_step [OF Cons.prems(1) nt, of env] rest]
    accumulated_step [OF Cons.prems(1) nt, of env] show ?case
    by (simp add: p deltas_of_Cons [of k "(env, event)" es])
qed

lemma buffered_done:
  assumes "buffering d k e q" and "accumulated d k = []"
    and "\<forall>p \<in> set es. \<not> (ev_SessionKey (snd p) = k \<and> is_terminal (snd p))"
    and "ev_SessionKey event = k" and "ev_Type event = EventTypeDone"
    and d': "d' = HandleEvent env (handle_all d es) (Some event)"
  shows "\<exists>resp tries. last (ds_log d') = ResponseTried (dc_ChannelType (de_Context e)) resp tries
      \<and> nr_Text resp = (if deltas_of k es = [] then delta_text event else deltas_of k es)
      \<and> nr_DeliveryContext resp = de_Context e \<and> nr_Meta resp = de_Meta e
    \<and> pending (ds_registry d') k = q \<and> accumulated d' k = []"
proof -
  let ?d = "handle_all d es"
  from buffering_run [OF assms(1,3)] assms(2) have b: "buffering ?d k e q"
    and acc: "accumulated ?d k = deltas_of k es" by auto
  have t: "is_terminal event" using assms(5) by (simp add: is_terminal_def)
  have "snd (Consume (ds_registry ?d) k) = Some (payload e)"
    using b by (simp add: Consume_answer buffering_def)
  then have h: "d' = route_event env event (payload e) (?d\<lparr>ds_registry := fst (Consume (ds_registry ?d) k)\<rparr>)"
    using t assms(4) by (simp add: d' HandleEvent_def case_prod_beta)
  have p: "pending (ds_registry d') k = q"
    using b t assms(4) by (simp add: d' HandleEvent_registry pending_Consume buffering_def)
  obtain ad where ad: "ds_adapters ?d (dc_ChannelType (de_Context e)) = Some ad"
    using b by (auto simp: buffering_def)
  have body: "final_text D event = (if deltas_of k es = [] then delta_text event else deltas_of k es)"
    if "ds_accumulators D = ds_accumulators ?d" for D
    using acc that assms(4) by (auto simp: final_text_def accumulated_def delta_text_def Let_def)
  have "d' = clearAccumulator k (deliverWithRetry env 0 (dc_ChannelType (de_Context e))
      (assembleFinalResponse env (clearTypingSent ad k (de_Context e) (de_Meta e) (fanOutToWebSocket env event
        (?d\<lparr>ds_registry := fst (Consume (ds_registry ?d) k)\<rparr>))) event (de_Context e) (de_Meta e) (de_InboundParts e))
      (clearTypingSent ad k (de_Context e) (de_Meta e) (fanOutToWebSocket env event
        (?d\<lparr>ds_registry := fst (Consume (ds_registry ?d) k)\<rparr>))))"
    using b t assms(4,5) ad
    by (simp add: h route_event_def payload_def buffering_def handleBufferedEvent_def fanOutToWebSocket_def Let_def)
  with p show ?thesis
    by (simp add: clearAccumulator_def deliverWithRetry_def assembleFinalResponse_def response_def accumulated_def
        body clearTypingSent_def fanOutToWebSocket_def Let_def)
qed

section \<open>Properties\<close>

text \<open>
  A buffered channel receives the whole answer once. Take a session whose front entry is
  on a non-streaming channel with an adapter, and any interleaving of events of all sessions
  in which this session has no final event yet. When its \<^verbatim>\<open>done\<close> event comes, the last thing
  that happens is the delivery of one response to the channel of that entry, with its
  delivery context and metadata, whose text is the concatenation of the session's deltas in
  order (or the text of the final event when there were none); the entry and the accumulated
  text are gone afterwards.
\<close>

theorem buffered_answer_complete:
  assumes "buffering d k e q" and "accumulated d k = []"
    and "\<forall>p \<in> set es. \<not> (ev_SessionKey (snd p) = k \<and> is_terminal (snd p))"
    and "ev_SessionKey event = k" and "ev_Type event = EventTypeDone"
    and d': "d' = HandleEvent env (handle_all d es) (Some event)"
  shows "\<exists>resp tries. last (ds_log d') = ResponseTried (dc_ChannelType (de_Context e)) resp tries
      \<and> nr_Text resp = (if deltas_of k es = [] then delta_text event else deltas_of k es)
      \<and> nr_DeliveryContext resp = de_Context e \<and> nr_Meta resp = de_Meta e
    \<and> pending (ds_registry d') k = q \<and> accumulated d' k = []"
  by (rule buffered_done [OF assms])

text \<open>A session on MQTT for the witnesses.\<close>

definition demo_event :: "NipperEventType \<Rightarrow> string \<Rightarrow> string option \<Rightarrow> NipperEvent" where
  "demo_event ty k delta =
     \<lparr>ev_EventID = ''e'', ev_Type = ty, ev_SessionKey = k, ev_ResponseID = ''r'', ev_Timestamp = 1,
      ev_Delta = delta, ev_ToolInfo = None, ev_SkillInfo = None, ev_Thinking = None, ev_Error = None,
      ev_ContextUsage = None, ev_UserID = ''usr_1''\<rparr>"

definition demo_entry :: "ChannelType \<Rightarrow> DeliveryEntry" where
  "demo_entry ct = \<lparr>de_Context = zeroDeliveryContext\<lparr>dc_ChannelType := ct\<rparr>, de_Meta = None, de_InboundParts = [], de_CreatedAt = 0\<rparr>"

definition demo_dispatcher :: Dispatcher where
  "demo_dispatcher =
     NewDispatcher \<lparr>rg_entries = [''s'' \<mapsto> [demo_entry ''mqtt'']]\<rparr>
       [''mqtt'' \<mapsto> \<lparr>ad_TypingIndicator = False, ad_TypingIndicatorRemover = False\<rparr>]"

definition demo_deliver :: deliver_env where
  "demo_deliver = \<lparr>dv_now = 9, dv_uuid = ''id'', dv_ws_room = (\<lambda>_. True), dv_attempt = (\<lambda>_ _. Delivered)\<rparr>"

lemma demo_event_fields [simp]:
  "ev_SessionKey (demo_event ty k t) = k" "ev_Type (demo_event ty k t) = ty" "ev_Delta (demo_event ty k t) = t"
  by (simp_all add: demo_event_def)

lemma demo_buffering: "buffering demo_dispatcher ''s'' (demo_entry ''mqtt'') []"
  "accumulated demo_dispatcher ''s'' = []"
  by (simp_all add: buffering_def demo_dispatcher_def NewDispatcher_def map_slice_def demo_entry_def
      zeroDeliveryContext_def accumulated_def)

theorem buffered_answer_complete_witness:
  "\<exists>resp tries. last (ds_log (HandleEvent demo_deliver (handle_all demo_dispatcher
       [(demo_deliver, demo_event EventTypeDelta ''s'' (Some ''Hello'')),
        (demo_deliver, demo_event EventTypeDelta ''other'' (Some ''x'')),
        (demo_deliver, demo_event EventTypeDelta ''s'' (Some '' there''))])
       (Some (demo_event EventTypeDone ''s'' None)))) = ResponseTried ''mqtt'' resp tries
     \<and> nr_Text resp = ''Hello there''"
proof -
  let ?es = "[(demo_deliver, demo_event EventTypeDelta ''s'' (Some ''Hello'')),
        (demo_deliver, demo_event EventTypeDelta ''other'' (Some ''x'')),
        (demo_deliver, demo_event EventTypeDelta ''s'' (Some '' there''))]"
  have "\<forall>p \<in> set ?es. \<not> (ev_SessionKey (snd p) = ''s'' \<and> is_terminal (snd p))" by (simp add: is_terminal_def)
  from buffered_answer_complete [OF demo_buffering this, of "demo_event EventTypeDone ''s'' None", OF _ _ refl, of demo_deliver]
  show ?thesis by (simp add: deltas_of_def delta_text_def demo_entry_def) blast
qed

lemma attempts_policy:
  "length (attempts_from f n left) \<le> left
   \<and> (\<forall>a \<in> set (butlast (attempts_from f n left)). a = AttemptFailed)
   \<and> (Delivered \<in> set (attempts_from f n left)
       \<longleftrightarrow> (\<exists>i < left. f (n + i) = Delivered \<and> (\<forall>j < i. f (n + j) = AttemptFailed)))"
proof (induction f n left rule: attempts_from.induct)
  case (1 f n)
  then show ?case by simp
next
  case (2 f n left)
  have split: "(\<exists>i < Suc left. f (n + i) = Delivered \<and> (\<forall>j < i. f (n + j) = AttemptFailed))
      \<longleftrightarrow> f n = Delivered \<or> f n = AttemptFailed
          \<and> (\<exists>i < left. f (Suc n + i) = Delivered \<and> (\<forall>j < i. f (Suc n + j) = AttemptFailed))"
    by (subst Ex_less_Suc2) (auto simp: All_less_Suc2)
  show ?case unfolding split using 2 by (cases "f n") auto
qed

text \<open>
  C19: the retry policy. A response is tried at most three times, every attempt but the last
  failed, so nothing is sent again after a success, and the response is delivered exactly
  when one of the three attempts succeeds before the context is cancelled.
\<close>

theorem delivery_retry_policy:
  "\<exists>tries. deliverWithRetry env n ct resp d = log_effects [ResponseTried ct resp tries] d
    \<and> length tries \<le> 3 \<and> (\<forall>a \<in> set (butlast tries). a = AttemptFailed)
    \<and> (Delivered \<in> set tries \<longleftrightarrow>
        (\<exists>i < 3. dv_attempt env n (1 + i) = Delivered \<and> (\<forall>j < i. dv_attempt env n (1 + j) = AttemptFailed)))"
  using attempts_policy [of "dv_attempt env n" 1 3]
  unfolding deliverWithRetry_def deliveryMaxRetries_def by blast

theorem delivery_retry_policy_witness:
  "\<exists>tries. ds_log (deliverWithRetry demo_deliver 0 ''mqtt''
       (response demo_deliver (demo_event EventTypeDone ''s'' None) zeroDeliveryContext None ''hi'' []) demo_dispatcher)
     = [ResponseTried ''mqtt'' (response demo_deliver (demo_event EventTypeDone ''s'' None) zeroDeliveryContext None ''hi'' []) tries]
     \<and> length tries \<le> 3 \<and> Delivered \<in> set tries"
proof -
  let ?r = "response demo_deliver (demo_event EventTypeDone ''s'' None) zeroDeliveryContext None ''hi'' []"
  have "\<exists>i < 3. dv_attempt demo_deliver 0 (1 + i) = Delivered \<and> (\<forall>j < i. dv_attempt demo_deliver 0 (1 + j) = AttemptFailed)"
    by (intro exI [of _ 0]) (simp add: demo_deliver_def)
  moreover obtain tries where "deliverWithRetry demo_deliver 0 ''mqtt'' ?r demo_dispatcher
      = log_effects [ResponseTried ''mqtt'' ?r tries] demo_dispatcher" "length tries \<le> 3"
    "Delivered \<in> set tries \<longleftrightarrow> (\<exists>i < 3. dv_attempt demo_deliver 0 (1 + i) = Delivered
        \<and> (\<forall>j < i. dv_attempt demo_deliver 0 (1 + j) = AttemptFailed))"
    using delivery_retry_policy [of demo_deliver 0 "''mqtt''" ?r demo_dispatcher] by blast
  ultimately show ?thesis by (auto simp: demo_dispatcher_def NewDispatcher_def)
qed

text \<open>
  Each final event uses up exactly one entry of its own session and no event touches the
  queue of another session; an event of a session without entries changes nothing at all.
\<close>

theorem dispatcher_consumes_one:
  "pending (ds_registry (HandleEvent env d (Some event))) k =
     (if is_terminal event \<and> ev_SessionKey event = k then tl (pending (ds_registry d) k)
      else pending (ds_registry d) k)
   \<and> (pending (ds_registry d) (ev_SessionKey event) = [] \<longrightarrow> HandleEvent env d (Some event) = d)"
proof -
  have "HandleEvent env d (Some event) = d" if "pending (ds_registry d) (ev_SessionKey event) = []"
    using that by (auto simp: HandleEvent_def Lookup_def Consume_def)
  then show ?thesis by (auto simp: HandleEvent_registry pending_Consume)
qed

theorem dispatcher_consumes_one_witness:
  "pending (ds_registry (HandleEvent demo_deliver demo_dispatcher (Some (demo_event EventTypeDone ''s'' None)))) ''s'' = []
   \<and> HandleEvent demo_deliver demo_dispatcher (Some (demo_event EventTypeDone ''t'' None)) = demo_dispatcher"
  using dispatcher_consumes_one [of demo_deliver demo_dispatcher "demo_event EventTypeDone ''s'' None" "''s''"]
    dispatcher_consumes_one [of demo_deliver demo_dispatcher "demo_event EventTypeDone ''t'' None" "''s''"]
    demo_buffering(1)
  by (simp add: is_terminal_def buffering_def) (simp add: demo_dispatcher_def NewDispatcher_def map_slice_def)

fun is_removal :: "delivery_effect \<Rightarrow> bool" where
  "is_removal (TypingRemoved ct dc meta) = True"
| "is_removal _ = False"

definition removals :: "Dispatcher \<Rightarrow> delivery_effect list" where
  "removals d = filter is_removal (ds_log d)"

lemma removals_log [simp]: "removals (log_effects es d) = removals d @ filter is_removal es"
  by (simp add: removals_def)

lemma removals_deliver [simp]: "removals (deliverWithRetry env n ct resp d) = removals d"
  by (simp add: deliverWithRetry_def)

lemma removals_clear [simp]: "removals (clearAccumulator k d) = removals d"
  by (simp add: clearAccumulator_def removals_def)

lemma removals_fan_out [simp]: "removals (fanOutToWebSocket env event d) = removals d"
  by (simp add: fanOutToWebSocket_def filter_empty_conv)

lemma removals_broadcast_loop [simp]: "removals (broadcast_loop env event t n ts d) = removals d"
proof (induction env event t n ts d rule: broadcast_loop.induct)
  case (2 env event body n target rest d)
  then show ?case by (auto simp: Let_def SplitN2_def split: option.splits)
qed simp

lemma removals_route:
  assumes "ds_typingSent d (ev_SessionKey event) \<noteq> Some True" "is_terminal event"
  shows "removals (route_event env event dl d) = removals d"
proof -
  have "\<not> (ev_Type event = EventTypeThinking \<or> ev_Type event = EventTypeToolStart)"
    using assms(2) by (auto simp: is_terminal_def)
  moreover have "removals (clearTypingSent ad (ev_SessionKey event) dc meta (fanOutToWebSocket env event d)) = removals d" for ad dc meta
    using assms(1) removals_fan_out [of env event d]
    by (simp add: clearTypingSent_def Let_def fanOutToWebSocket_def removals_def)
  ultimately show ?thesis
    using assms(2)
    by (simp add: route_event_def Let_def deliverBroadcast_def handleStreamingEvent_def handleBufferedEvent_def
        is_terminal_def split: prod.split option.split) auto
qed

text \<open>
  The periodic eviction forgets the typing indicator of every session without
  accumulated text, in particular of all sessions on streaming channels, however recent
  they are: the final event of such a session no longer removes the indicator that was sent.
\<close>

theorem eviction_loses_typing_indicator:
  assumes "ds_accumulators d k = None" and "ev_SessionKey event = k" and "is_terminal event"
  shows "removals (HandleEvent env (evictStaleAccumulators now d) (Some event)) = removals d"
proof -
  let ?d = "evictStaleAccumulators now d"
  have "ds_typingSent ?d k = None" and lg: "removals ?d = removals d"
    using assms(1) by (auto simp: evictStaleAccumulators_def Let_def removals_def split: option.split)
  then have "removals (route_event env event dl (?d\<lparr>ds_registry := reg\<rparr>)) = removals d" for dl reg
    using removals_route [of "?d\<lparr>ds_registry := reg\<rparr>" event env dl] assms(2,3) by (simp add: removals_def)
  then show ?thesis
    using assms(3) lg by (auto simp: HandleEvent_def Let_def removals_def split: prod.split option.split)
qed

definition demo_slack :: Dispatcher where
  "demo_slack =
     (NewDispatcher \<lparr>rg_entries = [''s'' \<mapsto> [demo_entry ''slack'']]\<rparr>
       [''slack'' \<mapsto> \<lparr>ad_TypingIndicator = True, ad_TypingIndicatorRemover = True\<rparr>])\<lparr>ds_typingSent := [''s'' \<mapsto> True]\<rparr>"

theorem eviction_loses_typing_indicator_witness:
  "removals (HandleEvent demo_deliver (evictStaleAccumulators 1 demo_slack) (Some (demo_event EventTypeDone ''s'' None))) = []
   \<and> removals (HandleEvent demo_deliver demo_slack (Some (demo_event EventTypeDone ''s'' None))) \<noteq> []"
proof
  have "ds_accumulators demo_slack ''s'' = None" "removals demo_slack = []"
    by (simp_all add: demo_slack_def NewDispatcher_def removals_def)
  then show "removals (HandleEvent demo_deliver (evictStaleAccumulators 1 demo_slack) (Some (demo_event EventTypeDone ''s'' None))) = []"
    using eviction_loses_typing_indicator [of demo_slack "''s''" "demo_event EventTypeDone ''s'' None"]
    by (simp add: is_terminal_def)
  show "removals (HandleEvent demo_deliver demo_slack (Some (demo_event EventTypeDone ''s'' None))) \<noteq> []"
    by (simp add: HandleEvent_def is_terminal_def Consume_def demo_slack_def NewDispatcher_def map_slice_def
        payload_def demo_entry_def zeroDeliveryContext_def route_event_def fanOutToWebSocket_def clearTypingSent_def
        handleBufferedEvent_def Let_def)
qed

end
