(* ===== verification/FileLock.thy ===== *)
theory FileLock
  imports Prelude
begin

text \<open>
  The advisory lock of a session transcript (\<^verbatim>\<open>pkg/session/lock.go\<close>).

  \<open>lock_loop\<close> is the loop of \<^verbatim>\<open>FileLock.Lock\<close> as one caller sees it: each iteration reads what
  \<^verbatim>\<open>os.Link\<close>, the staleness test, the clock and the context answer at that moment.
  \<open>lock_step\<close> is the same code run by any number of callers against one lock file, split at
  its system calls, since nothing makes an iteration atomic.
\<close>

section \<open>The lock file\<close>

definition staleLockThreshold :: duration where "staleLockThreshold = 30 * Minute"
definition lockMaxWait :: duration where "lockMaxWait = 10 * Second"
definition lockRetryBase :: duration where "lockRetryBase = 100 * Millisecond"
definition lockRetryMax :: duration where "lockRetryMax = 800 * Millisecond"

text \<open>The time stamp is \<open>None\<close> when neither of the two layouts parses it.\<close>

record lockContent =
  lc_PID :: int
  lc_AcquiredAt :: "time option"
  lc_UserID :: string

datatype lock_body = Unreadable | NotJSON | LockBody lockContent

record lock_file =
  lf_ModTime :: time
  lf_body :: lock_body

text \<open>A file that cannot be found counts as stale.\<close>

definition lockFileIsStale :: "lock_file option \<Rightarrow> time \<Rightarrow> bool" where
  "lockFileIsStale file now =
     (case file of
        None \<Rightarrow> True
      | Some f \<Rightarrow>
          (case lf_body f of
             Unreadable \<Rightarrow> True
           | NotJSON \<Rightarrow> 5 * Minute < now - lf_ModTime f
           | LockBody lc \<Rightarrow>
               (case lc_AcquiredAt lc of
                  None \<Rightarrow> 5 * Minute < now - lf_ModTime f
                | Some t \<Rightarrow> staleLockThreshold < now - t)))"

text \<open>One pass over a directory listing: the names of the files that are kept.\<close>

definition has_lock_suffix :: "string \<Rightarrow> bool" where
  "has_lock_suffix n = (drop (length n - 11) n = ''.jsonl.lock'')"

fun CleanStaleLocks :: "(string \<times> bool) list \<Rightarrow> time \<Rightarrow> (string \<rightharpoonup> lock_file) \<Rightarrow> (string \<rightharpoonup> lock_file)" where
  "CleanStaleLocks [] now files = files"
| "CleanStaleLocks ((name, isDir) # entries) now files =
     CleanStaleLocks entries now
       (if \<not> isDir \<and> has_lock_suffix name \<and> lockFileIsStale (files name) now then files(name := None) else files)"

section \<open>One caller\<close>

datatype link_result = LinkOk | LinkExists | LinkError

datatype lock_error = LinkFailed | AcquireTimeout | AcquireCancelled

record lock_obs =
  lo_link :: link_result
  lo_stale :: bool
  lo_clock :: time
  lo_cancelled :: bool

text \<open>\<open>None\<close> means that the fuel ran out before the loop returned.\<close>

fun lock_loop :: "nat \<Rightarrow> (nat \<Rightarrow> lock_obs) \<Rightarrow> time \<Rightarrow> duration \<Rightarrow> nat \<Rightarrow> (lock_error + unit) option" where
  "lock_loop 0 obs deadline delay i = None"
| "lock_loop (Suc fuel) obs deadline delay i =
     (case lo_link (obs i) of
        LinkOk \<Rightarrow> Some (Inr ())
      | LinkError \<Rightarrow> Some (Inl LinkFailed)
      | LinkExists \<Rightarrow>
          if lo_stale (obs i) then lock_loop fuel obs deadline delay (Suc i)
          else if deadline < lo_clock (obs i) then Some (Inl AcquireTimeout)
          else if lo_cancelled (obs i) then Some (Inl AcquireCancelled)
          else lock_loop fuel obs deadline (if lockRetryMax < delay * 2 then lockRetryMax else delay * 2) (Suc i))"

definition Lock :: "nat \<Rightarrow> (nat \<Rightarrow> lock_obs) \<Rightarrow> time \<Rightarrow> (lock_error + unit) option" where
  "Lock fuel obs start = lock_loop fuel obs (start + lockMaxWait) lockRetryBase 0"

section \<open>Many callers\<close>

text \<open>
  Where a caller is: outside, about to link, about to test for staleness, about to remove
  the file it found stale, asleep, or holding. A waiting caller carries the time stamp of
  its prepared lock content, its deadline and its delay.
\<close>

datatype lock_pc =
  Outside
| Linking time time duration
| Testing time time duration
| Removing time time duration
| Sleeping time time duration time
| Held

record lock_world =
  lw_now :: time
  lw_file :: "lock_file option"
  lw_pc :: "nat \<Rightarrow> lock_pc"
  lw_takeovers :: nat  \<comment> \<open>how often a waiting caller removed an existing lock file\<close>

definition at_pc :: "nat \<Rightarrow> lock_pc \<Rightarrow> lock_world \<Rightarrow> lock_world" where
  "at_pc p pc w = w\<lparr>lw_pc := (lw_pc w)(p := pc)\<rparr>"

definition lock_content_file :: "time \<Rightarrow> time \<Rightarrow> lock_file" where
  "lock_content_file acquiredAt now =
     \<lparr>lf_ModTime = now, lf_body = LockBody \<lparr>lc_PID = 0, lc_AcquiredAt = Some acquiredAt, lc_UserID = []\<rparr>\<rparr>"

definition Unlock :: "nat \<Rightarrow> lock_world \<Rightarrow> lock_world" where
  "Unlock p w = at_pc p Outside (w\<lparr>lw_file := None\<rparr>)"

inductive lock_step :: "lock_world \<Rightarrow> lock_world \<Rightarrow> bool" where
  tick: "lw_now w \<le> t \<Longrightarrow> lock_step w (w\<lparr>lw_now := t\<rparr>)"
| start: "lw_pc w p = Outside \<Longrightarrow>
    lock_step w (at_pc p (Linking (lw_now w) (lw_now w + lockMaxWait) lockRetryBase) w)"
| link: "lw_pc w p = Linking a dl de \<Longrightarrow> lw_file w = None \<Longrightarrow>
    lock_step w (at_pc p Held (w\<lparr>lw_file := Some (lock_content_file a (lw_now w))\<rparr>))"
| exists: "lw_pc w p = Linking a dl de \<Longrightarrow> lw_file w = Some f \<Longrightarrow> lock_step w (at_pc p (Testing a dl de) w)"
| stale: "lw_pc w p = Testing a dl de \<Longrightarrow> lockFileIsStale (lw_file w) (lw_now w) \<Longrightarrow>
    lock_step w (at_pc p (Removing a dl de) w)"
| remove: "lw_pc w p = Removing a dl de \<Longrightarrow>
    lock_step w (at_pc p (Linking a dl de)
      (w\<lparr>lw_file := None, lw_takeovers := lw_takeovers w + (if lw_file w = None then 0 else 1)\<rparr>))"
| sleep: "lw_pc w p = Testing a dl de \<Longrightarrow> \<not> lockFileIsStale (lw_file w) (lw_now w) \<Longrightarrow> lw_now w \<le> dl \<Longrightarrow>
    lock_step w (at_pc p (Sleeping a dl de (lw_now w + de)) w)"
| wake: "lw_pc w p = Sleeping a dl de until \<Longrightarrow> until \<le> lw_now w \<Longrightarrow>
    lock_step w (at_pc p (Linking a dl (if lockRetryMax < de * 2 then lockRetryMax else de * 2)) w)"
| give_up: "lw_pc w p = Testing a dl de \<Longrightarrow> \<not> lockFileIsStale (lw_file w) (lw_now w) \<Longrightarrow>
    lock_step w (at_pc p Outside w)"
| unlock: "lw_pc w p = Held \<Longrightarrow> lock_step w (Unlock p w)"

inductive_cases lock_stepE: "lock_step w w'"

definition idle_world :: "time \<Rightarrow> lock_world" where
  "idle_world t = \<lparr>lw_now = t, lw_file = None, lw_pc = (\<lambda>_. Outside), lw_takeovers = 0\<rparr>"

definition holders :: "lock_world \<Rightarrow> nat set" where
  "holders w = {p. lw_pc w p = Held}"

section \<open>Bounded waiting\<close>

text \<open>
  The delay in force at an iteration, and the clock: an iteration that sleeps is followed
  by one at least that delay later, and the clock never goes back.
\<close>

fun delay_at :: "(nat \<Rightarrow> lock_obs) \<Rightarrow> nat \<Rightarrow> duration" where
  "delay_at obs 0 = lockRetryBase"
| "delay_at obs (Suc i) =
     (if lo_stale (obs i) then delay_at obs i
      else if lockRetryMax < delay_at obs i * 2 then lockRetryMax else delay_at obs i * 2)"

definition sleeps :: "(nat \<Rightarrow> lock_obs) \<Rightarrow> bool" where
  "sleeps obs \<longleftrightarrow> (\<forall>i. lo_clock (obs i) + (if lo_stale (obs i) then 0 else delay_at obs i) \<le> lo_clock (obs (Suc i)))"

definition naps :: "(nat \<Rightarrow> lock_obs) \<Rightarrow> nat \<Rightarrow> nat" where
  "naps obs i = card {j. j < i \<and> \<not> lo_stale (obs j)}"

text \<open>The delays are 100, 200, 400 and then 800 milliseconds; slept in total after \<open>k\<close> naps.\<close>

fun slept :: "nat \<Rightarrow> duration" where
  "slept 0 = 0"
| "slept (Suc 0) = 100 * Millisecond"
| "slept (Suc (Suc 0)) = 300 * Millisecond"
| "slept (Suc (Suc (Suc k))) = 700 * Millisecond + int k * (800 * Millisecond)"

fun nap :: "nat \<Rightarrow> duration" where
  "nap 0 = 100 * Millisecond"
| "nap (Suc 0) = 200 * Millisecond"
| "nap (Suc (Suc 0)) = 400 * Millisecond"
| "nap (Suc (Suc (Suc k))) = 800 * Millisecond"

lemma nap_double: "nap (Suc k) = (if lockRetryMax < nap k * 2 then lockRetryMax else nap k * 2)"
  by (induction k rule: nap.induct) (simp_all add: lockRetryMax_def)

lemma slept_Suc: "slept (Suc k) = slept k + nap k"
  by (induction k rule: nap.induct) simp_all

lemma slept_mono: "k \<le> l \<Longrightarrow> slept k \<le> slept l"
proof (induction l)
  case (Suc l)
  have "0 \<le> nap l" by (induction l rule: nap.induct) simp_all
  with Suc show ?case by (cases "k = Suc l") (simp_all only: slept_Suc, force+)
qed simp

lemma slept_15: "slept 15 = 10300 * Millisecond"
proof -
  have "(15::nat) = Suc (Suc (Suc 12))" by simp
  then show ?thesis by (simp only: slept.simps)
qed

lemma naps_0 [simp]: "naps obs 0 = 0"
  by (simp add: naps_def)

lemma naps_Suc: "naps obs (Suc i) = naps obs i + (if lo_stale (obs i) then 0 else 1)"
proof -
  have "{j. j < Suc i \<and> \<not> lo_stale (obs j)} =
      (if lo_stale (obs i) then {j. j < i \<and> \<not> lo_stale (obs j)} else insert i {j. j < i \<and> \<not> lo_stale (obs j)})"
    by (auto simp: less_Suc_eq)
  then show ?thesis by (simp add: naps_def)
qed

lemma delay_at_nap: "delay_at obs i = nap (naps obs i)"
  by (induction i) (simp_all add: naps_Suc nap_double lockRetryBase_def del: nap.simps(2-4))

lemma clock_after_naps:
  assumes "sleeps obs"
  shows "lo_clock (obs 0) + slept (naps obs i) \<le> lo_clock (obs i)"
proof (induction i)
  case (Suc i)
  have "lo_clock (obs i) + (if lo_stale (obs i) then 0 else nap (naps obs i)) \<le> lo_clock (obs (Suc i))"
    using assms by (simp only: sleeps_def delay_at_nap)
  with Suc show ?case by (simp add: naps_Suc slept_Suc split: if_splits)
qed simp

lemma naps_lower:
  assumes "finite S" "\<forall>j. lo_stale (obs j) \<longrightarrow> j \<in> S"
  shows "i \<le> naps obs i + card S"
proof -
  have "{..< i} \<subseteq> {j. j < i \<and> \<not> lo_stale (obs j)} \<union> S" using assms(2) by auto
  then have "card {..< i} \<le> card ({j. j < i \<and> \<not> lo_stale (obs j)} \<union> S)"
    using assms(1) by (intro card_mono) auto
  also have "\<dots> \<le> naps obs i + card S" by (simp add: naps_def card_Un_le)
  finally show ?thesis by simp
qed

lemma lock_loop_returns:
  assumes "sleeps obs" "fuel + i = Suc n" "naps obs n \<ge> 15" "\<not> lo_stale (obs n)" "i \<le> n"
    and "deadline < lo_clock (obs 0) + slept 15"
  shows "\<exists>r. lock_loop fuel obs deadline delay i = Some r"
  using assms(2,5)
proof (induction fuel arbitrary: delay i)
  case (Suc fuel)
  show ?case
  proof (cases "i = n")
    case True
    have "slept 15 \<le> slept (naps obs n)" using assms(3) by (rule slept_mono)
    with assms(6) clock_after_naps [OF assms(1), of n] have "deadline < lo_clock (obs n)" by linarith
    with True assms(4) show ?thesis by (simp split: link_result.split)
  next
    case False
    with Suc.prems have "fuel + Suc i = Suc n" "Suc i \<le> n" by simp_all
    from Suc.IH [OF this] show ?thesis by (simp split: link_result.split)
  qed
qed simp

lemma nth_nap: "k < naps obs m \<Longrightarrow> \<exists>n < m. naps obs n = k \<and> \<not> lo_stale (obs n)"
proof (induction m)
  case (Suc m)
  then show ?case
    by (cases "k < naps obs m") (auto simp: naps_Suc less_Suc_eq split: if_splits)
qed simp

lemma lock_loop_more:
  "lock_loop f obs dl de i = Some r \<Longrightarrow> f \<le> g \<Longrightarrow> lock_loop g obs dl de i = Some r"
proof (induction f arbitrary: g de i)
  case (Suc f)
  then obtain g' where "g = Suc g'" "f \<le> g'" by (cases g) auto
  with Suc show ?case by (auto split: link_result.splits if_splits)
qed simp

text \<open>
  C22: waiting for the lock is bounded. Whatever the other callers do, when at most \<open>card S\<close>
  iterations find the file stale, the call returns within sixteen more iterations: the
  delays 100, 200, 400, 800, 800, ... milliseconds pass the ten second deadline after fifteen
  of them.
\<close>

theorem lock_wait_bounded:
  assumes "sleeps obs" and "start \<le> lo_clock (obs 0)"
    and "finite S" and "\<forall>j. lo_stale (obs j) \<longrightarrow> j \<in> S"
  shows "\<exists>r. Lock (16 + card S) obs start = Some r"
proof -
  obtain n where n: "n < 16 + card S" "naps obs n = 15" "\<not> lo_stale (obs n)"
    using nth_nap [of 15 obs "16 + card S"] naps_lower [OF assms(3,4), of "16 + card S"] by auto
  have "start + lockMaxWait < lo_clock (obs 0) + slept 15"
    using assms(2) by (simp add: lockMaxWait_def slept_15)
  then obtain r where "lock_loop (Suc n) obs (start + lockMaxWait) lockRetryBase 0 = Some r"
    using lock_loop_returns [OF assms(1), of "Suc n" 0 n] n by force
  then have "lock_loop (16 + card S) obs (start + lockMaxWait) lockRetryBase 0 = Some r"
    using Suc_leI [OF n(1)] by (rule lock_loop_more)
  then show ?thesis by (auto simp: Lock_def)
qed

definition held_forever :: "nat \<Rightarrow> lock_obs" where
  "held_forever i = \<lparr>lo_link = LinkExists, lo_stale = False, lo_clock = slept i, lo_cancelled = False\<rparr>"

theorem lock_wait_bounded_witness:
  "Lock 16 held_forever 0 \<noteq> None"
proof -
  have naps: "naps held_forever i = i" for i by (simp add: naps_def held_forever_def)
  have "sleeps held_forever"
    unfolding sleeps_def by (simp only: delay_at_nap naps) (simp add: held_forever_def slept_Suc)
  then show ?thesis
    using lock_wait_bounded [of held_forever 0 "{}"] by (auto simp: held_forever_def)
qed

text \<open>
  A stale lock file that cannot be removed is waited for without end. The loop tests
  neither the deadline nor the context before it retries, so a caller that finds the file in
  place and stale in every iteration returns neither a lock nor an error, even when its
  context was cancelled from the start.
\<close>

theorem lock_stale_spin:
  assumes "\<forall>i. lo_link (obs i) = LinkExists \<and> lo_stale (obs i)"
  shows "Lock fuel obs start = None"
proof -
  have "lock_loop fuel obs dl de i = None" for dl de i
    using assms by (induction fuel arbitrary: i) simp_all
  then show ?thesis by (simp add: Lock_def)
qed

theorem lock_stale_spin_witness:
  "Lock 1000 (\<lambda>i. \<lparr>lo_link = LinkExists, lo_stale = lockFileIsStale (Some \<lparr>lf_ModTime = 0, lf_body = Unreadable\<rparr>) (int i),
     lo_clock = int i * Minute, lo_cancelled = True\<rparr>) 0 = None"
  by (rule lock_stale_spin) (simp add: lockFileIsStale_def)

section \<open>Mutual exclusion\<close>

text \<open>
  The holders are never more than the takeovers plus the one whose file is in place: linking
  needs a free path, and each removal by a waiting caller can leave one more behind.
\<close>

definition lock_inv :: "lock_world \<Rightarrow> bool" where
  "lock_inv w \<longleftrightarrow> finite (holders w) \<and>
     card (holders w) \<le> lw_takeovers w + (if lw_file w = None then 0 else 1)"

lemma holders_at_pc: "holders (at_pc p pc w) = (if pc = Held then insert p (holders w) else holders w - {p})"
  by (auto simp: holders_def at_pc_def)

lemma holders_simps [simp]:
  "holders (w\<lparr>lw_now := t\<rparr>) = holders w"
  "holders (w\<lparr>lw_file := f\<rparr>) = holders w"
  "holders (w\<lparr>lw_file := f, lw_takeovers := n\<rparr>) = holders w"
  by (simp_all add: holders_def)

lemma at_pc_simps [simp]:
  "lw_file (at_pc p pc w) = lw_file w" "lw_takeovers (at_pc p pc w) = lw_takeovers w"
  "lw_now (at_pc p pc w) = lw_now w"
  by (simp_all add: at_pc_def)

lemma lock_inv_idle: "lock_inv (idle_world t)"
  by (simp add: lock_inv_def idle_world_def holders_def)

lemma lock_inv_wait:
  "lock_inv w \<Longrightarrow> lw_pc w p \<noteq> Held \<Longrightarrow> pc \<noteq> Held \<Longrightarrow> lock_inv (at_pc p pc w)"
  by (auto simp: lock_inv_def holders_at_pc) (simp_all add: holders_def)

lemma lock_inv_step [keeps]: "lock_step w w' \<Longrightarrow> lock_inv w \<Longrightarrow> lock_inv w'"
proof (induction rule: lock_step.induct)
  case (tick w t)
  then show ?case by (simp add: lock_inv_def)
next
  case (link w p a dl de)
  then have "p \<notin> holders w" by (simp add: holders_def)
  with link show ?case by (simp add: lock_inv_def holders_at_pc)
next
  case (remove w p a dl de)
  then have "holders w - {p} = holders w" by (simp add: holders_def)
  with remove show ?case by (simp add: lock_inv_def holders_at_pc split: if_splits)
next
  case (unlock w p)
  then have "p \<in> holders w" by (simp add: holders_def)
  with unlock show ?case by (auto simp: lock_inv_def Unlock_def holders_at_pc split: if_splits)
qed (auto intro!: lock_inv_wait)

lemma lock_inv_reach: "lock_step\<^sup>*\<^sup>* w w' \<Longrightarrow> lock_inv w \<Longrightarrow> lock_inv w'"
  by (induction rule: rtranclp_induct) (auto intro: keeps)

text \<open>
  C23: mutual exclusion up to takeovers. In every state that any number of callers reach from
  a free lock, the callers that believe to hold it are at most one more than the lock files
  that waiting callers removed; while there was no such removal, there is at most one
  holder, and the lock file exists as long as there is one.
\<close>

theorem lock_mutual_exclusion:
  assumes "lock_step\<^sup>*\<^sup>* (idle_world t) w"
  shows "card (holders w) \<le> lw_takeovers w + 1
    \<and> (lw_takeovers w = 0 \<longrightarrow> (\<forall>p \<in> holders w. \<forall>q \<in> holders w. p = q) \<and> (holders w \<noteq> {} \<longrightarrow> lw_file w \<noteq> None))"
proof -
  have inv: "finite (holders w)" "card (holders w) \<le> lw_takeovers w + (if lw_file w = None then 0 else 1)"
    using lock_inv_reach [OF assms lock_inv_idle] by (simp_all add: lock_inv_def)
  have "card (holders w) \<le> 1" if "lw_takeovers w = 0" using that inv(2) by (simp split: if_splits)
  moreover have "lw_file w \<noteq> None" if "lw_takeovers w = 0" "holders w \<noteq> {}"
    using that inv by (auto split: if_splits)
  ultimately show ?thesis using inv by (auto simp: card_le_Suc0_iff_eq split: if_splits)
qed

definition one_holder :: lock_world where
  "one_holder = at_pc 1 Held ((at_pc 1 (Linking 0 lockMaxWait lockRetryBase) (idle_world 0))\<lparr>lw_file := Some (lock_content_file 0 0)\<rparr>)"

lemma one_holder_reachable: "lock_step\<^sup>*\<^sup>* (idle_world 0) one_holder"
proof -
  have "lock_step (idle_world 0) (at_pc 1 (Linking 0 lockMaxWait lockRetryBase) (idle_world 0))"
    using lock_step.start [of "idle_world 0" 1] by (simp add: idle_world_def)
  moreover have "lock_step (at_pc 1 (Linking 0 lockMaxWait lockRetryBase) (idle_world 0)) one_holder"
    using lock_step.link [of "at_pc 1 (Linking 0 lockMaxWait lockRetryBase) (idle_world 0)" 1 0 lockMaxWait lockRetryBase]
    by (simp add: one_holder_def at_pc_def idle_world_def)
  ultimately show ?thesis by (meson converse_rtranclp_into_rtranclp rtranclp.rtrancl_refl)
qed

theorem lock_mutual_exclusion_witness:
  "holders one_holder = {1} \<and> lw_file one_holder \<noteq> None"
proof -
  have h: "1 \<in> holders one_holder" "lw_takeovers one_holder = 0"
    by (simp_all add: one_holder_def holders_at_pc) (simp add: at_pc_def idle_world_def)
  with lock_mutual_exclusion [OF one_holder_reachable] show ?thesis by blast
qed

text \<open>Two callers, where they are, and the lock file.\<close>

definition two :: "time \<Rightarrow> lock_file option \<Rightarrow> lock_pc \<Rightarrow> lock_pc \<Rightarrow> nat \<Rightarrow> lock_world" where
  "two t f a b n = \<lparr>lw_now = t, lw_file = f, lw_pc = (\<lambda>_. Outside)(1 := a, 2 := b), lw_takeovers = n\<rparr>"

lemma two_simps [simp]:
  "lw_now (two t f a b n) = t" "lw_file (two t f a b n) = f" "lw_takeovers (two t f a b n) = n"
  "lw_pc (two t f a b n) 1 = a" "lw_pc (two t f a b n) (Suc 0) = a" "lw_pc (two t f a b n) 2 = b"
  "at_pc 1 c (two t f a b n) = two t f c b n" "at_pc (Suc 0) c (two t f a b n) = two t f c b n"
  "at_pc 2 c (two t f a b n) = two t f a c n"
  "(two t f a b n)\<lparr>lw_file := g\<rparr> = two t g a b n"
  "(two t f a b n)\<lparr>lw_takeovers := m\<rparr> = two t f a b m"
  by (simp_all add: two_def at_pc_def fun_upd_twist)

lemma two_idle: "idle_world t = two t None Outside Outside 0"
  by (simp add: idle_world_def two_def fun_eq_iff)

lemma two_steps:
  fixes t :: time
  defines "L \<equiv> Linking t (t + lockMaxWait) lockRetryBase" and "F \<equiv> Some (lock_content_file t t)"
    and "T \<equiv> Testing t (t + lockMaxWait) lockRetryBase" and "R \<equiv> Removing t (t + lockMaxWait) lockRetryBase"
  shows "lock_step (two t f Outside b n) (two t f L b n)" "lock_step (two t f a Outside n) (two t f a L n)"
    "lock_step (two t None L b n) (two t F Held b n)" "lock_step (two t None a L n) (two t F a Held n)"
    "lock_step (two t F a L n) (two t F a T n)" "lock_step (two t None a T n) (two t None a R n)"
    "lock_step (two t F a R n) (two t None a L (Suc n))" "lock_step (two t f Held b n) (two t None Outside b n)"
  using lock_step.start [of "two t f Outside b n" 1] lock_step.start [of "two t f a Outside n" 2]
    lock_step.link [of "two t None L b n" 1] lock_step.link [of "two t None a L n" 2]
    lock_step.exists [of "two t F a L n" 2 _ _ _ "lock_content_file t t"] lock_step.stale [of "two t None a T n" 2]
    lock_step.remove [of "two t F a R n" 2] lock_step.unlock [of "two t f Held b n" 1]
  by (simp_all add: L_def F_def T_def R_def Unlock_def lockFileIsStale_def)

text \<open>
  The staleness test is not a takeover only of old locks. Two callers reach a state in
  which both hold the lock although no time passed at all: one caller finds the path taken,
  the other releases, the first cannot find the file any more and takes that for a stale
  lock, the other acquires the lock again, and the first removes the fresh lock file and
  links its own.
\<close>

theorem lock_race_two_holders:
  "\<exists>w. lock_step\<^sup>*\<^sup>* (idle_world t) w \<and> holders w = {1, 2} \<and> lw_now w = t"
proof -
  define L where "L = Linking t (t + lockMaxWait) lockRetryBase"
  define F where "F = Some (lock_content_file t t)"
  define T where "T = Testing t (t + lockMaxWait) lockRetryBase"
  define R where "R = Removing t (t + lockMaxWait) lockRetryBase"
  note step = two_steps [of t, folded L_def F_def T_def R_def]
  note rt = converse_rtranclp_into_rtranclp
  have "lock_step\<^sup>*\<^sup>* (idle_world t) (two t F Held T 0)"
    unfolding two_idle by (rule rt [OF step(1) rt [OF step(3) rt [OF step(2) r_into_rtranclp [where r = lock_step, OF step(5)]]]])
  moreover have "lock_step\<^sup>*\<^sup>* (two t F Held T 0) (two t F Held R 0)"
    by (rule rt [OF step(8) rt [OF step(6) rt [OF step(1) r_into_rtranclp [where r = lock_step, OF step(3)]]]])
  moreover have "lock_step\<^sup>*\<^sup>* (two t F Held R 0) (two t F Held Held 1)"
    unfolding One_nat_def by (rule rt [OF step(7) r_into_rtranclp [where r = lock_step, OF step(4)]])
  moreover have "holders (two t F Held Held 1) = {1, 2}" by (auto simp: holders_def two_def)
  ultimately show ?thesis by (intro exI [of _ "two t F Held Held 1"]) auto
qed

end
