(* ===== verification/SessionStore.thy ===== *)
theory SessionStore
  imports SessionKey FileLock
begin

text \<open>
  The session store of the agents (\<^verbatim>\<open>pkg/session/store.go\<close>, \<^verbatim>\<open>types.go\<close>) and the transcript
  compaction (\<^verbatim>\<open>compaction.go\<close>) over an explicit file system.

  A path is the user's directory, one of its two subdirectories and a file name. The JSON files
  of descriptors and the index have typed content. A transcript is kept line by line, each with
  its fields and its length in bytes: encoding and decoding replace invalid UTF-8, and the
  reader gives up at a line that does not fit its buffer. The lock file of a transcript is a
  file as well. Failures of the operating system other than missing or existing files are not
  modelled, nor is the failure of \<^verbatim>\<open>json.Marshal\<close> for years beyond 9999.
\<close>

section \<open>Types\<close>

datatype PStatus = StatusActive | StatusArchived | StatusExpired

record PSessionMetadata =
  pm_Model :: string
  pm_CompactionLevel :: string
  pm_CompactionCount :: int
  pm_MessageCount :: int
  pm_ContextUsage :: ContextUsage
  pm_LastActivityAt :: time
  pm_ChannelMeta :: "json_text option"

record PSession =
  ps_Key :: string
  ps_ID :: string
  ps_UserID :: string
  ps_ChannelType :: string
  ps_Status :: PStatus
  ps_Metadata :: PSessionMetadata
  ps_CreatedAt :: time
  ps_UpdatedAt :: time

record CreateSessionRequest =
  sr_UserID :: string
  sr_SessionID :: string
  sr_ChannelType :: string
  sr_Model :: string
  sr_ChannelMeta :: "json_text option"

record sessionIndexEntry =
  ie_SessionID :: string
  ie_SessionKey :: string
  ie_ChannelType :: string
  ie_Status :: PStatus
  ie_Model :: string
  ie_MessageCount :: int
  ie_CreatedAt :: time
  ie_UpdatedAt :: time

record sessionIndex =
  ix_UserID :: string
  ix_Sessions :: "sessionIndexEntry list"
  ix_UpdatedAt :: time

record indexCacheEntry =
  ic_index :: sessionIndex
  ic_expiresAt :: time

section \<open>Files\<close>

datatype dir = SessionsDir | ArchiveDir

type_synonym path = "string \<times> dir \<times> string"

text \<open>
  A line of a transcript: its fields, \<open>None\<close> when it does not decode (or is blank), and its length
  without the line end.
\<close>

record stored_line =
  sl_value :: "TranscriptLine option"
  sl_size :: nat

datatype content =
  Lines "stored_line list"
| MetaFile PSession
| IndexFile sessionIndex
| LockFile time  \<comment> \<open>when it was acquired\<close>
| Undecodable

type_synonym fs = "path \<rightharpoonup> content"

record SStore =
  st_fs :: fs
  st_cache :: "string \<rightharpoonup> indexCacheEntry"

definition NewStore :: SStore where
  "NewStore = \<lparr>st_fs = Map.empty, st_cache = Map.empty\<rparr>"

text \<open>
  \<^verbatim>\<open>json.Marshal\<close> of a line and the reading of one: every text passes through the encoding. The
  size is that of the object with its fields in order, the run id and the token count left out
  when they are empty; the time stamp, in UTC, has 19 characters up to the seconds.
\<close>

definition as_decoded :: "TranscriptLine \<Rightarrow> TranscriptLine" where
  "as_decoded l = l\<lparr>tl_Role := json_decoded (tl_Role l), tl_Content := json_decoded (tl_Content l),
                    tl_RunID := json_decoded (tl_RunID l)\<rparr>"

definition line_size :: "TranscriptLine \<Rightarrow> nat" where
  "line_size l =
     length (''{'' @ json_string ''role'' @ '':'' @ json_string (tl_Role l))
     + length ('','' @ json_string ''content'' @ '':'' @ json_string (tl_Content l))
     + length ('','' @ json_string ''timestamp'' @ '':'') + (2 + 19 + length (frac_text (nat (tl_Timestamp l mod Second))))
     + (if tl_RunID l = [] then 0 else length ('','' @ json_string ''runId'' @ '':'' @ json_string (tl_RunID l)))
     + (if tl_TokenCount l = 0 then 0 else length ('','' @ json_string ''tokenCount'' @ '':'' @ show_int (tl_TokenCount l)))
     + length ''}''"

definition stored :: "TranscriptLine \<Rightarrow> stored_line" where
  "stored l = \<lparr>sl_value = Some (as_decoded l), sl_size = line_size l\<rparr>"

text \<open>The buffer of the scanner that reads transcripts.\<close>

definition max_line :: nat where "max_line = 10 * 1024 * 1024"

definition transcriptPath :: "string \<Rightarrow> string \<Rightarrow> path" where
  "transcriptPath userID sessionID = (userID, SessionsDir, sessionID @ ''.jsonl'')"

definition lockPath :: "string \<Rightarrow> string \<Rightarrow> path" where
  "lockPath userID sessionID = (userID, SessionsDir, sessionID @ ''.jsonl.lock'')"

definition metaPath :: "string \<Rightarrow> string \<Rightarrow> path" where
  "metaPath userID sessionID = (userID, SessionsDir, sessionID @ ''.meta.json'')"

definition indexPath :: "string \<Rightarrow> path" where
  "indexPath userID = (userID, SessionsDir, ''sessions.json'')"

fun with_suffix :: "path \<Rightarrow> string \<Rightarrow> path" where
  "with_suffix (u, d, n) suffix = (u, d, n @ suffix)"

text \<open>\<^verbatim>\<open>os.Rename\<close>: \<open>None\<close> when the source does not exist; the target is replaced.\<close>

definition rename :: "fs \<Rightarrow> path \<Rightarrow> path \<Rightarrow> fs option" where
  "rename f a b = (case f a of None \<Rightarrow> None | Some c \<Rightarrow> Some ((f(a := None))(b \<mapsto> c)))"

text \<open>Write to a temporary file next to the target, then rename.\<close>

definition atomicWriteJSON :: "fs \<Rightarrow> path \<Rightarrow> content \<Rightarrow> fs" where
  "atomicWriteJSON f p c =
     (let tmp = with_suffix p ''.tmp'' in the (rename (f(tmp \<mapsto> c)) tmp p))"

datatype sess_error =
  BadKey key_error | SessionNotFound | DecodeFailed | LockTimeout | MissingUserID | KeepLinesTooSmall
| ArchiveExists | LineTooLong

type_synonym 'a sresult = "sess_error + 'a"


text \<open>
  What an operation that takes the transcript lock sees: a lock file that is not stale blocks
  it until it gives up; otherwise (no lock, or a stale one, which is removed) it proceeds.
\<close>

definition lock_blocked :: "fs \<Rightarrow> path \<Rightarrow> time \<Rightarrow> bool" where
  "lock_blocked f p now =
     (case f p of Some (LockFile t) \<Rightarrow> \<not> staleLockThreshold < now - t | _ \<Rightarrow> False)"

section \<open>The index\<close>

definition indexCacheTTL :: duration where "indexCacheTTL = 45 * Second"

definition sessionToIndexEntry :: "PSession \<Rightarrow> sessionIndexEntry" where
  "sessionToIndexEntry sess =
     \<lparr>ie_SessionID = ps_ID sess, ie_SessionKey = ps_Key sess, ie_ChannelType = ps_ChannelType sess,
      ie_Status = ps_Status sess, ie_Model = pm_Model (ps_Metadata sess),
      ie_MessageCount = pm_MessageCount (ps_Metadata sess), ie_CreatedAt = ps_CreatedAt sess,
      ie_UpdatedAt = ps_UpdatedAt sess\<rparr>"

definition emptyIndex :: "string \<Rightarrow> sessionIndex" where
  "emptyIndex userID = \<lparr>ix_UserID = userID, ix_Sessions = [], ix_UpdatedAt = zero_time\<rparr>"

definition refreshIndexCache :: "SStore \<Rightarrow> string \<Rightarrow> time \<Rightarrow> SStore \<times> sessionIndex sresult" where
  "refreshIndexCache s userID now =
     (case st_fs s (indexPath userID) of
        None \<Rightarrow> (s, Inr (emptyIndex userID))
      | Some (IndexFile idx) \<Rightarrow>
          (s\<lparr>st_cache := (st_cache s)(userID \<mapsto> \<lparr>ic_index = idx, ic_expiresAt = now + indexCacheTTL\<rparr>)\<rparr>, Inr idx)
      | Some _ \<Rightarrow> (s, Inl DecodeFailed))"

definition loadIndex :: "SStore \<Rightarrow> string \<Rightarrow> time \<Rightarrow> SStore \<times> sessionIndex sresult" where
  "loadIndex s userID now =
     (case st_cache s userID of
        Some e \<Rightarrow> if now < ic_expiresAt e then (s, Inr (ic_index e)) else refreshIndexCache s userID now
      | None \<Rightarrow> refreshIndexCache s userID now)"

text \<open>The loop of \<^verbatim>\<open>upsertIndex\<close>: the first entry of the session is replaced, or one is appended.\<close>

fun upsert_entry :: "sessionIndexEntry \<Rightarrow> sessionIndexEntry list \<Rightarrow> sessionIndexEntry list" where
  "upsert_entry entry [] = [entry]"
| "upsert_entry entry (e # es) =
     (if ie_SessionID e = ie_SessionID entry then entry # es else e # upsert_entry entry es)"

definition upsertIndex :: "SStore \<Rightarrow> string \<Rightarrow> PSession \<Rightarrow> time \<Rightarrow> SStore \<times> unit sresult" where
  "upsertIndex s userID sess now =
     (case refreshIndexCache (s\<lparr>st_cache := (st_cache s)(userID := None)\<rparr>) userID now of
        (s1, Inl e) \<Rightarrow> (s1, Inl e)
      | (s1, Inr idx) \<Rightarrow>
          let idx' = idx\<lparr>ix_Sessions := upsert_entry (sessionToIndexEntry sess) (ix_Sessions idx),
                         ix_UpdatedAt := now,
                         ix_UserID := (if ix_UserID idx = [] then userID else ix_UserID idx)\<rparr>
          in (s1\<lparr>st_fs := atomicWriteJSON (st_fs s1) (indexPath userID) (IndexFile idx'),
                 st_cache := (st_cache s1)(userID \<mapsto> \<lparr>ic_index = idx', ic_expiresAt = now + indexCacheTTL\<rparr>)\<rparr>,
              Inr ()))"

section \<open>Operations\<close>

definition GetSession :: "SStore \<Rightarrow> string \<Rightarrow> PSession sresult" where
  "GetSession s sessionKey =
     (case ParseSessionKey sessionKey of
        Inl e \<Rightarrow> Inl (BadKey e)
      | Inr (userID, _, sessionID) \<Rightarrow>
          (case st_fs s (metaPath userID sessionID) of
             None \<Rightarrow> Inl SessionNotFound
           | Some (MetaFile sess) \<Rightarrow> Inr sess
           | Some _ \<Rightarrow> Inl DecodeFailed))"

definition new_session :: "CreateSessionRequest \<Rightarrow> string \<Rightarrow> time \<Rightarrow> PSession" where
  "new_session req sessionID now =
     \<lparr>ps_Key = BuildSessionKey (sr_UserID req) (sr_ChannelType req) sessionID, ps_ID = sessionID,
      ps_UserID = sr_UserID req, ps_ChannelType = sr_ChannelType req, ps_Status = StatusActive,
      ps_Metadata = \<lparr>pm_Model = sr_Model req, pm_CompactionLevel = [], pm_CompactionCount = 0,
        pm_MessageCount = 0,
        pm_ContextUsage = \<lparr>cu_InputTokens = 0, cu_OutputTokens = 0, cu_CacheReadTokens = 0,
          cu_ContextWindow = 0, cu_UsagePercent = 0\<rparr>,
        pm_LastActivityAt = now, pm_ChannelMeta = sr_ChannelMeta req\<rparr>,
      ps_CreatedAt = now, ps_UpdatedAt = now\<rparr>"

text \<open>An existing transcript is left as it is (\<^verbatim>\<open>O_EXCL\<close> fails with \<^verbatim>\<open>EEXIST\<close>, which is ignored).\<close>

definition CreateSession :: "SStore \<Rightarrow> CreateSessionRequest \<Rightarrow> string \<Rightarrow> time \<Rightarrow> SStore \<times> PSession sresult" where
  "CreateSession s req fresh now =
     (if sr_UserID req = [] then (s, Inl MissingUserID)
      else let sessionID = (if sr_SessionID req = [] then fresh else sr_SessionID req);
               sess = new_session req sessionID now;
               f1 = atomicWriteJSON (st_fs s) (metaPath (sr_UserID req) sessionID) (MetaFile sess);
               tp = transcriptPath (sr_UserID req) sessionID;
               f2 = (if f1 tp = None then f1(tp \<mapsto> Lines []) else f1)
           in case upsertIndex (s\<lparr>st_fs := f2\<rparr>) (sr_UserID req) sess now of
                (s', Inl e) \<Rightarrow> (s', Inl e)
              | (s', Inr _) \<Rightarrow> (s', Inr sess))"

definition indexEntryToSession :: "sessionIndexEntry \<Rightarrow> PSession" where
  "indexEntryToSession e =
     \<lparr>ps_Key = ie_SessionKey e, ps_ID = ie_SessionID e, ps_UserID = [], ps_ChannelType = ie_ChannelType e,
      ps_Status = ie_Status e,
      ps_Metadata = \<lparr>pm_Model = ie_Model e, pm_CompactionLevel = [], pm_CompactionCount = 0,
        pm_MessageCount = ie_MessageCount e,
        pm_ContextUsage = \<lparr>cu_InputTokens = 0, cu_OutputTokens = 0, cu_CacheReadTokens = 0,
          cu_ContextWindow = 0, cu_UsagePercent = 0\<rparr>,
        pm_LastActivityAt = zero_time, pm_ChannelMeta = None\<rparr>,
      ps_CreatedAt = ie_CreatedAt e, ps_UpdatedAt = ie_UpdatedAt e\<rparr>"

definition ListSessions :: "SStore \<Rightarrow> string \<Rightarrow> time \<Rightarrow> SStore \<times> PSession list sresult" where
  "ListSessions s userID now =
     (case loadIndex s userID now of
        (s', Inl e) \<Rightarrow> (s', Inl e)
      | (s', Inr idx) \<Rightarrow> (s', Inr (map indexEntryToSession (ix_Sessions idx))))"

text \<open>
  Lines that do not decode are skipped. A line that with its line end does not fit the buffer
  (\<^verbatim>\<open>bufio.ErrTooLong\<close>) fails the whole reading.
\<close>

definition fits :: "stored_line list \<Rightarrow> bool" where
  "fits ls = list_all (\<lambda>l. sl_size l < max_line) ls"

definition line_values :: "stored_line list \<Rightarrow> TranscriptLine list" where
  "line_values ls = map as_decoded (List.map_filter sl_value ls)"

definition LoadTranscript :: "SStore \<Rightarrow> string \<Rightarrow> TranscriptLine list sresult" where
  "LoadTranscript s sessionKey =
     (case ParseSessionKey sessionKey of
        Inl e \<Rightarrow> Inl (BadKey e)
      | Inr (userID, _, sessionID) \<Rightarrow>
          (case st_fs s (transcriptPath userID sessionID) of
             None \<Rightarrow> Inl SessionNotFound
           | Some (Lines ls) \<Rightarrow> if fits ls then Inr (line_values ls) else Inl LineTooLong
           | Some _ \<Rightarrow> Inr []))"

definition append_line :: "content option \<Rightarrow> TranscriptLine \<Rightarrow> content" where
  "append_line c line = (case c of Some (Lines ls) \<Rightarrow> Lines (ls @ [stored line]) | _ \<Rightarrow> Lines [stored line])"

definition AppendTranscript :: "SStore \<Rightarrow> string \<Rightarrow> TranscriptLine \<Rightarrow> time \<Rightarrow> SStore \<times> unit sresult" where
  "AppendTranscript s sessionKey line now =
     (case ParseSessionKey sessionKey of
        Inl e \<Rightarrow> (s, Inl (BadKey e))
      | Inr (userID, _, sessionID) \<Rightarrow>
          let lp = lockPath userID sessionID; tp = transcriptPath userID sessionID in
          if lock_blocked (st_fs s) lp now then (s, Inl LockTimeout)
          else (s\<lparr>st_fs := (st_fs s)(tp \<mapsto> append_line (st_fs s tp) line, lp := None)\<rparr>, Inr ()))"

definition UpdateMeta :: "SStore \<Rightarrow> string \<Rightarrow> PSessionMetadata \<Rightarrow> time \<Rightarrow> SStore \<times> unit sresult" where
  "UpdateMeta s sessionKey meta now =
     (case ParseSessionKey sessionKey of
        Inl e \<Rightarrow> (s, Inl (BadKey e))
      | Inr (userID, _, sessionID) \<Rightarrow>
          (case st_fs s (metaPath userID sessionID) of
             None \<Rightarrow> (s, Inl SessionNotFound)
           | Some (MetaFile sess) \<Rightarrow>
               let sess' = sess\<lparr>ps_Metadata := meta, ps_UpdatedAt := now\<rparr>;
                   s1 = s\<lparr>st_fs := atomicWriteJSON (st_fs s) (metaPath userID sessionID) (MetaFile sess')\<rparr>
               in (fst (upsertIndex s1 userID sess' now), Inr ())
           | Some _ \<Rightarrow> (s, Inl DecodeFailed)))"

text \<open>\<open>ts\<close> is the formatted time stamp of the archive name.\<close>

definition archivePath :: "string \<Rightarrow> string \<Rightarrow> string \<Rightarrow> path" where
  "archivePath userID sessionID ts = (userID, ArchiveDir, sessionID @ ''-'' @ ts @ ''.jsonl'')"

definition ArchiveSession :: "SStore \<Rightarrow> string \<Rightarrow> string \<Rightarrow> time \<Rightarrow> SStore \<times> unit sresult" where
  "ArchiveSession s sessionKey ts now =
     (case ParseSessionKey sessionKey of
        Inl e \<Rightarrow> (s, Inl (BadKey e))
      | Inr (userID, _, sessionID) \<Rightarrow>
          let lp = lockPath userID sessionID; mp = metaPath userID sessionID in
          if lock_blocked (st_fs s) lp now then (s, Inl LockTimeout)
          else let f1 = (case rename (st_fs s) (transcriptPath userID sessionID) (archivePath userID sessionID ts) of
                           None \<Rightarrow> st_fs s | Some f \<Rightarrow> f);
                   s1 = s\<lparr>st_fs := f1\<rparr>;
                   s2 = (case f1 mp of
                           Some (MetaFile sess) \<Rightarrow>
                             let sess' = sess\<lparr>ps_Status := StatusArchived, ps_UpdatedAt := now\<rparr>
                             in fst (upsertIndex (s1\<lparr>st_fs := atomicWriteJSON f1 mp (MetaFile sess')\<rparr>) userID sess' now)
                         | _ \<Rightarrow> s1)
               in (s2\<lparr>st_fs := (st_fs s2)(lp := None)\<rparr>, Inr ()))"

definition ResetSession :: "SStore \<Rightarrow> string \<Rightarrow> string \<Rightarrow> string \<Rightarrow> time \<Rightarrow> SStore \<times> string sresult" where
  "ResetSession s sessionKey ts fresh now =
     (case ParseSessionKey sessionKey of
        Inl e \<Rightarrow> (s, Inl (BadKey e))
      | Inr (userID, chanType, _) \<Rightarrow>
          (case GetSession s sessionKey of
             Inl e \<Rightarrow>
               if e \<noteq> SessionNotFound then (s, Inl e)
               else (case ArchiveSession s sessionKey ts now of
                       (s1, Inl e') \<Rightarrow> (s1, Inl e')
                     | (s1, Inr _) \<Rightarrow>
                         (case CreateSession s1 \<lparr>sr_UserID = userID, sr_SessionID = [], sr_ChannelType = chanType,
                                                sr_Model = [], sr_ChannelMeta = None\<rparr> fresh now of
                            (s2, Inl e') \<Rightarrow> (s2, Inl e') | (s2, Inr sess) \<Rightarrow> (s2, Inr (ps_Key sess))))
           | Inr old \<Rightarrow>
               (case ArchiveSession s sessionKey ts now of
                  (s1, Inl e') \<Rightarrow> (s1, Inl e')
                | (s1, Inr _) \<Rightarrow>
                    (case CreateSession s1 \<lparr>sr_UserID = userID, sr_SessionID = [], sr_ChannelType = chanType,
                                           sr_Model = pm_Model (ps_Metadata old),
                                           sr_ChannelMeta = pm_ChannelMeta (ps_Metadata old)\<rparr> fresh now of
                       (s2, Inl e') \<Rightarrow> (s2, Inl e') | (s2, Inr sess) \<Rightarrow> (s2, Inr (ps_Key sess))))))"

section \<open>Compaction\<close>

record CompactionResult =
  co_OriginalLineCount :: nat
  co_ArchivedLineCount :: nat
  co_RemainingLineCount :: nat
  co_CompactionCount :: int
  co_Compacted :: bool

definition ShouldCompact :: "int \<Rightarrow> int \<Rightarrow> bool" where
  "ShouldCompact lineCount maxLines \<longleftrightarrow> maxLines < lineCount"

definition compactArchivePath :: "string \<Rightarrow> string \<Rightarrow> string \<Rightarrow> path" where
  "compactArchivePath userID sessionID ts = (userID, ArchiveDir, sessionID @ ''-compact-'' @ ts @ ''.jsonl'')"

text \<open>\<^verbatim>\<open>O_EXCL\<close>: an existing archive file is an error.\<close>

definition writeCompactionArchive ::
  "fs \<Rightarrow> string \<Rightarrow> string \<Rightarrow> TranscriptLine list \<Rightarrow> string \<Rightarrow> fs sresult" where
  "writeCompactionArchive f userID sessionID lines ts =
     (let p = compactArchivePath userID sessionID ts
      in if f p \<noteq> None then Inl ArchiveExists else Inr (f(p \<mapsto> Lines (map stored lines))))"

definition compactTmp :: "string \<Rightarrow> string \<Rightarrow> path" where
  "compactTmp userID sessionID = with_suffix (transcriptPath userID sessionID) ''.compact.tmp''"

text \<open>The rewrite in its two stages: the temporary file is written before the lock is taken.\<close>

definition rewrite_prepare :: "fs \<Rightarrow> string \<Rightarrow> string \<Rightarrow> TranscriptLine list \<Rightarrow> fs" where
  "rewrite_prepare f userID sessionID lines = f(compactTmp userID sessionID \<mapsto> Lines (map stored lines))"

definition rewrite_commit :: "fs \<Rightarrow> string \<Rightarrow> string \<Rightarrow> time \<Rightarrow> fs \<times> unit sresult" where
  "rewrite_commit f userID sessionID now =
     (let lp = lockPath userID sessionID; tmp = compactTmp userID sessionID in
      if lock_blocked f lp now then (f(tmp := None), Inl LockTimeout)
      else case rename f tmp (transcriptPath userID sessionID) of
             None \<Rightarrow> (f(tmp := None, lp := None), Inl SessionNotFound)
           | Some f' \<Rightarrow> (f'(lp := None), Inr ()))"

text \<open>What a compaction has read and decided before it writes: archive and rest.\<close>

definition compact_plan :: "SStore \<Rightarrow> string \<Rightarrow> nat \<Rightarrow> (TranscriptLine list \<times> TranscriptLine list) option sresult" where
  "compact_plan s sessionKey keepLines =
     (if keepLines < 1 then Inl KeepLinesTooSmall
      else case LoadTranscript s sessionKey of
             Inl e \<Rightarrow> Inl e
           | Inr lines \<Rightarrow>
               if length lines \<le> keepLines then Inr None
               else let splitAt = length lines - keepLines
                    in Inr (Some (take splitAt lines, drop splitAt lines)))"

text \<open>The last part: count the compaction in the metadata and report.\<close>

definition finish_compaction ::
  "SStore \<Rightarrow> string \<Rightarrow> nat \<Rightarrow> nat \<Rightarrow> time \<Rightarrow> SStore \<times> CompactionResult sresult" where
  "finish_compaction s sessionKey archived kept now =
     (case GetSession s sessionKey of
        Inl e \<Rightarrow> (s, Inl e)
      | Inr sess \<Rightarrow>
          let meta = (ps_Metadata sess)\<lparr>pm_CompactionCount := pm_CompactionCount (ps_Metadata sess) + 1,
                       pm_MessageCount := int kept\<rparr>
          in case UpdateMeta s sessionKey meta now of
               (s', Inl e) \<Rightarrow> (s', Inl e)
             | (s', Inr _) \<Rightarrow>
                 (s', Inr \<lparr>co_OriginalLineCount = archived + kept, co_ArchivedLineCount = archived,
                           co_RemainingLineCount = kept, co_CompactionCount = pm_CompactionCount meta,
                           co_Compacted = True\<rparr>))"

definition Compact ::
  "SStore \<Rightarrow> string \<Rightarrow> nat \<Rightarrow> string \<Rightarrow> time \<Rightarrow> SStore \<times> CompactionResult sresult" where
  "Compact s sessionKey keepLines ts now =
     (case compact_plan s sessionKey keepLines of
        Inl e \<Rightarrow> (s, Inl e)
      | Inr None \<Rightarrow>
          (case LoadTranscript s sessionKey of
             Inl e \<Rightarrow> (s, Inl e)
           | Inr lines \<Rightarrow>
               (s, Inr \<lparr>co_OriginalLineCount = length lines, co_ArchivedLineCount = 0,
                        co_RemainingLineCount = length lines, co_CompactionCount = 0, co_Compacted = False\<rparr>))
      | Inr (Some (toArchive, toKeep)) \<Rightarrow>
          (case ParseSessionKey sessionKey of
             Inl e \<Rightarrow> (s, Inl (BadKey e))
           | Inr (userID, _, sessionID) \<Rightarrow>
               (case writeCompactionArchive (st_fs s) userID sessionID toArchive ts of
                  Inl e \<Rightarrow> (s, Inl e)
                | Inr f1 \<Rightarrow>
                    (case rewrite_commit (rewrite_prepare f1 userID sessionID toKeep) userID sessionID now of
                       (f2, Inl e) \<Rightarrow> (s\<lparr>st_fs := f2\<rparr>, Inl e)
                     | (f2, Inr _) \<Rightarrow>
                         finish_compaction (s\<lparr>st_fs := f2\<rparr>) sessionKey (length toArchive) (length toKeep) now))))"

section \<open>Paths\<close>

lemma names_differ: "x \<noteq> [] \<Longrightarrow> y \<noteq> [] \<Longrightarrow> last x \<noteq> last y \<Longrightarrow> a @ x \<noteq> b @ y"
  by (metis last_appendR)

lemma meta_not_index: "x @ ''.meta.json'' \<noteq> ''sessions.json''"
proof
  assume "x @ ''.meta.json'' = ''sessions.json''"
  then have "rev (x @ ''.meta.json'') = rev ''sessions.json''" by (rule arg_cong)
  then show False by simp
qed

lemma same_kind [simp]:
  "transcriptPath u s = transcriptPath u' s' \<longleftrightarrow> u = u' \<and> s = s'"
  "metaPath u s = metaPath u' s' \<longleftrightarrow> u = u' \<and> s = s'"
  "lockPath u s = lockPath u' s' \<longleftrightarrow> u = u' \<and> s = s'"
  "compactTmp u s = compactTmp u' s' \<longleftrightarrow> u = u' \<and> s = s'"
  by (auto simp: transcriptPath_def metaPath_def lockPath_def compactTmp_def)

lemma transcript_lock: "transcriptPath u s \<noteq> lockPath u' s'"
  by (simp add: transcriptPath_def lockPath_def names_differ)

lemma transcript_meta: "transcriptPath u s \<noteq> metaPath u' s'"
  by (simp add: transcriptPath_def metaPath_def names_differ)

lemma transcript_index: "transcriptPath u s \<noteq> indexPath u'"
  using names_differ [of "''.jsonl''" "''sessions.json''" s "[]"] by (auto simp: transcriptPath_def indexPath_def)

lemma lock_meta: "lockPath u s \<noteq> metaPath u' s'"
  by (simp add: lockPath_def metaPath_def names_differ)

lemma lock_index: "lockPath u s \<noteq> indexPath u'"
  using names_differ [of "''.jsonl.lock''" "''sessions.json''" s "[]"] by (auto simp: lockPath_def indexPath_def)

lemma meta_index: "metaPath u s \<noteq> indexPath u'"
  using meta_not_index by (simp add: metaPath_def indexPath_def)

lemma temp_files:
  "with_suffix p ''.tmp'' \<noteq> transcriptPath u s" "with_suffix p ''.tmp'' \<noteq> metaPath u s"
  "with_suffix p ''.tmp'' \<noteq> lockPath u s" "with_suffix p ''.tmp'' \<noteq> indexPath u" "with_suffix p ''.tmp'' \<noteq> p"
  "compactTmp u s \<noteq> transcriptPath u' s'" "compactTmp u s \<noteq> lockPath u' s'" "compactTmp u s \<noteq> metaPath u' s'"
  using names_differ [of "''.tmp''" "''sessions.json''" _ "[]"]
  by (cases p; auto simp: transcriptPath_def metaPath_def lockPath_def indexPath_def compactTmp_def names_differ)+

lemma archive_paths:
  "fst (snd (archivePath u s ts)) = ArchiveDir" "fst (snd (compactArchivePath u s ts)) = ArchiveDir"
  "fst (snd (transcriptPath u s)) = SessionsDir" "fst (snd (metaPath u s)) = SessionsDir"
  "fst (snd (lockPath u s)) = SessionsDir" "fst (snd (indexPath u)) = SessionsDir"
  "fst (snd (compactTmp u s)) = SessionsDir" "fst (snd (with_suffix p x)) = fst (snd p)"
  by (cases p; simp add: archivePath_def compactArchivePath_def transcriptPath_def metaPath_def lockPath_def
      indexPath_def compactTmp_def)+

lemma archive_apart:
  "archivePath u s ts \<noteq> transcriptPath u' s'" "archivePath u s ts \<noteq> metaPath u' s'"
  "archivePath u s ts \<noteq> lockPath u' s'" "archivePath u s ts \<noteq> indexPath u'"
  "compactArchivePath u s ts \<noteq> transcriptPath u' s'" "compactArchivePath u s ts \<noteq> metaPath u' s'"
  "compactArchivePath u s ts \<noteq> lockPath u' s'" "compactArchivePath u s ts \<noteq> indexPath u'"
  "compactArchivePath u s ts \<noteq> compactTmp u' s'"
  "archivePath u s ts \<noteq> with_suffix (metaPath u' s') x" "archivePath u s ts \<noteq> with_suffix (indexPath u') x"
  "compactArchivePath u s ts \<noteq> with_suffix (metaPath u' s') x"
  "compactArchivePath u s ts \<noteq> with_suffix (indexPath u') x"
  by (metis archive_paths dir.distinct(1))+

lemmas paths_apart [simp] = transcript_lock transcript_meta transcript_index lock_meta lock_index meta_index
  temp_files archive_apart
  transcript_lock [symmetric] transcript_meta [symmetric] transcript_index [symmetric]
  lock_meta [symmetric] lock_index [symmetric] meta_index [symmetric]
  temp_files [symmetric] archive_apart [symmetric]

lemma atomicWriteJSON_apply [simp]:
  "atomicWriteJSON f p c q =
     (if q = p then Some c else if q = with_suffix p ''.tmp'' then None else f q)"
  by (simp add: atomicWriteJSON_def rename_def Let_def)

lemma refresh_fs [simp]: "st_fs (fst (refreshIndexCache s u now)) = st_fs s"
  by (auto simp: refreshIndexCache_def split: option.split content.split)

lemma upsert_fs:
  assumes "q \<noteq> indexPath u" "q \<noteq> with_suffix (indexPath u) ''.tmp''"
  shows "st_fs (fst (upsertIndex s u sess now)) q = st_fs s q"
proof -
  let ?s = "s\<lparr>st_cache := (st_cache s)(u := None)\<rparr>"
  obtain s1 r where r: "refreshIndexCache ?s u now = (s1, r)" by force
  then have "st_fs s1 = st_fs s" using refresh_fs [of ?s u now] by simp
  with r assms show ?thesis by (auto simp: upsertIndex_def Let_def split: sum.split)
qed

lemma UpdateMeta_fs:
  assumes "ParseSessionKey k = Inr (u, c, sid)"
    and "q \<notin> {metaPath u sid, with_suffix (metaPath u sid) ''.tmp'', indexPath u, with_suffix (indexPath u) ''.tmp''}"
  shows "st_fs (fst (UpdateMeta s k m now)) q = st_fs s q"
  using assms by (auto simp: UpdateMeta_def Let_def upsert_fs split: option.split content.split)

lemma finish_fs:
  assumes "ParseSessionKey k = Inr (u, c, sid)"
    and "q \<notin> {metaPath u sid, with_suffix (metaPath u sid) ''.tmp'', indexPath u, with_suffix (indexPath u) ''.tmp''}"
  shows "st_fs (fst (finish_compaction s k a r now)) q = st_fs s q"
proof (cases "GetSession s k")
  case (Inl e)
  then show ?thesis by (simp add: finish_compaction_def)
next
  case (Inr sess)
  let ?m = "(ps_Metadata sess)\<lparr>pm_CompactionCount := pm_CompactionCount (ps_Metadata sess) + 1, pm_MessageCount := int r\<rparr>"
  obtain s1 res where "UpdateMeta s k ?m now = (s1, res)" by force
  with UpdateMeta_fs [OF assms, of s ?m now] Inr show ?thesis
    by (cases res) (simp_all add: finish_compaction_def)
qed

lemma finish_result:
  "finish_compaction s k a r now = (s', Inr res) \<Longrightarrow> co_RemainingLineCount res = r \<and> co_Compacted res"
  by (auto simp: finish_compaction_def split: sum.splits prod.splits)

lemma commit_result:
  assumes "rewrite_commit (rewrite_prepare f u sid ls) u sid now = (f', Inr ())"
  shows "f' (transcriptPath u sid) = Some (Lines (map stored ls))" "f' (compactArchivePath u sid' ts) = f (compactArchivePath u sid' ts)"
  using assms by (auto simp: rewrite_commit_def rewrite_prepare_def rename_def Let_def split: if_splits)

section \<open>Lines as they are written and read\<close>

lemma as_decoded_idem [simp]: "as_decoded (as_decoded l) = as_decoded l"
  by (simp add: as_decoded_def)

text \<open>A line of valid text is read as it was written.\<close>

lemma as_decoded_valid:
  "valid_text (tl_Role l) \<Longrightarrow> valid_text (tl_Content l) \<Longrightarrow> valid_text (tl_RunID l) \<Longrightarrow> as_decoded l = l"
  by (simp add: as_decoded_def json_decoded_valid)

lemma line_values_simps [simp]:
  "line_values [] = []" "line_values (xs @ ys) = line_values xs @ line_values ys"
  "line_values (map stored ls) = map as_decoded ls"
  "map as_decoded (line_values xs) = line_values xs"
  "map as_decoded (take n (line_values xs)) = take n (line_values xs)"
  "map as_decoded (drop n (line_values xs)) = drop n (line_values xs)"
  by (simp_all add: line_values_def map_filter_def stored_def comp_def filter_map take_map drop_map)

lemma line_values_single [simp]: "line_values [stored l] = [as_decoded l]"
  using line_values_simps(3) [of "[l]"] by simp

lemma line_values_length: "length (line_values xs) \<le> length xs"
  by (simp add: line_values_def map_filter_def)

lemma line_values_undecodable:
  assumes "x \<in> set xs" "sl_value x = None"
  shows "length (line_values xs) < length xs"
proof -
  have "length (filter (\<lambda>l. sl_value l \<noteq> None) xs) < length xs" using assms by (intro length_filter_less) auto
  then show ?thesis by (simp add: line_values_def map_filter_def comp_def)
qed

lemma fits_simps [simp]: "fits []" "fits (xs @ ys) \<longleftrightarrow> fits xs \<and> fits ys" "fits [stored l] \<longleftrightarrow> line_size l < max_line"
  by (simp_all add: fits_def stored_def)

text \<open>Writing what was read needs no more room, and a line of ordinary length fits.\<close>

lemma line_size_decoded: "line_size (as_decoded l) \<le> line_size l"
proof -
  have "tl_RunID l = [] \<Longrightarrow> json_decoded (tl_RunID l) = []" by simp
  then show ?thesis
    using json_string_decoded [of "tl_Role l"] json_string_decoded [of "tl_Content l"] json_string_decoded [of "tl_RunID l"]
    by (auto simp: line_size_def as_decoded_def)
qed

lemma fits_rewritten: "fits (map stored ls) \<Longrightarrow> fits (map stored (map as_decoded ls))"
  using line_size_decoded by (auto simp: fits_def stored_def list_all_iff intro: le_less_trans)

lemma Load_Lines: "ParseSessionKey k = Inr (u, c, sid) \<Longrightarrow> st_fs s (transcriptPath u sid) = Some (Lines xs)
    \<Longrightarrow> LoadTranscript s k = (if fits xs then Inr (line_values xs) else Inl LineTooLong)"
  by (simp add: LoadTranscript_def)

section \<open>Properties\<close>

text \<open>
  C20: an appended line is read back at the end of its transcript. After a successful append,
  loading gives the previous lines (none when there was no transcript) and then the line, with
  its invalid bytes replaced, so unchanged when its texts are valid UTF-8. Only a line of 10 MiB or
  more, in the file before or the new one, changes that: then nothing of the transcript can be loaded.
  Every transcript of another session id or user and every session descriptor is unchanged, and
  the lock is free.
\<close>

theorem append_then_load:
  assumes "ParseSessionKey k = Inr (u, c, sid)" and "AppendTranscript s k line now = (s', Inr ())"
  shows "LoadTranscript s' k =
      (if LoadTranscript s k = Inl LineTooLong \<or> max_line \<le> line_size line then Inl LineTooLong
       else Inr ((case LoadTranscript s k of Inl _ \<Rightarrow> [] | Inr ls \<Rightarrow> ls) @ [as_decoded line]))
    \<and> (valid_text (tl_Role line) \<and> valid_text (tl_Content line) \<and> valid_text (tl_RunID line) \<longrightarrow> as_decoded line = line)
    \<and> (ParseSessionKey k' = Inr (u', c', sid') \<and> (u', sid') \<noteq> (u, sid) \<longrightarrow> LoadTranscript s' k' = LoadTranscript s k')
    \<and> GetSession s' k' = GetSession s k' \<and> st_fs s' (lockPath u sid) = None"
proof -
  have s': "st_fs s' = (st_fs s)(transcriptPath u sid \<mapsto> append_line (st_fs s (transcriptPath u sid)) line,
      lockPath u sid := None)"
    using assms by (auto simp: AppendTranscript_def Let_def split: if_splits)
  have "LoadTranscript s' k =
      (if LoadTranscript s k = Inl LineTooLong \<or> max_line \<le> line_size line then Inl LineTooLong
       else Inr ((case LoadTranscript s k of Inl _ \<Rightarrow> [] | Inr ls \<Rightarrow> ls) @ [as_decoded line]))"
    using assms(1) by (auto simp: LoadTranscript_def s' append_line_def split: option.split content.split)
  moreover have "GetSession s' k' = GetSession s k'"
    by (simp add: GetSession_def s' split: sum.split)
  moreover have "ParseSessionKey k' = Inr (u', c', sid') \<Longrightarrow> (u', sid') \<noteq> (u, sid)
      \<Longrightarrow> LoadTranscript s' k' = LoadTranscript s k'"
    by (auto simp: LoadTranscript_def s')
  ultimately show ?thesis by (simp add: s' as_decoded_valid)
qed

definition demo_key :: string where "demo_key = BuildSessionKey ''u'' ''slack'' ''s''"

lemma demo_key_parts: "ParseSessionKey (BuildSessionKey ''u'' ''slack'' ''s'') = Inr (''u'', ''slack'', ''s'')"
  "ParseSessionKey demo_key = Inr (''u'', ''slack'', ''s'')"
  by (simp_all add: Parse_Build key_part_def demo_key_def)

definition demo_line :: "string \<Rightarrow> TranscriptLine" where
  "demo_line t = \<lparr>tl_Role = ''user'', tl_Content = t, tl_Timestamp = 1, tl_RunID = [], tl_TokenCount = 0\<rparr>"

text \<open>A line of a few kilobytes of ASCII is far from the limit.\<close>

lemma demo_line_stored:
  assumes "\<forall>c \<in> set t. of_char c < (128 :: nat)" and "length t < 1000"
  shows "as_decoded (demo_line t) = demo_line t" and "line_size (demo_line t) < max_line"
proof -
  have "valid_text ''user''" "valid_text []" by (intro valid_ascii; simp)+
  with assms(1) show "as_decoded (demo_line t) = demo_line t"
    by (intro as_decoded_valid) (simp_all add: demo_line_def valid_ascii)
  note n = frac_text_length [of "nat (1 mod Second)"]
  have "length (json_string ''user'') \<le> 26" "length (json_string ''role'') \<le> 26" "length (json_string ''content'') \<le> 44"
    "length (json_string ''timestamp'') \<le> 56"
    using json_string_length [of "''user''"] json_string_length [of "''role''"] json_string_length [of "''content''"]
      json_string_length [of "''timestamp''"] by simp_all
  then show "line_size (demo_line t) < max_line"
    using json_string_length [of t] assms(2) n by (simp add: line_size_def demo_line_def max_line_def)
qed

lemma lock_free_New: "lock_blocked (st_fs NewStore) p now = False"
  by (simp add: lock_blocked_def NewStore_def)

theorem append_then_load_witness:
  "LoadTranscript (fst (AppendTranscript NewStore demo_key (demo_line ''hi'') 5)) demo_key = Inr [demo_line ''hi'']"
proof -
  have a: "AppendTranscript NewStore demo_key (demo_line ''hi'') 5
      = (fst (AppendTranscript NewStore demo_key (demo_line ''hi'') 5), Inr ())"
    by (simp add: AppendTranscript_def demo_key_parts lock_free_New Let_def)
  have "LoadTranscript NewStore demo_key = Inl SessionNotFound"
    by (simp add: LoadTranscript_def demo_key_parts NewStore_def)
  with append_then_load [OF demo_key_parts(2) a] demo_line_stored [of "''hi''"] show ?thesis by simp
qed

text \<open>
  Nothing keeps such a line out: the append reports success, and from then on neither the
  conversation nor a compaction can read the transcript.
\<close>

lemma long_line_blocks_transcript:
  assumes "ParseSessionKey k = Inr (u, c, sid)" and "\<not> lock_blocked (st_fs s) (lockPath u sid) now"
    and "max_line \<le> line_size line" and "1 \<le> keep"
  shows "\<exists>s'. AppendTranscript s k line now = (s', Inr ()) \<and> LoadTranscript s' k = Inl LineTooLong
    \<and> Compact s' k keep ts now' = (s', Inl LineTooLong)"
proof -
  let ?s = "s\<lparr>st_fs := (st_fs s)(transcriptPath u sid \<mapsto> append_line (st_fs s (transcriptPath u sid)) line,
      lockPath u sid := None)\<rparr>"
  have "LoadTranscript ?s k = Inl LineTooLong"
    using assms(1,3) by (simp add: LoadTranscript_def append_line_def split: option.split content.split)
  then show ?thesis
    using assms by (intro exI [of _ ?s]) (simp add: AppendTranscript_def Compact_def compact_plan_def Let_def)
qed

text \<open>
  C21: compaction on its own loses no line that decodes. When a compaction reports success, the older
  of the decodable lines stand in a new archive file, the transcript holds exactly the \<open>keepLines\<close> most
  recent ones, and archive and transcript together are the decodable lines there were before, in
  order; when the store wrote the transcript, its lines can be loaded again. (A line that does not
  decode ends in neither file, see below.)
\<close>

theorem compact_preserves_lines:
  assumes "ParseSessionKey k = Inr (u, c, sid)" and "st_fs s (transcriptPath u sid) = Some (Lines xs)"
    and "Compact s k keep ts now = (s', Inr res)" and "co_Compacted res"
  shows "\<exists>older recent. line_values xs = older @ recent \<and> length recent = keep
    \<and> st_fs s (compactArchivePath u sid ts) = None
    \<and> st_fs s' (compactArchivePath u sid ts) = Some (Lines (map stored older))
    \<and> st_fs s' (transcriptPath u sid) = Some (Lines (map stored recent)) \<and> co_RemainingLineCount res = keep
    \<and> ((\<exists>ls. xs = map stored ls) \<longrightarrow> LoadTranscript s' k = Inr recent)"
proof -
  let ?ls = "line_values xs"
  let ?n = "length ?ls - keep"
  have load: "LoadTranscript s k = (if fits xs then Inr ?ls else Inl LineTooLong)"
    using Load_Lines [OF assms(1,2)] .
  have plan: "compact_plan s k keep = Inr (Some (take ?n ?ls, drop ?n ?ls))" and keep: "1 \<le> keep" "keep < length ?ls"
    and short: "fits xs"
    using assms(3,4) load by (auto simp: Compact_def compact_plan_def Let_def split: if_splits)
  let ?f1 = "(st_fs s)(compactArchivePath u sid ts \<mapsto> Lines (map stored (take ?n ?ls)))"
  have w: "writeCompactionArchive (st_fs s) u sid (take ?n ?ls) ts = Inr ?f1"
    and fresh: "st_fs s (compactArchivePath u sid ts) = None"
    using assms(1,3) plan by (auto simp: Compact_def writeCompactionArchive_def Let_def split: if_splits)
  obtain f2 r where rc: "rewrite_commit (rewrite_prepare ?f1 u sid (drop ?n ?ls)) u sid now = (f2, r)" by force
  with assms(1,3) plan w have r: "r = Inr ()" by (cases r) (simp_all add: Compact_def)
  from assms(1,3) plan w rc r
  have fin: "finish_compaction (s\<lparr>st_fs := f2\<rparr>) k (length (take ?n ?ls)) (length (drop ?n ?ls)) now = (s', Inr res)"
    by (simp add: Compact_def)
  note f2 = commit_result [OF rc [unfolded r]]
  have fs': "st_fs s' q = f2 q" if "q \<notin> {metaPath u sid, with_suffix (metaPath u sid) ''.tmp'',
      indexPath u, with_suffix (indexPath u) ''.tmp''}" for q
    using finish_fs [OF assms(1) that, of "s\<lparr>st_fs := f2\<rparr>" "length (take ?n ?ls)" "length (drop ?n ?ls)" now]
    unfolding fin by simp
  have tr: "st_fs s' (transcriptPath u sid) = Some (Lines (map stored (drop ?n ?ls)))"
    using fs' [of "transcriptPath u sid"] f2(1) by simp
  moreover have "st_fs s' (compactArchivePath u sid ts) = Some (Lines (map stored (take ?n ?ls)))"
    using fs' [of "compactArchivePath u sid ts"] f2(2) by simp
  moreover have "LoadTranscript s' k = Inr (drop ?n ?ls)" if "\<exists>ls. xs = map stored ls"
  proof -
    have "fits (map stored ?ls)" using that short fits_rewritten by auto
    then have "fits (map stored (drop ?n ?ls))" by (auto simp: fits_def list_all_iff dest: in_set_dropD)
    then show ?thesis using Load_Lines [OF assms(1) tr] by simp
  qed
  ultimately show ?thesis
    using fresh keep finish_result [OF fin]
    by (intro exI [of _ "take ?n ?ls"] exI [of _ "drop ?n ?ls"]) simp
qed

text \<open>Lines that do not decode are in neither file afterwards: fewer lines are left than there were.\<close>

lemma compaction_drops_undecodable:
  assumes "line_values xs = older @ recent" and "x \<in> set xs" and "sl_value x = None"
  shows "length (map stored older) + length (map stored recent) < length xs"
    and "x \<notin> set (map stored older) \<union> set (map stored recent)"
proof -
  have "length (line_values xs) < length xs" by (rule line_values_undecodable [OF assms(2,3)])
  then show "length (map stored older) + length (map stored recent) < length xs" by (simp add: assms(1))
  show "x \<notin> set (map stored older) \<union> set (map stored recent)" using assms(3) by (auto simp: stored_def)
qed

definition demo_chat :: SStore where
  "demo_chat = (let sess = new_session \<lparr>sr_UserID = ''u'', sr_SessionID = ''s'', sr_ChannelType = ''slack'',
       sr_Model = [], sr_ChannelMeta = None\<rparr> ''s'' 1
     in \<lparr>st_fs = [metaPath ''u'' ''s'' \<mapsto> MetaFile sess,
                  transcriptPath ''u'' ''s'' \<mapsto> Lines [stored (demo_line ''a''), stored (demo_line ''b'')]],
         st_cache = Map.empty\<rparr>)"

lemma demo_chat_files:
  "st_fs demo_chat (transcriptPath ''u'' ''s'') = Some (Lines [stored (demo_line ''a''), stored (demo_line ''b'')])"
  "st_fs demo_chat (lockPath ''u'' ''s'') = None" "st_fs demo_chat (indexPath ''u'') = None"
  "st_fs demo_chat (compactArchivePath ''u'' ''s'' t) = None"
  "\<exists>sess. st_fs demo_chat (metaPath ''u'' ''s'') = Some (MetaFile sess)"
  by (simp_all add: demo_chat_def Let_def)

lemma demo_chat_load: "LoadTranscript demo_chat demo_key = Inr [demo_line ''a'', demo_line ''b'']"
  using demo_line_stored [of "''a''"] demo_line_stored [of "''b''"]
    Load_Lines [OF demo_key_parts(2) demo_chat_files(1)] line_values_simps(3) [of "[demo_line ''a'', demo_line ''b'']"]
    fits_simps(2) [of "[stored (demo_line ''a'')]" "[stored (demo_line ''b'')]"] by simp

theorem compact_preserves_lines_witness:
  "\<exists>s' res. Compact demo_chat demo_key 1 ''t'' 9 = (s', Inr res) \<and> LoadTranscript s' demo_key = Inr [demo_line ''b'']
     \<and> st_fs s' (compactArchivePath ''u'' ''s'' ''t'') = Some (Lines [stored (demo_line ''a'')])"
proof -
  obtain sess where m: "st_fs demo_chat (metaPath ''u'' ''s'') = Some (MetaFile sess)" using demo_chat_files(5) by blast
  obtain s' res where c: "Compact demo_chat demo_key 1 ''t'' 9 = (s', Inr res)" "co_Compacted res"
    by (simp add: Compact_def compact_plan_def demo_chat_load demo_key_parts writeCompactionArchive_def demo_chat_files
        rewrite_commit_def rewrite_prepare_def lock_blocked_def rename_def finish_compaction_def GetSession_def m
        UpdateMeta_def Let_def)
  have v: "line_values [stored (demo_line ''a''), stored (demo_line ''b'')] = [demo_line ''a'', demo_line ''b'']"
    using line_values_simps(3) [of "[demo_line ''a'', demo_line ''b'']"] by (simp add: demo_line_stored(1))
  from compact_preserves_lines [OF demo_key_parts(2) demo_chat_files(1) c, unfolded v]
  obtain older recent where p: "[demo_line ''a'', demo_line ''b''] = older @ recent" "length recent = 1"
    and f: "st_fs s' (compactArchivePath ''u'' ''s'' ''t'') = Some (Lines (map stored older))"
      "(\<exists>ls. [stored (demo_line ''a''), stored (demo_line ''b'')] = map stored ls) \<longrightarrow> LoadTranscript s' demo_key = Inr recent"
    by (elim exE conjE) (rule that; assumption)
  have "\<exists>ls. [stored (demo_line ''a''), stored (demo_line ''b'')] = map stored ls"
    by (rule exI [of _ "[demo_line ''a'', demo_line ''b'']"]) simp
  with f(2) have l: "LoadTranscript s' demo_key = Inr recent" by (rule mp)
  from p have "older = [demo_line ''a'']" "recent = [demo_line ''b'']"
    by (auto simp: length_Suc_conv append_eq_Cons_conv Cons_eq_append_conv)
  with f(1) l c(1) show ?thesis by (intro exI [of _ s'] exI [of _ res]) simp
qed

text \<open>
  A compaction that runs next to an append can lose the appended line. The lines to keep
  are read and written to the temporary file before the lock is taken; a line appended
  between that reading and the renaming, although acknowledged, is in neither the transcript
  nor the archive afterwards.
\<close>

theorem compaction_race_loses_line:
  assumes k: "ParseSessionKey k = Inr (u, c, sid)"
    and plan: "compact_plan s k keep = Inr (Some (toArchive, toKeep))"
    and arch: "writeCompactionArchive (st_fs s) u sid toArchive ts = Inr f1"
    and app: "AppendTranscript (s\<lparr>st_fs := rewrite_prepare f1 u sid toKeep\<rparr>) k line now = (s1, Inr ())"
    and "as_decoded line \<notin> set toArchive" and "as_decoded line \<notin> set toKeep"
  shows "\<exists>f2. rewrite_commit (st_fs s1) u sid now' = (f2, Inr ())
    \<and> f2 (transcriptPath u sid) = Some (Lines (map stored toKeep)) \<and> stored line \<notin> set (map stored toKeep)
    \<and> f2 (compactArchivePath u sid ts) = Some (Lines (map stored toArchive)) \<and> stored line \<notin> set (map stored toArchive)"
proof -
  let ?f = "rewrite_prepare f1 u sid toKeep"
  have s1: "st_fs s1 = ?f(transcriptPath u sid \<mapsto> append_line (?f (transcriptPath u sid)) line, lockPath u sid := None)"
    using app k by (auto simp: AppendTranscript_def Let_def split: if_splits)
  have f1: "f1 (compactArchivePath u sid ts) = Some (Lines (map stored toArchive))"
    using arch by (auto simp: writeCompactionArchive_def Let_def split: if_splits)
  have dec: "map as_decoded toKeep = toKeep" "map as_decoded toArchive = toArchive"
    using plan by (auto simp: compact_plan_def LoadTranscript_def Let_def split: if_splits sum.splits option.splits content.splits)
  have out: "stored line \<notin> set (map stored ls)" if "map as_decoded ls = ls" "as_decoded line \<notin> set ls" for ls
  proof
    assume "stored line \<in> set (map stored ls)"
    then obtain l where "l \<in> set ls" "as_decoded l = as_decoded line" by (auto simp: stored_def)
    then have "as_decoded line \<in> set (map as_decoded ls)" by (metis imageI list.set_map)
    with that show False by simp
  qed
  have "rewrite_commit (st_fs s1) u sid now' =
      ((((st_fs s1)(compactTmp u sid := None))(transcriptPath u sid \<mapsto> Lines (map stored toKeep)))(lockPath u sid := None), Inr ())"
    by (simp add: rewrite_commit_def lock_blocked_def s1 rewrite_prepare_def rename_def Let_def)
  then show ?thesis
    using out [OF dec(1) assms(6)] out [OF dec(2) assms(5)] by (simp add: s1 rewrite_prepare_def f1)
qed

theorem compaction_race_loses_line_witness:
  "\<exists>s1 f2. AppendTranscript (demo_chat\<lparr>st_fs := rewrite_prepare
        ((st_fs demo_chat)(compactArchivePath ''u'' ''s'' ''t'' \<mapsto> Lines [stored (demo_line ''a'')])) ''u'' ''s'' [demo_line ''b'']\<rparr>)
      demo_key (demo_line ''new'') 7 = (s1, Inr ())
    \<and> rewrite_commit (st_fs s1) ''u'' ''s'' 8 = (f2, Inr ())
    \<and> f2 (transcriptPath ''u'' ''s'') = Some (Lines [stored (demo_line ''b'')])"
proof -
  let ?f1 = "(st_fs demo_chat)(compactArchivePath ''u'' ''s'' ''t'' \<mapsto> Lines [stored (demo_line ''a'')])"
  have plan: "compact_plan demo_chat demo_key 1 = Inr (Some ([demo_line ''a''], [demo_line ''b'']))"
    by (simp add: compact_plan_def demo_chat_load)
  have arch: "writeCompactionArchive (st_fs demo_chat) ''u'' ''s'' [demo_line ''a''] ''t'' = Inr ?f1"
    by (simp add: writeCompactionArchive_def demo_chat_files)
  obtain s1 where app: "AppendTranscript (demo_chat\<lparr>st_fs := rewrite_prepare ?f1 ''u'' ''s'' [demo_line ''b'']\<rparr>)
      demo_key (demo_line ''new'') 7 = (s1, Inr ())"
    by (simp add: AppendTranscript_def demo_key_parts lock_blocked_def rewrite_prepare_def demo_chat_files)
  have "as_decoded (demo_line ''new'') = demo_line ''new''" by (rule demo_line_stored) simp_all
  then have "as_decoded (demo_line ''new'') \<notin> set [demo_line ''a'']" "as_decoded (demo_line ''new'') \<notin> set [demo_line ''b'']"
    by (simp_all add: demo_line_def)
  from compaction_race_loses_line [OF demo_key_parts(2) plan arch app this, of 8] app show ?thesis by auto
qed

text \<open>
  The channel is not part of the file names. Two session keys of a user that differ only
  in the channel name the same transcript and the same descriptor: what is appended under
  one is read under the other.
\<close>

theorem channels_share_transcripts:
  assumes "key_part u" and "key_part c1" and "key_part c2" and "sid \<noteq> []"
    and "AppendTranscript s (BuildSessionKey u c1 sid) line now = (s', Inr ())"
  shows "LoadTranscript s' (BuildSessionKey u c2 sid) = LoadTranscript s' (BuildSessionKey u c1 sid)
    \<and> (LoadTranscript s' (BuildSessionKey u c2 sid) = Inl LineTooLong
       \<or> (\<exists>ls. LoadTranscript s' (BuildSessionKey u c2 sid) = Inr (ls @ [as_decoded line])))
    \<and> GetSession s' (BuildSessionKey u c2 sid) = GetSession s' (BuildSessionKey u c1 sid)"
proof -
  have k1: "ParseSessionKey (BuildSessionKey u c1 sid) = Inr (u, c1, sid)"
    and k2: "ParseSessionKey (BuildSessionKey u c2 sid) = Inr (u, c2, sid)"
    using assms(1-4) by (simp_all add: Parse_Build)
  have "st_fs s' (transcriptPath u sid) = Some (append_line (st_fs s (transcriptPath u sid)) line)"
    using assms(5) k1 by (auto simp: AppendTranscript_def Let_def split: if_splits)
  then show ?thesis
    by (auto simp: LoadTranscript_def GetSession_def k1 k2 append_line_def split: option.split content.split)
qed

theorem channels_share_transcripts_witness:
  "\<exists>s'. AppendTranscript demo_chat (BuildSessionKey ''u'' ''slack'' ''s'') (demo_line ''x'') 7 = (s', Inr ())
     \<and> LoadTranscript s' (BuildSessionKey ''u'' ''mqtt'' ''s'') = LoadTranscript s' (BuildSessionKey ''u'' ''slack'' ''s'')"
proof -
  have "AppendTranscript demo_chat (BuildSessionKey ''u'' ''slack'' ''s'') (demo_line ''x'') 7
      = (fst (AppendTranscript demo_chat (BuildSessionKey ''u'' ''slack'' ''s'') (demo_line ''x'') 7), Inr ())"
    by (simp add: AppendTranscript_def demo_key_parts lock_blocked_def demo_chat_files Let_def)
  from this channels_share_transcripts [OF _ _ _ _ this, of "''mqtt''"] show ?thesis
    by (intro exI [of _ "fst (AppendTranscript demo_chat (BuildSessionKey ''u'' ''slack'' ''s'') (demo_line ''x'') 7)"])
      (simp add: key_part_def)
qed

section \<open>Creating, listing and resetting\<close>

lemma upsert_ids:
  "map ie_SessionID (upsert_entry e es) =
     (if ie_SessionID e \<in> ie_SessionID ` set es then map ie_SessionID es else map ie_SessionID es @ [ie_SessionID e])"
  by (induction es) auto

lemma upsert_mem: "e \<in> set (upsert_entry e es)"
  by (induction es) auto

lemma upsert_result:
  assumes "upsertIndex s u sess now = (s', Inr ())"
  shows "\<exists>idx. st_cache s' u = Some \<lparr>ic_index = idx, ic_expiresAt = now + indexCacheTTL\<rparr>
    \<and> st_fs s' (indexPath u) = Some (IndexFile idx)
    \<and> (\<exists>old. ix_Sessions idx = upsert_entry (sessionToIndexEntry sess) old
        \<and> (st_fs s (indexPath u) = None \<and> old = [] \<or> (\<exists>i. st_fs s (indexPath u) = Some (IndexFile i) \<and> old = ix_Sessions i)))"
  using assms
  by (auto simp: upsertIndex_def refreshIndexCache_def emptyIndex_def Let_def split: option.splits content.splits)

definition create_fs :: "SStore \<Rightarrow> string \<Rightarrow> PSession \<Rightarrow> fs" where
  "create_fs s u sess =
     (let f1 = atomicWriteJSON (st_fs s) (metaPath u (ps_ID sess)) (MetaFile sess);
          tp = transcriptPath u (ps_ID sess)
      in if f1 tp = None then f1(tp \<mapsto> Lines []) else f1)"

lemma Create_step:
  assumes "CreateSession s req fresh now = (s', Inr sess)"
  shows "upsertIndex (s\<lparr>st_fs := create_fs s (sr_UserID req) sess\<rparr>) (sr_UserID req) sess now = (s', Inr ())
    \<and> sr_UserID req \<noteq> [] \<and> ps_ID sess = (if sr_SessionID req = [] then fresh else sr_SessionID req)
    \<and> ps_Key sess = BuildSessionKey (sr_UserID req) (sr_ChannelType req) (ps_ID sess)"
proof -
  define sid where "sid = (if sr_SessionID req = [] then fresh else sr_SessionID req)"
  define sess0 where "sess0 = new_session req sid now"
  have id: "ps_ID sess0 = sid" by (simp add: sess0_def new_session_def)
  obtain s1 r where up: "upsertIndex (s\<lparr>st_fs := create_fs s (sr_UserID req) sess0\<rparr>) (sr_UserID req) sess0 now = (s1, r)"
    by force
  have u: "sr_UserID req \<noteq> []" using assms by (auto simp: CreateSession_def)
  have "CreateSession s req fresh now = (case (s1, r) of (s', Inl e) \<Rightarrow> (s', Inl e) | (s', Inr _) \<Rightarrow> (s', Inr sess0))"
    using u unfolding CreateSession_def Let_def sid_def [symmetric] sess0_def [symmetric] up [symmetric]
    by (simp add: create_fs_def id Let_def)
  with assms have "s' = s1" "sess = sess0" "r = Inr ()" by (auto split: sum.splits)
  with up u id show ?thesis by (simp add: sid_def sess0_def new_session_def)
qed

lemma Create_files:
  assumes "CreateSession s req fresh now = (s', Inr sess)"
  shows "st_fs s' (metaPath (sr_UserID req) (ps_ID sess)) = Some (MetaFile sess)"
    and "st_fs s' (transcriptPath u sid) =
      (if (u, sid) = (sr_UserID req, ps_ID sess) \<and> st_fs s (transcriptPath u sid) = None then Some (Lines [])
       else st_fs s (transcriptPath u sid))"
    and "st_fs s' (archivePath u sid ts) = st_fs s (archivePath u sid ts)"
proof -
  have "st_fs s' q = create_fs s (sr_UserID req) sess q"
    if "q \<noteq> indexPath (sr_UserID req)" "q \<noteq> with_suffix (indexPath (sr_UserID req)) ''.tmp''" for q
    using upsert_fs [OF that, of "s\<lparr>st_fs := create_fs s (sr_UserID req) sess\<rparr>" sess now] Create_step [OF assms] by simp
  then show "st_fs s' (metaPath (sr_UserID req) (ps_ID sess)) = Some (MetaFile sess)"
    "st_fs s' (transcriptPath u sid) =
      (if (u, sid) = (sr_UserID req, ps_ID sess) \<and> st_fs s (transcriptPath u sid) = None then Some (Lines [])
       else st_fs s (transcriptPath u sid))"
    "st_fs s' (archivePath u sid ts) = st_fs s (archivePath u sid ts)"
    by (auto simp: create_fs_def Let_def)
qed

text \<open>
  A created session is found. After a successful creation the key of the session loads
  exactly the descriptor that was returned, its transcript is empty unless one existed, and
  the user's session list shows it, with one entry per session id if that was so before.
\<close>

theorem create_then_find:
  assumes c: "CreateSession s req fresh now = (s', Inr sess)"
    and parts: "key_part (sr_UserID req)" "key_part (sr_ChannelType req)" "ps_ID sess \<noteq> []"
    and new: "st_fs s (transcriptPath (sr_UserID req) (ps_ID sess)) = None"
    and old: "\<forall>i. st_fs s (indexPath (sr_UserID req)) = Some (IndexFile i) \<longrightarrow> distinct (map ie_SessionID (ix_Sessions i))"
    and soon: "t < now + indexCacheTTL"
  shows "GetSession s' (ps_Key sess) = Inr sess \<and> LoadTranscript s' (ps_Key sess) = Inr []
    \<and> (\<exists>ls. ListSessions s' (sr_UserID req) t = (s', Inr ls) \<and> distinct (map ps_ID ls)
          \<and> indexEntryToSession (sessionToIndexEntry sess) \<in> set ls)"
proof -
  note step = Create_step [OF c]
  then have k: "ParseSessionKey (ps_Key sess) = Inr (sr_UserID req, sr_ChannelType req, ps_ID sess)"
    using parts by (simp add: Parse_Build)
  have i0: "create_fs s (sr_UserID req) sess (indexPath (sr_UserID req)) = st_fs s (indexPath (sr_UserID req))"
    by (simp add: create_fs_def Let_def)
  obtain idx es where idx: "st_cache s' (sr_UserID req) = Some \<lparr>ic_index = idx, ic_expiresAt = now + indexCacheTTL\<rparr>"
    and es: "ix_Sessions idx = upsert_entry (sessionToIndexEntry sess) es" "distinct (map ie_SessionID es)"
    using upsert_result [OF conjunct1 [OF step]] old i0 by fastforce
  have "ListSessions s' (sr_UserID req) t = (s', Inr (map indexEntryToSession (ix_Sessions idx)))"
    using idx soon by (simp add: ListSessions_def loadIndex_def)
  moreover have "ps_ID \<circ> indexEntryToSession = ie_SessionID"
    by (simp add: indexEntryToSession_def fun_eq_iff)
  moreover have "distinct (map ie_SessionID (ix_Sessions idx))"
    using es by (simp add: upsert_ids)
  ultimately show ?thesis
    using Create_files [OF c] new upsert_mem [of "sessionToIndexEntry sess" es] es(1)
    by (simp add: GetSession_def LoadTranscript_def k)
qed

definition demo_request :: CreateSessionRequest where
  "demo_request = \<lparr>sr_UserID = ''u'', sr_SessionID = ''n'', sr_ChannelType = ''slack'', sr_Model = ''m'', sr_ChannelMeta = None\<rparr>"

theorem create_then_find_witness:
  "\<exists>s' sess. CreateSession NewStore demo_request ''x'' 5 = (s', Inr sess) \<and> GetSession s' (ps_Key sess) = Inr sess"
proof -
  obtain s' sess where c: "CreateSession NewStore demo_request ''x'' 5 = (s', Inr sess)"
    by (simp add: CreateSession_def demo_request_def upsertIndex_def refreshIndexCache_def NewStore_def Let_def)
  have "ps_ID sess = ''n''" using Create_step [OF c] by (simp add: demo_request_def)
  then have "GetSession s' (ps_Key sess) = Inr sess"
    using create_then_find [OF c, of 6]
    by (simp add: demo_request_def key_part_def NewStore_def indexCacheTTL_def)
  with c show ?thesis by blast
qed

lemma Archive_files:
  assumes k: "ParseSessionKey k = Inr (u, c, sid)" and a: "ArchiveSession s k ts now = (s', Inr ())"
    and t: "st_fs s (transcriptPath u sid) = Some x"
  shows "st_fs s' (archivePath u sid ts) = Some x" "st_fs s' (transcriptPath u sid) = None"
    "(u', sid') \<noteq> (u, sid) \<Longrightarrow> st_fs s' (transcriptPath u' sid') = st_fs s (transcriptPath u' sid')"
  using k a t
  by (auto simp: ArchiveSession_def rename_def Let_def upsert_fs split: if_splits option.splits content.splits)

text \<open>
  A reset archives and starts afresh. After a successful reset of a session with a
  transcript, the whole transcript stands in the archive file, the old key has no
  transcript any more, and the returned key names a new session with an empty transcript.
\<close>

theorem reset_archives_and_restarts:
  assumes k: "ParseSessionKey k = Inr (u, c, sid)" and parts: "key_part u" "key_part c"
    and t: "st_fs s (transcriptPath u sid) = Some x"
    and fresh: "fresh \<noteq> []" "fresh \<noteq> sid" "st_fs s (transcriptPath u fresh) = None"
    and r: "ResetSession s k ts fresh now = (s', Inr k')"
  shows "st_fs s' (archivePath u sid ts) = Some x \<and> LoadTranscript s' k = Inl SessionNotFound
    \<and> k' = BuildSessionKey u c fresh \<and> LoadTranscript s' k' = Inr []"
proof -
  obtain s1 req sess where a: "ArchiveSession s k ts now = (s1, Inr ())"
    and c: "CreateSession s1 req fresh now = (s', Inr sess)" "k' = ps_Key sess"
    and req: "sr_UserID req = u" "sr_SessionID req = []" "sr_ChannelType req = c"
    using r k by (auto simp: ResetSession_def split: sum.splits prod.splits if_splits)
  note arch = Archive_files [OF k a t]
  note step = Create_step [OF c(1)]
  note files = Create_files [OF c(1)]
  have "k' = BuildSessionKey u c fresh" using step req c(2) by simp
  moreover then have "ParseSessionKey k' = Inr (u, c, fresh)" using parts fresh(1) by (simp add: Parse_Build)
  moreover have "st_fs s' (transcriptPath u fresh) = Some (Lines [])"
    using files(2) [of u fresh] step req arch(3) [of u fresh] fresh by simp
  moreover have "st_fs s' (transcriptPath u sid) = None"
    using files(2) [of u sid] step req arch(2) fresh(2) by simp
  moreover have "st_fs s' (archivePath u sid ts) = Some x" using files(3) [of u sid ts] arch(1) by simp
  ultimately show ?thesis by (simp add: LoadTranscript_def k)
qed

theorem reset_archives_and_restarts_witness:
  "\<exists>s' k'. ResetSession demo_chat demo_key ''t'' ''n'' 9 = (s', Inr k') \<and> LoadTranscript s' k' = Inr []
     \<and> st_fs s' (archivePath ''u'' ''s'' ''t'') = Some (Lines [stored (demo_line ''a''), stored (demo_line ''b'')])"
proof -
  obtain s' k' where r: "ResetSession demo_chat demo_key ''t'' ''n'' 9 = (s', Inr k')"
    by (simp add: ResetSession_def demo_key_parts GetSession_def ArchiveSession_def CreateSession_def upsertIndex_def
        refreshIndexCache_def lock_blocked_def rename_def demo_chat_def Let_def split: option.split)
  have "st_fs demo_chat (transcriptPath ''u'' ''n'') = None" by (simp add: demo_chat_def Let_def)
  with reset_archives_and_restarts [OF demo_key_parts(2) _ _ demo_chat_files(1) _ _ _ r]
  have "LoadTranscript s' k' = Inr []
    \<and> st_fs s' (archivePath ''u'' ''s'' ''t'') = Some (Lines [stored (demo_line ''a''), stored (demo_line ''b'')])"
    by (auto simp: key_part_def)
  with r show ?thesis by blast
qed

end
