(* ===== verification/MessageQueue.thy ===== *)
theory MessageQueue
  imports Models
begin

text \<open>
  The internal message queue of the gateway (\<^verbatim>\<open>internal/queue\<close>): the topology the gateway
  declares on the broker (\<^verbatim>\<open>topology.go\<close>), the publisher of messages and control signals
  (\<^verbatim>\<open>publisher.go\<close>) and the consumer of agent events (\<^verbatim>\<open>consumer.go\<close>).

  The broker is RabbitMQ. Which call it accepts, which channel it opens and how it matches
  routing keys against binding keys are parameters; \<open>topic_laws\<close> states of the matching what
  its documentation promises and the program relies on.
\<close>

section \<open>Topology\<close>

definition ExchangeSessions :: string where "ExchangeSessions = ''nipper.sessions''"
definition ExchangeEvents :: string where "ExchangeEvents = ''nipper.events''"
definition ExchangeControl :: string where "ExchangeControl = ''nipper.control''"
definition ExchangeSessionsDLX :: string where "ExchangeSessionsDLX = ''nipper.sessions.dlx''"
definition ExchangeLogs :: string where "ExchangeLogs = ''nipper.logs''"
definition QueueEventsGateway :: string where "QueueEventsGateway = ''nipper-events-gateway''"
definition QueueSessionsDLQ :: string where "QueueSessionsDLQ = ''nipper-sessions-dlq''"

datatype amqp_arg = ArgString string | ArgInt int

datatype amqp_call =
  ExchangeDeclare string string bool  \<comment> \<open>name, kind, durable\<close>
| QueueDeclare string "(string \<times> amqp_arg) list"
| QueueBind string string string  \<comment> \<open>queue, binding key, exchange\<close>

datatype declare_error =
  DeclaringExchange string | DeclaringQueue string | BindingQueue string

text \<open>Each call in turn, up to the first one the broker refuses.\<close>

fun declare_all ::
  "(amqp_call \<Rightarrow> bool) \<Rightarrow> (amqp_call \<times> declare_error) list \<Rightarrow> amqp_call list \<times> (declare_error + unit)"
where
  "declare_all ok [] = ([], Inr ())"
| "declare_all ok ((c, e) # cs) =
     (if ok c then (let (made, r) = declare_all ok cs in (c # made, r)) else ([], Inl e))"

definition DeclareTopology :: "(amqp_call \<Rightarrow> bool) \<Rightarrow> amqp_call list \<times> (declare_error + unit)" where
  "DeclareTopology ok = declare_all ok
     (map (\<lambda>(name, kind). (ExchangeDeclare name kind True, DeclaringExchange name))
        [(ExchangeSessions, ''topic''), (ExchangeEvents, ''topic''), (ExchangeControl, ''topic''),
         (ExchangeSessionsDLX, ''fanout''), (ExchangeLogs, ''topic'')]
      @ [(QueueDeclare QueueEventsGateway [], DeclaringQueue QueueEventsGateway),
         (QueueDeclare QueueSessionsDLQ [(''x-message-ttl'', ArgInt 86400000)], DeclaringQueue QueueSessionsDLQ),
         (QueueBind QueueEventsGateway ''nipper.events.#'' ExchangeEvents, BindingQueue QueueEventsGateway),
         (QueueBind QueueSessionsDLQ ''#'' ExchangeSessionsDLX, BindingQueue QueueSessionsDLQ)])"

definition UserAgentQueue :: "string \<Rightarrow> string" where
  "UserAgentQueue userID = ''nipper-agent-'' @ userID"

definition UserControlQueue :: "string \<Rightarrow> string" where
  "UserControlQueue userID = ''nipper-control-'' @ userID"

definition DeclareUserQueues :: "(amqp_call \<Rightarrow> bool) \<Rightarrow> string \<Rightarrow> amqp_call list \<times> (declare_error + unit)" where
  "DeclareUserQueues ok userID =
     (let agentQueue = UserAgentQueue userID; controlQueue = UserControlQueue userID in
      declare_all ok
        [(QueueDeclare agentQueue
            [(''x-dead-letter-exchange'', ArgString ExchangeSessionsDLX),
             (''x-dead-letter-routing-key'', ArgString ''nipper.sessions.dlq''),
             (''x-message-ttl'', ArgInt 300000),
             (''x-max-length'', ArgInt 50),
             (''x-overflow'', ArgString ''reject-publish'')],
          DeclaringQueue agentQueue),
         (QueueBind agentQueue (''nipper.sessions.'' @ userID @ ''.#'') ExchangeSessions, BindingQueue agentQueue),
         (QueueDeclare controlQueue [], DeclaringQueue controlQueue),
         (QueueBind controlQueue (''nipper.control.'' @ userID) ExchangeControl, BindingQueue controlQueue)])"

text \<open>The queues a message with a routing key reaches through an exchange.\<close>

fun routed :: "(string \<Rightarrow> string \<Rightarrow> bool) \<Rightarrow> amqp_call list \<Rightarrow> string \<Rightarrow> string \<Rightarrow> string set" where
  "routed matches [] exchange key = {}"
| "routed matches (c # cs) exchange key =
     (case c of
        QueueBind q bkey ex \<Rightarrow> (if ex = exchange \<and> matches bkey key then {q} else {})
      | _ \<Rightarrow> {}) \<union> routed matches cs exchange key"

section \<open>Publisher\<close>

text \<open>
  A channel is a number. One call of the publisher sees whether a channel is closed, what
  the broker answers to \<^verbatim>\<open>PublishChannel\<close>, and whether it takes the publication. Encoding the
  item as JSON does not fail: its fields are strings, numbers, times and maps of them.
\<close>

record amqp_env =
  ae_closed :: "nat \<Rightarrow> bool"
  ae_open :: "nat option"
  ae_accepts :: bool

record RabbitMQPublisher =
  pb_ch :: "nat option"

datatype header_value = HString string | HInt int

datatype publication_body = ItemBody QueueItem | ControlBody ControlMessage

record publication =
  pu_exchange :: string
  pu_key :: string
  pu_headers :: "(string \<times> header_value) list"
  pu_MessageId :: string
  pu_persistent :: bool
  pu_body :: publication_body

datatype publish_error = NilItem | NoChannel | PublishRefused string string

definition NewRabbitMQPublisher :: "nat option \<Rightarrow> RabbitMQPublisher" where
  "NewRabbitMQPublisher opened = \<lparr>pb_ch = opened\<rparr>"

definition onReconnect :: "nat option \<Rightarrow> RabbitMQPublisher \<Rightarrow> RabbitMQPublisher" where
  "onReconnect opened p = (case opened of None \<Rightarrow> p | Some c \<Rightarrow> p\<lparr>pb_ch := Some c\<rparr>)"

definition getChannel :: "amqp_env \<Rightarrow> RabbitMQPublisher \<Rightarrow> RabbitMQPublisher \<times> nat option" where
  "getChannel env p =
     (let reopen = (case ae_open env of None \<Rightarrow> (p, None) | Some c \<Rightarrow> (p\<lparr>pb_ch := Some c\<rparr>, Some c)) in
      case pb_ch p of
        None \<Rightarrow> reopen
      | Some c \<Rightarrow> if ae_closed env c then reopen else (p, Some c))"

text \<open>Both publish calls end alike: a refused publication invalidates the cached channel.\<close>

definition publish_on ::
  "amqp_env \<Rightarrow> RabbitMQPublisher \<Rightarrow> publication \<Rightarrow> RabbitMQPublisher \<times> (publish_error + publication)"
where
  "publish_on env p pub =
     (case getChannel env p of
        (p', None) \<Rightarrow> (p', Inl NoChannel)
      | (p', Some c) \<Rightarrow>
          if ae_accepts env then (p', Inr pub)
          else (p'\<lparr>pb_ch := None\<rparr>, Inl (PublishRefused (pu_exchange pub) (pu_key pub))))"

definition PublishMessage ::
  "amqp_env \<Rightarrow> RabbitMQPublisher \<Rightarrow> QueueItem option \<Rightarrow> RabbitMQPublisher \<times> (publish_error + publication)"
where
  "PublishMessage env p item =
     (case item of
        None \<Rightarrow> (p, Inl NilItem)
      | Some i \<Rightarrow>
          let sessionID = (case qi_Message i of None \<Rightarrow> [] | Some m \<Rightarrow> nm_SessionKey m);
              userID = (case qi_Message i of None \<Rightarrow> [] | Some m \<Rightarrow> nm_UserID m)
          in publish_on env p
               \<lparr>pu_exchange = ExchangeSessions,
                pu_key = ''nipper.sessions.'' @ userID @ ''.'' @ sessionID,
                pu_headers = [(''x-nipper-user-id'', HString userID), (''x-nipper-session-key'', HString sessionID),
                              (''x-nipper-queue-mode'', HString (qi_Mode i)), (''x-nipper-priority'', HInt (to_int32 (qi_Priority i)))],
                pu_MessageId = qi_ID i, pu_persistent = True, pu_body = ItemBody i\<rparr>)"

definition PublishControl ::
  "amqp_env \<Rightarrow> RabbitMQPublisher \<Rightarrow> string \<Rightarrow> ControlMessage option \<Rightarrow> RabbitMQPublisher \<times> (publish_error + publication)"
where
  "PublishControl env p userID msg =
     (case msg of
        None \<Rightarrow> (p, Inl NilItem)
      | Some m \<Rightarrow> publish_on env p
          \<lparr>pu_exchange = ExchangeControl, pu_key = ''nipper.control.'' @ userID, pu_headers = [],
           pu_MessageId = [], pu_persistent = True, pu_body = ControlBody m\<rparr>)"

section \<open>Event consumer\<close>

text \<open>
  The handler is a state transformer that may report an error. A delivery whose body does
  not decode has no event. Each delivery is settled once: acknowledged, or rejected without
  requeueing.
\<close>

datatype settlement = Ack | NackDrop

definition handleDelivery ::
  "('s \<Rightarrow> NipperEvent \<Rightarrow> 's \<times> bool) \<Rightarrow> 's \<Rightarrow> NipperEvent option \<Rightarrow> 's \<times> settlement"
where
  "handleDelivery handler st body =
     (case body of
        None \<Rightarrow> (st, NackDrop)
      | Some event \<Rightarrow> (let (st', failed) = handler st event in (st', if failed then NackDrop else Ack)))"

text \<open>What the select statement of the consume loop can pick.\<close>

datatype stimulus = CtxDone | StopCalled | Arrives "NipperEvent option" | DeliveriesClosed

datatype consume_exit = Ended | DeliveryChannelClosed | OpenFailed | QosFailed | ConsumeRefused

fun consume_loop ::
  "('s \<Rightarrow> NipperEvent \<Rightarrow> 's \<times> bool) \<Rightarrow> 's \<Rightarrow> stimulus list \<Rightarrow> 's \<times> settlement list \<times> consume_exit option"
where
  "consume_loop handler st [] = (st, [], None)"
| "consume_loop handler st (s # ss) =
     (case s of
        CtxDone \<Rightarrow> (st, [], Some Ended)
      | StopCalled \<Rightarrow> (st, [], Some Ended)
      | DeliveriesClosed \<Rightarrow> (st, [], Some DeliveryChannelClosed)
      | Arrives body \<Rightarrow>
          (let (st1, a) = handleDelivery handler st body;
               (st2, as, ex) = consume_loop handler st1 ss
           in (st2, a # as, ex)))"

text \<open>What the broker answers to the three calls that start consuming.\<close>

record consume_env =
  ce_opened :: bool
  ce_qos :: bool
  ce_deliveries :: bool

definition consume ::
  "consume_env \<Rightarrow> ('s \<Rightarrow> NipperEvent \<Rightarrow> 's \<times> bool) \<Rightarrow> 's \<Rightarrow> stimulus list
   \<Rightarrow> 's \<times> settlement list \<times> consume_exit option"
where
  "consume env handler st ss =
     (if \<not> ce_opened env then (st, [], Some OpenFailed)
      else if \<not> ce_qos env then (st, [], Some QosFailed)
      else if \<not> ce_deliveries env then (st, [], Some ConsumeRefused)
      else consume_loop handler st ss)"

text \<open>
  The loop of \<^verbatim>\<open>Start\<close>. One round is a consume call and what the two selects after it find: the
  first only when the call failed (\<open>None\<close> is its default branch), the second between the end of
  the context, the stop signal and the pause of two seconds.
\<close>

datatype wakeup = CtxEnded | StopClosed | PauseOver

record consume_round =
  cr_env :: consume_env
  cr_stimuli :: "stimulus list"
  cr_cancelled :: "wakeup option"
  cr_next :: wakeup

datatype start_exit = HandlerMissing | CtxError | StoppedCleanly

fun wakeup_exit :: "wakeup \<Rightarrow> start_exit option" where
  "wakeup_exit CtxEnded = Some CtxError"
| "wakeup_exit StopClosed = Some StoppedCleanly"
| "wakeup_exit PauseOver = None"

fun consume_rounds ::
  "('s \<Rightarrow> NipperEvent \<Rightarrow> 's \<times> bool) \<Rightarrow> 's \<Rightarrow> consume_round list \<Rightarrow> 's \<times> settlement list \<times> start_exit option"
where
  "consume_rounds handler st [] = (st, [], None)"
| "consume_rounds handler st (r # rs) =
     (case consume (cr_env r) handler st (cr_stimuli r) of
        (st1, as, None) \<Rightarrow> (st1, as, None)
      | (st1, as, Some e) \<Rightarrow>
          let leave = (if e \<noteq> Ended then Option.bind (cr_cancelled r) wakeup_exit else None)
          in case (if leave = None then wakeup_exit (cr_next r) else leave) of
               Some x \<Rightarrow> (st1, as, Some x)
             | None \<Rightarrow> (let (st2, bs, x) = consume_rounds handler st1 rs in (st2, as @ bs, x)))"

definition consumer_Start ::
  "('s \<Rightarrow> NipperEvent \<Rightarrow> 's \<times> bool) option \<Rightarrow> 's \<Rightarrow> consume_round list \<Rightarrow> 's \<times> settlement list \<times> start_exit option"
where
  "consumer_Start handler st rounds =
     (case handler of None \<Rightarrow> (st, [], Some HandlerMissing) | Some h \<Rightarrow> consume_rounds h st rounds)"

section \<open>Routing\<close>

text \<open>
  What the broker's documentation promises of topic matching and the topology relies on: a
  binding key without wildcards matches itself alone, and one that ends in the word \<^verbatim>\<open>#\<close>
  matches its other words followed by any further words.
\<close>

definition wildcard_free :: "string \<Rightarrow> bool" where
  "wildcard_free p \<longleftrightarrow> CHR ''*'' \<notin> set p \<and> CHR ''#'' \<notin> set p"

definition topic_laws :: "(string \<Rightarrow> string \<Rightarrow> bool) \<Rightarrow> bool" where
  "topic_laws matches \<longleftrightarrow>
     (\<forall>p k. wildcard_free p \<longrightarrow> matches p k = (p = k)) \<and>
     (\<forall>p k. wildcard_free p \<longrightarrow> matches (p @ ''.#'') k = (k = p \<or> HasPrefix k (p @ ''.'')))"

text \<open>A user id that is one word of a routing key.\<close>

definition amqp_safe :: "string \<Rightarrow> bool" where
  "amqp_safe u \<longleftrightarrow> CHR ''.'' \<notin> set u \<and> wildcard_free u"

definition declared :: "(amqp_call \<Rightarrow> bool) \<Rightarrow> string list \<Rightarrow> amqp_call list" where
  "declared ok users = fst (DeclareTopology ok) @ concat (map (\<lambda>u. fst (DeclareUserQueues ok u)) users)"

lemma routed_append [simp]: "routed m (xs @ ys) ex k = routed m xs ex k \<union> routed m ys ex k"
  by (induction xs) auto

lemma routed_concat: "routed m (concat xss) ex k = (\<Union>xs \<in> set xss. routed m xs ex k)"
  by (induction xss) auto

lemma declare_all_done: "snd (declare_all ok cs) = Inr () \<Longrightarrow> fst (declare_all ok cs) = map fst cs"
  by (induction ok cs rule: declare_all.induct) (auto split: prod.splits if_splits)

lemma declare_all_subset: "set (fst (declare_all ok cs)) \<subseteq> fst ` set cs"
  by (induction ok cs rule: declare_all.induct) (auto split: prod.splits if_splits)

lemma routed_unbound: "(\<And>q b. QueueBind q b ex \<notin> set cs) \<Longrightarrow> routed m cs ex k = {}"
  by (induction cs) (auto split: amqp_call.split)

lemmas exchange_names = ExchangeSessions_def ExchangeControl_def ExchangeEvents_def ExchangeSessionsDLX_def
  ExchangeLogs_def

lemma topology_routes:
  assumes "ex = ExchangeSessions \<or> ex = ExchangeControl"
  shows "routed m (fst (DeclareTopology ok)) ex k = {}"
  by (rule routed_unbound)
    (use assms in \<open>auto simp: DeclareTopology_def exchange_names dest!: subsetD [OF declare_all_subset]\<close>)

lemma user_routes:
  assumes "snd (DeclareUserQueues ok u) = Inr ()"
  shows "routed m (fst (DeclareUserQueues ok u)) ExchangeSessions k =
      (if m (''nipper.sessions.'' @ u @ ''.#'') k then {UserAgentQueue u} else {})"
    and "routed m (fst (DeclareUserQueues ok u)) ExchangeControl k =
      (if m (''nipper.control.'' @ u) k then {UserControlQueue u} else {})"
  using declare_all_done [OF assms [unfolded DeclareUserQueues_def Let_def]]
  by (simp_all add: DeclareUserQueues_def Let_def exchange_names)

lemma first_word_prefix:
  "c \<notin> set u \<Longrightarrow> c \<notin> set v \<Longrightarrow> HasPrefix (u @ c # s) (v @ [c]) \<longleftrightarrow> u = v"
proof (induction u arbitrary: v)
  case Nil
  then show ?case by (cases v) auto
next
  case (Cons a u)
  then show ?case by (cases v) auto
qed

lemma HasPrefix_same [simp]: "HasPrefix (p @ s) (p @ q) = HasPrefix s q"
  by (simp add: HasPrefix_def)

lemma session_match:
  assumes laws: "topic_laws m" and safe: "amqp_safe u" "amqp_safe v"
  shows "m (''nipper.sessions.'' @ v @ ''.#'') (''nipper.sessions.'' @ u @ ''.'' @ s) = (u = v)"
proof -
  let ?p = "''nipper.sessions.''"
  have "wildcard_free (?p @ v)" using safe by (auto simp: amqp_safe_def wildcard_free_def)
  then have "m ((?p @ v) @ ''.#'') (?p @ u @ ''.'' @ s) =
      (?p @ u @ ''.'' @ s = ?p @ v \<or> HasPrefix (?p @ u @ ''.'' @ s) ((?p @ v) @ ''.''))"
    using laws by (simp only: topic_laws_def)
  moreover have "u @ ''.'' @ s \<noteq> v" using safe by (auto simp: amqp_safe_def)
  moreover have "HasPrefix (u @ ''.'' @ s) (v @ ''.'') = (u = v)"
    using safe first_word_prefix [of "CHR ''.''" u v s] by (simp add: amqp_safe_def)
  ultimately show ?thesis by (simp only: append_assoc HasPrefix_same same_append_eq) blast
qed

lemma control_match:
  assumes laws: "topic_laws m" and safe: "amqp_safe v"
  shows "m (''nipper.control.'' @ v) (''nipper.control.'' @ u) = (u = v)"
proof -
  have "wildcard_free (''nipper.control.'' @ v)" using safe by (auto simp: amqp_safe_def wildcard_free_def)
  with laws have "m (''nipper.control.'' @ v) (''nipper.control.'' @ u) = (''nipper.control.'' @ v = ''nipper.control.'' @ u)"
    by (simp only: topic_laws_def)
  then show ?thesis by auto
qed

lemma publish_on_result: "publish_on env p pub = (p', Inr pub') \<Longrightarrow> pub' = pub"
  by (auto simp: publish_on_def split: prod.splits option.splits if_splits)

text \<open>
  C24: messages reach their user's agent and no other. On a broker that keeps the topic laws
  and accepted the declarations for a set of users whose ids are single words, a published
  item is routed to exactly the agent queue of its message's user, and a control signal to
  exactly that user's control queue.
\<close>

theorem user_queue_isolation:
  assumes laws: "topic_laws matches"
    and users: "\<forall>v \<in> set users. amqp_safe v \<and> snd (DeclareUserQueues ok v) = Inr ()"
    and u: "u \<in> set users"
    and i: "qi_Message i = Some msg" "nm_UserID msg = u" "PublishMessage env p (Some i) = (p1, Inr pub)"
    and c: "PublishControl env' p' u (Some ctl) = (p2, Inr cpub)"
  shows "routed matches (declared ok users) (pu_exchange pub) (pu_key pub) = {UserAgentQueue u}
    \<and> routed matches (declared ok users) (pu_exchange cpub) (pu_key cpub) = {UserControlQueue u}"
proof -
  have pub: "pu_exchange pub = ExchangeSessions" "pu_key pub = ''nipper.sessions.'' @ u @ ''.'' @ nm_SessionKey msg"
    using publish_on_result [OF i(3) [unfolded PublishMessage_def Let_def option.case]] i(1,2) by simp_all
  have cpub: "pu_exchange cpub = ExchangeControl" "pu_key cpub = ''nipper.control.'' @ u"
    using publish_on_result [OF c [unfolded PublishControl_def option.case]] by simp_all
  have safe: "amqp_safe u" using users u by blast
  have "routed matches (fst (DeclareUserQueues ok v)) ExchangeSessions (pu_key pub) = (if v = u then {UserAgentQueue u} else {})"
    "routed matches (fst (DeclareUserQueues ok v)) ExchangeControl (pu_key cpub) = (if v = u then {UserControlQueue u} else {})"
    if "v \<in> set users" for v
    using users that safe
    by (simp_all only: user_routes session_match [OF laws] control_match [OF laws] pub cpub) auto
  with u show ?thesis
    by (auto simp: declared_def pub(1) cpub(1) topology_routes routed_concat)
qed

text \<open>Topic matching word by word, as the broker documents it, keeps the laws.\<close>

fun match_words :: "string list \<Rightarrow> string list \<Rightarrow> bool" where
  "match_words [] ks = (ks = [])"
| "match_words (p # ps) [] = (p = ''#'' \<and> match_words ps [])"
| "match_words (p # ps) (k # ks) =
     (if p = ''#'' then match_words ps (k # ks) \<or> match_words (p # ps) ks
      else (p = ''*'' \<or> p = k) \<and> match_words ps ks)"

definition word_match :: "string \<Rightarrow> string \<Rightarrow> bool" where
  "word_match p k = match_words (Split p (CHR ''.'')) (Split k (CHR ''.''))"

lemma match_hash: "match_words [''#''] ks"
  by (induction ks) auto

lemma match_literal:
  "''*'' \<notin> set ps \<Longrightarrow> ''#'' \<notin> set ps \<Longrightarrow> match_words ps ks = (ps = ks)"
  by (induction ps ks rule: match_words.induct) auto

lemma match_literal_hash:
  "''*'' \<notin> set ps \<Longrightarrow> ''#'' \<notin> set ps \<Longrightarrow> match_words (ps @ [''#'']) ks = (\<exists>r. ks = ps @ r)"
proof (induction ps arbitrary: ks)
  case Nil
  then show ?case using match_hash by simp
next
  case (Cons p ps)
  then show ?case by (cases ks) auto
qed

lemma Split_inj: "Split s c = Split t c \<Longrightarrow> s = t"
  by (metis Join_Split)

lemma Split_append: "Split (s @ c # t) c = Split s c @ Split t c"
  by (induction s) (auto split: list.splits)

lemma set_Split: "w \<in> set (Split s c) \<Longrightarrow> set w \<subseteq> set s"
proof (induction s arbitrary: w)
  case (Cons a s)
  then show ?case by (fastforce split: list.splits if_splits)
qed simp

lemma Join_append: "ps \<noteq> [] \<Longrightarrow> qs \<noteq> [] \<Longrightarrow> Join (ps @ qs) c = Join ps c @ c # Join qs c"
  by (induction ps c rule: Join.induct) (auto simp: Join_Cons_nonempty)

lemma Split_extends: "(\<exists>r. Split k c = Split p c @ r) \<longleftrightarrow> k = p \<or> HasPrefix k (p @ [c])"
proof
  assume "\<exists>r. Split k c = Split p c @ r"
  then obtain r where r: "Split k c = Split p c @ r" by blast
  show "k = p \<or> HasPrefix k (p @ [c])"
  proof (cases "r = []")
    case True
    with r show ?thesis using Split_inj by auto
  next
    case False
    then have "k = p @ c # Join r c" using r Join_append [of "Split p c" r c] by (metis Join_Split Split_not_Nil)
    then show ?thesis by (simp add: HasPrefix_def)
  qed
next
  assume "k = p \<or> HasPrefix k (p @ [c])"
  then show "\<exists>r. Split k c = Split p c @ r"
    by (metis HasPrefix_split Split_append append.right_neutral append_Cons append_Nil append_assoc)
qed

lemma word_match_laws: "topic_laws word_match"
proof -
  have words: "''*'' \<notin> set (Split p (CHR ''.''))" "''#'' \<notin> set (Split p (CHR ''.''))" if "wildcard_free p" for p
    using that set_Split [of "''*''" p "CHR ''.''"] set_Split [of "''#''" p "CHR ''.''"] by (auto simp: wildcard_free_def)
  have "Split (p @ ''.#'') (CHR ''.'') = Split p (CHR ''.'') @ [''#'']" for p
    using Split_append [of p "CHR ''.''" "''#''"] by simp
  then show ?thesis
    using words Split_extends Split_inj
    by (auto simp: topic_laws_def word_match_def match_literal match_literal_hash)
qed

definition plain_message :: "string \<Rightarrow> NipperMessage" where
  "plain_message u =
     \<lparr>nm_MessageID = ''m'', nm_OriginMessageID = ''o'', nm_UserID = u, nm_SessionKey = ''k'',
      nm_ChannelType = ChannelTypeSlack, nm_ChannelIdentity = ''c'',
      nm_Content = \<lparr>mc_Text = ''hi'', mc_Parts = []\<rparr>, nm_DeliveryContext = zeroDeliveryContext,
      nm_Meta = None, nm_Timestamp = 10, nm_DedupeKey = []\<rparr>"

definition demo_item :: QueueItem where
  "demo_item = \<lparr>qi_ID = ''i'', qi_Message = Some (plain_message ''u1''), qi_Mode = QueueModeQueue, qi_Priority = 5,
     qi_EnqueuedAt = 0, qi_CollectedMessages = []\<rparr>"

definition demo_amqp :: amqp_env where
  "demo_amqp = \<lparr>ae_closed = (\<lambda>_. False), ae_open = Some 1, ae_accepts = True\<rparr>"

definition demo_control :: ControlMessage where
  "demo_control = \<lparr>ct_Type = ControlMessageAbort, ct_UserID = ''u1'', ct_SessionKey = ''k'', ct_Timestamp = 0\<rparr>"

lemma declare_all_accepted: "snd (declare_all (\<lambda>_. True) cs) = Inr ()"
  by (induction cs) (auto split: prod.split)

lemma publish_on_demo: "publish_on demo_amqp (NewRabbitMQPublisher None) pub = (\<lparr>pb_ch = Some 1\<rparr>, Inr pub)"
  by (simp add: publish_on_def getChannel_def demo_amqp_def NewRabbitMQPublisher_def)

theorem user_queue_isolation_witness:
  "\<exists>p1 pub p2 cpub. PublishMessage demo_amqp (NewRabbitMQPublisher None) (Some demo_item) = (p1, Inr pub)
     \<and> PublishControl demo_amqp (NewRabbitMQPublisher None) ''u1'' (Some demo_control) = (p2, Inr cpub)
     \<and> routed word_match (declared (\<lambda>_. True) [''u1'', ''u2'']) (pu_exchange pub) (pu_key pub) = {''nipper-agent-u1''}
     \<and> routed word_match (declared (\<lambda>_. True) [''u1'', ''u2'']) (pu_exchange cpub) (pu_key cpub) = {''nipper-control-u1''}"
proof -
  obtain p1 pub p2 cpub where
    m: "PublishMessage demo_amqp (NewRabbitMQPublisher None) (Some demo_item) = (p1, Inr pub)"
    and c: "PublishControl demo_amqp (NewRabbitMQPublisher None) ''u1'' (Some demo_control) = (p2, Inr cpub)"
    by (simp add: PublishMessage_def PublishControl_def Let_def publish_on_demo)
  have item: "qi_Message demo_item = Some (plain_message ''u1'')" "nm_UserID (plain_message ''u1'') = ''u1''"
    by (simp_all add: demo_item_def plain_message_def)
  have users: "\<forall>v \<in> set [''u1'', ''u2'']. amqp_safe v \<and> snd (DeclareUserQueues (\<lambda>_. True) v) = Inr ()"
    by (simp add: amqp_safe_def wildcard_free_def DeclareUserQueues_def Let_def declare_all_accepted)
  show ?thesis
    using user_queue_isolation [OF word_match_laws users _ item m c] m c
    by (auto simp: UserAgentQueue_def UserControlQueue_def)
qed

section \<open>Failures of the publisher\<close>

definition usable_channel :: "amqp_env \<Rightarrow> RabbitMQPublisher \<Rightarrow> bool" where
  "usable_channel env p \<longleftrightarrow> (\<exists>c. pb_ch p = Some c \<and> \<not> ae_closed env c) \<or> ae_open env \<noteq> None"

lemma getChannel_usable: "snd (getChannel env p) \<noteq> None \<longleftrightarrow> usable_channel env p"
  by (auto simp: getChannel_def usable_channel_def Let_def split: option.splits)

lemma getChannel_kept: "snd (getChannel env p) = None \<Longrightarrow> fst (getChannel env p) = p"
  by (auto simp: getChannel_def Let_def split: option.splits if_splits)

lemma publish_on_cases:
  "publish_on env p pub =
     (if \<not> usable_channel env p then (p, Inl NoChannel)
      else if ae_accepts env then (fst (getChannel env p), Inr pub)
      else ((fst (getChannel env p))\<lparr>pb_ch := None\<rparr>, Inl (PublishRefused (pu_exchange pub) (pu_key pub))))"
  using getChannel_usable [of env p] getChannel_kept [of env p]
  by (auto simp: publish_on_def split: prod.split option.split)

text \<open>
  How publishing fails and recovers. Publishing an item fails exactly when there is no
  item, no usable channel, or the broker refuses it; only a refusal changes the publisher's
  channel, which is dropped, and then the next call on an open connection takes a new channel
  and succeeds.
\<close>

theorem publish_outcomes:
  assumes "PublishMessage env p item = (p', r)"
  shows "(r = Inl NilItem \<longleftrightarrow> item = None)
    \<and> (r = Inl NoChannel \<longleftrightarrow> item \<noteq> None \<and> \<not> usable_channel env p)
    \<and> ((\<exists>ex k. r = Inl (PublishRefused ex k)) \<longleftrightarrow> item \<noteq> None \<and> usable_channel env p \<and> \<not> ae_accepts env)
    \<and> (r = Inl NilItem \<or> r = Inl NoChannel \<longrightarrow> p' = p)
    \<and> (\<forall>env2 c ex k. r = Inl (PublishRefused ex k) \<and> ae_open env2 = Some c \<and> ae_accepts env2 \<longrightarrow>
         (\<exists>pub. PublishMessage env2 p' item = (\<lparr>pb_ch = Some c\<rparr>, Inr pub)))"
proof -
  have "\<exists>pub. PublishMessage env2 p' item = (\<lparr>pb_ch = Some c\<rparr>, Inr pub)"
    if "r = Inl (PublishRefused ex k)" "ae_open env2 = Some c" "ae_accepts env2" for env2 c ex k
    using assms that
    by (auto simp: PublishMessage_def publish_on_cases Let_def split: option.splits if_splits)
      (auto simp: usable_channel_def getChannel_def)
  moreover have "(r = Inl NilItem \<longleftrightarrow> item = None) \<and> (r = Inl NoChannel \<longleftrightarrow> item \<noteq> None \<and> \<not> usable_channel env p)
    \<and> ((\<exists>ex k. r = Inl (PublishRefused ex k)) \<longleftrightarrow> item \<noteq> None \<and> usable_channel env p \<and> \<not> ae_accepts env)
    \<and> (r = Inl NilItem \<or> r = Inl NoChannel \<longrightarrow> p' = p)"
    using assms by (auto simp: PublishMessage_def publish_on_cases Let_def split: option.splits if_splits)
  ultimately show ?thesis by blast
qed

theorem publish_outcomes_witness:
  "\<exists>p' ex k. PublishMessage (demo_amqp\<lparr>ae_accepts := False\<rparr>) (NewRabbitMQPublisher (Some 3)) (Some demo_item)
      = (p', Inl (PublishRefused ex k))
    \<and> (\<exists>pub. PublishMessage demo_amqp p' (Some demo_item) = (\<lparr>pb_ch = Some 1\<rparr>, Inr pub))"
proof -
  let ?env = "demo_amqp\<lparr>ae_accepts := False\<rparr>"
  obtain p' r where pr: "PublishMessage ?env (NewRabbitMQPublisher (Some 3)) (Some demo_item) = (p', r)" by force
  have "usable_channel ?env (NewRabbitMQPublisher (Some 3))" by (simp add: usable_channel_def demo_amqp_def)
  then obtain ex k where r: "r = Inl (PublishRefused ex k)" using publish_outcomes [OF pr] by auto
  have "ae_open demo_amqp = Some 1 \<and> ae_accepts demo_amqp" by (simp add: demo_amqp_def)
  then have "\<exists>pub. PublishMessage demo_amqp p' (Some demo_item) = (\<lparr>pb_ch = Some 1\<rparr>, Inr pub)"
    using publish_outcomes [OF pr] r by blast
  with pr r show ?thesis by blast
qed

section \<open>Settling deliveries\<close>

text \<open>
  The loop runs the handler on the decodable events in their order and settles each delivery
  that arrives before the loop ends, once.
\<close>

fun settle_all :: "('s \<Rightarrow> NipperEvent \<Rightarrow> 's \<times> bool) \<Rightarrow> 's \<Rightarrow> NipperEvent option list \<Rightarrow> 's \<times> settlement list" where
  "settle_all handler st [] = (st, [])"
| "settle_all handler st (b # bs) =
     (let (st1, a) = handleDelivery handler st b; (st2, as) = settle_all handler st1 bs in (st2, a # as))"

lemma consume_settles:
  assumes "settle_all handler st bs = (st', as)"
  shows "consume_loop handler st (map Arrives bs) = (st', as, None)"
    and "consume_loop handler st (map Arrives bs @ DeliveriesClosed # rest) = (st', as, Some DeliveryChannelClosed)"
    and "s \<in> {CtxDone, StopCalled} \<Longrightarrow> consume_loop handler st (map Arrives bs @ s # rest) = (st', as, Some Ended)"
  using assms
  by (induction bs arbitrary: st as) (auto split: prod.splits)

text \<open>Whatever ends its connections, a consumer settles each delivery it took, in order, exactly once.\<close>

fun taken :: "stimulus list \<Rightarrow> NipperEvent option list" where
  "taken (Arrives b # ss) = b # taken ss"
| "taken _ = []"

lemma settle_all_append:
  "settle_all handler st (bs @ cs) =
     (let (st1, as) = settle_all handler st bs; (st2, as') = settle_all handler st1 cs in (st2, as @ as'))"
  by (induction bs arbitrary: st) (auto simp: Let_def split: prod.splits)

lemma consume_loop_taken:
  "consume_loop handler st ss = (st', as, ex) \<Longrightarrow> settle_all handler st (taken ss) = (st', as)"
  by (induction ss arbitrary: st as rule: taken.induct) (auto split: prod.splits)

definition round_taken :: "consume_round \<Rightarrow> NipperEvent option list" where
  "round_taken r = (if ce_opened (cr_env r) \<and> ce_qos (cr_env r) \<and> ce_deliveries (cr_env r) then taken (cr_stimuli r) else [])"

lemma consume_taken:
  "consume (cr_env r) handler st (cr_stimuli r) = (st', as, ex) \<Longrightarrow> settle_all handler st (round_taken r) = (st', as)"
  by (auto simp: consume_def round_taken_def dest: consume_loop_taken split: if_splits)

lemma consumer_settles_all:
  "consume_rounds handler st rs = (st', as, ex) \<Longrightarrow>
     \<exists>n. settle_all handler st (concat (map round_taken (take n rs))) = (st', as)"
proof (induction rs arbitrary: st as)
  case Nil
  then show ?case by simp
next
  case (Cons r rs)
  obtain st1 as1 e where c: "consume (cr_env r) handler st (cr_stimuli r) = (st1, as1, e)" by (metis prod_cases3)
  note one = consume_taken [OF c]
  show ?case
  proof (cases "st' = st1 \<and> as = as1")
    case True
    with one show ?thesis by (intro exI [of _ "Suc 0"]) simp
  next
    case False
    with Cons.prems c obtain as2 where "consume_rounds handler st1 rs = (st', as2, ex)" "as = as1 @ as2"
      by (auto simp: Let_def split: option.splits prod.splits if_splits)
    with Cons.IH [OF this(1)] obtain n where "settle_all handler st1 (concat (map round_taken (take n rs))) = (st', as2)"
      by blast
    with one \<open>as = as1 @ as2\<close> show ?thesis by (intro exI [of _ "Suc n"]) (simp add: settle_all_append)
  qed
qed

lemma settle_all_length: "settle_all handler st bs = (st', as) \<Longrightarrow> length as = length bs"
  by (induction bs arbitrary: st as) (auto split: prod.splits)

text \<open>With a handler that reports no error, exactly the undecodable deliveries are dropped.\<close>

lemma settle_all_total:
  assumes "\<And>st e. \<not> snd (handler st e)"
  shows "settle_all handler st bs =
    (foldl (\<lambda>st e. fst (handler st e)) st (List.map_filter id bs), map (\<lambda>b. if b = None then NackDrop else Ack) bs)"
  using assms
  by (induction bs arbitrary: st)
    (auto simp: handleDelivery_def List.map_filter_def case_prod_unfold Let_def split: option.split)

end
