(* ===== verification/Listings.thy ===== *)
theory Listings
  imports Datastore
begin

text \<open>
  The list queries of the SQLite store (\<^verbatim>\<open>ListUsers\<close>, \<^verbatim>\<open>ListIdentities\<close>, \<^verbatim>\<open>ListAllowed\<close>, \<^verbatim>\<open>ListAgents\<close>
  and \<^verbatim>\<open>QueryAuditLog\<close> under \<^verbatim>\<open>internal/datastore/sqlite\<close>).

  The time columns hold RFC 3339 text with nanoseconds, whose trailing zeros the formatter
  drops, and \<^verbatim>\<open>ORDER BY\<close> and the comparisons of the filters compare that text byte by byte.
  In the years the text has four digits for, the part up to the seconds has a fixed width
  and orders like the seconds themselves; what follows is the fraction and the letter Z.
\<close>

section \<open>Time stamps as text\<close>

definition time_text :: "time \<Rightarrow> int \<times> string" where
  "time_text t = (t div Second, frac_text (nat (t mod Second)))"

section \<open>Queries\<close>

definition ListUsers :: "Store \<Rightarrow> User list result" where
  "ListUsers s = fetch s (Inr (sort_key (\<lambda>u. time_text (us_CreatedAt u)) (db_users s)))"

definition ListIdentities :: "Store \<Rightarrow> string \<Rightarrow> Identity list result" where
  "ListIdentities s userID =
     fetch s (Inr (sort_key (\<lambda>i. time_text (id_CreatedAt i)) (filter (\<lambda>i. id_UserID i = userID) (db_identities s))))"

definition ListAllowed :: "Store \<Rightarrow> string \<Rightarrow> AllowlistEntry list result" where
  "ListAllowed s channelType =
     fetch s (Inr (sort_key (\<lambda>a. time_text (al_CreatedAt a))
       (if channelType = [] \<or> channelType = ''*'' then db_allowed s
        else filter (\<lambda>a. al_ChannelType a = channelType) (db_allowed s))))"

definition ListAgents :: "Store \<Rightarrow> string \<Rightarrow> Agent list result" where
  "ListAgents s userID =
     fetch s (Inr (sort_key (\<lambda>a. time_text (ag_CreatedAt a))
       (if userID = [] then db_agents s else filter (\<lambda>a. ag_UserID a = userID) (db_agents s))))"

record AuditQueryFilters =
  af_Since :: "time option"
  af_Until :: "time option"
  af_Action :: string
  af_TargetUserID :: string
  af_Limit :: int

definition audit_matches :: "AuditQueryFilters \<Rightarrow> AdminAuditEntry \<Rightarrow> bool" where
  "audit_matches f e \<longleftrightarrow>
     (case af_Since f of None \<Rightarrow> True | Some t \<Rightarrow> time_text t \<le> time_text (au_Timestamp e))
     \<and> (case af_Until f of None \<Rightarrow> True | Some t \<Rightarrow> time_text (au_Timestamp e) \<le> time_text t)
     \<and> (af_Action f = [] \<or> au_Action e = af_Action f)
     \<and> (af_TargetUserID f = [] \<or> au_TargetUserID e = af_TargetUserID f)"

text \<open>
  Newest first. Entries with equal time stamps come in an order that SQL leaves open; here
  the later row comes first.
\<close>

definition QueryAuditLog :: "Store \<Rightarrow> AuditQueryFilters \<Rightarrow> AdminAuditEntry list result" where
  "QueryAuditLog s f =
     fetch s (let rows = rev (sort_key (\<lambda>e. time_text (au_Timestamp e)) (filter (audit_matches f) (db_audit s)))
              in Inr (if 0 < af_Limit f then take (nat (af_Limit f)) rows else rows))"

section \<open>How the text orders instants\<close>

lemma time_text_earlier_second: "t div Second < t' div Second \<Longrightarrow> time_text t < time_text t'"
  by (simp add: time_text_def less_prod_def)

lemma frac_text_le_Z: "frac_text n \<le> ''Z''"
  by (simp add: frac_text_def less_eq_char_def)

lemma frac_text_ge_Z: "''Z'' \<le> frac_text n \<longleftrightarrow> n = 0"
proof -
  have "frac_text n = ''Z'' \<longleftrightarrow> n = 0" by (simp add: frac_text_def)
  with frac_text_le_Z [of n] show ?thesis by (metis order.antisym order.refl)
qed

lemma next_multiple:
  fixes c :: int
  assumes "S mod c = 0" "0 < c"
  shows "(S div c < t div c \<or> S div c = t div c \<and> t mod c = 0) \<longleftrightarrow> t = S \<or> S + c \<le> t"
proof -
  define q d r where "q = S div c" and "d = t div c" and "r = t mod c"
  have S: "S = q * c" and t: "t = d * c + r" and r: "0 \<le> r" "r < c"
    using assms by (auto simp: q_def d_def r_def)
  have "q < d \<longleftrightarrow> q * c + c \<le> d * c + r"
  proof
    assume "q < d"
    then have "(q + 1) * c \<le> d * c" using assms(2) by (intro mult_right_mono) auto
    with r show "q * c + c \<le> d * c + r" by (simp add: algebra_simps)
  next
    assume "q * c + c \<le> d * c + r"
    with r have "q * c < d * c" by linarith
    with assms(2) show "q < d" by simp
  qed
  then have "q < d \<longleftrightarrow> S + c \<le> t" by (simp only: S t)
  moreover have "q = d \<and> r = 0 \<longleftrightarrow> t = S"
  proof
    assume "q = d \<and> r = 0"
    then show "t = S" by (simp add: S t)
  next
    assume "t = S"
    then show "q = d \<and> r = 0" using assms(1) by (simp add: q_def d_def r_def)
  qed
  ultimately show ?thesis unfolding q_def d_def r_def by (simp only: disj_commute)
qed

text \<open>
  The text of a whole second comes after the text of every other instant of that second.
\<close>

lemma whole_second_le:
  assumes "S mod Second = 0"
  shows "time_text S \<le> time_text t \<longleftrightarrow> t = S \<or> S + Second \<le> t"
proof -
  have S: "time_text S = (S div Second, ''Z'')" using assms by (simp add: time_text_def frac_text_def)
  have "time_text S \<le> time_text t \<longleftrightarrow> S div Second < t div Second \<or> (S div Second = t div Second \<and> t mod Second = 0)"
    unfolding S unfolding time_text_def by (simp add: less_eq_prod_def frac_text_ge_Z) linarith
  also have "\<dots> \<longleftrightarrow> t = S \<or> S + Second \<le> t" by (rule next_multiple [OF assms]) simp
  finally show ?thesis .
qed

text \<open>
  An audit query whose lower bound is a whole second skips the rest of that second. With
  no other filter it returns, newest text first, exactly the entries at that instant or at
  least one second later: an entry half a second after the bound is missing.
\<close>

theorem audit_since_skips_second:
  assumes "db_open s" and "S mod Second = 0"
    and "QueryAuditLog s \<lparr>af_Since = Some S, af_Until = None, af_Action = [], af_TargetUserID = [], af_Limit = 0\<rparr> = Inr es"
  shows "set es = {e \<in> set (db_audit s). au_Timestamp e = S \<or> S + Second \<le> au_Timestamp e}"
  using assms by (auto simp: QueryAuditLog_def fetch_def audit_matches_def whole_second_le)

definition demo_audit :: "time \<Rightarrow> AdminAuditEntry" where
  "demo_audit t = \<lparr>au_ID = t, au_Timestamp = t, au_Action = ''a'', au_Actor = ''x'', au_TargetUserID = [],
     au_Details = [], au_IPAddress = []\<rparr>"

theorem audit_since_skips_second_witness:
  "\<exists>es. QueryAuditLog (emptyStore\<lparr>db_audit := [demo_audit (5 * Second), demo_audit (5 * Second + 1), demo_audit (6 * Second)]\<rparr>)
       \<lparr>af_Since = Some (5 * Second), af_Until = None, af_Action = [], af_TargetUserID = [], af_Limit = 0\<rparr> = Inr es
     \<and> set es = {demo_audit (5 * Second), demo_audit (6 * Second)}"
proof -
  let ?s = "emptyStore\<lparr>db_audit := [demo_audit (5 * Second), demo_audit (5 * Second + 1), demo_audit (6 * Second)]\<rparr>"
  let ?f = "\<lparr>af_Since = Some (5 * Second), af_Until = None, af_Action = [], af_TargetUserID = [], af_Limit = 0\<rparr>"
  obtain es where es: "QueryAuditLog ?s ?f = Inr es"
    by (simp add: QueryAuditLog_def fetch_def emptyStore_def)
  have "set es = {e \<in> set (db_audit ?s). au_Timestamp e = 5 * Second \<or> 5 * Second + Second \<le> au_Timestamp e}"
    by (rule audit_since_skips_second [OF _ _ es]) (simp_all add: emptyStore_def)
  also have "\<dots> = {demo_audit (5 * Second), demo_audit (6 * Second)}" by (auto simp: demo_audit_def)
  finally show ?thesis using es by blast
qed

end
