(* ===== verification/Scheduler.thy ===== *)
theory Scheduler
  imports Datastore
begin

text \<open>
  The scheduler of cron jobs and one-shot jobs (\<^verbatim>\<open>internal/channels/cron/scheduler.go\<close>).

  The cron engine is a library: what it answers to \<^verbatim>\<open>AddFunc\<close> (an entry id, or an error for a
  schedule it cannot parse) and the number of a timer that \<^verbatim>\<open>time.AfterFunc\<close> arms are
  arguments. \<open>sc_entries\<close> and \<open>sc_timers\<close> record which closures the engine and the runtime
  hold, that is, which jobs can still fire. \<^verbatim>\<open>time.Parse(time.RFC3339, ...)\<close> is an argument too.
\<close>

section \<open>State\<close>

definition cronJobKey :: "CronJob \<Rightarrow> string" where
  "cronJobKey job = cj_UserID job @ '':'' @ cj_ID job"

definition atJobKey :: "AtJob \<Rightarrow> string" where
  "atJobKey job = aj_UserID job @ '':'' @ aj_ID job"

record Scheduler =
  sc_handler :: bool  \<comment> \<open>whether a handler is set\<close>
  sc_entries :: "nat \<rightharpoonup> CronJob"
  sc_entryIDs :: "string \<rightharpoonup> nat"
  sc_jobs :: "CronJob list"
  sc_timers :: "nat \<rightharpoonup> AtJob"
  sc_atTimers :: "string \<rightharpoonup> nat"
  sc_atJobs :: "AtJob list"

definition NewScheduler :: Scheduler where
  "NewScheduler =
     \<lparr>sc_handler = False, sc_entries = Map.empty, sc_entryIDs = Map.empty, sc_jobs = [],
      sc_timers = Map.empty, sc_atTimers = Map.empty, sc_atJobs = []\<rparr>"

definition SetHandler :: "Scheduler \<Rightarrow> Scheduler" where
  "SetHandler s = s\<lparr>sc_handler := True\<rparr>"

datatype sched_error =
  MissingField | AlreadyRegistered string | InvalidSchedule string | InvalidRunAt string | RunAtPast

section \<open>Cron jobs\<close>

text \<open>A validator answers \<open>None\<close> when the lookup of the user fails.\<close>

type_synonym user_validator = "string \<Rightarrow> bool option"

definition register_entry :: "CronJob \<Rightarrow> nat \<Rightarrow> Scheduler \<Rightarrow> Scheduler" where
  "register_entry job entryID s =
     s\<lparr>sc_entries := (sc_entries s)(entryID \<mapsto> job), sc_entryIDs := (sc_entryIDs s)(cronJobKey job \<mapsto> entryID),
       sc_jobs := sc_jobs s @ [job]\<rparr>"

definition load_job :: "user_validator option \<Rightarrow> CronJob \<times> nat option \<Rightarrow> Scheduler \<Rightarrow> Scheduler" where
  "load_job validator p s =
     (let job = fst p in
      if cj_ID job = [] then s
      else if cj_Schedule job = [] then s
      else if cj_UserID job = [] then s
      else if cj_Prompt job = [] then s
      else if (case validator of None \<Rightarrow> False | Some v \<Rightarrow> v (cj_UserID job) \<noteq> Some True) then s
      else (case snd p of None \<Rightarrow> s | Some entryID \<Rightarrow> register_entry job entryID s))"

text \<open>Each job comes with the engine's answer to its registration.\<close>

definition LoadJobs :: "Scheduler \<Rightarrow> (CronJob \<times> nat option) list \<Rightarrow> user_validator option \<Rightarrow> Scheduler" where
  "LoadJobs s jobs validator = fold (load_job validator) jobs (s\<lparr>sc_jobs := []\<rparr>)"

definition AddJob :: "Scheduler \<Rightarrow> CronJob \<Rightarrow> nat option \<Rightarrow> Scheduler \<times> (sched_error + unit)" where
  "AddJob s job entry =
     (if cj_ID job = [] \<or> cj_Schedule job = [] \<or> cj_UserID job = [] \<or> cj_Prompt job = [] then (s, Inl MissingField)
      else if sc_entryIDs s (cronJobKey job) \<noteq> None then (s, Inl (AlreadyRegistered (cronJobKey job)))
      else case entry of
             None \<Rightarrow> (s, Inl (InvalidSchedule (cj_Schedule job)))
           | Some entryID \<Rightarrow> (register_entry job entryID s, Inr ()))"

definition RemoveJob :: "Scheduler \<Rightarrow> string \<Rightarrow> string \<Rightarrow> Scheduler \<times> bool" where
  "RemoveJob s userID jobID =
     (let key = userID @ '':'' @ jobID in
      case sc_entryIDs s key of
        None \<Rightarrow> (s, False)
      | Some entryID \<Rightarrow>
          (s\<lparr>sc_entries := (sc_entries s)(entryID := None), sc_entryIDs := (sc_entryIDs s)(key := None),
             sc_jobs := remove_first (\<lambda>j. cj_UserID j = userID \<and> cj_ID j = jobID) (sc_jobs s)\<rparr>, True))"

definition Jobs :: "Scheduler \<Rightarrow> CronJob list" where "Jobs s = sc_jobs s"

definition JobCount :: "Scheduler \<Rightarrow> nat" where "JobCount s = length (sc_jobs s)"

section \<open>One-shot jobs\<close>

definition scheduleAtJob :: "AtJob \<Rightarrow> nat \<Rightarrow> Scheduler \<Rightarrow> Scheduler" where
  "scheduleAtJob job timer s =
     s\<lparr>sc_timers := (sc_timers s)(timer \<mapsto> job), sc_atTimers := (sc_atTimers s)(atJobKey job \<mapsto> timer),
       sc_atJobs := sc_atJobs s @ [job]\<rparr>"

text \<open>
  Loading returns the jobs it hands to the cleanup function, in order; each job comes with
  the number of the timer it gets if it is scheduled.
\<close>

fun load_at_jobs ::
  "(string \<Rightarrow> time option) \<Rightarrow> time \<Rightarrow> user_validator option \<Rightarrow> (AtJob \<times> nat) list \<Rightarrow> Scheduler
    \<Rightarrow> Scheduler \<times> (string \<times> string) list"
where
  "load_at_jobs parse now validator [] s = (s, [])"
| "load_at_jobs parse now validator ((job, timer) # rest) s =
     (case parse (aj_RunAt job) of
        None \<Rightarrow> (let (s', cleaned) = load_at_jobs parse now validator rest s in (s', (aj_ID job, aj_UserID job) # cleaned))
      | Some runAt \<Rightarrow>
          if runAt < now
          then (let (s', cleaned) = load_at_jobs parse now validator rest s in (s', (aj_ID job, aj_UserID job) # cleaned))
          else if (case validator of None \<Rightarrow> False | Some v \<Rightarrow> v (aj_UserID job) \<noteq> Some True)
          then load_at_jobs parse now validator rest s
          else load_at_jobs parse now validator rest (scheduleAtJob job timer s))"

definition LoadAtJobs ::
  "(string \<Rightarrow> time option) \<Rightarrow> time \<Rightarrow> Scheduler \<Rightarrow> (AtJob \<times> nat) list \<Rightarrow> user_validator option
    \<Rightarrow> Scheduler \<times> (string \<times> string) list"
where
  "LoadAtJobs parse now s jobs validator = load_at_jobs parse now validator jobs s"

definition sched_AddAtJob ::
  "(string \<Rightarrow> time option) \<Rightarrow> time \<Rightarrow> Scheduler \<Rightarrow> AtJob \<Rightarrow> nat \<Rightarrow> Scheduler \<times> (sched_error + unit)"
where
  "sched_AddAtJob parse now s job timer =
     (if aj_ID job = [] \<or> aj_RunAt job = [] \<or> aj_UserID job = [] \<or> aj_Prompt job = [] then (s, Inl MissingField)
      else case parse (aj_RunAt job) of
             None \<Rightarrow> (s, Inl (InvalidRunAt (aj_RunAt job)))
           | Some runAt \<Rightarrow>
               if runAt < now then (s, Inl RunAtPast)
               else if sc_atTimers s (atJobKey job) \<noteq> None then (s, Inl (AlreadyRegistered (atJobKey job)))
               else (scheduleAtJob job timer s, Inr ()))"

definition sched_RemoveAtJob :: "Scheduler \<Rightarrow> string \<Rightarrow> string \<Rightarrow> Scheduler \<times> bool" where
  "sched_RemoveAtJob s userID jobID =
     (let key = userID @ '':'' @ jobID in
      case sc_atTimers s key of
        None \<Rightarrow> (s, False)
      | Some timer \<Rightarrow>
          (s\<lparr>sc_timers := (sc_timers s)(timer := None), sc_atTimers := (sc_atTimers s)(key := None),
             sc_atJobs := remove_first (\<lambda>j. aj_UserID j = userID \<and> aj_ID j = jobID) (sc_atJobs s)\<rparr>, True))"

definition AtJobs :: "Scheduler \<Rightarrow> AtJob list" where "AtJobs s = sc_atJobs s"

text \<open>
  A timer goes off in two stages: the runtime starts the callback, which first hands the
  message to the handler and takes no lock meanwhile; then the callback takes the lock and
  forgets the job, by its key. The last result is the call of the cleanup function.
\<close>

definition at_timer_starts :: "nat \<Rightarrow> Scheduler \<Rightarrow> Scheduler \<times> AtJob option" where
  "at_timer_starts timer s = (s\<lparr>sc_timers := (sc_timers s)(timer := None)\<rparr>, sc_timers s timer)"

definition at_timer_finishes :: "AtJob \<Rightarrow> Scheduler \<Rightarrow> Scheduler \<times> (string \<times> string)" where
  "at_timer_finishes j s =
     (s\<lparr>sc_atTimers := (sc_atTimers s)(atJobKey j := None),
        sc_atJobs := remove_first (\<lambda>aj. aj_UserID aj = aj_UserID j \<and> aj_ID aj = aj_ID j) (sc_atJobs s)\<rparr>,
      (aj_ID j, aj_UserID j))"

section \<open>Firing\<close>

text \<open>What one firing reads: a fresh message id and the clock, as an instant and as RFC 3339 text.\<close>

record fire_env =
  fe_uuid :: string
  fe_now :: time
  fe_now_text :: string

definition job_message ::
  "fire_env \<Rightarrow> string \<Rightarrow> string \<Rightarrow> string \<Rightarrow> string \<Rightarrow> string list \<Rightarrow> NipperMessage"
where
  "job_message env kind jobID userID prompt notify =
     \<lparr>nm_MessageID = fe_uuid env,
      nm_OriginMessageID = kind @ '':'' @ jobID @ '':'' @ show_int (fe_now env div Millisecond),
      nm_UserID = userID, nm_SessionKey = [], nm_ChannelType = ChannelTypeCron,
      nm_ChannelIdentity = kind @ '':'' @ jobID,
      nm_Content = \<lparr>mc_Text = prompt, mc_Parts = []\<rparr>,
      nm_DeliveryContext = zeroDeliveryContext
        \<lparr>dc_ChannelType := ChannelTypeCron, dc_ChannelID := jobID, dc_ReplyMode := ''broadcast'',
         dc_NotifyChannels := notify, dc_Capabilities := CronCapabilities\<rparr>,
      nm_Meta = Some (MetaCron \<lparr>cm_JobID = jobID, cm_ScheduleAt = fe_now_text env\<rparr>),
      nm_Timestamp = fe_now env, nm_DedupeKey = []\<rparr>"

definition fireJob :: "fire_env \<Rightarrow> Scheduler \<Rightarrow> CronJob \<Rightarrow> NipperMessage option" where
  "fireJob env s job =
     (if \<not> sc_handler s then None
      else Some (job_message env ''cron'' (cj_ID job) (cj_UserID job) (cj_Prompt job) (cj_NotifyChannels job)))"

definition fireAtJob :: "fire_env \<Rightarrow> Scheduler \<Rightarrow> AtJob \<Rightarrow> NipperMessage option" where
  "fireAtJob env s job =
     (if \<not> sc_handler s then None
      else Some (job_message env ''at'' (aj_ID job) (aj_UserID job) (aj_Prompt job) (aj_NotifyChannels job)))"

section \<open>Job tables\<close>

text \<open>
  Cron jobs and one-shot jobs are kept alike: the closures that can still fire, the map from
  keys to their handles, and the list. The three agree.
\<close>

definition in_sync ::
  "('j \<Rightarrow> string) \<Rightarrow> ('j \<Rightarrow> string) \<Rightarrow> (nat \<rightharpoonup> 'j) \<Rightarrow> (string \<rightharpoonup> nat) \<Rightarrow> 'j list \<Rightarrow> bool"
where
  "in_sync key owner held ids jobs \<longleftrightarrow>
     distinct (map key jobs) \<and> set jobs = ran held \<and> (\<forall>j \<in> set jobs. CHR '':'' \<notin> set (owner j)) \<and>
     (\<forall>k e. ids k = Some e \<longleftrightarrow> (\<exists>j. held e = Some j \<and> key j = k))"

lemma remove_first_cong: "(\<And>x. x \<in> set xs \<Longrightarrow> P x = Q x) \<Longrightarrow> remove_first P xs = remove_first Q xs"
  by (induction xs) auto

locale job_table =
  fixes key owner ident :: "'j \<Rightarrow> string"
  assumes key_form: "key j = owner j @ CHR '':'' # ident j"
begin

lemma sync_empty: "in_sync key owner Map.empty Map.empty []"
  by (simp add: in_sync_def)

lemma sync_key:
  assumes "in_sync key owner held ids jobs" "j \<in> set jobs" "CHR '':'' \<notin> set u"
  shows "key j = u @ CHR '':'' # i \<longleftrightarrow> owner j = u \<and> ident j = i"
  using assms by (simp add: in_sync_def key_form append_sep_inj)

lemma sync_absent:
  assumes "in_sync key owner held ids jobs" "ids k = None"
  shows "k \<notin> key ` set jobs"
proof
  assume "k \<in> key ` set jobs"
  then obtain j where "j \<in> ran held" "key j = k" using assms(1) by (auto simp: in_sync_def)
  then obtain e where "held e = Some j" by (auto simp: ran_def)
  with \<open>key j = k\<close> assms show False unfolding in_sync_def by (metis option.distinct(1))
qed

lemma sync_add:
  assumes sync: "in_sync key owner held ids jobs" and fresh: "held e = None" "ids (key j) = None"
    and owner: "CHR '':'' \<notin> set (owner j)"
  shows "in_sync key owner (held(e \<mapsto> j)) (ids(key j \<mapsto> e)) (jobs @ [j])"
proof -
  have "ids k = Some e' \<Longrightarrow> e' \<noteq> e" for k e' using sync fresh(1) by (auto simp: in_sync_def)
  moreover have "ran (held(e \<mapsto> j)) = insert j (ran held)" using fresh(1) by simp
  moreover have "key j \<notin> key ` set jobs" by (rule sync_absent [OF sync fresh(2)])
  moreover have "held e' = Some j' \<Longrightarrow> key j' \<noteq> key j" for e' j'
    using sync fresh(2) unfolding in_sync_def by (metis option.distinct(1))
  ultimately show ?thesis
    using sync owner fresh by (auto simp: in_sync_def intro: ranI)
qed

lemma sync_lookup:
  assumes "in_sync key owner held ids jobs" "CHR '':'' \<notin> set u"
  shows "ids (u @ CHR '':'' # i) \<noteq> None \<longleftrightarrow> (\<exists>j \<in> set jobs. owner j = u \<and> ident j = i)"
proof -
  have "ids (u @ CHR '':'' # i) \<noteq> None \<longleftrightarrow> (\<exists>j \<in> ran held. key j = u @ CHR '':'' # i)"
    using assms(1) by (fastforce simp: in_sync_def ran_def)
  also have "\<dots> \<longleftrightarrow> (\<exists>j \<in> set jobs. key j = u @ CHR '':'' # i)" using assms(1) by (simp add: in_sync_def)
  finally show ?thesis using sync_key [OF assms(1) _ assms(2)] by blast
qed

lemma sync_remove:
  assumes sync: "in_sync key owner held ids jobs" and u: "CHR '':'' \<notin> set u"
    and e: "ids (u @ CHR '':'' # i) = Some e"
  shows "in_sync key owner (held(e := None)) (ids(u @ CHR '':'' # i := None))
      (remove_first (\<lambda>j. owner j = u \<and> ident j = i) jobs)"
    and "ran (held(e := None)) = {j \<in> ran held. \<not> (owner j = u \<and> ident j = i)}"
proof -
  let ?k = "u @ CHR '':'' # i"
  have inj: "held e' = Some j \<Longrightarrow> key j = ?k \<longleftrightarrow> e' = e" for e' j
    using sync e unfolding in_sync_def by (metis option.inject)
  have jobs: "remove_first (\<lambda>j. owner j = u \<and> ident j = i) jobs = filter (\<lambda>j. key j \<noteq> ?k) jobs"
  proof -
    have "remove_first (\<lambda>j. owner j = u \<and> ident j = i) jobs = remove_first (\<lambda>j. key j = ?k) jobs"
      using sync_key [OF sync _ u] by (intro remove_first_cong) simp
    then show ?thesis using sync by (simp add: remove_first_distinct in_sync_def)
  qed
  have ran: "ran (held(e := None)) = {j \<in> ran held. key j \<noteq> ?k}"
    unfolding ran_def using inj by (auto split: if_splits)
  then show "ran (held(e := None)) = {j \<in> ran held. \<not> (owner j = u \<and> ident j = i)}"
    using sync sync_key [OF sync _ u] by (auto simp: in_sync_def)
  show "in_sync key owner (held(e := None)) (ids(?k := None)) (remove_first (\<lambda>j. owner j = u \<and> ident j = i) jobs)"
    unfolding jobs using sync ran inj by (auto simp: in_sync_def distinct_map inj_on_def)
qed

end

interpretation cron: job_table cronJobKey cj_UserID cj_ID
  by unfold_locales (simp add: cronJobKey_def)

interpretation at_jobs: job_table atJobKey aj_UserID aj_ID
  by unfold_locales (simp add: atJobKey_def)

section \<open>What is listed is what runs\<close>

definition cron_sync :: "Scheduler \<Rightarrow> bool" where
  "cron_sync s \<longleftrightarrow> in_sync cronJobKey cj_UserID (sc_entries s) (sc_entryIDs s) (sc_jobs s)"

text \<open>
  The life of a scheduler: the jobs of the start are loaded once, before any other call;
  then come the runtime calls. The engine gives out unused entry ids, and user ids have no
  colon.
\<close>

inductive sched_reach :: "Scheduler \<Rightarrow> bool" where
  load: "distinct (map (cronJobKey \<circ> fst) jobs) \<Longrightarrow> distinct (List.map_filter snd jobs) \<Longrightarrow>
    (\<forall>p \<in> set jobs. CHR '':'' \<notin> set (cj_UserID (fst p))) \<Longrightarrow> sched_reach (LoadJobs NewScheduler jobs validator)"
| add: "sched_reach s \<Longrightarrow> CHR '':'' \<notin> set (cj_UserID job) \<Longrightarrow> (\<And>e. entry = Some e \<Longrightarrow> sc_entries s e = None) \<Longrightarrow>
    sched_reach (fst (AddJob s job entry))"
| remove: "sched_reach s \<Longrightarrow> CHR '':'' \<notin> set u \<Longrightarrow> sched_reach (fst (RemoveJob s u i))"
| add_at: "sched_reach s \<Longrightarrow> sched_reach (fst (sched_AddAtJob parse now s aj timer))"
| load_at: "sched_reach s \<Longrightarrow> sched_reach (fst (LoadAtJobs parse now s ajobs validator))"
| remove_at: "sched_reach s \<Longrightarrow> sched_reach (fst (sched_RemoveAtJob s u i))"
| at_starts: "sched_reach s \<Longrightarrow> sched_reach (fst (at_timer_starts timer s))"
| at_finishes: "sched_reach s \<Longrightarrow> sched_reach (fst (at_timer_finishes aj s))"
| handler: "sched_reach s \<Longrightarrow> sched_reach (SetHandler s)"

lemma cron_sync_register:
  assumes "cron_sync s" "sc_entries s e = None" "sc_entryIDs s (cronJobKey job) = None" "CHR '':'' \<notin> set (cj_UserID job)"
  shows "cron_sync (register_entry job e s)"
  using cron.sync_add [of "sc_entries s" "sc_entryIDs s" "sc_jobs s" e job] assms
  by (simp add: cron_sync_def register_entry_def)

text \<open>What loading has registered so far: only keys and entry ids of the jobs seen.\<close>

lemma load_jobs_sync:
  assumes "cron_sync s" "distinct (map (cronJobKey \<circ> fst) jobs)" "distinct (List.map_filter snd jobs)"
    and "\<forall>p \<in> set jobs. CHR '':'' \<notin> set (cj_UserID (fst p)) \<and> sc_entryIDs s (cronJobKey (fst p)) = None
           \<and> (\<forall>e. snd p = Some e \<longrightarrow> sc_entries s e = None)"
  shows "cron_sync (fold (load_job validator) jobs s)"
  using assms
proof (induction jobs arbitrary: s)
  case (Cons p jobs)
  let ?s = "load_job validator p s"
  have s: "?s = s \<or> (\<exists>e. snd p = Some e \<and> ?s = register_entry (fst p) e s)"
    by (auto simp: load_job_def Let_def split: option.splits)
  then have "cron_sync ?s" using Cons.prems cron_sync_register [of s _ "fst p"] by auto
  moreover have "distinct (List.map_filter snd jobs)" using Cons.prems(3)
    by (auto simp: List.map_filter_def split: if_splits)
  moreover have "sc_entryIDs ?s (cronJobKey (fst q)) = None \<and> (\<forall>e. snd q = Some e \<longrightarrow> sc_entries ?s e = None)"
    if "q \<in> set jobs" for q
  proof -
    have "cronJobKey (fst q) \<noteq> cronJobKey (fst p)" using Cons.prems(2) that by (auto simp: image_iff)
    moreover have "snd q = Some e \<Longrightarrow> snd p \<noteq> Some e" for e
      using Cons.prems(3) that by (force simp: List.map_filter_def)
    ultimately show ?thesis using s Cons.prems(4) that by (auto simp: register_entry_def)
  qed
  ultimately show ?case using Cons by simp
qed simp

lemma cron_sync_cong:
  "sc_entries s' = sc_entries s \<Longrightarrow> sc_entryIDs s' = sc_entryIDs s \<Longrightarrow> sc_jobs s' = sc_jobs s \<Longrightarrow> cron_sync s' = cron_sync s"
  by (simp add: cron_sync_def)

lemma load_at_cron [simp]:
  "sc_entries (fst (load_at_jobs parse now v js s)) = sc_entries s"
  "sc_entryIDs (fst (load_at_jobs parse now v js s)) = sc_entryIDs s"
  "sc_jobs (fst (load_at_jobs parse now v js s)) = sc_jobs s"
  by (induction parse now v js s rule: load_at_jobs.induct)
    (auto simp: scheduleAtJob_def split: option.splits prod.splits)

lemma reach_cron_sync: "sched_reach s \<Longrightarrow> cron_sync s"
proof (induction rule: sched_reach.induct)
  case (load jobs validator)
  moreover have "cron_sync (NewScheduler\<lparr>sc_jobs := []\<rparr>)"
    using cron.sync_empty by (simp add: cron_sync_def NewScheduler_def)
  ultimately show ?case
    unfolding LoadJobs_def by (intro load_jobs_sync) (auto simp: NewScheduler_def)
next
  case (add s job entry)
  then show ?case by (auto simp: AddJob_def intro: cron_sync_register split: option.split)
next
  case (remove s u i)
  then show ?case
    using cron.sync_remove(1) [of "sc_entries s" "sc_entryIDs s" "sc_jobs s" u i]
    by (auto simp: RemoveJob_def cron_sync_def Let_def split: option.split)
qed (auto simp: sched_AddAtJob_def LoadAtJobs_def sched_RemoveAtJob_def at_timer_starts_def at_timer_finishes_def
    SetHandler_def scheduleAtJob_def Let_def cron_sync_def split: option.split)

text \<open>
  The job list is what the scheduler runs. In every reachable state the jobs the cron
  engine can fire are exactly the listed ones, one per user and job id; removing a job
  reports whether there was one, and afterwards the engine fires all other jobs and not this
  one.
\<close>

theorem scheduler_lists_what_runs:
  assumes "sched_reach s" and u: "CHR '':'' \<notin> set u"
  shows "ran (sc_entries s) = set (Jobs s) \<and> distinct (map (\<lambda>j. (cj_UserID j, cj_ID j)) (Jobs s))
    \<and> (snd (RemoveJob s u i) \<longleftrightarrow> (\<exists>j \<in> set (Jobs s). cj_UserID j = u \<and> cj_ID j = i))
    \<and> ran (sc_entries (fst (RemoveJob s u i))) = {j \<in> ran (sc_entries s). \<not> (cj_UserID j = u \<and> cj_ID j = i)}"
proof -
  have sync: "in_sync cronJobKey cj_UserID (sc_entries s) (sc_entryIDs s) (sc_jobs s)"
    using reach_cron_sync [OF assms(1)] by (simp add: cron_sync_def)
  then have jobs: "set (sc_jobs s) = ran (sc_entries s)" "distinct (map cronJobKey (sc_jobs s))"
    by (simp_all add: in_sync_def)
  have "distinct (map (\<lambda>j. (cj_UserID j, cj_ID j)) (sc_jobs s))"
    using jobs(2) by (auto simp: distinct_map inj_on_def cronJobKey_def)
  moreover have "snd (RemoveJob s u i) \<longleftrightarrow> (\<exists>j \<in> set (sc_jobs s). cj_UserID j = u \<and> cj_ID j = i)"
    using cron.sync_lookup [OF sync u, of i] by (auto simp: RemoveJob_def Let_def split: option.split)
  moreover have "ran (sc_entries (fst (RemoveJob s u i))) = {j \<in> ran (sc_entries s). \<not> (cj_UserID j = u \<and> cj_ID j = i)}"
    using cron.sync_remove(2) [OF sync u, of i] cron.sync_lookup [OF sync u, of i] jobs(1)
    by (auto simp: RemoveJob_def Let_def split: option.split)
  ultimately show ?thesis using jobs(1) by (simp add: Jobs_def)
qed

definition demo_job :: "string \<Rightarrow> string \<Rightarrow> CronJob" where
  "demo_job u i = \<lparr>cj_ID = i, cj_Schedule = ''@daily'', cj_UserID = u, cj_Prompt = ''p'', cj_NotifyChannels = []\<rparr>"

definition demo_scheduler :: Scheduler where
  "demo_scheduler = LoadJobs NewScheduler [(demo_job ''u'' ''a'', Some 1), (demo_job ''u'' ''b'', Some 2)] None"

lemma demo_scheduler_reachable: "sched_reach demo_scheduler"
  unfolding demo_scheduler_def
  by (rule sched_reach.load) (simp_all add: demo_job_def cronJobKey_def List.map_filter_def)

theorem scheduler_lists_what_runs_witness:
  "snd (RemoveJob demo_scheduler ''u'' ''a'') \<and> ran (sc_entries (fst (RemoveJob demo_scheduler ''u'' ''a''))) = {demo_job ''u'' ''b''}"
proof -
  have jobs: "Jobs demo_scheduler = [demo_job ''u'' ''a'', demo_job ''u'' ''b'']"
    by (simp add: demo_scheduler_def Jobs_def LoadJobs_def load_job_def register_entry_def NewScheduler_def demo_job_def Let_def)
  have colon: "CHR '':'' \<notin> set ''u''" by simp
  note runs = scheduler_lists_what_runs [OF demo_scheduler_reachable colon, of "''a''", unfolded jobs]
  have "snd (RemoveJob demo_scheduler ''u'' ''a'')" using runs by (simp add: demo_job_def)
  moreover have "ran (sc_entries (fst (RemoveJob demo_scheduler ''u'' ''a''))) = {demo_job ''u'' ''b''}"
  proof -
    have "ran (sc_entries (fst (RemoveJob demo_scheduler ''u'' ''a'')))
        = {j \<in> set [demo_job ''u'' ''a'', demo_job ''u'' ''b'']. \<not> (cj_UserID j = ''u'' \<and> cj_ID j = ''a'')}"
      using runs by metis
    also have "\<dots> = {demo_job ''u'' ''b''}" by (auto simp: demo_job_def)
    finally show ?thesis .
  qed
  ultimately show ?thesis ..
qed

section \<open>A one-shot job that cannot be cancelled\<close>

text \<open>
  Replacing a one-shot job while it fires loses hold of the new one. If the user removes
  a job whose callback is running and adds one with the same id again, the end of the old
  callback forgets the new job and has its row cleaned up: the new job's timer is armed, but
  the job is not listed and removing it reports that there is none.
\<close>

theorem at_job_refire_race:
  assumes t: "sc_timers s t = Some j" "sc_atTimers s (atJobKey j) = Some t"
    and one: "sc_atJobs s = [j]"
    and start: "at_timer_starts t s = (s1, Some j)"
    and rm: "sched_RemoveAtJob s1 (aj_UserID j) (aj_ID j) = (s2, True)"
    and new: "aj_UserID j' = aj_UserID j" "aj_ID j' = aj_ID j" "t' \<noteq> t"
    and add: "sched_AddAtJob parse now s2 j' t' = (s3, Inr ())"
    and fin: "at_timer_finishes j s3 = (s4, cleaned)"
  shows "sc_timers s4 t' = Some j' \<and> AtJobs s4 = [] \<and> cleaned = (aj_ID j', aj_UserID j')
    \<and> snd (sched_RemoveAtJob s4 (aj_UserID j') (aj_ID j')) = False"
proof -
  have k: "atJobKey j' = atJobKey j" "atJobKey j = aj_UserID j @ '':'' @ aj_ID j"
    using new by (simp_all add: atJobKey_def)
  have s1: "s1 = s\<lparr>sc_timers := (sc_timers s)(t := None)\<rparr>" using start by (simp add: at_timer_starts_def)
  have s2: "sc_atJobs s2 = []" using rm one t s1 by (auto simp: sched_RemoveAtJob_def k Let_def)
  have s3: "s3 = scheduleAtJob j' t' s2"
    using add by (auto simp: sched_AddAtJob_def split: if_splits option.splits)
  have "s4 = s3\<lparr>sc_atTimers := (sc_atTimers s3)(atJobKey j := None), sc_atJobs := []\<rparr>" "cleaned = (aj_ID j, aj_UserID j)"
    using fin s2 s3 new by (simp_all add: at_timer_finishes_def scheduleAtJob_def)
  with s3 new k show ?thesis by (simp add: scheduleAtJob_def AtJobs_def sched_RemoveAtJob_def Let_def)
qed

definition demo_at :: "string \<Rightarrow> AtJob" where
  "demo_at p = \<lparr>aj_ID = ''a'', aj_RunAt = ''t'', aj_UserID = ''u'', aj_Prompt = p, aj_NotifyChannels = []\<rparr>"

theorem at_job_refire_race_witness:
  "\<exists>s1 s2 s3 s4 cleaned. at_timer_starts 1 (scheduleAtJob (demo_at ''old'') 1 NewScheduler) = (s1, Some (demo_at ''old''))
     \<and> sched_RemoveAtJob s1 ''u'' ''a'' = (s2, True)
     \<and> sched_AddAtJob (\<lambda>_. Some 9) 5 s2 (demo_at ''new'') 2 = (s3, Inr ())
     \<and> at_timer_finishes (demo_at ''old'') s3 = (s4, cleaned)
     \<and> sc_timers s4 2 = Some (demo_at ''new'') \<and> AtJobs s4 = []"
proof -
  let ?s = "scheduleAtJob (demo_at ''old'') 1 NewScheduler"
  obtain s1 where s1: "at_timer_starts 1 ?s = (s1, Some (demo_at ''old''))"
    by (simp add: at_timer_starts_def scheduleAtJob_def)
  then obtain s2 where s2: "sched_RemoveAtJob s1 ''u'' ''a'' = (s2, True)" "sc_atTimers s2 = Map.empty"
    by (auto simp: at_timer_starts_def scheduleAtJob_def sched_RemoveAtJob_def atJobKey_def demo_at_def NewScheduler_def)
  then obtain s3 where s3: "sched_AddAtJob (\<lambda>_. Some 9) 5 s2 (demo_at ''new'') 2 = (s3, Inr ())"
    by (simp add: sched_AddAtJob_def demo_at_def)
  obtain s4 cleaned where s4: "at_timer_finishes (demo_at ''old'') s3 = (s4, cleaned)"
    by (cases "at_timer_finishes (demo_at ''old'') s3") blast
  have "sc_timers s4 2 = Some (demo_at ''new'') \<and> AtJobs s4 = []"
    using at_job_refire_race [of ?s 1 "demo_at ''old''" s1 s2 "demo_at ''new''" 2 "\<lambda>_. Some 9" 5 s3 s4 cleaned] s1 s2(1) s3 s4
    by (simp add: scheduleAtJob_def NewScheduler_def demo_at_def)
  with s1 s2(1) s3 s4 show ?thesis by blast
qed

end
