(* ===== verification/JobApi.thy ===== *)
theory JobApi
  imports Scheduler Listings
begin

text \<open>
  The job endpoints of the agents (\<^verbatim>\<open>internal/gateway/agent_cron_handler.go\<close> and
  \<^verbatim>\<open>agent_at_handler.go\<close>): authentication by bearer token, and the list, add and remove handlers
  over the datastore and the scheduler.

  A request is its headers and its decoded body; a response is its status and its payload.
  The token digest (SHA-256) is the argument \<open>hash\<close>, the engine's answer to a registration and
  the number of a new timer are arguments as in the scheduler.
\<close>

section \<open>Authentication\<close>

definition extractBearerToken :: "string \<Rightarrow> string" where
  "extractBearerToken auth =
     (if \<not> HasPrefix auth ''Bearer '' then [] else TrimSpace (TrimPrefix auth ''Bearer ''))"

record api_request =
  rq_Authorization :: string
  rq_UserID :: string  \<comment> \<open>the header X-Nipper-User-Id\<close>

datatype api_error = ApiMessage string | RejectedByScheduler sched_error

text \<open>The refusal is the status and the error of the response.\<close>

definition resolveAgentUser :: "(string \<Rightarrow> string) \<Rightarrow> Store \<Rightarrow> api_request \<Rightarrow> (nat \<times> api_error) + string" where
  "resolveAgentUser hash st r =
     (let token = extractBearerToken (rq_Authorization r) in
      if token = [] then Inl (401, ApiMessage ''unauthorized'')
      else case GetAgentByTokenHash st (hash token) of
             Inl _ \<Rightarrow> Inl (401, ApiMessage ''unauthorized'')
           | Inr agent \<Rightarrow>
               if ag_Status agent \<noteq> AgentStatusProvisioned \<and> ag_Status agent \<noteq> AgentStatusRegistered
               then Inl (403, ApiMessage ''agent revoked'')
               else let headerUserID = TrimSpace (rq_UserID r) in
                    if headerUserID \<noteq> []
                    then if headerUserID \<noteq> ag_UserID agent
                         then Inl (403, ApiMessage ''X-Nipper-User-Id does not match agent'')
                         else Inr headerUserID
                    else Inr (ag_UserID agent))"

section \<open>Delivery channels\<close>

fun notify_loop :: "Store \<Rightarrow> string \<Rightarrow> Identity list \<Rightarrow> string list" where
  "notify_loop st userID [] = []"
| "notify_loop st userID (i # is) =
     (if id_ChannelType i = ''cron'' then notify_loop st userID is
      else case IsAllowed st userID (id_ChannelType i) of
             Inr True \<Rightarrow> (id_ChannelType i @ '':'' @ id_ChannelIdentity i) # notify_loop st userID is
           | _ \<Rightarrow> notify_loop st userID is)"

definition resolveNotifyChannels :: "Store \<Rightarrow> string \<Rightarrow> string list result" where
  "resolveNotifyChannels st userID =
     (case ListIdentities st userID of
        Inl e \<Rightarrow> Inl e
      | Inr identities \<Rightarrow> Inr (notify_loop st userID identities))"

section \<open>Cron job endpoints\<close>

record cronAddRequest =
  ca_ID :: string
  ca_Schedule :: string
  ca_Prompt :: string

datatype 'j api_response =
  Listed "'j list"  \<comment> \<open>status 200\<close>
| Created 'j  \<comment> \<open>status 201\<close>
| NoContent  \<comment> \<open>status 204\<close>
| Refused nat api_error

text \<open>\<open>enabled\<close> says whether the gateway has a cron adapter.\<close>

record job_world =
  jw_store :: Store
  jw_sched :: Scheduler
  jw_enabled :: bool

definition cron_HandleList :: "(string \<Rightarrow> string) \<Rightarrow> job_world \<Rightarrow> api_request \<Rightarrow> CronJob api_response" where
  "cron_HandleList hash w r =
     (case resolveAgentUser hash (jw_store w) r of
        Inl (status, e) \<Rightarrow> Refused status e
      | Inr userID \<Rightarrow>
          (case ListCronJobsByUser (jw_store w) userID of
             Inl _ \<Rightarrow> Refused 500 (ApiMessage ''internal error'')
           | Inr jobs \<Rightarrow> Listed jobs))"

text \<open>
  When the scheduler refuses the stored job it is taken out of the datastore again, and the
  result of that is ignored: \<open>undone\<close> says whether the deletion was carried out.
\<close>

definition cron_HandleAdd ::
  "(string \<Rightarrow> string) \<Rightarrow> job_world \<Rightarrow> api_request \<Rightarrow> cronAddRequest option \<Rightarrow> nat option \<Rightarrow> bool
    \<Rightarrow> job_world \<times> CronJob api_response"
where
  "cron_HandleAdd hash w r body entry undone =
     (case resolveAgentUser hash (jw_store w) r of
        Inl (status, e) \<Rightarrow> (w, Refused status e)
      | Inr userID \<Rightarrow>
          (case body of
             None \<Rightarrow> (w, Refused 400 (ApiMessage ''invalid JSON''))
           | Some b \<Rightarrow>
               if ca_ID b = [] \<or> ca_Schedule b = [] \<or> ca_Prompt b = []
               then (w, Refused 400 (ApiMessage ''id, schedule, and prompt are required''))
               else if TrimSpace (ca_Prompt b) = []
               then (w, Refused 400 (ApiMessage ''prompt must be non-empty (cron jobs are prompts only)''))
               else if \<not> jw_enabled w then (w, Refused 503 (ApiMessage ''cron channel is disabled''))
               else case resolveNotifyChannels (jw_store w) userID of
                      Inl _ \<Rightarrow> (w, Refused 500 (ApiMessage ''failed to resolve delivery channels''))
                    | Inr notifyChannels \<Rightarrow>
                        let job = \<lparr>cj_ID = ca_ID b, cj_Schedule = ca_Schedule b, cj_UserID = userID,
                                   cj_Prompt = ca_Prompt b, cj_NotifyChannels = notifyChannels\<rparr> in
                        (case AddCronJob (jw_store w) job of
                           (st, Inl _) \<Rightarrow> (w\<lparr>jw_store := st\<rparr>, Refused 409 (ApiMessage ''job id already exists for this user''))
                         | (st, Inr _) \<Rightarrow>
                             (case AddJob (jw_sched w) job entry of
                                (sc, Inl e) \<Rightarrow>
                                  (w\<lparr>jw_store := (if undone then fst (RemoveCronJob st (ca_ID b) userID) else st), jw_sched := sc\<rparr>,
                                   Refused 400 (RejectedByScheduler e))
                              | (sc, Inr _) \<Rightarrow> (w\<lparr>jw_store := st, jw_sched := sc\<rparr>, Created job)))))"

definition cron_HandleRemove ::
  "(string \<Rightarrow> string) \<Rightarrow> job_world \<Rightarrow> api_request \<Rightarrow> string \<Rightarrow> job_world \<times> CronJob api_response"
where
  "cron_HandleRemove hash w r jobID =
     (case resolveAgentUser hash (jw_store w) r of
        Inl (status, e) \<Rightarrow> (w, Refused status e)
      | Inr userID \<Rightarrow>
          if jobID = [] then (w, Refused 400 (ApiMessage ''job id required''))
          else case RemoveCronJob (jw_store w) jobID userID of
                 (st, Inl _) \<Rightarrow> (w\<lparr>jw_store := st\<rparr>, Refused 404 (ApiMessage ''job not found or not owned by user''))
               | (st, Inr _) \<Rightarrow>
                   (w\<lparr>jw_store := st,
                      jw_sched := (if jw_enabled w then fst (RemoveJob (jw_sched w) userID jobID) else jw_sched w)\<rparr>,
                    NoContent))"

section \<open>One-shot job endpoints\<close>

record atAddRequest =
  aa_ID :: string
  aa_RunAt :: string
  aa_Prompt :: string

definition at_HandleList :: "(string \<Rightarrow> string) \<Rightarrow> job_world \<Rightarrow> api_request \<Rightarrow> AtJob api_response" where
  "at_HandleList hash w r =
     (case resolveAgentUser hash (jw_store w) r of
        Inl (status, e) \<Rightarrow> Refused status e
      | Inr userID \<Rightarrow>
          (case ListAtJobsByUser (jw_store w) userID of
             Inl _ \<Rightarrow> Refused 500 (ApiMessage ''internal error'')
           | Inr jobs \<Rightarrow> Listed jobs))"

text \<open>The clock is read twice: by the handler and, later, by the scheduler. The rollback's result is ignored here too.\<close>

definition at_HandleAdd ::
  "(string \<Rightarrow> string) \<Rightarrow> (string \<Rightarrow> time option) \<Rightarrow> time \<Rightarrow> time \<Rightarrow> job_world \<Rightarrow> api_request \<Rightarrow> atAddRequest option \<Rightarrow> nat
    \<Rightarrow> bool \<Rightarrow> job_world \<times> AtJob api_response"
where
  "at_HandleAdd hash parse now now' w r body timer undone =
     (case resolveAgentUser hash (jw_store w) r of
        Inl (status, e) \<Rightarrow> (w, Refused status e)
      | Inr userID \<Rightarrow>
          (case body of
             None \<Rightarrow> (w, Refused 400 (ApiMessage ''invalid JSON''))
           | Some b \<Rightarrow>
               if aa_ID b = [] \<or> aa_RunAt b = [] \<or> aa_Prompt b = []
               then (w, Refused 400 (ApiMessage ''id, run_at, and prompt are required''))
               else if TrimSpace (aa_Prompt b) = [] then (w, Refused 400 (ApiMessage ''prompt must be non-empty''))
               else case parse (aa_RunAt b) of
                      None \<Rightarrow> (w, Refused 400 (ApiMessage ''run_at must be a valid RFC3339 timestamp''))
                    | Some runAt \<Rightarrow>
                        if runAt < now then (w, Refused 400 (ApiMessage ''run_at is in the past''))
                        else if \<not> jw_enabled w
                        then (w, Refused 503 (ApiMessage ''cron channel is disabled (at jobs require cron channel)''))
                        else (case resolveNotifyChannels (jw_store w) userID of
                          Inl _ \<Rightarrow> (w, Refused 500 (ApiMessage ''failed to resolve delivery channels''))
                        | Inr notifyChannels \<Rightarrow>
                            let job = \<lparr>aj_ID = aa_ID b, aj_RunAt = aa_RunAt b, aj_UserID = userID,
                                       aj_Prompt = aa_Prompt b, aj_NotifyChannels = notifyChannels\<rparr> in
                            (case AddAtJob (jw_store w) job of
                               (st, Inl _) \<Rightarrow> (w\<lparr>jw_store := st\<rparr>, Refused 409 (ApiMessage ''job id already exists for this user''))
                             | (st, Inr _) \<Rightarrow>
                                 (case sched_AddAtJob parse now' (jw_sched w) job timer of
                                    (sc, Inl e) \<Rightarrow>
                                      (w\<lparr>jw_store := (if undone then fst (RemoveAtJob st (aa_ID b) userID) else st), jw_sched := sc\<rparr>,
                                       Refused 400 (RejectedByScheduler e))
                                  | (sc, Inr _) \<Rightarrow> (w\<lparr>jw_store := st, jw_sched := sc\<rparr>, Created job))))))"

definition at_HandleRemove ::
  "(string \<Rightarrow> string) \<Rightarrow> job_world \<Rightarrow> api_request \<Rightarrow> string \<Rightarrow> job_world \<times> AtJob api_response"
where
  "at_HandleRemove hash w r jobID =
     (case resolveAgentUser hash (jw_store w) r of
        Inl (status, e) \<Rightarrow> (w, Refused status e)
      | Inr userID \<Rightarrow>
          if jobID = [] then (w, Refused 400 (ApiMessage ''job id required''))
          else case RemoveAtJob (jw_store w) jobID userID of
                 (st, Inl _) \<Rightarrow> (w\<lparr>jw_store := st\<rparr>, Refused 404 (ApiMessage ''job not found or not owned by user''))
               | (st, Inr _) \<Rightarrow>
                   (w\<lparr>jw_store := st,
                      jw_sched := (if jw_enabled w then fst (sched_RemoveAtJob (jw_sched w) userID jobID) else jw_sched w)\<rparr>,
                    NoContent))"

section \<open>Who may do what\<close>

text \<open>The agent that a request authenticates as.\<close>

definition acts_for :: "(string \<Rightarrow> string) \<Rightarrow> Store \<Rightarrow> api_request \<Rightarrow> string \<Rightarrow> bool" where
  "acts_for hash st r u \<longleftrightarrow>
     extractBearerToken (rq_Authorization r) \<noteq> [] \<and>
     (\<exists>a \<in> set (db_agents st). ag_TokenHash a = hash (extractBearerToken (rq_Authorization r)) \<and> ag_UserID a = u
        \<and> ag_Status a \<in> {AgentStatusProvisioned, AgentStatusRegistered})"

lemma resolveAgentUser_acts: "resolveAgentUser hash st r = Inr u \<Longrightarrow> acts_for hash st r u"
  by (auto simp: resolveAgentUser_def acts_for_def GetAgentByTokenHash_def fetch_def Let_def
      dest!: find_first_SomeD split: if_splits sum.splits option.splits)

lemma AddCronJob_result:
  assumes "AddCronJob st job = (st', r)"
  shows "(st' = st \<and> (\<exists>e. r = Inl e)) \<or>
    (st' = st\<lparr>db_cron_jobs := db_cron_jobs st @ [job]\<rparr> \<and> r = Inr () \<and> db_open st
      \<and> (\<forall>j \<in> set (db_cron_jobs st). \<not> (cj_UserID j = cj_UserID job \<and> cj_ID j = cj_ID job)))"
  using assms unfolding AddCronJob_def exec_def by (auto split: if_splits)

lemma AddCronJob_undo:
  assumes "AddCronJob st job = (st', Inr ())"
  shows "fst (RemoveCronJob st' (cj_ID job) (cj_UserID job)) = st"
proof -
  have new: "st' = st\<lparr>db_cron_jobs := db_cron_jobs st @ [job]\<rparr>" "db_open st"
    "\<forall>j \<in> set (db_cron_jobs st). \<not> (cj_UserID j = cj_UserID job \<and> cj_ID j = cj_ID job)"
    using AddCronJob_result [OF assms] by auto
  then have "filter (\<lambda>j. \<not> (cj_ID j = cj_ID job \<and> cj_UserID j = cj_UserID job)) (db_cron_jobs st) = db_cron_jobs st"
    by (intro filter_True) auto
  with new show ?thesis by (simp add: RemoveCronJob_def exec_def)
qed

lemma AddJob_failed: "AddJob s job entry = (s', Inl e) \<Longrightarrow> s' = s"
  by (auto simp: AddJob_def split: if_splits option.splits)

text \<open>
  Adding a job either leaves everything as it was, or creates it in both places, or stores a job
  that the scheduler refuses and then fails to take it out again.
\<close>

lemma cron_add_cases:
  assumes "cron_HandleAdd hash w r body entry undone = (w', resp)"
  shows "(w' = w \<and> (\<exists>status e. resp = Refused status e)) \<or>
    (\<exists>job. resp = Created job \<and> resolveAgentUser hash (jw_store w) r = Inr (cj_UserID job) \<and> jw_enabled w' = jw_enabled w
       \<and> AddCronJob (jw_store w) job = (jw_store w', Inr ()) \<and> AddJob (jw_sched w) job entry = (jw_sched w', Inr ())) \<or>
    (\<exists>job e. \<not> undone \<and> resp = Refused 400 (RejectedByScheduler e) \<and> resolveAgentUser hash (jw_store w) r = Inr (cj_UserID job)
       \<and> AddCronJob (jw_store w) job = (jw_store w', Inr ()) \<and> jw_sched w' = jw_sched w \<and> jw_enabled w' = jw_enabled w)"
proof (cases "resolveAgentUser hash (jw_store w) r")
  case (Inr u)
  have undo: "w\<lparr>jw_store := fst (RemoveCronJob st (cj_ID job) (cj_UserID job)), jw_sched := sc\<rparr> = w"
    if "AddCronJob (jw_store w) job = (st, Inr ())" "AddJob (jw_sched w) job entry = (sc, Inl e)" for job st sc e
    using AddCronJob_undo [OF that(1)] AddJob_failed [OF that(2)] by simp
  have failed: "\<exists>job. u = cj_UserID job \<and> AddCronJob (jw_store w) job = (st, Inr ()) \<and> sc = jw_sched w"
    if "AddCronJob (jw_store w) job = (st, Inr ())" "AddJob (jw_sched w) job entry = (sc, Inl e)" "u = cj_UserID job" for job st sc e
    using that AddJob_failed [OF that(2)] by blast
  have same: "w\<lparr>jw_store := st\<rparr> = w" if "AddCronJob (jw_store w) job = (st, Inl e)" for job st e
    using AddCronJob_result [OF that] by auto
  show ?thesis
    using assms Inr
    by (auto simp: cron_HandleAdd_def Let_def dest: same undo intro!: failed
        split: option.splits if_splits sum.splits prod.splits)
qed (use assms in \<open>auto simp: cron_HandleAdd_def split: prod.splits\<close>)

lemma cron_remove_cases:
  assumes "cron_HandleRemove hash w r i = (w', resp)"
  shows "(w' = w \<and> (\<exists>status e. resp = Refused status e)) \<or>
    (\<exists>u. resp = NoContent \<and> resolveAgentUser hash (jw_store w) r = Inr u
       \<and> RemoveCronJob (jw_store w) i u = (jw_store w', Inr ())
       \<and> jw_sched w' = (if jw_enabled w then fst (RemoveJob (jw_sched w) u i) else jw_sched w) \<and> jw_enabled w' = jw_enabled w)"
proof -
  have "w\<lparr>jw_store := st\<rparr> = w" if "RemoveCronJob (jw_store w) i u = (st, Inl e)" for u st e
    using that by (auto simp: RemoveCronJob_def exec_def split: if_splits)
  with assms show ?thesis
    by (auto simp: cron_HandleRemove_def split: sum.splits if_splits prod.splits)
qed

text \<open>The one-shot endpoints behave alike.\<close>

lemma AddAtJob_result:
  assumes "AddAtJob st job = (st', r)"
  shows "(st' = st \<and> (\<exists>e. r = Inl e)) \<or> (st' = st\<lparr>db_at_jobs := db_at_jobs st @ [job]\<rparr> \<and> r = Inr () \<and> db_open st
      \<and> (\<forall>j \<in> set (db_at_jobs st). \<not> (aj_UserID j = aj_UserID job \<and> aj_ID j = aj_ID job)))"
  using assms unfolding AddAtJob_def exec_def by (auto split: if_splits)

lemma AddAtJob_undo:
  assumes "AddAtJob st job = (st', Inr ())"
  shows "fst (RemoveAtJob st' (aj_ID job) (aj_UserID job)) = st"
proof -
  have new: "st' = st\<lparr>db_at_jobs := db_at_jobs st @ [job]\<rparr>" "db_open st"
    "\<forall>j \<in> set (db_at_jobs st). \<not> (aj_UserID j = aj_UserID job \<and> aj_ID j = aj_ID job)"
    using AddAtJob_result [OF assms] by auto
  then have "filter (\<lambda>j. \<not> (aj_ID j = aj_ID job \<and> aj_UserID j = aj_UserID job)) (db_at_jobs st) = db_at_jobs st"
    by (intro filter_True) auto
  with new show ?thesis by (simp add: RemoveAtJob_def exec_def)
qed

lemma sched_AddAtJob_result:
  assumes "sched_AddAtJob parse now s job timer = (s', x)"
  shows "(s' = s \<and> (\<exists>e. x = Inl e)) \<or> (s' = scheduleAtJob job timer s \<and> x = Inr ())"
  using assms by (auto simp: sched_AddAtJob_def split: if_splits option.splits)

lemma at_add_cases:
  assumes "at_HandleAdd hash parse now now' w r body timer undone = (w', resp)"
  shows "(w' = w \<and> (\<exists>status e. resp = Refused status e)) \<or>
    (\<exists>job. resp = Created job \<and> resolveAgentUser hash (jw_store w) r = Inr (aj_UserID job)
       \<and> AddAtJob (jw_store w) job = (jw_store w', Inr ()) \<and> jw_sched w' = scheduleAtJob job timer (jw_sched w)) \<or>
    (\<exists>job e. \<not> undone \<and> resp = Refused 400 (RejectedByScheduler e) \<and> resolveAgentUser hash (jw_store w) r = Inr (aj_UserID job)
       \<and> AddAtJob (jw_store w) job = (jw_store w', Inr ()) \<and> jw_sched w' = jw_sched w)"
proof (cases "resolveAgentUser hash (jw_store w) r")
  case (Inr u)
  have undo: "w\<lparr>jw_store := fst (RemoveAtJob st (aj_ID job) (aj_UserID job)), jw_sched := sc\<rparr> = w"
    if "AddAtJob (jw_store w) job = (st, Inr ())" "sched_AddAtJob parse now' (jw_sched w) job timer = (sc, Inl e)" for job st sc e
    using AddAtJob_undo [OF that(1)] sched_AddAtJob_result [OF that(2)] by simp
  have failed: "\<exists>job. u = aj_UserID job \<and> AddAtJob (jw_store w) job = (st, Inr ()) \<and> sc = jw_sched w"
    if "AddAtJob (jw_store w) job = (st, Inr ())" "sched_AddAtJob parse now' (jw_sched w) job timer = (sc, Inl e)" "u = aj_UserID job"
    for job st sc e
    using that sched_AddAtJob_result [OF that(2)] by blast
  have added: "sc = scheduleAtJob job timer (jw_sched w)"
    if "sched_AddAtJob parse now' (jw_sched w) job timer = (sc, Inr x)" for job sc x
    using sched_AddAtJob_result [OF that] by simp
  have same: "w\<lparr>jw_store := st\<rparr> = w" if "AddAtJob (jw_store w) job = (st, Inl e)" for job st e
    using AddAtJob_result [OF that] by auto
  show ?thesis
    using assms Inr
    by (auto simp: at_HandleAdd_def Let_def dest: same undo intro!: failed added
        split: option.splits if_splits sum.splits prod.splits)
qed (use assms in \<open>auto simp: at_HandleAdd_def split: prod.splits\<close>)

lemma at_remove_cases:
  assumes "at_HandleRemove hash w r i = (w', resp)"
  shows "(w' = w \<and> (\<exists>status e. resp = Refused status e)) \<or>
    (\<exists>u. resp = NoContent \<and> resolveAgentUser hash (jw_store w) r = Inr u
       \<and> RemoveAtJob (jw_store w) i u = (jw_store w', Inr ())
       \<and> jw_sched w' = (if jw_enabled w then fst (sched_RemoveAtJob (jw_sched w) u i) else jw_sched w))"
proof -
  have "w\<lparr>jw_store := st\<rparr> = w" if "RemoveAtJob (jw_store w) i u = (st, Inl e)" for u st e
    using that by (auto simp: RemoveAtJob_def exec_def split: if_splits)
  with assms show ?thesis
    by (auto simp: at_HandleRemove_def split: sum.splits if_splits prod.splits)
qed

section \<open>Datastore and scheduler agree\<close>

definition jobs_agree :: "job_world \<Rightarrow> bool" where
  "jobs_agree w \<longleftrightarrow> jw_enabled w \<and> cron_sync (jw_sched w)
     \<and> set (db_cron_jobs (jw_store w)) = ran (sc_entries (jw_sched w))"

text \<open>What the endpoints rely on: user ids without colons and unused entry ids.\<close>

definition plain_users :: "Store \<Rightarrow> bool" where
  "plain_users st \<longleftrightarrow> (\<forall>a \<in> set (db_agents st). CHR '':'' \<notin> set (ag_UserID a))"

definition fresh_entry :: "Scheduler \<Rightarrow> nat option \<Rightarrow> bool" where
  "fresh_entry sc entry \<longleftrightarrow> (\<forall>e. entry = Some e \<longrightarrow> sc_entries sc e = None)"

lemma plain_actor: "plain_users st \<Longrightarrow> resolveAgentUser hash st r = Inr u \<Longrightarrow> CHR '':'' \<notin> set u"
  by (auto simp: plain_users_def acts_for_def dest!: resolveAgentUser_acts)

lemma AddJob_created:
  assumes "AddJob s job entry = (s', Inr ())" "cron_sync s" "fresh_entry s entry" "CHR '':'' \<notin> set (cj_UserID job)"
  shows "cron_sync s' \<and> ran (sc_entries s') = insert job (ran (sc_entries s))"
proof -
  obtain e where e: "entry = Some e" "s' = register_entry job e s" "sc_entryIDs s (cronJobKey job) = None"
    using assms(1) by (auto simp: AddJob_def split: if_splits option.splits)
  with assms(3) have "sc_entries s e = None" by (simp add: fresh_entry_def)
  with e assms show ?thesis by (simp add: cron_sync_register) (simp add: register_entry_def)
qed

lemma RemoveJob_removed:
  assumes "cron_sync s" "CHR '':'' \<notin> set u"
  shows "cron_sync (fst (RemoveJob s u i))
    \<and> ran (sc_entries (fst (RemoveJob s u i))) = {j \<in> ran (sc_entries s). \<not> (cj_UserID j = u \<and> cj_ID j = i)}"
proof -
  have sync: "in_sync cronJobKey cj_UserID (sc_entries s) (sc_entryIDs s) (sc_jobs s)"
    using assms(1) by (simp add: cron_sync_def)
  then have "ran (sc_entries s) = set (sc_jobs s)" by (simp add: in_sync_def)
  then show ?thesis
    using cron.sync_remove [OF sync assms(2), of i] cron.sync_lookup [OF sync assms(2), of i] assms(1)
    by (auto simp: RemoveJob_def cron_sync_def Let_def split: option.split)
qed

lemma RemoveCronJob_done:
  "RemoveCronJob st i u = (st', Inr ()) \<Longrightarrow>
    st' = st\<lparr>db_cron_jobs := filter (\<lambda>j. \<not> (cj_ID j = i \<and> cj_UserID j = u)) (db_cron_jobs st)\<rparr>"
  by (auto simp: RemoveCronJob_def exec_def split: if_splits)

text \<open>
  C25: the cron endpoints keep the stored cron jobs and the running ones equal, for requests
  served one at a time. When the cron jobs in the datastore are exactly those the scheduler
  runs, they still are after any add or remove request, whatever its outcome, with one
  exception: the scheduler refuses a job that was stored and taking it out again fails, which
  the handler ignores. Then the client is told of the refusal and that job alone is stored
  without running.
\<close>

theorem job_api_keeps_agreement:
  assumes agree: "jobs_agree w" and plain: "plain_users (jw_store w)" and fresh: "fresh_entry (jw_sched w) entry"
    and add: "cron_HandleAdd hash w r body entry undone = (w1, resp)"
  shows "(jobs_agree w1 \<or>
      (\<not> undone \<and> jw_sched w1 = jw_sched w \<and> (\<exists>e. resp = Refused 400 (RejectedByScheduler e))
       \<and> (\<exists>job. db_cron_jobs (jw_store w1) = db_cron_jobs (jw_store w) @ [job]
            \<and> resolveAgentUser hash (jw_store w) r = Inr (cj_UserID job))))
    \<and> jobs_agree (fst (cron_HandleRemove hash w r i))"
proof
  from cron_add_cases [OF add] show "jobs_agree w1 \<or>
      (\<not> undone \<and> jw_sched w1 = jw_sched w \<and> (\<exists>e. resp = Refused 400 (RejectedByScheduler e))
       \<and> (\<exists>job. db_cron_jobs (jw_store w1) = db_cron_jobs (jw_store w) @ [job]
            \<and> resolveAgentUser hash (jw_store w) r = Inr (cj_UserID job)))"
  proof (elim disjE exE conjE)
    fix job
    assume c: "resolveAgentUser hash (jw_store w) r = Inr (cj_UserID job)" "jw_enabled w1 = jw_enabled w"
      "AddCronJob (jw_store w) job = (jw_store w1, Inr ())" "AddJob (jw_sched w) job entry = (jw_sched w1, Inr ())"
    with agree AddCronJob_result [OF c(3)] AddJob_created [OF c(4) _ fresh plain_actor [OF plain c(1)]]
    have "jobs_agree w1" by (auto simp: jobs_agree_def)
    then show ?thesis ..
  next
    fix job e
    assume f: "\<not> undone" "resp = Refused 400 (RejectedByScheduler e)" "resolveAgentUser hash (jw_store w) r = Inr (cj_UserID job)"
      "AddCronJob (jw_store w) job = (jw_store w1, Inr ())" "jw_sched w1 = jw_sched w"
    with AddCronJob_result [OF f(4)] show ?thesis by auto
  qed (use agree in simp)
  obtain w2 resp2 where w2: "cron_HandleRemove hash w r i = (w2, resp2)" by force
  from cron_remove_cases [OF w2] show "jobs_agree (fst (cron_HandleRemove hash w r i))"
  proof (elim disjE exE conjE)
    fix u
    assume u: "resolveAgentUser hash (jw_store w) r = Inr u" "RemoveCronJob (jw_store w) i u = (jw_store w2, Inr ())"
      "jw_sched w2 = (if jw_enabled w then fst (RemoveJob (jw_sched w) u i) else jw_sched w)" "jw_enabled w2 = jw_enabled w"
    with agree RemoveCronJob_done [OF u(2)] RemoveJob_removed [OF _ plain_actor [OF plain u(1)]]
    show ?thesis by (auto simp: jobs_agree_def w2)
  qed (use agree w2 in simp)
qed

text \<open>
  Requests served at the same time can also leave a job running that is not stored: the remove
  request finds the stored job before the add request has given it to the scheduler.
\<close>

lemma cron_add_remove_race:
  assumes "AddCronJob st job = (st1, Inr ())" and "sc_entryIDs s (cronJobKey job) = None"
    and "RemoveCronJob st1 (cj_ID job) (cj_UserID job) = (st2, Inr ())"
    and "RemoveJob s (cj_UserID job) (cj_ID job) = (s1, found)" and "AddJob s1 job (Some e) = (s2, Inr ())"
  shows "st2 = st \<and> \<not> found \<and> job \<in> ran (sc_entries s2)"
proof -
  have "st2 = st" using AddCronJob_undo [OF assms(1)] assms(3) by simp
  moreover have "s1 = s \<and> \<not> found" using assms(2,4) by (simp add: RemoveJob_def cronJobKey_def)
  ultimately show ?thesis
    using assms(5) by (auto simp: AddJob_def register_entry_def ran_def split: if_splits)
qed

definition demo_agent :: "string \<Rightarrow> string \<Rightarrow> Agent" where
  "demo_agent token u = \<lparr>ag_ID = ''agt'', ag_UserID = u, ag_Label = ''l'', ag_TokenHash = token, ag_TokenPrefix = [],
     ag_RMQUsername = [], ag_Status = AgentStatusRegistered, ag_LastRegisteredAt = None, ag_LastRegisteredIP = [],
     ag_CreatedAt = 0, ag_UpdatedAt = 0\<rparr>"

definition demo_tenant :: "string \<Rightarrow> User" where
  "demo_tenant u = \<lparr>us_ID = u, us_Name = ''n'', us_Enabled = True, us_DefaultModel = ''m'', us_CreatedAt = 0,
     us_UpdatedAt = 0, us_Preferences = Map.empty\<rparr>"

definition demo_job_world :: job_world where
  "demo_job_world = \<lparr>jw_store = emptyStore\<lparr>db_users := [demo_tenant ''u'', demo_tenant ''v''], db_agents := [demo_agent ''tok'' ''u''],
       db_cron_jobs := [demo_job ''u'' ''a'', demo_job ''u'' ''b'']\<rparr>,
     jw_sched = demo_scheduler, jw_enabled = True\<rparr>"

definition demo_api_request :: api_request where
  "demo_api_request = \<lparr>rq_Authorization = ''Bearer tok'', rq_UserID = []\<rparr>"

lemma demo_token: "extractBearerToken ''Bearer tok'' = ''tok''"
  by (simp add: extractBearerToken_def TrimPrefix_def TrimSpace_def runes_ascii IsSpace_def Let_def)

lemma demo_resolves: "resolveAgentUser (\<lambda>x. x) (jw_store demo_job_world) demo_api_request = Inr ''u''"
  by (simp add: resolveAgentUser_def demo_job_world_def demo_api_request_def demo_token GetAgentByTokenHash_def fetch_def
      emptyStore_def demo_agent_def TrimSpace_def runes_ascii Let_def)

lemma demo_jobs_agree: "jobs_agree demo_job_world" "plain_users (jw_store demo_job_world)"
proof -
  have jobs: "sc_jobs demo_scheduler = [demo_job ''u'' ''a'', demo_job ''u'' ''b'']"
    by (simp add: demo_scheduler_def LoadJobs_def load_job_def register_entry_def NewScheduler_def demo_job_def Let_def)
  have "cron_sync demo_scheduler" by (rule reach_cron_sync [OF demo_scheduler_reachable])
  then have "ran (sc_entries demo_scheduler) = set (sc_jobs demo_scheduler)" by (simp add: cron_sync_def in_sync_def)
  with jobs \<open>cron_sync demo_scheduler\<close> show "jobs_agree demo_job_world"
    by (simp add: jobs_agree_def demo_job_world_def)
  show "plain_users (jw_store demo_job_world)" by (simp add: plain_users_def demo_job_world_def demo_agent_def)
qed

theorem job_api_keeps_agreement_witness:
  "\<exists>w1 resp. cron_HandleAdd (\<lambda>x. x) demo_job_world demo_api_request
       (Some \<lparr>ca_ID = ''c'', ca_Schedule = ''soon'', ca_Prompt = ''p''\<rparr>) None True = (w1, resp)
     \<and> resp = Refused 400 (RejectedByScheduler (InvalidSchedule ''soon'')) \<and> jobs_agree w1
     \<and> jobs_agree (fst (cron_HandleRemove (\<lambda>x. x) demo_job_world demo_api_request ''a''))"
proof -
  let ?b = "\<lparr>ca_ID = ''c'', ca_Schedule = ''soon'', ca_Prompt = ''p''\<rparr>"
  obtain w1 resp where w1: "cron_HandleAdd (\<lambda>x. x) demo_job_world demo_api_request (Some ?b) None True = (w1, resp)" by force
  have "fresh_entry (jw_sched demo_job_world) None" by (simp add: fresh_entry_def)
  from job_api_keeps_agreement [OF demo_jobs_agree this w1, of "''a''"]
  have "jobs_agree w1" "jobs_agree (fst (cron_HandleRemove (\<lambda>x. x) demo_job_world demo_api_request ''a''))" by simp_all
  moreover have "resp = Refused 400 (RejectedByScheduler (InvalidSchedule ''soon''))"
  proof -
    have "TrimSpace ''p'' = ''p''" by (simp add: TrimSpace_def runes_ascii IsSpace_def)
    moreover have "sc_entryIDs demo_scheduler ''u:c'' = None"
      by (simp add: demo_scheduler_def LoadJobs_def load_job_def register_entry_def NewScheduler_def demo_job_def cronJobKey_def Let_def)
    ultimately show ?thesis using w1
      by (simp add: cron_HandleAdd_def demo_resolves)
         (simp add: demo_job_world_def emptyStore_def resolveNotifyChannels_def ListIdentities_def fetch_def
           AddCronJob_def exec_def demo_job_def AddJob_def cronJobKey_def has_user_def demo_tenant_def)
  qed
  ultimately show ?thesis using w1 by blast
qed

section \<open>Tenants\<close>

text \<open>One request to any of the endpoints, with what the engine, the clock and the database answer.\<close>

datatype job_request =
  CronList
| CronAdd "cronAddRequest option" "nat option" bool
| CronRemove string
| AtList
| AtAdd "atAddRequest option" time time nat bool
| AtRemove string

datatype job_answer = CronAnswer "CronJob api_response" | AtAnswer "AtJob api_response"

fun job_endpoint ::
  "(string \<Rightarrow> string) \<Rightarrow> (string \<Rightarrow> time option) \<Rightarrow> job_world \<Rightarrow> api_request \<Rightarrow> job_request \<Rightarrow> job_world \<times> job_answer"
where
  "job_endpoint hash parse w r CronList = (w, CronAnswer (cron_HandleList hash w r))"
| "job_endpoint hash parse w r (CronAdd body entry undone) =
     map_prod id CronAnswer (cron_HandleAdd hash w r body entry undone)"
| "job_endpoint hash parse w r (CronRemove i) = map_prod id CronAnswer (cron_HandleRemove hash w r i)"
| "job_endpoint hash parse w r AtList = (w, AtAnswer (at_HandleList hash w r))"
| "job_endpoint hash parse w r (AtAdd body now now' timer undone) =
     map_prod id AtAnswer (at_HandleAdd hash parse now now' w r body timer undone)"
| "job_endpoint hash parse w r (AtRemove i) = map_prod id AtAnswer (at_HandleRemove hash w r i)"

text \<open>The users whose jobs an answer shows.\<close>

fun shown :: "job_answer \<Rightarrow> string set" where
  "shown (CronAnswer (Listed js)) = cj_UserID ` set js"
| "shown (CronAnswer (Created j)) = {cj_UserID j}"
| "shown (AtAnswer (Listed js)) = aj_UserID ` set js"
| "shown (AtAnswer (Created j)) = {aj_UserID j}"
| "shown _ = {}"

text \<open>Every handle of an armed timer is filed under the key of the job the timer will fire.\<close>

definition at_sound :: "Scheduler \<Rightarrow> bool" where
  "at_sound s \<longleftrightarrow>
     (\<forall>k t j. sc_atTimers s k = Some t \<longrightarrow> sc_timers s t = Some j \<longrightarrow> atJobKey j = k)
     \<and> (\<forall>t j. sc_timers s t = Some j \<longrightarrow> CHR '':'' \<notin> set (aj_UserID j))
     \<and> (\<forall>k k' t. sc_atTimers s k = Some t \<longrightarrow> sc_atTimers s k' = Some t \<longrightarrow> k = k')"

definition fresh_timer :: "Scheduler \<Rightarrow> nat \<Rightarrow> bool" where
  "fresh_timer s t \<longleftrightarrow> sc_timers s t = None \<and> t \<notin> ran (sc_atTimers s)"

fun fresh_request :: "Scheduler \<Rightarrow> job_request \<Rightarrow> bool" where
  "fresh_request s (CronAdd body entry undone) = fresh_entry s entry"
| "fresh_request s (AtAdd body now now' timer undone) = fresh_timer s timer"
| "fresh_request s _ = True"

definition jobs_ok :: "job_world \<Rightarrow> bool" where
  "jobs_ok w \<longleftrightarrow> cron_sync (jw_sched w) \<and> at_sound (jw_sched w) \<and> plain_users (jw_store w)"

text \<open>What a user has: stored and running jobs of both kinds.\<close>

definition jobs_of :: "string \<Rightarrow> job_world \<Rightarrow> CronJob list \<times> AtJob list \<times> CronJob set \<times> AtJob set" where
  "jobs_of v w =
     (filter (\<lambda>j. cj_UserID j = v) (db_cron_jobs (jw_store w)), filter (\<lambda>j. aj_UserID j = v) (db_at_jobs (jw_store w)),
      {j \<in> ran (sc_entries (jw_sched w)). cj_UserID j = v}, {j \<in> ran (sc_timers (jw_sched w)). aj_UserID j = v})"

lemma scheduleAtJob_ran:
  "fresh_timer s t \<Longrightarrow> ran (sc_timers (scheduleAtJob j t s)) = insert j (ran (sc_timers s))"
  by (simp add: scheduleAtJob_def fresh_timer_def)

lemma scheduleAtJob_sound:
  assumes "at_sound s" "fresh_timer s t" "CHR '':'' \<notin> set (aj_UserID j)"
  shows "at_sound (scheduleAtJob j t s)"
proof -
  have "sc_atTimers s k \<noteq> Some t" for k using assms(2) by (auto simp: fresh_timer_def ran_def)
  with assms scheduleAtJob_ran [OF assms(2)] show ?thesis
    by (auto simp: at_sound_def scheduleAtJob_def)
qed

lemma sched_RemoveAtJob_timers:
  assumes "at_sound s" "CHR '':'' \<notin> set u"
  shows "at_sound (fst (sched_RemoveAtJob s u i))"
    and "u \<noteq> v \<Longrightarrow> {j \<in> ran (sc_timers (fst (sched_RemoveAtJob s u i))). aj_UserID j = v} = {j \<in> ran (sc_timers s). aj_UserID j = v}"
proof -
  let ?k = "u @ '':'' @ i"
  have cases: "fst (sched_RemoveAtJob s u i) = s \<or> (\<exists>t jobs. sc_atTimers s ?k = Some t \<and> fst (sched_RemoveAtJob s u i)
      = s\<lparr>sc_timers := (sc_timers s)(t := None), sc_atTimers := (sc_atTimers s)(?k := None), sc_atJobs := jobs\<rparr>)"
    by (auto simp: sched_RemoveAtJob_def Let_def split: option.split)
  then show "at_sound (fst (sched_RemoveAtJob s u i))"
    using assms(1) by (auto simp: at_sound_def ran_def split: if_splits)
  assume other: "u \<noteq> v"
  have mine: "aj_UserID j = u" if "sc_atTimers s ?k = Some t" "sc_timers s t = Some j" for t j
  proof -
    have "atJobKey j = ?k" "CHR '':'' \<notin> set (aj_UserID j)" using assms(1) that by (auto simp: at_sound_def intro: ranI)
    then show ?thesis using assms(2) append_sep_inj [of "CHR '':''" "aj_UserID j" u "aj_ID j" i] by (simp add: atJobKey_def)
  qed
  show "{j \<in> ran (sc_timers (fst (sched_RemoveAtJob s u i))). aj_UserID j = v} = {j \<in> ran (sc_timers s). aj_UserID j = v}"
    using cases
  proof (elim disjE exE conjE)
    fix t jobs
    assume t: "sc_atTimers s ?k = Some t" and rm: "fst (sched_RemoveAtJob s u i)
      = s\<lparr>sc_timers := (sc_timers s)(t := None), sc_atTimers := (sc_atTimers s)(?k := None), sc_atJobs := jobs\<rparr>"
    have "sc_timers s t = Some j \<Longrightarrow> aj_UserID j \<noteq> v" for j using mine [OF t] other by blast
    then show ?thesis unfolding rm by (force simp: ran_def)
  qed simp
qed

lemma sched_frames [simp]:
  "sc_timers (fst (AddJob s job entry)) = sc_timers s" "sc_timers (fst (RemoveJob s u i)) = sc_timers s"
  "at_sound (fst (AddJob s job entry)) = at_sound s" "at_sound (fst (RemoveJob s u i)) = at_sound s"
  "sc_entries (scheduleAtJob j t s) = sc_entries s" "sc_entries (fst (sched_RemoveAtJob s u i)) = sc_entries s"
  "cron_sync (scheduleAtJob j t s) = cron_sync s" "cron_sync (fst (sched_RemoveAtJob s u i)) = cron_sync s"
  by (auto simp: AddJob_def RemoveJob_def register_entry_def at_sound_def scheduleAtJob_def sched_RemoveAtJob_def
      cron_sync_def Let_def split: option.split)

lemma RemoveAtJob_done:
  "RemoveAtJob st i u = (st', Inr ()) \<Longrightarrow>
    st' = st\<lparr>db_at_jobs := filter (\<lambda>j. \<not> (aj_ID j = i \<and> aj_UserID j = u)) (db_at_jobs st)\<rparr>"
  by (auto simp: RemoveAtJob_def exec_def split: if_splits)

text \<open>
  C26: an agent reaches only its own user's jobs. A request to any of the six job endpoints
  (list, add and remove, of cron jobs and of one-shot jobs) that does not authenticate as an
  agent of user \<open>v\<close> leaves \<open>v\<close>'s stored jobs and \<open>v\<close>'s running jobs of both kinds as they are,
  and its answer shows none of them, also when it fails half-way; the tables of the scheduler
  stay consistent, so this holds for every sequence of requests.
\<close>

theorem job_api_isolates_tenants:
  assumes foreign: "\<not> acts_for hash (jw_store w) r v"
    and ok: "jobs_ok w" and fresh: "fresh_request (jw_sched w) q"
    and step: "job_endpoint hash parse w r q = (w', ans)"
  shows "jobs_ok w' \<and> jobs_of v w' = jobs_of v w \<and> v \<notin> shown ans"
proof -
  note sync = ok [unfolded jobs_ok_def]
  have other: "u \<noteq> v" "CHR '':'' \<notin> set u" if "resolveAgentUser hash (jw_store w) r = Inr u" for u
    using resolveAgentUser_acts [OF that] foreign plain_actor [OF _ that] sync by blast+
  show ?thesis
  proof (cases q)
    case CronList
    then show ?thesis using step ok other
      by (auto simp: cron_HandleList_def ListCronJobsByUser_def fetch_def split: sum.splits if_splits)
  next
    case AtList
    then show ?thesis using step ok other
      by (auto simp: at_HandleList_def ListAtJobsByUser_def fetch_def split: sum.splits if_splits)
  next
    case (CronAdd body entry undone)
    then obtain resp where h: "cron_HandleAdd hash w r body entry undone = (w', resp)" "ans = CronAnswer resp"
      using step by (auto split: prod.splits) (metis eq_id_iff map_prod_simp prod.collapse prod.inject)
    from cron_add_cases [OF h(1)] show ?thesis
    proof (elim disjE exE conjE)
      fix job
      assume c: "resp = Created job" "resolveAgentUser hash (jw_store w) r = Inr (cj_UserID job)"
        "AddCronJob (jw_store w) job = (jw_store w', Inr ())" "AddJob (jw_sched w) job entry = (jw_sched w', Inr ())"
      have "fresh_entry (jw_sched w) entry" using fresh CronAdd by simp
      from AddJob_created [OF c(4) _ this other(2) [OF c(2)]] sync
      have "cron_sync (jw_sched w')" "ran (sc_entries (jw_sched w')) = insert job (ran (sc_entries (jw_sched w)))" by simp_all
      moreover have "sc_timers (jw_sched w') = sc_timers (jw_sched w)" "at_sound (jw_sched w')"
        using sched_frames(1,3) [of "jw_sched w" job entry] c(4) sync by simp_all
      ultimately show ?thesis
        using AddCronJob_result [OF c(3)] other(1) [OF c(2)] c(1) h(2) sync by (auto simp: jobs_ok_def jobs_of_def plain_users_def)
    next
      fix job e
      assume c: "resp = Refused 400 (RejectedByScheduler e)" "resolveAgentUser hash (jw_store w) r = Inr (cj_UserID job)"
        "AddCronJob (jw_store w) job = (jw_store w', Inr ())" "jw_sched w' = jw_sched w"
      then show ?thesis
        using AddCronJob_result [OF c(3)] other(1) [OF c(2)] h(2) sync by (auto simp: jobs_ok_def jobs_of_def plain_users_def)
    qed (use ok h(2) in auto)
  next
    case (CronRemove i)
    then obtain resp where h: "cron_HandleRemove hash w r i = (w', resp)" "ans = CronAnswer resp"
      using step by (cases "cron_HandleRemove hash w r i") auto
    from cron_remove_cases [OF h(1)] show ?thesis
    proof (elim disjE exE conjE)
      fix u
      assume c: "resp = NoContent" "resolveAgentUser hash (jw_store w) r = Inr u" "RemoveCronJob (jw_store w) i u = (jw_store w', Inr ())"
        "jw_sched w' = (if jw_enabled w then fst (RemoveJob (jw_sched w) u i) else jw_sched w)"
      with RemoveCronJob_done [OF c(3)] RemoveJob_removed [OF _ other(2) [OF c(2)], of "jw_sched w" i] other(1) [OF c(2)] h(2) sync
      show ?thesis by (auto simp: jobs_ok_def jobs_of_def plain_users_def intro: filter_cong)
    qed (use ok h(2) in auto)
  next
    case (AtAdd body now now' timer undone)
    then obtain resp where h: "at_HandleAdd hash parse now now' w r body timer undone = (w', resp)" "ans = AtAnswer resp"
      using step by (cases "at_HandleAdd hash parse now now' w r body timer undone") auto
    have t: "fresh_timer (jw_sched w) timer" using fresh AtAdd by simp
    from at_add_cases [OF h(1)] show ?thesis
    proof (elim disjE exE conjE)
      fix job
      assume c: "resp = Created job" "resolveAgentUser hash (jw_store w) r = Inr (aj_UserID job)"
        "AddAtJob (jw_store w) job = (jw_store w', Inr ())" "jw_sched w' = scheduleAtJob job timer (jw_sched w)"
      then show ?thesis
        using AddAtJob_result [OF c(3)] other [OF c(2)] h(2) sync scheduleAtJob_ran [OF t] scheduleAtJob_sound [OF _ t, of job]
        by (auto simp: jobs_ok_def jobs_of_def plain_users_def)
    next
      fix job e
      assume c: "resp = Refused 400 (RejectedByScheduler e)" "resolveAgentUser hash (jw_store w) r = Inr (aj_UserID job)"
        "AddAtJob (jw_store w) job = (jw_store w', Inr ())" "jw_sched w' = jw_sched w"
      then show ?thesis
        using AddAtJob_result [OF c(3)] other(1) [OF c(2)] h(2) sync by (auto simp: jobs_ok_def jobs_of_def plain_users_def)
    qed (use ok h(2) in auto)
  next
    case (AtRemove i)
    then obtain resp where h: "at_HandleRemove hash w r i = (w', resp)" "ans = AtAnswer resp"
      using step by (cases "at_HandleRemove hash w r i") auto
    from at_remove_cases [OF h(1)] show ?thesis
    proof (elim disjE exE conjE)
      fix u
      assume c: "resp = NoContent" "resolveAgentUser hash (jw_store w) r = Inr u" "RemoveAtJob (jw_store w) i u = (jw_store w', Inr ())"
        "jw_sched w' = (if jw_enabled w then fst (sched_RemoveAtJob (jw_sched w) u i) else jw_sched w)"
      have "at_sound (jw_sched w')"
        "{j \<in> ran (sc_timers (jw_sched w')). aj_UserID j = v} = {j \<in> ran (sc_timers (jw_sched w)). aj_UserID j = v}"
        using sched_RemoveAtJob_timers(1) [OF _ other(2) [OF c(2)], of "jw_sched w" i]
          sched_RemoveAtJob_timers(2) [OF _ other(2) [OF c(2)] other(1) [OF c(2)], of "jw_sched w" i] sync c(4)
        by simp_all
      with c RemoveAtJob_done [OF c(3)] other(1) [OF c(2)] h(2) sync
      show ?thesis by (auto simp: jobs_ok_def jobs_of_def plain_users_def intro: filter_cong)
    qed (use ok h(2) in auto)
  qed
qed

definition demo_tenants :: job_world where
  "demo_tenants = demo_job_world
     \<lparr>jw_store := (jw_store demo_job_world)
        \<lparr>db_at_jobs := [demo_at ''mine'', (demo_at ''theirs'')\<lparr>aj_UserID := ''v''\<rparr>]\<rparr>,
      jw_sched := scheduleAtJob ((demo_at ''theirs'')\<lparr>aj_UserID := ''v''\<rparr>) 2 (scheduleAtJob (demo_at ''mine'') 1 demo_scheduler)\<rparr>"

text \<open>Two users have a one-shot job of the same name; the request of the one removes its own job only.\<close>

theorem job_api_isolates_tenants_witness:
  "\<exists>w'. job_endpoint (\<lambda>x. x) (\<lambda>_. None) demo_tenants demo_api_request (AtRemove ''a'') = (w', AtAnswer NoContent)
     \<and> jobs_of ''v'' w' = ([], [(demo_at ''theirs'')\<lparr>aj_UserID := ''v''\<rparr>], {}, {(demo_at ''theirs'')\<lparr>aj_UserID := ''v''\<rparr>})"
proof -
  let ?m = "demo_at ''mine''" and ?t = "(demo_at ''theirs'')\<lparr>aj_UserID := ''v''\<rparr>"
  have sched: "sc_timers demo_scheduler = Map.empty" "sc_atTimers demo_scheduler = Map.empty"
    by (simp_all add: demo_scheduler_def LoadJobs_def load_job_def register_entry_def NewScheduler_def demo_job_def Let_def)
  have entries: "ran (sc_entries demo_scheduler) = {demo_job ''u'' ''a'', demo_job ''u'' ''b''}"
    using reach_cron_sync [OF demo_scheduler_reachable]
    by (simp add: cron_sync_def in_sync_def) (simp add: demo_scheduler_def LoadJobs_def load_job_def register_entry_def
        NewScheduler_def demo_job_def Let_def)
  have keys: "atJobKey ?m = ''u:a''" "atJobKey ?t = ''v:a''" by (simp_all add: atJobKey_def demo_at_def)
  have "at_sound (jw_sched demo_tenants)"
    using sched keys by (simp add: at_sound_def demo_tenants_def scheduleAtJob_def) (simp add: demo_at_def)
  moreover have "cron_sync (jw_sched demo_tenants)" "plain_users (jw_store demo_tenants)"
    using demo_jobs_agree by (simp_all add: demo_tenants_def jobs_agree_def plain_users_def demo_job_world_def)
  ultimately have ok: "jobs_ok demo_tenants" by (simp add: jobs_ok_def)
  have foreign: "\<not> acts_for (\<lambda>x. x) (jw_store demo_tenants) demo_api_request ''v''"
    by (simp add: acts_for_def demo_tenants_def demo_job_world_def emptyStore_def demo_agent_def)
  have "resolveAgentUser (\<lambda>x. x) (jw_store demo_tenants) demo_api_request = Inr ''u''"
    by (simp add: resolveAgentUser_def demo_tenants_def demo_job_world_def demo_api_request_def demo_token GetAgentByTokenHash_def
        fetch_def emptyStore_def demo_agent_def TrimSpace_def runes_ascii Let_def)
  then obtain w' where w': "job_endpoint (\<lambda>x. x) (\<lambda>_. None) demo_tenants demo_api_request (AtRemove ''a'') = (w', AtAnswer NoContent)"
    by (simp add: at_HandleRemove_def) (simp add: demo_tenants_def demo_job_world_def RemoveAtJob_def exec_def emptyStore_def demo_at_def)
  have "jobs_of ''v'' w' = jobs_of ''v'' demo_tenants"
    using job_api_isolates_tenants [OF foreign ok _ w'] by simp
  also have "\<dots> = ([], [?t], {}, {?t})"
    using sched entries
    by (auto simp: jobs_of_def demo_tenants_def demo_job_world_def emptyStore_def scheduleAtJob_def)
       (auto simp: demo_at_def demo_job_def)
  finally show ?thesis using w' by blast
qed

end
