(* ===== verification/Registration.thy ===== *)
theory Registration
  imports JobApi RateLimit MessageQueue
begin

text \<open>
  The registration of agents (\<^verbatim>\<open>internal/gateway/register.go\<close>): an agent presents its token and
  receives broker credentials that are limited to the queues of its user.

  The management API of the broker is a service; what it was told is recorded in
  \<open>rg_mgmt\<close> and what it answers is part of the environment of one request, together with the
  random password, the answers of the broker to the queue declarations, the readings of the
  clock and \<open>re_quote\<close>, the quoting of \<^verbatim>\<open>%q\<close>.
\<close>

section \<open>Requests\<close>

record VhostPermissions =
  vp_Configure :: string
  vp_Write :: string
  vp_Read :: string

datatype mgmt_call =
  MgmtCreateUser string string
| MgmtSetPermissions string string VhostPermissions
| MgmtCloseConnections string

record registrationRequest =
  gr_AgentType :: string
  gr_Version :: string

record http_source =
  hs_ForwardedFor :: string
  hs_RealIP :: string
  hs_RemoteAddr :: string

definition clientIP :: "http_source \<Rightarrow> string" where
  "clientIP r =
     (if hs_ForwardedFor r \<noteq> [] then TrimSpace (hd (SplitN2 (hs_ForwardedFor r) (CHR '','')))
      else if hs_RealIP r \<noteq> [] then TrimSpace (hs_RealIP r)
      else let host = hs_RemoteAddr r in
           if CHR '':'' \<in> set host then rev (tl (dropWhile (\<lambda>c. c \<noteq> CHR '':'') (rev host))) else host)"

record reg_config =
  gc_VHost :: string
  gc_URL :: string
  gc_PolicyAllow :: "string list"
  gc_PolicyDeny :: "string list"

record reg_env =
  re_hash :: "string \<Rightarrow> string"
  re_quote :: "string \<Rightarrow> string"
  re_now :: time
  re_password :: "string option"  \<comment> \<open>\<open>None\<close> when the random source fails\<close>
  re_mgmt :: bool  \<comment> \<open>a management client is configured\<close>
  re_create_ok :: bool
  re_permissions_ok :: bool
  re_can_close :: bool
  re_channel_ok :: bool  \<comment> \<open>the broker is configured and opens a channel\<close>
  re_amqp_ok :: "amqp_call \<Rightarrow> bool"

record reg_world =
  rg_store :: Store
  rg_limiter :: "limiter option"
  rg_cfg :: "reg_config option"
  rg_mgmt :: "mgmt_call list"
  rg_amqp :: "amqp_call list"

record registrationResult =
  rr_AgentID :: string
  rr_UserID :: string
  rr_UserName :: string
  rr_URL :: string
  rr_Username :: string
  rr_Password :: string
  rr_VHost :: string
  rr_QueueAgent :: string
  rr_QueueControl :: string
  rr_EventsPublish :: string
  rr_LogsPublish :: string
  rr_User :: User
  rr_Tools :: "PolicyData option"

datatype reg_response =
  Registered registrationResult
| RegRefused nat string
| RateLimited int

section \<open>Steps\<close>

definition auditRegistrationFailure :: "reg_env \<Rightarrow> http_source \<Rightarrow> string \<Rightarrow> string \<Rightarrow> reg_world \<Rightarrow> reg_world" where
  "auditRegistrationFailure env src userID reason w =
     w\<lparr>rg_store := fst (LogAdminAction (rg_store w)
        \<lparr>au_ID = 0, au_Timestamp = re_now env, au_Action = ''agent.register_failed'', au_Actor = ''system'',
         au_TargetUserID = userID,
         au_Details = ''{'' @ [CHR 0x22] @ ''reason'' @ [CHR 0x22] @ '':'' @ re_quote env reason @ '','' @ [CHR 0x22] @ ''ip''
           @ [CHR 0x22] @ '':'' @ re_quote env (clientIP src) @ ''}'',
         au_IPAddress = clientIP src\<rparr> (re_now env))\<rparr>"

definition auditRegistrationSuccess ::
  "reg_env \<Rightarrow> http_source \<Rightarrow> Agent \<Rightarrow> registrationRequest \<Rightarrow> reg_world \<Rightarrow> reg_world"
where
  "auditRegistrationSuccess env src agent req w =
     w\<lparr>rg_store := fst (LogAdminAction (rg_store w)
        \<lparr>au_ID = 0, au_Timestamp = re_now env, au_Action = ''agent.registered'', au_Actor = ''system'',
         au_TargetUserID = ag_UserID agent,
         au_Details = ''{'' @ [CHR 0x22] @ ''agent_id'' @ [CHR 0x22] @ '':'' @ re_quote env (ag_ID agent) @ '','' @ [CHR 0x22]
           @ ''agent_type'' @ [CHR 0x22] @ '':'' @ re_quote env (gr_AgentType req) @ '','' @ [CHR 0x22] @ ''version'' @ [CHR 0x22]
           @ '':'' @ re_quote env (gr_Version req) @ '','' @ [CHR 0x22] @ ''ip'' @ [CHR 0x22] @ '':''
           @ re_quote env (clientIP src) @ ''}'',
         au_IPAddress = clientIP src\<rparr> (re_now env))\<rparr>"

definition agent_permissions :: "string \<Rightarrow> VhostPermissions" where
  "agent_permissions userID =
     (let own = ''^(nipper-agent-'' @ userID @ ''|nipper-control-'' @ userID @ '')$'' in
      \<lparr>vp_Configure = own,
       vp_Write = ''^(nipper'' @ [CHR 0x5C] @ ''.events|nipper'' @ [CHR 0x5C] @ ''.logs)$'',
       vp_Read = own\<rparr>)"

definition reg_vhost :: "reg_world \<Rightarrow> string" where
  "reg_vhost w = (case rg_cfg w of Some c \<Rightarrow> if gc_VHost c \<noteq> [] then gc_VHost c else ''/nipper'' | None \<Rightarrow> ''/nipper'')"

definition rate_limit :: "reg_env \<Rightarrow> Agent \<Rightarrow> reg_world \<Rightarrow> reg_world \<times> duration option" where
  "rate_limit env agent w =
     (case rg_limiter w of
        None \<Rightarrow> (w, None)
      | Some l \<Rightarrow>
          (let key = (if ag_TokenPrefix agent = [] then ag_ID agent else ag_TokenPrefix agent);
               (l', allowed, retryAfter) = allowAt l key (re_now env)
           in (w\<lparr>rg_limiter := Some l'\<rparr>, if allowed then None else Some retryAfter)))"

definition writeRegisterRateLimited :: "duration \<Rightarrow> reg_response" where
  "writeRegisterRateLimited retryAfter = RateLimited (if retryAfter div Second < 1 then 1 else retryAfter div Second)"

definition tools_policy :: "reg_world \<Rightarrow> string \<Rightarrow> PolicyData option" where
  "tools_policy w userID =
     (case GetUserPolicy (rg_store w) userID ''tools'' of
        Inr (Some pd) \<Rightarrow> Some pd
      | _ \<Rightarrow>
          (case rg_cfg w of
             None \<Rightarrow> None
           | Some c \<Rightarrow>
               if gc_PolicyAllow c \<noteq> [] \<or> gc_PolicyDeny c \<noteq> []
               then Some \<lparr>pd_Allow = gc_PolicyAllow c, pd_Deny = gc_PolicyDeny c, pd_RateLimit = Map.empty,
                          pd_Models = Map.empty, pd_Extra = Map.empty\<rparr>
               else None))"

text \<open>Steps 8 to 14: credentials, permissions, queues, the datastore and the response.\<close>

definition provision_agent ::
  "reg_env \<Rightarrow> http_source \<Rightarrow> registrationRequest \<Rightarrow> Agent \<Rightarrow> User \<Rightarrow> reg_world \<Rightarrow> reg_world \<times> reg_response"
where
  "provision_agent env src req agent user w =
     (let rmqUsername = ''agent-'' @ ag_ID agent; vhost = reg_vhost w in
      case re_password env of
        None \<Rightarrow> (w, RegRefused 500 ''internal_error'')
      | Some rmqPassword \<Rightarrow>
          let w1 = w\<lparr>rg_mgmt := rg_mgmt w @ [MgmtCreateUser rmqUsername rmqPassword]\<rparr> in
          if \<not> re_create_ok env then (w1, RegRefused 503 ''service_unavailable'')
          else
            let w2 = w1\<lparr>rg_mgmt := rg_mgmt w1 @ [MgmtSetPermissions vhost rmqUsername (agent_permissions (ag_UserID agent))]\<rparr> in
            if \<not> re_permissions_ok env then (w2, RegRefused 503 ''service_unavailable'')
            else
              let w3 = (if re_can_close env then w2\<lparr>rg_mgmt := rg_mgmt w2 @ [MgmtCloseConnections rmqUsername]\<rparr> else w2);
                  w4 = (if re_channel_ok env
                        then w3\<lparr>rg_amqp := rg_amqp w3 @ fst (DeclareUserQueues (re_amqp_ok env) (ag_UserID agent))\<rparr> else w3);
                  meta = \<lparr>am_IP = clientIP src, am_AgentType = gr_AgentType req, am_Version = gr_Version req\<rparr>
              in (case UpdateAgentStatus (rg_store w4) (ag_ID agent) AgentStatusRegistered (Some meta) (re_now env) of
                    (st, Inl _) \<Rightarrow> (w4\<lparr>rg_store := st\<rparr>, RegRefused 500 ''internal_error'')
                  | (st, Inr _) \<Rightarrow>
                      let st' = fst (SetAgentRMQUsername st (ag_ID agent) rmqUsername (re_now env));
                          w5 = auditRegistrationSuccess env src agent req (w4\<lparr>rg_store := st'\<rparr>)
                      in (w5, Registered
                           \<lparr>rr_AgentID = ag_ID agent, rr_UserID = ag_UserID agent, rr_UserName = us_Name user,
                            rr_URL = (case rg_cfg w of None \<Rightarrow> [] | Some c \<Rightarrow> gc_URL c),
                            rr_Username = rmqUsername, rr_Password = rmqPassword, rr_VHost = vhost,
                            rr_QueueAgent = UserAgentQueue (ag_UserID agent),
                            rr_QueueControl = UserControlQueue (ag_UserID agent),
                            rr_EventsPublish = ''nipper.events.'' @ ag_UserID agent @ ''.{sessionId}'',
                            rr_LogsPublish = ''nipper.logs.'' @ ag_UserID agent @ ''.{eventType}'',
                            rr_User = user, rr_Tools = tools_policy w5 (ag_UserID agent)\<rparr>)))"

definition Handle ::
  "reg_env \<Rightarrow> http_source \<Rightarrow> string \<Rightarrow> registrationRequest \<Rightarrow> reg_world \<Rightarrow> reg_world \<times> reg_response"
where
  "Handle env src auth req w =
     (let token = extractBearerToken auth in
      if token = [] then (w, RegRefused 401 ''unauthorized'')
      else case GetAgentByTokenHash (rg_store w) (re_hash env token) of
        Inl _ \<Rightarrow> (auditRegistrationFailure env src [] ''invalid_token'' w, RegRefused 401 ''unauthorized'')
      | Inr agent \<Rightarrow>
          if ag_Status agent = AgentStatusRevoked
          then (auditRegistrationFailure env src (ag_UserID agent) ''agent_revoked'' w, RegRefused 401 ''unauthorized'')
          else case GetUser (rg_store w) (ag_UserID agent) of
            Inl _ \<Rightarrow> (auditRegistrationFailure env src (ag_UserID agent) ''user_not_found'' w, RegRefused 401 ''unauthorized'')
          | Inr user \<Rightarrow>
              if \<not> us_Enabled user
              then (auditRegistrationFailure env src (ag_UserID agent) ''user_disabled'' w, RegRefused 403 ''user_disabled'')
              else case rate_limit env agent w of
                (w1, Some retryAfter) \<Rightarrow> (w1, writeRegisterRateLimited retryAfter)
              | (w1, None) \<Rightarrow>
                  if \<not> re_mgmt env then (w1, RegRefused 503 ''service_unavailable'')
                  else provision_agent env src req agent user w1)"

section \<open>Who is given credentials\<close>

text \<open>
  What the management API may be told for one agent: create its account, give it permissions on
  one virtual host, close its connections. The patterns are written out: configure and read the
  user's two queues, write the exchanges of events and logs.
\<close>

definition granted :: "string \<Rightarrow> VhostPermissions" where
  "granted u =
     \<lparr>vp_Configure = ''^(nipper-agent-'' @ u @ ''|nipper-control-'' @ u @ '')$'',
      vp_Write = ''^(nipper'' @ [CHR 0x5C] @ ''.events|nipper'' @ [CHR 0x5C] @ ''.logs)$'',
      vp_Read = ''^(nipper-agent-'' @ u @ ''|nipper-control-'' @ u @ '')$''\<rparr>"

definition account_calls :: "string \<Rightarrow> string \<Rightarrow> string \<Rightarrow> string \<Rightarrow> mgmt_call list" where
  "account_calls vhost name pw u =
     [MgmtCreateUser name pw, MgmtSetPermissions vhost name (granted u), MgmtCloseConnections name]"

definition authorised :: "reg_env \<Rightarrow> string \<Rightarrow> Store \<Rightarrow> Agent \<Rightarrow> User \<Rightarrow> bool" where
  "authorised env auth st a u \<longleftrightarrow>
     extractBearerToken auth \<noteq> [] \<and> a \<in> set (db_agents st) \<and> ag_TokenHash a = re_hash env (extractBearerToken auth)
     \<and> ag_Status a \<noteq> AgentStatusRevoked \<and> u \<in> set (db_users st) \<and> us_ID u = ag_UserID a \<and> us_Enabled u"

lemma audit_failure_mgmt [simp]: "rg_mgmt (auditRegistrationFailure env src uid reason w) = rg_mgmt w"
  by (simp add: auditRegistrationFailure_def)

lemma rate_limit_keeps:
  "rate_limit env a w = (w1, r) \<Longrightarrow> rg_mgmt w1 = rg_mgmt w \<and> rg_store w1 = rg_store w \<and> rg_cfg w1 = rg_cfg w"
  by (auto simp: rate_limit_def Let_def split: option.splits prod.splits)

lemma LogAdmin_agents: "db_agents (fst (LogAdminAction st e now)) = db_agents st"
  by (simp add: LogAdminAction_def exec_def Let_def)

lemma update_agent_agents:
  "update_agent st i f = (st', Inr ()) \<Longrightarrow> db_open st \<and> db_agents st' = map (\<lambda>a. if ag_ID a = i then f a else a) (db_agents st)"
  by (auto simp: update_agent_def exec_def split: if_splits)

lemma agent_permissions_granted: "agent_permissions u = granted u"
  by (simp add: agent_permissions_def granted_def Let_def)

lemma audit_success_mgmt [simp]: "rg_mgmt (auditRegistrationSuccess env src a req w) = rg_mgmt w"
  by (simp add: auditRegistrationSuccess_def)

lemma provision_mgmt:
  assumes "provision_agent env src req a u w = (w', resp)"
  shows "\<exists>n pw. rg_mgmt w' = rg_mgmt w @ take n (account_calls (reg_vhost w) (''agent-'' @ ag_ID a) pw (ag_UserID a))
    \<and> (\<forall>res. resp = Registered res \<longrightarrow> 2 \<le> n \<and> rr_Password res = pw \<and> rr_VHost res = reg_vhost w)"
proof (cases "re_password env")
  case None
  with assms show ?thesis by (intro exI [of _ 0]) (auto simp: provision_agent_def Let_def)
next
  case (Some pw)
  define n :: nat where
    "n = (if \<not> re_create_ok env then 1 else if \<not> re_permissions_ok env then 2 else if re_can_close env then 3 else 2)"
  have "rg_mgmt w' = rg_mgmt w @ take n (account_calls (reg_vhost w) (''agent-'' @ ag_ID a) pw (ag_UserID a))
      \<and> (\<forall>res. resp = Registered res \<longrightarrow> 2 \<le> n \<and> rr_Password res = pw \<and> rr_VHost res = reg_vhost w)"
    using assms Some
    by (auto simp: provision_agent_def Let_def n_def account_calls_def agent_permissions_granted
        split: if_splits sum.splits prod.splits)
  then show ?thesis by blast
qed

lemma provision_registered:
  assumes "provision_agent env src req a u w = (w', Registered res)"
  shows "rr_UserID res = ag_UserID a" "rr_Username res = ''agent-'' @ ag_ID a" "rr_QueueAgent res = UserAgentQueue (ag_UserID a)"
    "rr_QueueControl res = UserControlQueue (ag_UserID a)" "rr_User res = u"
    "\<forall>b \<in> set (db_agents (rg_store w')). ag_ID b = ag_ID a \<longrightarrow> ag_Status b = AgentStatusRegistered"
proof -
  obtain st w5 where st: "UpdateAgentStatus (rg_store w) (ag_ID a) AgentStatusRegistered
        (Some \<lparr>am_IP = clientIP src, am_AgentType = gr_AgentType req, am_Version = gr_Version req\<rparr>) (re_now env) = (st, Inr ())"
    and w5: "w' = auditRegistrationSuccess env src a req w5"
      "rg_store w5 = fst (SetAgentRMQUsername st (ag_ID a) (''agent-'' @ ag_ID a) (re_now env))"
    and res: "rr_UserID res = ag_UserID a" "rr_Username res = ''agent-'' @ ag_ID a" "rr_QueueAgent res = UserAgentQueue (ag_UserID a)"
      "rr_QueueControl res = UserControlQueue (ag_UserID a)" "rr_User res = u"
    using assms by (fastforce simp: provision_agent_def Let_def split: option.splits if_splits sum.splits prod.splits)
  from res show "rr_UserID res = ag_UserID a" "rr_Username res = ''agent-'' @ ag_ID a" "rr_QueueAgent res = UserAgentQueue (ag_UserID a)"
    "rr_QueueControl res = UserControlQueue (ag_UserID a)" "rr_User res = u" by blast+
  have "\<forall>b \<in> set (db_agents st). ag_ID b = ag_ID a \<longrightarrow> ag_Status b = AgentStatusRegistered"
    using st update_agent_agents [of "rg_store w" "ag_ID a" _ st] by (auto simp: UpdateAgentStatus_def)
  moreover have "db_agents (rg_store w') = db_agents (rg_store w5)"
    by (simp add: w5(1) auditRegistrationSuccess_def LogAdmin_agents)
  ultimately show "\<forall>b \<in> set (db_agents (rg_store w')). ag_ID b = ag_ID a \<longrightarrow> ag_Status b = AgentStatusRegistered"
    by (auto simp: w5(2) SetAgentRMQUsername_def update_agent_def exec_def)
qed

lemma Handle_provisions:
  assumes "Handle env src auth req w = (w', resp)" and "rg_mgmt w' \<noteq> rg_mgmt w \<or> (\<exists>res. resp = Registered res)"
  shows "\<exists>a u w1. authorised env auth (rg_store w) a u \<and> rg_mgmt w1 = rg_mgmt w \<and> rg_cfg w1 = rg_cfg w
    \<and> provision_agent env src req a u w1 = (w', resp)"
proof -
  obtain a where a: "GetAgentByTokenHash (rg_store w) (re_hash env (extractBearerToken auth)) = Inr a"
    "extractBearerToken auth \<noteq> []" "ag_Status a \<noteq> AgentStatusRevoked"
    using assms by (auto simp: Handle_def Let_def split: if_splits sum.splits)
  obtain u where u: "GetUser (rg_store w) (ag_UserID a) = Inr u" "us_Enabled u"
    using assms a by (auto simp: Handle_def Let_def split: if_splits sum.splits)
  obtain w1 r where w1: "rate_limit env a w = (w1, r)" by force
  have "provision_agent env src req a u w1 = (w', resp)"
    using assms a u w1 rate_limit_keeps [OF w1]
    by (auto simp: Handle_def writeRegisterRateLimited_def split: option.splits if_splits)
  moreover have "authorised env auth (rg_store w) a u"
    using a u by (auto simp: authorised_def GetAgentByTokenHash_def GetUser_def fetch_def dest!: find_first_SomeD
        split: if_splits option.splits)
  ultimately show ?thesis using rate_limit_keeps [OF w1] by blast
qed

text \<open>
  C27: broker credentials go to known agents of enabled users, for their user's queues. If a
  registration request makes the gateway call the management API or succeeds, then it
  carried the token of an agent that is not revoked, of an enabled user. The calls made are,
  in this order and up to the one that ended the request: create the account named after the agent, set
  its permissions on the configured virtual host, by patterns that name that user's agent and
  control queue for configuring and reading and the exchanges of events and logs for writing,
  and close its connections. A successful response comes after the first two, carries the
  password and virtual host set there, names that user, its queues and the agent's account,
  and leaves the agent recorded as registered. (The user's id stands in the patterns as it is.)
\<close>

theorem registration_gate:
  assumes "Handle env src auth req w = (w', resp)" and "rg_mgmt w' \<noteq> rg_mgmt w \<or> (\<exists>res. resp = Registered res)"
  shows "\<exists>a u n pw. authorised env auth (rg_store w) a u
    \<and> rg_mgmt w' = rg_mgmt w @ take n (account_calls (reg_vhost w) (''agent-'' @ ag_ID a) pw (us_ID u))
    \<and> (\<forall>res. resp = Registered res \<longrightarrow>
         2 \<le> n \<and> rr_Password res = pw \<and> rr_VHost res = reg_vhost w
         \<and> rr_UserID res = us_ID u \<and> rr_QueueAgent res = UserAgentQueue (us_ID u) \<and> rr_QueueControl res = UserControlQueue (us_ID u)
         \<and> rr_Username res = ''agent-'' @ ag_ID a
         \<and> (\<forall>b \<in> set (db_agents (rg_store w')). ag_ID b = ag_ID a \<longrightarrow> ag_Status b = AgentStatusRegistered))"
proof -
  obtain a u w1 where *: "authorised env auth (rg_store w) a u" "rg_mgmt w1 = rg_mgmt w" "rg_cfg w1 = rg_cfg w"
    "provision_agent env src req a u w1 = (w', resp)"
    using Handle_provisions [OF assms] by blast
  then have u: "us_ID u = ag_UserID a" and v: "reg_vhost w1 = reg_vhost w" by (simp_all add: authorised_def reg_vhost_def)
  obtain n pw where n: "rg_mgmt w' = rg_mgmt w @ take n (account_calls (reg_vhost w) (''agent-'' @ ag_ID a) pw (us_ID u))"
    "\<forall>res. resp = Registered res \<longrightarrow> 2 \<le> n \<and> rr_Password res = pw \<and> rr_VHost res = reg_vhost w"
    using provision_mgmt [OF *(4)] unfolding *(2) v u by blast
  have "rr_UserID res = us_ID u \<and> rr_QueueAgent res = UserAgentQueue (us_ID u) \<and> rr_QueueControl res = UserControlQueue (us_ID u)
      \<and> rr_Username res = ''agent-'' @ ag_ID a
      \<and> (\<forall>b \<in> set (db_agents (rg_store w')). ag_ID b = ag_ID a \<longrightarrow> ag_Status b = AgentStatusRegistered)"
    if "resp = Registered res" for res
    using provision_registered [OF *(4) [unfolded that]] unfolding u by (intro conjI)
  with *(1) n show ?thesis by blast
qed

definition demo_user_row :: User where
  "demo_user_row = \<lparr>us_ID = ''u'', us_Name = ''n'', us_Enabled = True, us_DefaultModel = ''m'', us_CreatedAt = 0,
     us_UpdatedAt = 0, us_Preferences = Map.empty\<rparr>"

definition demo_reg_env :: reg_env where
  "demo_reg_env = \<lparr>re_hash = (\<lambda>x. x), re_quote = (\<lambda>x. x), re_now = 1, re_password = Some ''pw'', re_mgmt = True,
     re_create_ok = True, re_permissions_ok = True, re_can_close = True, re_channel_ok = True, re_amqp_ok = (\<lambda>_. True)\<rparr>"

definition demo_reg_world :: reg_world where
  "demo_reg_world = \<lparr>rg_store = emptyStore\<lparr>db_users := [demo_user_row], db_agents := [demo_agent ''tok'' ''u'']\<rparr>,
     rg_limiter = None, rg_cfg = None, rg_mgmt = [], rg_amqp = []\<rparr>"

definition demo_source :: http_source where
  "demo_source = \<lparr>hs_ForwardedFor = [], hs_RealIP = [], hs_RemoteAddr = ''1:2''\<rparr>"

theorem registration_gate_witness:
  "\<exists>w' res. Handle demo_reg_env demo_source ''Bearer tok'' \<lparr>gr_AgentType = [], gr_Version = []\<rparr> demo_reg_world = (w', Registered res)
     \<and> rr_QueueAgent res = ''nipper-agent-u'' \<and> rr_Username res = ''agent-agt''
     \<and> (\<exists>p \<in> set (rg_mgmt w'). \<exists>perms. p = MgmtSetPermissions ''/nipper'' ''agent-agt'' perms
          \<and> vp_Read perms = ''^(nipper-agent-u|nipper-control-u)$'')"
proof -
  let ?req = "\<lparr>gr_AgentType = [], gr_Version = []\<rparr> :: registrationRequest"
  obtain w' res where h: "Handle demo_reg_env demo_source ''Bearer tok'' ?req demo_reg_world = (w', Registered res)"
    by (simp add: Handle_def demo_reg_env_def demo_reg_world_def demo_token GetAgentByTokenHash_def GetUser_def fetch_def
        emptyStore_def demo_agent_def demo_user_row_def rate_limit_def provision_agent_def UpdateAgentStatus_def
        update_agent_def exec_def Let_def)
  obtain a u n pw where au: "authorised demo_reg_env ''Bearer tok'' (rg_store demo_reg_world) a u"
    "rr_QueueAgent res = UserAgentQueue (us_ID u)" "rr_Username res = ''agent-'' @ ag_ID a" "2 \<le> n"
    and calls: "rg_mgmt w' = rg_mgmt demo_reg_world
      @ take n (account_calls (reg_vhost demo_reg_world) (''agent-'' @ ag_ID a) pw (us_ID u))"
    using registration_gate [OF h] by blast
  from au(1) have ids: "us_ID u = ''u''" "ag_ID a = ''agt''"
    by (auto simp: authorised_def demo_reg_world_def emptyStore_def demo_user_row_def demo_agent_def)
  obtain m where "n = Suc (Suc m)" using au(4) by (intro that [of "n - 2"]) simp
  then have mem: "MgmtSetPermissions ''/nipper'' ''agent-agt'' (granted ''u'') \<in> set (rg_mgmt w')"
    unfolding calls ids by (simp add: demo_reg_world_def account_calls_def reg_vhost_def)
  have vp: "vp_Read (granted ''u'') = ''^(nipper-agent-u|nipper-control-u)$''" by (simp add: granted_def)
  have "\<exists>p \<in> set (rg_mgmt w'). \<exists>perms. p = MgmtSetPermissions ''/nipper'' ''agent-agt'' perms
      \<and> vp_Read perms = ''^(nipper-agent-u|nipper-control-u)$''"
    by (rule bexI [OF _ mem], rule exI [of _ "granted ''u''"]) (simp add: vp)
  moreover have "rr_QueueAgent res = ''nipper-agent-u''" "rr_Username res = ''agent-agt''"
    by (simp_all add: au(2,3) ids UserAgentQueue_def)
  ultimately show ?thesis by (intro exI [of _ w'] exI [of _ res] conjI h)
qed

end
