(* ===== verification/ReplyText.thy ===== *)
theory ReplyText
  imports GoStrings "HOL-Library.Sublist"
begin

text \<open>
  The clean-up of model output before it is sent to the user (\<^verbatim>\<open>internal/agent/runtime.go\<close>):
  removing reasoning blocks and leaked chat-template markers, recognising garbled output and
  saving the usable end of it; and the functions that classify errors of the model by their
  text.
\<close>

section \<open>Strings\<close>

definition Contains :: "string \<Rightarrow> string \<Rightarrow> bool" where
  "Contains s sub \<longleftrightarrow> Index s sub \<noteq> None"

text \<open>\<^verbatim>\<open>strings.Split\<close> for a separator that is not empty.\<close>

function SplitStr :: "string \<Rightarrow> string \<Rightarrow> string list" where
  "SplitStr s sep =
     (if sep = [] then [s]
      else case Index s sep of
             None \<Rightarrow> [s]
           | Some i \<Rightarrow> take i s # SplitStr (drop (i + length sep) s) sep)"
  by pat_completeness auto

lemma Index_nonempty: "Index s sub = Some i \<Longrightarrow> sub \<noteq> [] \<Longrightarrow> s \<noteq> []"
  by (cases s) (auto simp: Index.simps)

termination SplitStr
  by (relation "measure (length \<circ> fst)") (auto dest: Index_nonempty)

declare SplitStr.simps [simp del]

fun JoinStr :: "string list \<Rightarrow> string \<Rightarrow> string" where
  "JoinStr [] sep = []"
| "JoinStr [p] sep = p"
| "JoinStr (p # q # ps) sep = p @ sep @ JoinStr (q # ps) sep"

abbreviation newline :: string where "newline \<equiv> [CHR 0x0A]"

section \<open>Reasoning blocks\<close>

abbreviation openTag :: string where "openTag \<equiv> ''<think>''"
abbreviation closeTag :: string where "closeTag \<equiv> ''</think>''"

function think_loop :: "string \<Rightarrow> string list \<times> string list" where
  "think_loop remaining =
     (case Index remaining openTag of
        None \<Rightarrow> ([remaining], [])
      | Some start \<Rightarrow>
          (let afterOpen = drop (start + 7) remaining in
           case Index afterOpen closeTag of
             None \<Rightarrow> ([take start remaining], [TrimSpace afterOpen])
           | Some e \<Rightarrow>
               (let (clean, think) = think_loop (drop (e + 8) afterOpen)
                in (take start remaining # clean, TrimSpace (take e afterOpen) # think))))"
  by pat_completeness auto

termination think_loop
  by (relation "measure length") (auto dest!: Index_nonempty)

declare think_loop.simps [simp del]

definition stripThinkTags :: "string \<Rightarrow> string \<times> string" where
  "stripThinkTags content =
     (if \<not> Contains content openTag then (content, [])
      else let (cleanParts, thinkParts) = think_loop content
           in (TrimSpace (concat cleanParts), TrimSpace (JoinStr thinkParts (newline @ newline))))"

section \<open>Chat-template markers\<close>

function template_loop :: "string \<Rightarrow> string" where
  "template_loop remaining =
     (case Index remaining ''<|'' of
        None \<Rightarrow> remaining
      | Some idx \<Rightarrow>
          (let afterMarker = drop (idx + 2) remaining in
           case Index afterMarker ''|>'' of
             None \<Rightarrow> remaining
           | Some endIdx \<Rightarrow> take idx remaining @ template_loop (drop (endIdx + 2) afterMarker)))"
  by pat_completeness auto

termination template_loop
  by (relation "measure length") (auto dest!: Index_nonempty)

declare template_loop.simps [simp del]

definition stripChatTemplateTokens :: "string \<Rightarrow> string" where
  "stripChatTemplateTokens content =
     (if \<not> Contains content ''<|'' then content else TrimSpace (template_loop content))"

section \<open>Garbled output\<close>

definition isNonMeaningfulRune :: "rune \<Rightarrow> bool" where
  "isNonMeaningfulRune r \<longleftrightarrow>
     r \<in> {0x2E, 0x2026, 0x2014, 0x2013, 0x2D, 0x2011, 0x2A, 0x3F, 0x21, 0x2C, 0x3B, 0x3A, 0x0A, 0x0D, 0x20, 0x09,
          0x200B, 0x200C, 0x200D, 0x2060, 0x2061, 0xFEFF, 0x00AD}
     \<or> (0x2062 \<le> r \<and> r \<le> 0x2064)"

definition rune_list :: "string \<Rightarrow> rune list" where
  "rune_list s = map fst (runes s)"

definition meaningful :: "rune list \<Rightarrow> nat" where
  "meaningful rs = length (filter (\<lambda>r. \<not> isNonMeaningfulRune r) rs)"

text \<open>Consecutive equal byte pairs: the longest run found.\<close>

fun bigram_loop :: "string \<Rightarrow> nat \<Rightarrow> nat \<Rightarrow> nat" where
  "bigram_loop (a # b # c # d # rest) currentRepeat maxRepeat =
     (if c = a \<and> d = b
      then bigram_loop (c # d # rest) (currentRepeat + 1)
             (if maxRepeat < currentRepeat + 1 then currentRepeat + 1 else maxRepeat)
      else bigram_loop (c # d # rest) 0 maxRepeat)"
| "bigram_loop _ currentRepeat maxRepeat = maxRepeat"

definition garbled_segment :: "rune list \<Rightarrow> nat \<Rightarrow> bool" where
  "garbled_segment rs frac =
     (let segLen = length rs div frac in
      if segLen < 20 then False
      else let seg = take segLen rs in 10 < length seg \<and> meaningful seg < length seg div 5)"

definition garbled_line_count :: "string list \<Rightarrow> nat \<times> nat" where
  "garbled_line_count lines =
     (let ls = filter (\<lambda>l. l \<noteq> []) (map TrimSpace lines);
          bad = (\<lambda>l. let rs = rune_list l in
                   (0 < length rs \<and> meaningful rs \<le> length rs div 4) \<or> (length rs \<le> 8 \<and> meaningful rs \<le> 6))
      in (length ls, length (filter bad ls)))"

definition isGarbledOutput :: "string \<Rightarrow> bool" where
  "isGarbledOutput content =
     (let trimmed = TrimSpace content; rs = rune_list trimmed in
      if trimmed = [] then False
      else if 10 < length rs \<and> meaningful rs < length rs div 5 then True
      else if 50 < length trimmed \<and> 15 < bigram_loop trimmed 0 0 then True
      else if 10 < length rs
        \<and> length rs div 4 < length (filter (\<lambda>r. r = 0xFFFD \<or> (r < 0x20 \<and> r \<noteq> 0x0A \<and> r \<noteq> 0x0D \<and> r \<noteq> 0x09)) rs) then True
      else if 80 < length rs \<and> (garbled_segment rs 4 \<or> garbled_segment rs 2) then True
      else if 100 < length trimmed
        \<and> (let (n, bad) = garbled_line_count (Split trimmed (CHR 0x0A)) in 5 < n \<and> n * 2 div 3 \<le> bad) then True
      else False)"

definition isGarbledLine :: "string \<Rightarrow> bool" where
  "isGarbledLine line =
     (let rs = rune_list line in
      if length rs = 0 then True
      else if length rs \<le> 2 then meaningful rs = 0
      else meaningful rs * 5 < length rs * 2)"

definition narrationPrefixes :: "string list" where
  "narrationPrefixes =
     [''the user sent'', ''the user asked'', ''the user wants'', ''the user is'', ''the user has'', ''the user gave'',
      ''the user said'', ''the user requested'', ''we need to'', ''we should'', ''we fetched'', ''we turned'', ''we called'',
      ''we got'', ''now we need'', ''now i need'', ''let me '', ''let'' @ [CHR 0x27] @ ''s craft'', ''let'' @ [CHR 0x27] @ ''s respond'',
      ''let'' @ [CHR 0x27] @ ''s reply'', ''i need to'', ''i should'', ''i will'', ''i'' @ [CHR 0x27] @ ''ll '', ''first, i'', ''next, i'',
      ''the tool responded'', ''the tool returned'', ''the tool call'', ''the tool succeeded'', ''now we must'', ''it seems the'',
      ''it seems like'', ''it looks like'', ''it appears that'', ''use whatsapp'']"

definition isReasoningNarration :: "string \<Rightarrow> bool" where
  "isReasoningNarration line = list_ex (HasPrefix (ToLower line)) narrationPrefixes"

text \<open>The loop from the last paragraph backwards; \<open>clean\<close> is in reading order.\<close>

fun salvage_loop :: "string list \<Rightarrow> string list \<Rightarrow> string list" where
  "salvage_loop [] clean = clean"
| "salvage_loop (q # qs) clean =
     (let p = TrimSpace q in
      if p = [] then salvage_loop qs clean
      else if isGarbledLine p then clean
      else if isReasoningNarration p then clean
      else salvage_loop qs (p # clean))"

definition salvageCleanSuffix :: "string \<Rightarrow> string" where
  "salvageCleanSuffix content =
     (let clean = salvage_loop (rev (SplitStr content (newline @ newline))) [];
          result = JoinStr clean (newline @ newline)
      in if clean = [] then [] else if length (rune_list result) < 10 then [] else result)"

section \<open>Errors by their text\<close>

definition isImagesNotSupportedErr :: "string option \<Rightarrow> bool" where
  "isImagesNotSupportedErr err =
     (case err of None \<Rightarrow> False
      | Some text \<Rightarrow> let msg = ToLower text in
          Contains msg ''does not support images'' \<or> Contains msg ''model does not support images''
          \<or> Contains msg ''image input is not supported'' \<or> Contains msg ''image inputs are not supported'')"

definition isMCPTransportError :: "string option \<Rightarrow> bool" where
  "isMCPTransportError err =
     (case err of None \<Rightarrow> False
      | Some msg \<Rightarrow> Contains msg ''transport has been closed'' \<or> Contains msg ''transport error'')"

definition isRateLimitError :: "string option \<Rightarrow> bool" where
  "isRateLimitError err =
     (case err of None \<Rightarrow> False
      | Some text \<Rightarrow> let msg = ToLower text in
          Contains msg ''429'' \<or> Contains msg ''rate limit'' \<or> Contains msg ''too many requests'')"

definition isSpecialTokenLeakage :: "string option \<Rightarrow> bool" where
  "isSpecialTokenLeakage err =
     (case err of None \<Rightarrow> False
      | Some msg \<Rightarrow>
          list_ex (Contains msg) [''<|channel|>'', ''<|message|>'', ''<|start|>'', ''<|end|>'', ''<|im_start|>'', ''<|im_end|>'']
          \<or> (Contains msg ''Failed to parse input'' \<and> Contains msg ''<|''))"

definition toolNameFromNotFoundError :: "string option \<Rightarrow> string" where
  "toolNameFromNotFoundError err =
     (case err of None \<Rightarrow> []
      | Some msg \<Rightarrow>
          (case Index msg ''tool '' of
             None \<Rightarrow> []
           | Some i \<Rightarrow>
               let rest = drop (i + 5) msg in
               (case Index rest '' not found'' of
                  None \<Rightarrow> []
                | Some k \<Rightarrow> TrimSpace (take k rest))))"

definition debugTruncate :: "string \<Rightarrow> nat \<Rightarrow> string" where
  "debugTruncate s maxLen = (if length s \<le> maxLen then s else take maxLen s @ ''... [truncated]'')"

definition sanitizeSkillArgs :: "string \<Rightarrow> string" where
  "sanitizeSkillArgs args = (if length args \<le> 256 then args else take 256 args @ ''...'')"

section \<open>What is removed and what is kept\<close>

text \<open>A marker whose first character does not occur again in it is found where it first stands.\<close>

lemma HasPrefix_overlap:
  assumes "HasPrefix (p @ c # m @ r) (c # m)" "c \<notin> set m" "p \<noteq> []"
  shows "HasPrefix p (c # m)"
proof -
  obtain p' where p: "p = c # p'" and pre: "HasPrefix (p' @ c # m @ r) m"
    using assms by (cases p) auto
  have "length m \<le> length p'"
  proof (rule ccontr)
    assume "\<not> length m \<le> length p'"
    then have len: "length p' < length m" by simp
    have "take (length m) (p' @ c # m @ r) = m" using pre by (simp add: HasPrefix_def)
    then have "m ! length p' = take (length m) (p' @ c # m @ r) ! length p'" by simp
    also have "\<dots> = c" using len by (simp add: nth_append)
    finally have "c \<in> set m" using len by (metis nth_mem)
    with assms(2) show False by contradiction
  qed
  with pre have "HasPrefix p' m" by (simp add: HasPrefix_def)
  with p show ?thesis by simp
qed

lemma Index_first:
  assumes "\<not> Contains p (c # m)" "c \<notin> set m"
  shows "Index (p @ c # m @ r) (c # m) = Some (length p)"
  using assms(1)
proof (induction p)
  case Nil
  then show ?case by (subst Index.simps) simp
next
  case (Cons x p)
  have "\<not> HasPrefix (x # p) (c # m)" using Cons.prems by (auto simp: Contains_def Index.simps [of "x # p"])
  then have "\<not> HasPrefix ((x # p) @ c # m @ r) (c # m)" using HasPrefix_overlap [OF _ assms(2)] by blast
  moreover have "\<not> Contains p (c # m)"
    using Cons.prems \<open>\<not> HasPrefix (x # p) (c # m)\<close> by (auto simp: Contains_def Index.simps [of "x # p"])
  ultimately show ?case using Cons.IH by (subst Index.simps) simp
qed

text \<open>A text made of visible parts with reasoning blocks between them.\<close>

fun render :: "string \<Rightarrow> (string \<times> string) list \<Rightarrow> string" where
  "render p [] = p"
| "render p ((t, q) # bs) = p @ openTag @ t @ closeTag @ render q bs"

lemma think_loop_render:
  assumes "\<not> Contains p openTag" "\<forall>b \<in> set bs. \<not> Contains (fst b) closeTag \<and> \<not> Contains (snd b) openTag"
  shows "think_loop (render p bs) = (p # map snd bs, map (TrimSpace \<circ> fst) bs)"
  using assms
proof (induction p bs rule: render.induct)
  case (1 p)
  then show ?case by (simp add: think_loop.simps Contains_def)
next
  case (2 p t q bs)
  have o1: "Index (p @ openTag @ t @ closeTag @ render q bs) openTag = Some (length p)"
    using Index_first [of p "CHR ''<''" "''think>''" "t @ closeTag @ render q bs"] 2(2) by simp
  have c1: "Index (t @ closeTag @ render q bs) closeTag = Some (length t)"
    using Index_first [of t "CHR ''<''" "''/think>''" "render q bs"] 2(3) by simp
  have d: "drop (length p + 7) (p @ openTag @ t @ closeTag @ render q bs) = t @ closeTag @ render q bs"
    "drop (length t + 8) (t @ closeTag @ render q bs) = render q bs" by simp_all
  have "think_loop (render q bs) = (q # map snd bs, map (TrimSpace \<circ> fst) bs)" using 2 by simp
  then show ?case
    unfolding render.simps
    by (subst think_loop.simps) (simp only: o1 c1 d option.case Let_def, simp)
qed

text \<open>
  C29: reasoning blocks are removed and kept apart. In a text of visible parts without an
  opening tag and reasoning parts without a closing tag, what is sent to the user is exactly
  the visible parts, trimmed, and what is logged as reasoning is exactly the reasoning parts.
\<close>

theorem think_blocks_stripped:
  assumes "bs \<noteq> []" "\<not> Contains p openTag" "\<forall>b \<in> set bs. \<not> Contains (fst b) closeTag \<and> \<not> Contains (snd b) openTag"
  shows "stripThinkTags (render p bs) =
    (TrimSpace (concat (p # map snd bs)), TrimSpace (JoinStr (map (TrimSpace \<circ> fst) bs) (newline @ newline)))"
proof -
  obtain t q bs' where "bs = (t, q) # bs'" using assms(1) by (cases bs) auto
  then have "Contains (render p bs) openTag"
    using Index_first [of p "CHR ''<''" "''think>''" "t @ closeTag @ render q bs'"] assms(2) by (simp add: Contains_def)
  then show ?thesis using think_loop_render [OF assms(2,3)] by (simp add: stripThinkTags_def)
qed

lemma TrimSpace_plain:
  assumes "\<forall>c \<in> set s. of_char c < (128 :: nat)" "s \<noteq> []" "\<not> IsSpace (of_char (hd s))" "\<not> IsSpace (of_char (last s))"
  shows "TrimSpace s = s"
proof -
  have r: "runes s = map (\<lambda>c. (of_char c, [c])) s" using assms(1) by (rule runes_ascii)
  have front: "dropWhile (\<lambda>p. IsSpace (fst p)) (runes s) = runes s"
    unfolding r using assms(2,3) by (cases s) simp_all
  have "dropWhile (\<lambda>p. IsSpace (fst p)) (rev (runes s)) = rev (runes s)"
    unfolding r using assms(2,4) by (cases s rule: rev_cases) simp_all
  with front show ?thesis by (simp add: TrimSpace_def Let_def) (simp add: r o_def)
qed

theorem think_blocks_stripped_witness:
  "stripThinkTags (''a<think>b</think>c'') = (''ac'', ''b'')"
proof -
  have "\<not> Contains ''a'' openTag" "\<not> Contains ''c'' openTag" "\<not> Contains ''b'' closeTag"
    by (simp_all add: Contains_def Index.simps)
  then have "stripThinkTags (render ''a'' [(''b'', ''c'')])
      = (TrimSpace (concat (''a'' # map snd [(''b'', ''c'')])), TrimSpace (JoinStr (map (TrimSpace \<circ> fst) [(''b'', ''c'')]) (newline @ newline)))"
    by (intro think_blocks_stripped) auto
  moreover have "TrimSpace ''ac'' = ''ac''" "TrimSpace ''b'' = ''b''" by (simp_all add: TrimSpace_plain IsSpace_def)
  ultimately show ?thesis by simp
qed

text \<open>
  Removing a block can leave a tag behind: the visible parts around it are joined without a
  second look.
\<close>

theorem stripped_text_keeps_tag:
  "stripThinkTags (''<th<think>x</think>ink>more'') = (''<think>more'', ''x'')"
proof -
  have "\<not> Contains ''<th'' openTag" "\<not> Contains ''ink>more'' openTag" "\<not> Contains ''x'' closeTag"
    by (simp_all add: Contains_def Index.simps)
  then have "think_loop (render ''<th'' [(''x'', ''ink>more'')]) = ([''<th'', ''ink>more''], [TrimSpace ''x''])"
    using think_loop_render [of "''<th''" "[(''x'', ''ink>more'')]"] by simp
  moreover have "Contains (''<th<think>x</think>ink>more'') openTag"
    by (simp add: Contains_def Index.simps)
  moreover have "TrimSpace ''<think>more'' = ''<think>more''" "TrimSpace ''x'' = ''x''"
    by (simp_all add: TrimSpace_plain IsSpace_def)
  ultimately show ?thesis by (simp add: stripThinkTags_def)
qed

section \<open>The saved end of a garbled answer\<close>

definition usable :: "string \<Rightarrow> bool" where
  "usable p \<longleftrightarrow> \<not> isGarbledLine p \<and> \<not> isReasoningNarration p"

lemma salvage_loop_takeWhile:
  "salvage_loop qs clean = rev (takeWhile usable (filter (\<lambda>p. p \<noteq> []) (map TrimSpace qs))) @ clean"
  by (induction qs clean rule: salvage_loop.induct) (auto simp: Let_def usable_def)

text \<open>
  What is saved of a garbled answer is its longest usable end. The saved text is empty
  or at least ten characters long, and if it is not empty it consists of the last non-empty
  paragraphs of the answer, as many as are usable without a break, in their order.
\<close>

theorem salvage_longest_usable_tail:
  "let paragraphs = filter (\<lambda>p. p \<noteq> []) (map TrimSpace (SplitStr content (newline @ newline)));
       tail = rev (takeWhile usable (rev paragraphs))
   in salvageCleanSuffix content = (if length (rune_list (JoinStr tail (newline @ newline))) < 10 then [] else JoinStr tail (newline @ newline))"
proof -
  have "salvage_loop (rev (SplitStr content (newline @ newline))) [] =
      rev (takeWhile usable (rev (filter (\<lambda>p. p \<noteq> []) (map TrimSpace (SplitStr content (newline @ newline))))))"
    by (simp add: salvage_loop_takeWhile rev_map rev_filter)
  then show ?thesis by (simp add: salvageCleanSuffix_def Let_def)
qed

end
