(* ===== verification/Lifecycle.thy ===== *)
theory Lifecycle
  imports Prelude "HOL-Library.Multiset"
begin

text \<open>
  The lifecycle manager (\<^verbatim>\<open>internal/lifecycle/lifecycle.go\<close>): components are stopped phase by
  phase, the components of one phase concurrently.

  Which stop functions fail, in which order the components of a phase finish and when the
  phase's timeout strikes is the schedule of the phase, an argument; a schedule is complete
  when every component of the phase finishes, which is what the manager waits for.
\<close>

section \<open>Components and phases\<close>

record Component =
  lc_Name :: string
  lc_Phase :: int
  lc_HasStop :: bool  \<comment> \<open>whether \<^verbatim>\<open>StopFn\<close> is set\<close>

record Manager =
  mg_components :: "Component list"
  mg_timeout :: duration

definition NewManager :: "duration \<Rightarrow> Manager" where
  "NewManager timeout = \<lparr>mg_components = [], mg_timeout = (if timeout \<le> 0 then 30 * Second else timeout)\<rparr>"

definition Register_component :: "Manager \<Rightarrow> Component \<Rightarrow> Manager" where
  "Register_component m c = m\<lparr>mg_components := mg_components m @ [c]\<rparr>"

definition RegisterStop :: "Manager \<Rightarrow> string \<Rightarrow> int \<Rightarrow> Manager" where
  "RegisterStop m name phase = Register_component m \<lparr>lc_Name = name, lc_Phase = phase, lc_HasStop = True\<rparr>"

definition ComponentCount :: "Manager \<Rightarrow> nat" where
  "ComponentCount m = length (mg_components m)"

record phaseGroup =
  pg_phase :: int
  pg_components :: "Component list"

fun group_loop :: "Component list \<Rightarrow> phaseGroup \<Rightarrow> phaseGroup list" where
  "group_loop [] current = [current]"
| "group_loop (c # cs) current =
     (if lc_Phase c \<noteq> pg_phase current
      then current # group_loop cs \<lparr>pg_phase = lc_Phase c, pg_components = [c]\<rparr>
      else group_loop cs (current\<lparr>pg_components := pg_components current @ [c]\<rparr>))"

definition groupByPhase :: "Component list \<Rightarrow> phaseGroup list" where
  "groupByPhase comps =
     (case comps of [] \<Rightarrow> [] | c # _ \<Rightarrow> group_loop comps \<lparr>pg_phase = lc_Phase c, pg_components = []\<rparr>)"

section \<open>Shutdown\<close>

datatype stop_event =
  Stopping Component
| Stopped Component bool  \<comment> \<open>and whether its stop function failed\<close>
| PhaseTimedOut int

datatype stop_error = StopFailed string | PhaseTimeout int

fun event_errors :: "stop_event \<Rightarrow> stop_error list" where
  "event_errors (Stopping c) = []"
| "event_errors (Stopped c failed) = (if lc_HasStop c \<and> failed then [StopFailed (lc_Name c)] else [])"
| "event_errors (PhaseTimedOut p) = [PhaseTimeout p]"

text \<open>
  The events of one phase: all stop functions are started, then comes what the schedule says,
  and the errors are collected in that order.
\<close>

definition shutdownGroup :: "(phaseGroup \<Rightarrow> stop_event list) \<Rightarrow> phaseGroup \<Rightarrow> stop_event list \<times> stop_error list" where
  "shutdownGroup schedule g =
     (map Stopping (pg_components g) @ schedule g, concat (map event_errors (schedule g)))"

definition Shutdown :: "(phaseGroup \<Rightarrow> stop_event list) \<Rightarrow> Manager \<Rightarrow> stop_event list \<times> stop_error list" where
  "Shutdown schedule m =
     (let groups = groupByPhase (sort_key lc_Phase (mg_components m));
          results = map (shutdownGroup schedule) groups
      in (concat (map fst results), concat (map snd results)))"

section \<open>Order\<close>

fun finished :: "stop_event \<Rightarrow> Component list" where
  "finished (Stopped c failed) = [c]"
| "finished _ = []"

fun started :: "stop_event \<Rightarrow> Component list" where
  "started (Stopping c) = [c]"
| "started _ = []"

definition complete :: "(phaseGroup \<Rightarrow> stop_event list) \<Rightarrow> bool" where
  "complete schedule \<longleftrightarrow>
     (\<forall>g. mset (concat (map finished (schedule g))) = mset (pg_components g) \<and> concat (map started (schedule g)) = [])"

text \<open>Grouping a sorted list cuts it into its phases, in ascending order.\<close>

definition phases_ok :: "phaseGroup list \<Rightarrow> bool" where
  "phases_ok gs \<longleftrightarrow> sorted_wrt (<) (map pg_phase gs) \<and> (\<forall>g \<in> set gs. \<forall>c \<in> set (pg_components g). lc_Phase c = pg_phase g)"

lemma group_loop_concat: "concat (map pg_components (group_loop cs g)) = pg_components g @ cs"
  by (induction cs g rule: group_loop.induct) auto

lemma group_loop_phases:
  assumes "sorted (map lc_Phase cs)" "\<forall>c \<in> set cs. pg_phase g \<le> lc_Phase c" "\<forall>c \<in> set (pg_components g). lc_Phase c = pg_phase g"
  shows "phases_ok (group_loop cs g) \<and> (\<forall>h \<in> set (group_loop cs g). pg_phase g \<le> pg_phase h)"
  using assms
proof (induction cs g rule: group_loop.induct)
  case (1 g)
  then show ?case by (simp add: phases_ok_def)
next
  case (2 c cs g)
  show ?case
  proof (cases "lc_Phase c = pg_phase g")
    case True
    with 2 show ?thesis by auto
  next
    case False
    let ?g = "\<lparr>pg_phase = lc_Phase c, pg_components = [c]\<rparr>"
    have later: "phases_ok (group_loop cs ?g) \<and> (\<forall>h \<in> set (group_loop cs ?g). pg_phase ?g \<le> pg_phase h)"
      by (rule 2(1) [OF False]) (use 2(3) in simp_all)
    have "pg_phase g < lc_Phase c" using False 2(4) by force
    with later have "pg_phase g < pg_phase h" if "h \<in> set (group_loop cs ?g)" for h
      using that by fastforce
    then show ?thesis using later False 2(5) by (auto simp: phases_ok_def less_imp_le)
  qed
qed

lemma groupByPhase_ok:
  assumes "sorted (map lc_Phase cs)"
  shows "concat (map pg_components (groupByPhase cs)) = cs \<and> phases_ok (groupByPhase cs)"
proof (cases cs)
  case Nil
  then show ?thesis by (simp add: groupByPhase_def phases_ok_def)
next
  case (Cons c cs')
  with assms group_loop_phases [of cs "\<lparr>pg_phase = lc_Phase c, pg_components = []\<rparr>"]
    group_loop_concat [of cs "\<lparr>pg_phase = lc_Phase c, pg_components = []\<rparr>"]
  show ?thesis by (auto simp: groupByPhase_def)
qed

definition trace_of :: "(phaseGroup \<Rightarrow> stop_event list) \<Rightarrow> phaseGroup list \<Rightarrow> stop_event list" where
  "trace_of schedule gs = concat (map (\<lambda>g. map Stopping (pg_components g) @ schedule g) gs)"

lemma started_Stopping: "concat (map (started \<circ> Stopping) cs) = cs" "concat (map (finished \<circ> Stopping) cs) = []"
  by (induction cs) simp_all

lemma in_finished: "c \<in> set (finished e) \<longleftrightarrow> (\<exists>b. e = Stopped c b)"
  by (cases e) auto

lemma in_started: "c \<in> set (started e) \<longleftrightarrow> e = Stopping c"
  by (cases e) auto

lemma complete_started: "complete schedule \<Longrightarrow> Stopping c \<notin> set (schedule g)"
proof
  assume "complete schedule" "Stopping c \<in> set (schedule g)"
  then have "c \<in> set (concat (map started (schedule g)))" by (auto simp: in_started)
  with \<open>complete schedule\<close> show False by (simp add: complete_def)
qed

lemma complete_finished:
  assumes "complete schedule" "c \<in> set (pg_components g)"
  shows "\<exists>b. Stopped c b \<in> set (schedule g)"
proof -
  have "c \<in> set (concat (map finished (schedule g)))" using assms unfolding complete_def by (metis mset_eq_setD)
  then show ?thesis by (auto simp: in_finished)
qed

text \<open>In the trace, every earlier phase has finished where a component of a later one is stopped.\<close>

lemma trace_ordered:
  assumes "complete schedule" "phases_ok gs" "trace_of schedule gs = xs @ Stopping d # ys"
    and "c \<in> set (concat (map pg_components gs))" "lc_Phase c < lc_Phase d"
  shows "\<exists>b. Stopped c b \<in> set xs"
  using assms(2-)
proof (induction gs arbitrary: xs)
  case (Cons g gs)
  let ?head = "map Stopping (pg_components g) @ schedule g"
  have split: "?head @ trace_of schedule gs = xs @ Stopping d # ys" using Cons.prems(2) by (simp add: trace_of_def)
  have ok: "phases_ok gs" using Cons.prems(1) by (simp add: phases_ok_def)
  consider zs where "xs = ?head @ zs" "trace_of schedule gs = zs @ Stopping d # ys" | "Stopping d \<in> set ?head"
  proof -
    from split consider us where "?head @ us = xs" "trace_of schedule gs = us @ Stopping d # ys"
      | us where "?head = xs @ us" "us @ trace_of schedule gs = Stopping d # ys"
      by (auto simp only: append_eq_append_conv2)
    then show thesis
    proof cases
      case 1
      then show thesis using that(1) [of us] by simp
    next
      case 2
      then show thesis using that by (cases us) auto
    qed
  qed
  then show ?case
  proof cases
    case 1
    show ?thesis
    proof (cases "c \<in> set (pg_components g)")
      case True
      with complete_finished [OF assms(1) True] 1 show ?thesis by auto
    next
      case False
      with Cons.prems(3) have "c \<in> set (concat (map pg_components gs))" by simp
      from Cons.IH [OF ok 1(2) this Cons.prems(4)] 1(1) show ?thesis by auto
    qed
  next
    case 2
    then have "d \<in> set (pg_components g)" using complete_started [OF assms(1)] by auto
    then have d: "lc_Phase d = pg_phase g" using Cons.prems(1) by (simp add: phases_ok_def)
    obtain h where "h \<in> set (g # gs)" "c \<in> set (pg_components h)" using Cons.prems(3) by auto
    then have "pg_phase g \<le> lc_Phase c" using Cons.prems(1) by (auto simp: phases_ok_def)
    with d show ?thesis using Cons.prems(4) by simp
  qed
qed (simp add: trace_of_def)

text \<open>
  Components stop in the order of their phases. When every stop function that is started
  returns, a shutdown stops every registered component exactly once, and wherever a
  component begins to stop, all components of lower phases have finished stopping.
\<close>

theorem shutdown_in_phase_order:
  assumes "complete schedule" and "Shutdown schedule m = (trace, errs)"
  shows "mset (concat (map started trace)) = mset (mg_components m)
    \<and> (\<forall>xs d ys c. trace = xs @ Stopping d # ys \<and> c \<in> set (mg_components m) \<and> lc_Phase c < lc_Phase d
          \<longrightarrow> (\<exists>failed. Stopped c failed \<in> set xs))"
proof -
  define gs where "gs = groupByPhase (sort_key lc_Phase (mg_components m))"
  have gs: "concat (map pg_components gs) = sort_key lc_Phase (mg_components m)" "phases_ok gs"
    using groupByPhase_ok [of "sort_key lc_Phase (mg_components m)"] by (simp_all add: gs_def)
  have trace: "trace = trace_of schedule gs"
    using assms(2) by (simp add: Shutdown_def trace_of_def shutdownGroup_def gs_def o_def Let_def)
  have "concat (map started (trace_of schedule hs)) = concat (map pg_components hs)" for hs
    using assms(1) by (induction hs) (simp_all add: trace_of_def started_Stopping complete_def)
  then have "mset (concat (map started trace)) = mset (mg_components m)" by (simp only: trace gs mset_sort)
  moreover have "\<exists>failed. Stopped c failed \<in> set xs"
    if "trace = xs @ Stopping d # ys" "c \<in> set (mg_components m)" "lc_Phase c < lc_Phase d" for xs d ys c
    using trace_ordered [OF assms(1) gs(2), of xs d ys c] that by (simp add: trace gs(1))
  ultimately show ?thesis by blast
qed

definition demo_manager :: Manager where
  "demo_manager = RegisterStop (RegisterStop (NewManager 0) ''db'' 70) ''http'' 10"

theorem shutdown_in_phase_order_witness:
  "\<exists>trace errs. Shutdown (\<lambda>g. map (\<lambda>c. Stopped c True) (pg_components g)) demo_manager = (trace, errs)
     \<and> mset (concat (map started trace)) = mset (mg_components demo_manager)"
proof -
  let ?s = "\<lambda>g :: phaseGroup. map (\<lambda>c. Stopped c True) (pg_components g)"
  have "concat (map finished (map (\<lambda>c. Stopped c True) cs)) = cs" "concat (map started (map (\<lambda>c. Stopped c True) cs)) = []" for cs
    by (induction cs) simp_all
  then have complete: "complete ?s" by (simp add: complete_def)
  obtain trace errs where "Shutdown ?s demo_manager = (trace, errs)" by force
  with shutdown_in_phase_order [OF complete this] show ?thesis by blast
qed

end
