(* ===== verification/HealthMon.thy ===== *)
theory HealthMon
  imports Listings MessageQueue
begin

text \<open>
  The health of the agents: the monitor that derives it from the queues
  (\<^verbatim>\<open>internal/gateway/healthmon.go\<close>) and the heartbeats the agents report
  (\<^verbatim>\<open>internal/gateway/heartbeat_store.go\<close>).

  The answer of the broker's management API to a queue query is an argument: the numbers of
  consumers, ready and unacknowledged messages, or \<open>None\<close> on failure. The clock reading of an
  update is an argument per user.
\<close>

section \<open>Queue health\<close>

record AgentHealthStatus =
  ah_UserID :: string
  ah_QueueName :: string
  ah_ConsumerCount :: int
  ah_MessagesReady :: int
  ah_MessagesUnacknowledged :: int
  ah_Status :: string
  ah_DegradedSince :: "time option"
  ah_LastChecked :: time

type_synonym statuses = "string \<rightharpoonup> AgentHealthStatus"

definition DeriveAgentStatus :: "int \<Rightarrow> int \<Rightarrow> int \<Rightarrow> string" where
  "DeriveAgentStatus consumers messagesReady messagesUnacked =
     (if 0 < consumers \<and> 0 < messagesUnacked then ''processing''
      else if 0 < consumers then ''idle''
      else if consumers = 0 \<and> 0 < messagesReady then ''degraded''
      else ''offline'')"

definition updateStatus :: "statuses \<Rightarrow> time \<Rightarrow> string \<Rightarrow> string \<Rightarrow> int \<Rightarrow> int \<Rightarrow> int \<Rightarrow> statuses" where
  "updateStatus hm now userID queueName consumers ready unacked =
     (let status = DeriveAgentStatus consumers ready unacked;
          existing = hm userID;
          since = (if status = ''degraded''
                   then (case existing of
                           Some e \<Rightarrow> if ah_Status e = ''degraded'' \<and> ah_DegradedSince e \<noteq> None then ah_DegradedSince e else Some now
                         | None \<Rightarrow> Some now)
                   else None)
      in hm(userID \<mapsto> \<lparr>ah_UserID = userID, ah_QueueName = queueName, ah_ConsumerCount = consumers,
                       ah_MessagesReady = ready, ah_MessagesUnacknowledged = unacked, ah_Status = status,
                       ah_DegradedSince = since, ah_LastChecked = now\<rparr>))"

type_synonym queue_query = "string \<Rightarrow> (int \<times> int \<times> int) option"

fun check_users ::
  "Store \<Rightarrow> queue_query \<Rightarrow> (string \<Rightarrow> time) \<Rightarrow> User list \<Rightarrow> string set \<Rightarrow> statuses \<Rightarrow> string set \<times> statuses"
where
  "check_users st query now [] seen hm = (seen, hm)"
| "check_users st query now (user # users) seen hm =
     (case ListAgents st (us_ID user) of
        Inl _ \<Rightarrow> check_users st query now users seen hm
      | Inr agents \<Rightarrow>
          if \<not> list_ex (\<lambda>a. ag_Status a \<noteq> AgentStatusRevoked) agents then check_users st query now users seen hm
          else
            let queueName = UserAgentQueue (us_ID user);
                (c, r, u) = (case query queueName of None \<Rightarrow> (0, 0, 0) | Some m \<Rightarrow> m)
            in check_users st query now users (insert (us_ID user) seen)
                 (updateStatus hm (now (us_ID user)) (us_ID user) queueName c r u))"

definition checkAll :: "Store \<Rightarrow> queue_query \<Rightarrow> (string \<Rightarrow> time) \<Rightarrow> statuses \<Rightarrow> statuses" where
  "checkAll st query now hm =
     (case ListUsers st of
        Inl _ \<Rightarrow> hm
      | Inr users \<Rightarrow>
          let (seen, hm') = check_users st query now users {} hm in map_retain (\<lambda>uid _. uid \<in> seen) hm')"

definition GetStatus :: "statuses \<Rightarrow> string \<Rightarrow> AgentHealthStatus option" where
  "GetStatus hm userID = hm userID"

section \<open>Heartbeats\<close>

record heartbeatEntry =
  hb_AgentID :: string
  hb_UserID :: string
  hb_Status :: string
  hb_LastSeen :: time

type_synonym heartbeats = "string \<rightharpoonup> heartbeatEntry"

definition Record_heartbeat :: "heartbeats \<Rightarrow> string \<Rightarrow> string \<Rightarrow> string \<Rightarrow> time \<Rightarrow> heartbeats" where
  "Record_heartbeat s agentID userID status now =
     s(agentID \<mapsto> \<lparr>hb_AgentID = agentID, hb_UserID = userID, hb_Status = status, hb_LastSeen = now\<rparr>)"

definition MarkStaleAsFailed :: "heartbeats \<Rightarrow> duration \<Rightarrow> time \<Rightarrow> heartbeats" where
  "MarkStaleAsFailed s olderThan now =
     (let cutoff = now - olderThan in
      map_revise (\<lambda>e. Some (if hb_LastSeen e < cutoff \<and> hb_Status e \<noteq> ''failed'' then e\<lparr>hb_Status := ''failed''\<rparr> else e)) s)"

section \<open>What a check leaves behind\<close>

definition monitored :: "Store \<Rightarrow> string \<Rightarrow> bool" where
  "monitored st u \<longleftrightarrow> (\<exists>x \<in> set (db_users st). us_ID x = u)
     \<and> (\<exists>a \<in> set (db_agents st). (ag_UserID a = u \<or> u = []) \<and> ag_Status a \<noteq> AgentStatusRevoked)"

definition metrics_of :: "queue_query \<Rightarrow> string \<Rightarrow> int \<times> int \<times> int" where
  "metrics_of query u = (case query (UserAgentQueue u) of None \<Rightarrow> (0, 0, 0) | Some m \<Rightarrow> m)"

definition refreshed :: "queue_query \<Rightarrow> (string \<Rightarrow> time) \<Rightarrow> statuses \<Rightarrow> string \<Rightarrow> AgentHealthStatus option" where
  "refreshed query now hm u =
     (let (c, r, n) = metrics_of query u in updateStatus hm (now u) u (UserAgentQueue u) c r n u)"

lemma updateStatus_other [simp]: "v \<noteq> u \<Longrightarrow> updateStatus hm t u q c r n v = hm v"
  by (simp add: updateStatus_def Let_def)

lemma updateStatus_cong: "hm u = hm' u \<Longrightarrow> updateStatus hm t u q c r n u = updateStatus hm' t u q c r n u"
  by (simp add: updateStatus_def Let_def)

lemma ListAgents_active:
  assumes "db_open st"
  shows "\<exists>as. ListAgents st u = Inr as \<and>
    (list_ex (\<lambda>a. ag_Status a \<noteq> AgentStatusRevoked) as \<longleftrightarrow>
      (\<exists>a \<in> set (db_agents st). (ag_UserID a = u \<or> u = []) \<and> ag_Status a \<noteq> AgentStatusRevoked))"
  using assms by (auto simp: ListAgents_def fetch_def list_ex_iff)

lemma check_users_result:
  assumes "db_open st" "distinct (map us_ID users)" "set users \<subseteq> set (db_users st)"
  shows "check_users st query now users seen hm =
    (seen \<union> {u \<in> us_ID ` set users. monitored st u},
     \<lambda>u. if u \<in> us_ID ` set users \<and> monitored st u then refreshed query now hm u else hm u)"
  using assms(2,3)
proof (induction users arbitrary: seen hm)
  case (Cons x users)
  let ?u = "us_ID x"
  obtain as where as: "ListAgents st ?u = Inr as"
    "list_ex (\<lambda>a. ag_Status a \<noteq> AgentStatusRevoked) as \<longleftrightarrow> monitored st ?u"
    using ListAgents_active [OF assms(1), of ?u] Cons.prems(2) by (auto simp: monitored_def)
  have new: "?u \<notin> us_ID ` set users" using Cons.prems(1) by simp
  show ?case
  proof (cases "monitored st ?u")
    case False
    with as Cons new show ?thesis by (auto simp: fun_eq_iff)
  next
    case True
    obtain c r n where m: "metrics_of query ?u = (c, r, n)" by (cases "metrics_of query ?u") auto
    let ?hm = "updateStatus hm (now ?u) ?u (UserAgentQueue ?u) c r n"
    have step: "check_users st query now (x # users) seen hm = check_users st query now users (insert ?u seen) ?hm"
      using as True m by (simp add: metrics_of_def split: prod.splits)
    have others: "refreshed query now ?hm v = refreshed query now hm v" if "v \<noteq> ?u" for v
      using that updateStatus_cong [of ?hm v hm] by (simp add: refreshed_def split: prod.split)
    have own: "refreshed query now hm ?u = ?hm ?u" by (simp add: refreshed_def m)
    have rest: "check_users st query now users (insert ?u seen) ?hm =
        (insert ?u seen \<union> {u \<in> us_ID ` set users. monitored st u},
         \<lambda>u. if u \<in> us_ID ` set users \<and> monitored st u then refreshed query now ?hm u else ?hm u)"
      using Cons.prems by (intro Cons.IH) auto
    have "(if v \<in> us_ID ` set users \<and> monitored st v then refreshed query now ?hm v else ?hm v) =
        (if v \<in> us_ID ` set (x # users) \<and> monitored st v then refreshed query now hm v else hm v)" for v
      by (cases "v = ?u") (use True new others own in \<open>simp_all del: updateStatus_other add: updateStatus_other\<close>)
    then show ?thesis unfolding step rest using True by auto
  qed
qed simp

lemma checkAll_result:
  assumes "db_open st" "store_wf st"
  shows "checkAll st query now hm = (\<lambda>u. if monitored st u then refreshed query now hm u else None)"
proof -
  let ?users = "sort_key (\<lambda>u. time_text (us_CreatedAt u)) (db_users st)"
  have "distinct (map us_ID ?users)"
    using assms(2) by (simp add: distinct_map store_wf_def)
  then have "check_users st query now ?users {} hm =
      ({u \<in> us_ID ` set (db_users st). monitored st u},
       \<lambda>u. if u \<in> us_ID ` set (db_users st) \<and> monitored st u then refreshed query now hm u else hm u)"
    using check_users_result [OF assms(1), of ?users query now "{}" hm] by simp
  moreover have "monitored st u \<Longrightarrow> u \<in> us_ID ` set (db_users st)" for u by (auto simp: monitored_def)
  ultimately show ?thesis
    using assms(1) by (auto simp: checkAll_def ListUsers_def fetch_def fun_eq_iff refreshed_def updateStatus_def Let_def
        split: option.split prod.split)
qed

section \<open>How long an agent has been degraded\<close>

type_synonym observation = "time \<times> int \<times> int \<times> int"

definition degraded :: "observation \<Rightarrow> bool" where
  "degraded ob \<longleftrightarrow> (case ob of (t, c, r, n) \<Rightarrow> DeriveAgentStatus c r n = ''degraded'')"

definition observe :: "string \<Rightarrow> string \<Rightarrow> observation \<Rightarrow> statuses \<Rightarrow> statuses" where
  "observe u q ob hm = (case ob of (t, c, r, n) \<Rightarrow> updateStatus hm t u q c r n)"

text \<open>The reference: the earliest time of the unbroken run of degraded observations at the end.\<close>

definition streak_start :: "observation list \<Rightarrow> time option" where
  "streak_start obs = (case takeWhile degraded (rev obs) of [] \<Rightarrow> None | xs \<Rightarrow> Some (fst (last xs)))"

lemma streak_start_snoc:
  "streak_start (obs @ [ob]) =
     (if degraded ob then (case streak_start obs of None \<Rightarrow> Some (fst ob) | Some t \<Rightarrow> Some t) else None)"
  by (auto simp: streak_start_def split: list.split)

lemma observe_step:
  assumes "hm u = Some e" "ah_DegradedSince e = s" "ah_Status e \<noteq> ''degraded'' \<Longrightarrow> s = None"
  shows "\<exists>e'. observe u q ob hm u = Some e' \<and> (ah_Status e' = ''degraded'' \<longleftrightarrow> degraded ob)
    \<and> ah_DegradedSince e' = (if degraded ob then (case s of None \<Rightarrow> Some (fst ob) | Some t \<Rightarrow> Some t) else None)
    \<and> ah_LastChecked e' = fst ob"
  using assms by (cases ob) (auto simp: observe_def updateStatus_def degraded_def Let_def split: option.splits)

lemma observed_run:
  assumes "obs \<noteq> []" and "hm u = None"
  shows "\<exists>e. fold (observe u q) obs hm u = Some e \<and> (ah_Status e = ''degraded'' \<longleftrightarrow> degraded (last obs))
    \<and> ah_DegradedSince e = streak_start obs \<and> ah_LastChecked e = fst (last obs)"
  using assms(1)
proof (induction obs rule: rev_induct)
  case (snoc ob obs)
  show ?case
  proof (cases "obs = []")
    case True
    then show ?thesis using assms(2)
      by (cases ob) (simp add: observe_def updateStatus_def degraded_def streak_start_def Let_def)
  next
    case False
    with snoc.IH obtain e where "fold (observe u q) obs hm u = Some e"
      "ah_Status e = ''degraded'' \<longleftrightarrow> degraded (last obs)" "ah_DegradedSince e = streak_start obs" by blast
    moreover have "\<not> degraded (last obs) \<Longrightarrow> streak_start obs = None"
      using False by (cases obs rule: rev_cases) (simp_all add: streak_start_def)
    ultimately show ?thesis
      using observe_step [of "fold (observe u q) obs hm" u e "streak_start obs" q ob] by (simp add: streak_start_snoc)
  qed
qed simp

section \<open>Rounds of the monitor\<close>

type_synonym health_input = "Store \<times> queue_query \<times> (string \<Rightarrow> time)"

definition health_round :: "health_input \<Rightarrow> statuses \<Rightarrow> statuses" where
  "health_round i hm = (case i of (st, query, now) \<Rightarrow> checkAll st query now hm)"

definition seen_in :: "string \<Rightarrow> health_input \<Rightarrow> observation" where
  "seen_in u i = (case i of (st, query, now) \<Rightarrow> (now u, metrics_of query u))"

definition round_ok :: "string \<Rightarrow> health_input \<Rightarrow> bool" where
  "round_ok u i \<longleftrightarrow> (case i of (st, _) \<Rightarrow> db_open st \<and> store_wf st \<and> monitored st u)"

lemma health_round_observes:
  assumes "round_ok u i" "hm u = hm' u"
  shows "health_round i hm u = observe u (UserAgentQueue u) (seen_in u i) hm' u"
  using assms updateStatus_cong [of hm u hm']
  by (auto simp: round_ok_def health_round_def observe_def seen_in_def checkAll_result refreshed_def split: prod.splits)

lemma health_rounds_observe:
  assumes "\<And>i. i \<in> set rounds \<Longrightarrow> round_ok u i" "hm u = hm' u"
  shows "fold health_round rounds hm u = fold (observe u (UserAgentQueue u)) (map (seen_in u) rounds) hm' u"
  using assms
proof (induction rounds arbitrary: hm hm')
  case (Cons i rounds)
  have "health_round i hm u = observe u (UserAgentQueue u) (seen_in u i) hm' u"
    using Cons.prems by (intro health_round_observes) auto
  then have "fold health_round rounds (health_round i hm) u =
      fold (observe u (UserAgentQueue u)) (map (seen_in u) rounds) (observe u (UserAgentQueue u) (seen_in u i) hm') u"
    using Cons.prems(1) by (intro Cons.IH) auto
  then show ?case by (simp only: fold_simps list.map o_apply)
qed simp

text \<open>
  The status a user is shown after any number of rounds of the monitor. When the user had
  no status before and is monitored in every round, the status of the last round is shown, and the time
  since when the agent is degraded is the time of the first round of the unbroken run of degraded rounds
  at the end, whatever happened before; a round in which the agent is not degraded clears it.
\<close>

theorem degraded_since_first_round:
  assumes "rounds \<noteq> []" and "hm u = None" and "\<And>i. i \<in> set rounds \<Longrightarrow> round_ok u i"
  shows "\<exists>e. GetStatus (fold health_round rounds hm) u = Some e
    \<and> (ah_Status e = ''degraded'' \<longleftrightarrow> degraded (seen_in u (last rounds)))
    \<and> ah_DegradedSince e = streak_start (map (seen_in u) rounds)
    \<and> ah_LastChecked e = fst (seen_in u (last rounds))"
proof -
  have "fold health_round rounds hm u = fold (observe u (UserAgentQueue u)) (map (seen_in u) rounds) hm u"
    using assms(3) by (rule health_rounds_observe) auto
  then show ?thesis
    using observed_run [of "map (seen_in u) rounds" hm u "UserAgentQueue u"] assms(1,2)
    by (simp add: GetStatus_def last_map)
qed

definition one_agent_store :: Store where
  "one_agent_store =
     fst (ProvisionAgent
       (fst (CreateUser emptyStore \<lparr>cr_Name = ''ann'', cr_DefaultModel = [], cr_Preferences = None\<rparr> ''usr_1'' 5))
       \<lparr>pr_UserID = ''usr_1'', pr_Label = ''laptop'', pr_TokenHash = ''h'', pr_TokenPrefix = ''p''\<rparr> 6)"

definition answers :: "int \<Rightarrow> int \<Rightarrow> int \<Rightarrow> time \<Rightarrow> health_input" where
  "answers c r n t = (one_agent_store, \<lambda>_. Some (c, r, n), \<lambda>_. t)"

lemma one_agent_store_ok: "db_open one_agent_store" "store_wf one_agent_store" "monitored one_agent_store ''usr_1''"
proof -
  show "store_wf one_agent_store"
    unfolding one_agent_store_def by (intro keeps)
qed (simp_all add: one_agent_store_def ProvisionAgent_def CreateUser_def emptyStore_def exec_def has_user_def GetUser_def
    GetAgent_def monitored_def Let_def)

lemma degraded_since_first_round_witness:
  "\<exists>e. GetStatus (fold health_round [answers 0 3 0 10, answers 1 0 0 20, answers 0 4 0 30, answers 0 5 0 40] Map.empty) ''usr_1''
      = Some e \<and> ah_DegradedSince e = Some 30"
proof -
  let ?rounds = "[answers 0 3 0 10, answers 1 0 0 20, answers 0 4 0 30, answers 0 5 0 40]"
  have "\<And>i. i \<in> set ?rounds \<Longrightarrow> round_ok ''usr_1'' i"
    using one_agent_store_ok by (auto simp: answers_def round_ok_def)
  then show ?thesis
    using degraded_since_first_round [of ?rounds Map.empty "''usr_1''"]
    by (auto simp: streak_start_def seen_in_def answers_def metrics_of_def degraded_def DeriveAgentStatus_def)
qed

end
