(* ===== verification/Webhook.thy ===== *)
theory Webhook
  imports GoStrings "HOL-Library.Word"
begin

text \<open>
  The webhooks of the chat platforms (\<^verbatim>\<open>internal/gateway/webhook.go\<close>) and the signature
  checks of the channel packages (\<^verbatim>\<open>internal/channels/slack/hmac.go\<close>,
  \<^verbatim>\<open>internal/channels/whatsapp/hmac.go\<close>).

  HMAC-SHA-256 is the argument \<open>mac\<close> (key, then text), the JSON decoding of the envelope is the argument
  \<open>parse\<close>, and what the router does with a body is the argument \<open>route\<close>, a function on the state it
  changes. Seconds of the clock and the time stamp are signed 64-bit words.
\<close>

section \<open>Hexadecimal text and decimal numbers\<close>

definition EncodeToString :: "string \<Rightarrow> string" where
  "EncodeToString bs = concat (map (\<lambda>b. [hex_digit (of_char b div 16), hex_digit (of_char b mod 16)]) bs)"

definition fromHexChar :: "char \<Rightarrow> nat option" where
  "fromHexChar c =
     (let n = of_char c in
      if 48 \<le> n \<and> n \<le> 57 then Some (n - 48)
      else if 97 \<le> n \<and> n \<le> 102 then Some (n - 97 + 10)
      else if 65 \<le> n \<and> n \<le> 70 then Some (n - 65 + 10)
      else None)"

fun DecodeString :: "string \<Rightarrow> string option" where
  "DecodeString [] = Some []"
| "DecodeString [_] = None"
| "DecodeString (p # q # rest) =
     (case (fromHexChar p, fromHexChar q) of
        (Some a, Some b) \<Rightarrow> map_option ((#) (char_of (16 * a + b))) (DecodeString rest)
      | _ \<Rightarrow> None)"

fun digits_value :: "string \<Rightarrow> nat \<Rightarrow> nat option" where
  "digits_value [] n = Some n"
| "digits_value (c # cs) n =
     (let d = of_char c in if 48 \<le> d \<and> d \<le> (57 :: nat) then digits_value cs (10 * n + (d - 48)) else None)"

definition ParseInt :: "string \<Rightarrow> int option" where
  "ParseInt s =
     (if s = [] then None
      else let neg = (hd s = CHR ''-''); body = (if hd s = CHR ''+'' \<or> hd s = CHR ''-'' then tl s else s)
           in if body = [] then None
              else case digits_value body 0 of
                None \<Rightarrow> None
              | Some n \<Rightarrow> if neg then (if 2 ^ 63 < n then None else Some (- int n))
                          else (if 2 ^ 63 \<le> n then None else Some (int n)))"

section \<open>Signature checks\<close>

type_synonym int64 = "64 word"
type_synonym mac = "string \<Rightarrow> string \<Rightarrow> string"
type_synonym headers = "string \<Rightarrow> string"

definition abs64 :: "int64 \<Rightarrow> int64" where
  "abs64 n = (if sint n < 0 then - n else n)"

definition signed_text :: "string \<Rightarrow> string \<Rightarrow> string" where
  "signed_text timestamp body = ''v0:'' @ timestamp @ '':'' @ body"

definition slack_signature :: "mac \<Rightarrow> string \<Rightarrow> string \<Rightarrow> string \<Rightarrow> string" where
  "slack_signature mac signingSecret timestamp body =
     ''v0='' @ EncodeToString (mac signingSecret (signed_text timestamp body))"

definition verifySlackSignature :: "mac \<Rightarrow> int64 \<Rightarrow> string \<Rightarrow> headers \<Rightarrow> string \<Rightarrow> bool" where
  "verifySlackSignature mac now body headers signingSecret =
     (let timestamp = headers ''X-Slack-Request-Timestamp''; signature = headers ''X-Slack-Signature'' in
      if timestamp = [] \<or> signature = [] then False
      else case ParseInt timestamp of
        None \<Rightarrow> False
      | Some ts \<Rightarrow>
          if 300 < sint (abs64 (now - word_of_int ts)) then False
          else signature = slack_signature mac signingSecret timestamp body)"

definition VerifySignature :: "mac \<Rightarrow> int64 \<Rightarrow> string \<Rightarrow> headers \<Rightarrow> string \<Rightarrow> bool" where
  "VerifySignature mac now body headers signingSecret =
     (let timestamp = headers ''X-Slack-Request-Timestamp''; signature = headers ''X-Slack-Signature'' in
      if timestamp = [] \<or> signature = [] \<or> signingSecret = [] then False
      else case ParseInt timestamp of
        None \<Rightarrow> False
      | Some ts \<Rightarrow>
          if 300 < sint (abs64 (now - word_of_int ts)) then False
          else signature = slack_signature mac signingSecret timestamp body)"

definition verifyWhatsAppHMAC :: "mac \<Rightarrow> string \<Rightarrow> string \<Rightarrow> string \<Rightarrow> bool" where
  "verifyWhatsAppHMAC mac body signature key =
     (if signature = [] \<or> key = [] then False
      else let hexSig = (if HasPrefix signature ''sha256='' then drop 7 signature else signature) in
        case DecodeString hexSig of
          None \<Rightarrow> False
        | Some sigBytes \<Rightarrow> sigBytes = mac key body)"

definition VerifyHMAC :: "mac \<Rightarrow> string \<Rightarrow> string \<Rightarrow> string \<Rightarrow> bool" where
  "VerifyHMAC mac body signature key =
     (if length signature = 0 \<or> length key = 0 then False
      else let hexSig = (if HasPrefix signature ''sha256='' then drop 7 signature else signature) in
        case DecodeString hexSig of
          None \<Rightarrow> False
        | Some sigBytes \<Rightarrow> sigBytes = mac key body)"

section \<open>Handlers\<close>

text \<open>The reading of a body fails with \<open>None\<close>; a longer body is cut at ten megabytes.\<close>

record http_request =
  rq_body :: "string option"
  rq_header :: headers

datatype webhook_reply = Status nat | Challenge string

definition maxWebhookBody :: nat where
  "maxWebhookBody = 10 * 1024 * 1024"

definition handleWebhookWhatsApp ::
  "mac \<Rightarrow> (string \<Rightarrow> string option) \<Rightarrow> string \<Rightarrow> bool \<Rightarrow> (string \<Rightarrow> 's \<Rightarrow> 's) \<Rightarrow> http_request \<Rightarrow> 's
     \<Rightarrow> 's \<times> webhook_reply" where
  "handleWebhookWhatsApp mac parse hmacKey hasAdapter route r s =
     (case rq_body r of
        None \<Rightarrow> (s, Status 200)
      | Some raw \<Rightarrow>
          let body = take maxWebhookBody raw in
          if hmacKey \<noteq> [] \<and> \<not> verifyWhatsAppHMAC mac body (rq_header r ''X-Hmac-Signature'') hmacKey then (s, Status 401)
          else case parse body of
            None \<Rightarrow> (s, Status 200)
          | Some type \<Rightarrow>
              if type \<noteq> ''Message'' then (s, Status 200)
              else if \<not> hasAdapter then (s, Status 200)
              else (route body s, Status 200))"

record slack_envelope =
  en_Type :: string
  en_Challenge :: string
  en_Event :: "string option"

definition handleWebhookSlack ::
  "mac \<Rightarrow> int64 \<Rightarrow> (string \<Rightarrow> slack_envelope option) \<Rightarrow> string \<Rightarrow> bool \<Rightarrow> (string \<Rightarrow> 's \<Rightarrow> 's) \<Rightarrow> http_request \<Rightarrow> 's
     \<Rightarrow> 's \<times> webhook_reply" where
  "handleWebhookSlack mac now parse signingSecret hasAdapter route r s =
     (case rq_body r of
        None \<Rightarrow> (s, Status 200)
      | Some raw \<Rightarrow>
          let body = take maxWebhookBody raw in
          if signingSecret \<noteq> [] \<and> \<not> verifySlackSignature mac now body (rq_header r) signingSecret then (s, Status 401)
          else case parse body of
            None \<Rightarrow> (s, Status 200)
          | Some envelope \<Rightarrow>
              if en_Type envelope = ''url_verification'' then (s, Challenge (en_Challenge envelope))
              else if en_Type envelope \<noteq> ''event_callback'' \<or> en_Event envelope \<noteq> Some ''message'' then (s, Status 200)
              else if \<not> hasAdapter then (s, Status 200)
              else (route body s, Status 200))"

section \<open>Hexadecimal round trip\<close>

lemma fromHexChar_digit: "n < 16 \<Longrightarrow> fromHexChar (hex_digit n) = Some n"
  by (cases "n < 10") (simp_all add: fromHexChar_def hex_digit_def Let_def)

lemma byte_lt: "of_char (b :: char) < (256 :: nat)"
  using of_char_mod_256 [of b, where ?'a = nat] by (metis mod_less_divisor zero_less_numeral)

text \<open>Decoding accepts both cases of the letters and encoding writes the small ones.\<close>

definition hex_lower :: "char \<Rightarrow> char" where
  "hex_lower c = (let n = of_char c in if 65 \<le> n \<and> n \<le> (70 :: nat) then char_of (n + 32) else c)"

lemma char_of_add_sub: "k \<le> of_char c \<Longrightarrow> char_of (k + (of_char c - k) :: nat) = c"
  by simp

lemma fromHexChar_lower: "fromHexChar c = Some n \<Longrightarrow> hex_lower c = hex_digit n \<and> n < 16"
  by (auto simp: fromHexChar_def hex_digit_def hex_lower_def Let_def split: if_splits intro: char_of_add_sub [symmetric])

lemma fromHexChar_hex_lower: "fromHexChar (hex_lower c) = fromHexChar c"
  by (auto simp: fromHexChar_def hex_lower_def Let_def)

lemma DecodeString_hex_lower: "DecodeString (map hex_lower s) = DecodeString s"
  by (induction s rule: DecodeString.induct) (simp_all add: fromHexChar_hex_lower split: option.splits)

lemma DecodeString_Encode [simp]: "DecodeString (EncodeToString bs) = Some bs"
proof (induction bs)
  case (Cons b bs)
  have "of_char b div 16 < (16 :: nat)" using byte_lt [of b] by (simp add: div_less_iff_less_mult)
  then have "fromHexChar (hex_digit (of_char b div 16)) = Some (of_char b div 16)" by (rule fromHexChar_digit)
  moreover have "fromHexChar (hex_digit (of_char b mod 16)) = Some (of_char b mod 16)" by (rule fromHexChar_digit) simp
  ultimately show ?case using Cons by (simp add: EncodeToString_def)
qed (simp add: EncodeToString_def)

lemma Encode_DecodeString: "DecodeString s = Some bs \<Longrightarrow> map hex_lower s = EncodeToString bs"
proof (induction s arbitrary: bs rule: DecodeString.induct)
  case (3 p q rest)
  then obtain a b bs' where d: "fromHexChar p = Some a" "fromHexChar q = Some b" "DecodeString rest = Some bs'"
    "bs = char_of (16 * a + b) # bs'" by (auto split: option.splits)
  with fromHexChar_lower [OF d(1)] fromHexChar_lower [OF d(2)] 3 show ?case
    by (simp add: EncodeToString_def)
qed (simp_all add: EncodeToString_def)

lemma DecodeString_iff: "DecodeString s = Some bs \<longleftrightarrow> map hex_lower s = EncodeToString bs"
  using Encode_DecodeString DecodeString_hex_lower [of s] by fastforce

lemma hexSig_TrimPrefix:
  "(if HasPrefix signature ''sha256='' then drop 7 signature else signature) = TrimPrefix signature ''sha256=''"
  by (simp add: TrimPrefix_def eval_nat_numeral)

lemma verifyWhatsAppHMAC_iff:
  "verifyWhatsAppHMAC mac body signature key \<longleftrightarrow>
     signature \<noteq> [] \<and> key \<noteq> [] \<and> DecodeString (TrimPrefix signature ''sha256='') = Some (mac key body)"
  unfolding verifyWhatsAppHMAC_def hexSig_TrimPrefix by (auto split: option.splits)

lemma VerifyHMAC_same: "VerifyHMAC = verifyWhatsAppHMAC"
  by (simp add: fun_eq_iff VerifyHMAC_def verifyWhatsAppHMAC_def)

text \<open>
  A WhatsApp signature passes exactly when it is the hexadecimal text of the code of the body, in
  small or capital letters, with or without the prefix; in particular the signature the sender computes
  passes. Both copies of the check agree.
\<close>

theorem whatsapp_signature_exact:
  assumes "signature \<noteq> []" "key \<noteq> []"
  shows "(verifyWhatsAppHMAC mac body signature key \<longleftrightarrow>
      map hex_lower (TrimPrefix signature ''sha256='') = EncodeToString (mac key body))
    \<and> VerifyHMAC mac body signature key = verifyWhatsAppHMAC mac body signature key
    \<and> verifyWhatsAppHMAC mac body (''sha256='' @ EncodeToString (mac key body)) key"
  unfolding VerifyHMAC_same verifyWhatsAppHMAC_iff TrimPrefix_append DecodeString_iff [symmetric]
  using assms by simp

section \<open>Freshness\<close>

lemma sint_inside: "- (2 ^ 63) \<le> d \<Longrightarrow> d < 2 ^ 63 \<Longrightarrow> sint (word_of_int d :: int64) = d"
  by (simp add: signed_of_int signed_take_bit_int_eq_self)

lemma word_of_int_wrap: "(word_of_int d :: int64) = word_of_int (d - 2 ^ 64)"
  by (rule word_of_int_eq_iff [THEN iffD2]) (simp add: take_bit_eq_mod)

lemma abs64_wrapped:
  assumes "- (2 ^ 63) < d" "d \<le> 2 ^ 63 + 2 ^ 62"
  shows "sint (abs64 (word_of_int d)) \<le> 300 \<longleftrightarrow> \<bar>d\<bar> \<le> 300 \<or> d = 2 ^ 63"
proof (cases "d < 2 ^ 63")
  case True
  have s: "sint (word_of_int d :: int64) = d" using True assms by (intro sint_inside) simp_all
  have "sint (- (word_of_int d :: int64)) = - d" if "d < 0"
    unfolding wi_hom_neg using that assms by (intro sint_inside) simp_all
  with True s show ?thesis unfolding abs64_def by (cases "d < 0") simp_all
next
  case False
  have s: "sint (word_of_int d :: int64) = d - 2 ^ 64"
    unfolding word_of_int_wrap [of d] using False assms by (intro sint_inside) simp_all
  have "sint (word_of_int (- d) :: int64) = (if d = 2 ^ 63 then - (2 ^ 63) else 2 ^ 64 - d)"
  proof (cases "d = 2 ^ 63")
    case True
    then show ?thesis using sint_inside [of "- d"] by simp
  next
    case notmin: False
    have "(word_of_int (- d) :: int64) = word_of_int (2 ^ 64 - d)"
      unfolding word_of_int_wrap [of "2 ^ 64 - d"] by (rule arg_cong [where f = word_of_int]) simp
    moreover have "sint (word_of_int (2 ^ 64 - d) :: int64) = 2 ^ 64 - d"
      using False notmin assms by (intro sint_inside) simp_all
    ultimately show ?thesis using notmin by (simp only: if_False)
  qed
  then show ?thesis using False assms unfolding abs64_def s wi_hom_neg by auto
qed

text \<open>
  The age of a request, computed with wrap-around: for a clock that is not negative and not
  astronomically late, a time stamp passes when it is at most 300 seconds from the clock in either
  direction, and in one further case: the difference is exactly $2^{63}$, whose negation is negative
  again.
\<close>

theorem freshness_exact:
  assumes now: "0 \<le> sint now" "sint now < 2 ^ 62" and ts: "- (2 ^ 63) \<le> ts" "ts < 2 ^ 63"
  shows "sint (abs64 (now - word_of_int ts)) \<le> 300 \<longleftrightarrow> \<bar>sint now - ts\<bar> \<le> 300 \<or> ts = sint now - 2 ^ 63"
proof -
  have w: "now - word_of_int ts = word_of_int (sint now - ts)" by simp
  have "- (2 ^ 63) < sint now - ts" "sint now - ts \<le> 2 ^ 63 + 2 ^ 62" using now ts by linarith+
  then show ?thesis unfolding w by (subst abs64_wrapped) (simp_all, arith)
qed

lemma ParseInt_range:
  assumes "ParseInt s = Some ts"
  shows "- (2 ^ 63) \<le> ts \<and> ts < 2 ^ 63"
proof -
  have "int n \<le> 2 ^ 63 \<longleftrightarrow> n \<le> 2 ^ 63" "int n < 2 ^ 63 \<longleftrightarrow> n < 2 ^ 63" for n
    by (metis of_nat_le_iff of_nat_numeral of_nat_power, metis of_nat_less_iff of_nat_numeral of_nat_power)
  then show ?thesis using assms by (auto simp: ParseInt_def Let_def not_le not_less split: option.splits if_splits)
qed

section \<open>What reaches the router\<close>

definition slack_genuine :: "mac \<Rightarrow> int \<Rightarrow> string \<Rightarrow> headers \<Rightarrow> string \<Rightarrow> bool" where
  "slack_genuine mac now body hs secret \<longleftrightarrow>
     (\<exists>ts. ParseInt (hs ''X-Slack-Request-Timestamp'') = Some ts \<and> (\<bar>now - ts\<bar> \<le> 300 \<or> ts = now - 2 ^ 63)
        \<and> hs ''X-Slack-Signature'' = ''v0='' @ EncodeToString (mac secret (''v0:'' @ hs ''X-Slack-Request-Timestamp'' @ '':'' @ body)))"

lemma verifySlackSignature_iff:
  assumes "0 \<le> sint now" "sint now < 2 ^ 62"
  shows "verifySlackSignature mac now body hs secret \<longleftrightarrow> slack_genuine mac (sint now) body hs secret"
proof (cases "ParseInt (hs ''X-Slack-Request-Timestamp'')")
  case None
  then show ?thesis by (simp add: verifySlackSignature_def slack_genuine_def Let_def)
next
  case (Some ts)
  then have "hs ''X-Slack-Request-Timestamp'' \<noteq> []" by (auto simp: ParseInt_def)
  then show ?thesis
    using Some freshness_exact [OF assms, of ts] ParseInt_range [OF Some]
    by (auto simp: verifySlackSignature_def slack_genuine_def slack_signature_def signed_text_def Let_def not_less)
qed

definition message_event :: "slack_envelope option \<Rightarrow> bool" where
  "message_event e \<longleftrightarrow>
     (case e of None \<Rightarrow> False | Some env \<Rightarrow> en_Type env = ''event_callback'' \<and> en_Event env = Some ''message'')"

text \<open>
  C28: with a signing secret configured, a Slack request reaches the router only when it is genuine: it
  carries the code of its own body and time stamp under the secret, and the time stamp is at most 300
  seconds from the clock or, the exception, exactly $2^{63}$ seconds before it. A request that is not
  genuine is answered with status 401 and changes nothing; a genuine one is never refused that way and
  is routed exactly when it is a message event and the adapter is registered. A request whose body cannot
  be read is answered with status 200 and changes nothing.
\<close>

theorem slack_webhook_gate:
  assumes "signingSecret \<noteq> []" "0 \<le> sint now" "sint now < 2 ^ 62"
    and "handleWebhookSlack mac now parse signingSecret hasAdapter route r s = (s', reply)"
  shows "case rq_body r of
      None \<Rightarrow> s' = s \<and> reply = Status 200
    | Some raw \<Rightarrow>
        if slack_genuine mac (sint now) (take maxWebhookBody raw) (rq_header r) signingSecret
        then reply \<noteq> Status 401
          \<and> s' = (if message_event (parse (take maxWebhookBody raw)) \<and> hasAdapter then route (take maxWebhookBody raw) s else s)
        else s' = s \<and> reply = Status 401"
proof (cases "rq_body r")
  case None
  then show ?thesis using assms(4) by (simp add: handleWebhookSlack_def)
next
  case (Some raw)
  then show ?thesis
    using assms(1,4) verifySlackSignature_iff [OF assms(2,3), of mac "take maxWebhookBody raw" "rq_header r" signingSecret]
    by (auto simp: handleWebhookSlack_def message_event_def Let_def split: if_splits option.splits)
qed

definition toy_mac :: mac where "toy_mac key text = rev key @ take 2 text"

definition signed_request :: http_request where
  "signed_request =
     \<lparr>rq_body = Some ''{}'',
      rq_header = (\<lambda>h. if h = ''X-Slack-Request-Timestamp'' then ''1000''
                      else if h = ''X-Slack-Signature'' then ''v0='' @ EncodeToString (toy_mac ''k'' ''v0:1000:{}'') else [])\<rparr>"

lemma parse_1000: "ParseInt ''1000'' = Some 1000"
  by (simp add: ParseInt_def)

abbreviation message_parse :: "string \<Rightarrow> slack_envelope option" where
  "message_parse \<equiv> \<lambda>_. Some \<lparr>en_Type = ''event_callback'', en_Challenge = [], en_Event = Some ''message''\<rparr>"

theorem slack_webhook_gate_witness:
  "slack_genuine toy_mac 1200 ''{}'' (rq_header signed_request) ''k''
   \<and> (\<exists>reply. handleWebhookSlack toy_mac 1200 message_parse ''k'' True (#) signed_request [] = ([''{}''], reply)
        \<and> reply \<noteq> Status 401)
   \<and> \<not> slack_genuine toy_mac 1301 ''{}'' (rq_header signed_request) ''k''"
proof -
  have body: "take maxWebhookBody ''{}'' = ''{}''" by (simp add: maxWebhookBody_def)
  have genuine: "slack_genuine toy_mac 1200 ''{}'' (rq_header signed_request) ''k''"
    by (simp add: slack_genuine_def signed_request_def parse_1000)
  obtain s' reply where h: "handleWebhookSlack toy_mac 1200 message_parse ''k'' True (#) signed_request [] = (s', reply)"
    by force
  have "reply \<noteq> Status 401 \<and> s' = [''{}'']"
    using slack_webhook_gate [OF _ _ _ h] genuine body by (simp add: signed_request_def message_event_def)
  moreover have "\<not> slack_genuine toy_mac 1301 ''{}'' (rq_header signed_request) ''k''"
    by (simp add: slack_genuine_def signed_request_def parse_1000)
  ultimately show ?thesis using genuine h by blast
qed

text \<open>The copy of the check in the channel package refuses an empty secret and is the same otherwise.\<close>

lemma VerifySignature_same:
  "VerifySignature mac now body hs secret \<longleftrightarrow> secret \<noteq> [] \<and> verifySlackSignature mac now body hs secret"
  by (auto simp: VerifySignature_def verifySlackSignature_def Let_def)

end
