(* ===== verification/AgentTools.thy ===== *)
theory AgentTools
  imports ReplyText "HOL-Library.Multiset"
begin

text \<open>
  The tools of the agent: which of them are built under a user's policy
  (\<^verbatim>\<open>internal/agent/tools/registry.go\<close>), the guard against repeated identical calls
  (\<^verbatim>\<open>internal/agent/tooldedup.go\<close>), and the keyword search over the tool catalogue
  (\<^verbatim>\<open>internal/agent/tools/matcher.go\<close>, \<^verbatim>\<open>search_tools.go\<close>).

  A tool is what its framework sees of it: a description and a function on the state it changes. SHA-256,
  Go's quoting of a string, the lower case of a text and the outcome of building a tool are arguments.
\<close>

section \<open>Policy\<close>

record ToolsPolicy =
  tp_Allow :: "string list"
  tp_Deny :: "string list"

definition isAllowed :: "string \<Rightarrow> ToolsPolicy option \<Rightarrow> bool" where
  "isAllowed toolName policies =
     (case policies of
        None \<Rightarrow> True
      | Some p \<Rightarrow>
          if list_ex (\<lambda>d. d = toolName \<or> d = ''*'') (tp_Deny p) then False
          else if 0 < length (tp_Allow p) then list_ex (\<lambda>a. a = toolName \<or> a = ''*'') (tp_Allow p)
          else True)"

record WebSearchConfig =
  ws_Google :: bool
  ws_DuckDuckGo :: bool

definition EffectiveEngine :: "WebSearchConfig \<Rightarrow> string \<times> bool" where
  "EffectiveEngine c =
     (let g = ws_Google c; d = ws_DuckDuckGo c in
      if g \<and> d then ([], False)
      else if g then (''google'', True)
      else if d then (''duckduckgo'', True)
      else ([], False))"

record AgentToolsConfig =
  tc_WebFetch :: bool
  tc_WebSearch :: bool
  tc_Bash :: bool
  tc_DocFetcher :: bool
  tc_Weather :: bool
  tc_Cron :: bool
  tc_WebSearchConfig :: WebSearchConfig

record BuildToolsOptions =
  bo_SkillsLoader :: bool
  bo_SkillExecutor :: bool

datatype build_error = WebSearchEngine | BuildFailed string

type_synonym 't builder = "string \<Rightarrow> build_error + 't"

definition buildWebSearchTool :: "'t builder \<Rightarrow> WebSearchConfig \<Rightarrow> build_error + 't option" where
  "buildWebSearchTool build c =
     (let (engine, ok) = EffectiveEngine c in
      if \<not> ok then Inl WebSearchEngine
      else if engine = [] then Inr None
      else case build ''web_search'' of Inl e \<Rightarrow> Inl e | Inr t \<Rightarrow> Inr (Some t))"

text \<open>The tools in the order the code considers them, each with the part of its condition that is not the policy.\<close>

definition tool_steps :: "AgentToolsConfig \<Rightarrow> BuildToolsOptions option \<Rightarrow> (bool \<times> string) list" where
  "tool_steps cfg opts =
     [(tc_WebFetch cfg, ''web_fetch''), (tc_WebSearch cfg, ''web_search''), (tc_Bash cfg, ''bash''),
      (tc_DocFetcher cfg, ''doc_fetch''), (tc_Weather cfg, ''get_weather''),
      (tc_Cron cfg, ''cron_list_jobs''), (tc_Cron cfg, ''cron_add_job''), (tc_Cron cfg, ''cron_remove_job''),
      (tc_Cron cfg, ''at_list_jobs''), (tc_Cron cfg, ''at_add_job''), (tc_Cron cfg, ''at_remove_job''),
      (True, ''get_datetime''),
      (case opts of None \<Rightarrow> False | Some bo \<Rightarrow> bo_SkillsLoader bo \<and> bo_SkillExecutor bo, ''skill_exec'')]"

definition build_tool :: "'t builder \<Rightarrow> AgentToolsConfig \<Rightarrow> string \<Rightarrow> build_error + 't option" where
  "build_tool build cfg name =
     (if name = ''web_search'' then buildWebSearchTool build (tc_WebSearchConfig cfg)
      else case build name of Inl e \<Rightarrow> Inl e | Inr t \<Rightarrow> Inr (Some t))"

fun build_loop ::
  "'t builder \<Rightarrow> AgentToolsConfig \<Rightarrow> ToolsPolicy option \<Rightarrow> (bool \<times> string) list \<Rightarrow> 't list \<Rightarrow> build_error + 't list"
where
  "build_loop build cfg policies [] tools = Inr tools"
| "build_loop build cfg policies ((enabled, name) # rest) tools =
     (if enabled \<and> isAllowed name policies
      then case build_tool build cfg name of
             Inl e \<Rightarrow> Inl e
           | Inr None \<Rightarrow> build_loop build cfg policies rest tools
           | Inr (Some t) \<Rightarrow> build_loop build cfg policies rest (tools @ [t])
      else build_loop build cfg policies rest tools)"

definition BuildTools ::
  "'t builder \<Rightarrow> AgentToolsConfig \<Rightarrow> ToolsPolicy option \<Rightarrow> BuildToolsOptions option \<Rightarrow> build_error + 't list" where
  "BuildTools build cfg policies opts = build_loop build cfg policies (tool_steps cfg opts) []"

section \<open>Repeated calls\<close>

record ToolInfo =
  ti_Name :: string
  ti_Desc :: string

record 's InvokableTool =
  iv_Info :: "ToolInfo option \<times> string option"
  iv_Run :: "string \<Rightarrow> 's \<Rightarrow> 's \<times> (string + string)"

datatype 's BaseTool = Invokable "'s InvokableTool" | OtherTool "ToolInfo option \<times> string option"

definition maxIdenticalToolCalls :: nat where "maxIdenticalToolCalls = 4"

definition maxIdenticalSkillExecCalls :: nat where "maxIdenticalSkillExecCalls = 2"

type_synonym dedupKey = "string \<times> string"

record toolCallTracker =
  tk_calls :: "dedupKey \<Rightarrow> nat"

definition newToolCallTracker :: toolCallTracker where
  "newToolCallTracker = \<lparr>tk_calls = (\<lambda>_. 0)\<rparr>"

definition check_call :: "(string \<Rightarrow> string) \<Rightarrow> toolCallTracker \<Rightarrow> string \<Rightarrow> string \<Rightarrow> toolCallTracker \<times> nat \<times> bool" where
  "check_call Sum256 t name argsJSON =
     (let key = (name, Sum256 argsJSON);
          calls = tk_calls t key + 1;
          limit = (if name = ''skill_exec'' then maxIdenticalSkillExecCalls else maxIdenticalToolCalls)
      in (t\<lparr>tk_calls := (tk_calls t)(key := calls)\<rparr>, calls, limit < calls))"

definition em_dash :: string where
  "em_dash = [CHR 0xE2, CHR 0x80, CHR 0x94]"

definition repeat_message :: "(string \<Rightarrow> string) \<Rightarrow> string \<Rightarrow> nat \<Rightarrow> string" where
  "repeat_message quote name calls =
     (if name = ''skill_exec'' then
        [CHR ''{'', CHR 0x22] @ ''error'' @ [CHR 0x22, CHR '':'', CHR 0x22]
        @ ''skill_exec has been called too many times with the same arguments. Do NOT call skill_exec again. Use the captions from the first tool result to write a summary, then call list_folders to get the youtube-videos folder ID (or create_folder if missing), then call create_note with that parent_id and tag_names. You MUST call create_note.''
        @ [CHR 0x22, CHR ''}'']
      else if name = ''web_fetch'' then
        [CHR ''{'', CHR 0x22] @ ''error'' @ [CHR 0x22, CHR '':'', CHR 0x22]
        @ ''web_fetch has been called too many times with the same URL. The result will not change '' @ em_dash
        @ '' do NOT retry. Use the title from the previous result and your knowledge to produce a summary. Proceed to create the Joplin note.''
        @ [CHR 0x22, CHR ''}'']
      else
        [CHR ''{'', CHR 0x22] @ ''error'' @ [CHR 0x22, CHR '':'', CHR 0x22] @ ''Tool '' @ quote name
        @ '' has been called '' @ show_nat calls @ '' times with identical arguments. The result will not change '' @ em_dash
        @ '' do NOT call it again. Use the data you already have and proceed to the next step.'' @ [CHR 0x22, CHR ''}''])"

definition tool_name :: "'s InvokableTool \<Rightarrow> string" where
  "tool_name t = (case fst (iv_Info t) of None \<Rightarrow> [] | Some info \<Rightarrow> ti_Name info)"

definition dedup_InvokableRun ::
  "(string \<Rightarrow> string) \<Rightarrow> (string \<Rightarrow> string) \<Rightarrow> 's InvokableTool \<Rightarrow> string \<Rightarrow> toolCallTracker \<times> 's
     \<Rightarrow> (toolCallTracker \<times> 's) \<times> (string + string)" where
  "dedup_InvokableRun Sum256 quote inner argumentsInJSON ts =
     (let name = tool_name inner;
          (tracker, calls, exceeded) = check_call Sum256 (fst ts) name argumentsInJSON
      in if exceeded then ((tracker, snd ts), Inr (repeat_message quote name calls))
         else let (s, r) = iv_Run inner argumentsInJSON (snd ts) in ((tracker, s), r))"

definition dedupTool ::
  "(string \<Rightarrow> string) \<Rightarrow> (string \<Rightarrow> string) \<Rightarrow> 's InvokableTool \<Rightarrow> (toolCallTracker \<times> 's) InvokableTool" where
  "dedupTool Sum256 quote inner = \<lparr>iv_Info = iv_Info inner, iv_Run = dedup_InvokableRun Sum256 quote inner\<rparr>"

fun wrap_dedup ::
  "(string \<Rightarrow> string) \<Rightarrow> (string \<Rightarrow> string) \<Rightarrow> 's BaseTool \<Rightarrow> (toolCallTracker \<times> 's) BaseTool" where
  "wrap_dedup Sum256 quote (Invokable tool) = Invokable (dedupTool Sum256 quote tool)"
| "wrap_dedup Sum256 quote (OtherTool info) = OtherTool info"

definition wrapToolsWithDedup ::
  "(string \<Rightarrow> string) \<Rightarrow> (string \<Rightarrow> string) \<Rightarrow> 's BaseTool list \<Rightarrow> toolCallTracker \<times> (toolCallTracker \<times> 's) BaseTool list" where
  "wrapToolsWithDedup Sum256 quote tools = (newToolCallTracker, map (wrap_dedup Sum256 quote) tools)"

definition desc_Info :: "ToolInfo option \<times> string option \<Rightarrow> ToolInfo option \<times> string option" where
  "desc_Info r =
     (case r of (info, err) \<Rightarrow>
        if err \<noteq> None then (info, err)
        else (case info of
                Some i \<Rightarrow> if ti_Desc i = [] then (Some (i\<lparr>ti_Desc := ti_Name i\<rparr>), None) else (Some i, None)
              | None \<Rightarrow> (None, None)))"

fun sanitize_description :: "'s BaseTool \<Rightarrow> 's BaseTool" where
  "sanitize_description (Invokable tool) = Invokable (tool\<lparr>iv_Info := desc_Info (iv_Info tool)\<rparr>)"
| "sanitize_description (OtherTool info) = OtherTool info"

definition sanitizeToolDescriptions :: "'s BaseTool list \<Rightarrow> 's BaseTool list" where
  "sanitizeToolDescriptions tools = map sanitize_description tools"

section \<open>Keyword search\<close>

record ToolCatalogEntry =
  te_Name :: string
  te_Description :: string
  te_ServerName :: string
  te_Tags :: "string list"

fun fields_loop :: "(rune \<Rightarrow> bool) \<Rightarrow> (rune \<times> string) list \<Rightarrow> string \<Rightarrow> string list" where
  "fields_loop sep [] cur = (if cur = [] then [] else [cur])"
| "fields_loop sep (r # rs) cur =
     (if sep (fst r) then (if cur = [] then fields_loop sep rs [] else cur # fields_loop sep rs [])
      else fields_loop sep rs (cur @ snd r))"

definition FieldsFunc :: "string \<Rightarrow> (rune \<Rightarrow> bool) \<Rightarrow> string list" where
  "FieldsFunc s sep = fields_loop sep (runes s) []"

definition Fields :: "string \<Rightarrow> string list" where
  "Fields s = FieldsFunc s IsSpace"

definition TrimCutset :: "string \<Rightarrow> string \<Rightarrow> string" where
  "TrimCutset s cutset =
     (let cut = (\<lambda>c. c \<in> set cutset) in rev (dropWhile cut (rev (dropWhile cut s))))"

definition splitToolName :: "string \<Rightarrow> string list" where
  "splitToolName name = FieldsFunc name (\<lambda>r. r = of_char (CHR ''_'') \<or> r = of_char (CHR ''-'') \<or> r = of_char (CHR ''.''))"

definition cutset :: string where
  "cutset = ''.,;:()[]'' @ [CHR 0x22, CHR 0x27]"

definition entry_score :: "(string \<Rightarrow> string) \<Rightarrow> string \<Rightarrow> ToolCatalogEntry \<Rightarrow> nat" where
  "entry_score to_lower lower entry =
     3 * length (filter (\<lambda>part. 3 \<le> length part \<and> Contains lower part) (splitToolName (to_lower (te_Name entry))))
     + length (filter (\<lambda>word. 4 \<le> length word \<and> Contains lower word)
                (map (\<lambda>w. TrimCutset w cutset) (Fields (to_lower (te_Description entry)))))
     + 2 * length (filter (\<lambda>tag. Contains lower (to_lower tag)) (te_Tags entry))"

type_synonym scored = "string \<times> nat"

fun swap_back :: "nat \<Rightarrow> scored list \<Rightarrow> scored list" where
  "swap_back 0 ms = ms"
| "swap_back (Suc j) ms =
     (if snd (ms ! j) < snd (ms ! Suc j) then swap_back j (ms[Suc j := ms ! j, j := ms ! Suc j]) else ms)"

definition sort_matches :: "scored list \<Rightarrow> scored list" where
  "sort_matches ms = fold swap_back [1..<length ms] ms"

definition Match :: "(string \<Rightarrow> string) \<Rightarrow> string \<Rightarrow> ToolCatalogEntry list \<Rightarrow> nat \<Rightarrow> string list" where
  "Match to_lower intent catalog maxResults =
     (if intent = [] then []
      else let lower = to_lower intent;
               matches = filter (\<lambda>m. 0 < snd m) (map (\<lambda>e. (te_Name e, entry_score to_lower lower e)) catalog);
               sorted = sort_matches matches;
               top = (if 0 < maxResults \<and> maxResults < length sorted then take maxResults sorted else sorted)
           in map fst top)"

definition desc_map :: "ToolCatalogEntry list \<Rightarrow> string \<rightharpoonup> string" where
  "desc_map catalog = fold (\<lambda>e m. m(te_Name e \<mapsto> te_Description e)) catalog Map.empty"

definition ExecSearchTools ::
  "(string \<Rightarrow> string) \<Rightarrow> ToolCatalogEntry list \<Rightarrow> string option \<Rightarrow> (string \<times> string) list \<times> nat" where
  "ExecSearchTools to_lower catalog input =
     (case input of
        None \<Rightarrow> ([], 0)
      | Some intent \<Rightarrow>
          if intent = [] then ([], 0)
          else let matched = Match to_lower intent catalog 10
               in (map (\<lambda>n. (n, case desc_map catalog n of None \<Rightarrow> [] | Some d \<Rightarrow> d)) matched, length matched))"

section \<open>What the policy lets through\<close>

lemma isAllowed_iff:
  "isAllowed name policies \<longleftrightarrow>
     (case policies of None \<Rightarrow> True
      | Some p \<Rightarrow> name \<notin> set (tp_Deny p) \<and> ''*'' \<notin> set (tp_Deny p)
          \<and> (tp_Allow p = [] \<or> name \<in> set (tp_Allow p) \<or> ''*'' \<in> set (tp_Allow p)))"
  by (auto simp: isAllowed_def list_ex_iff split: option.split)

lemma build_loop_result:
  assumes "build_loop build cfg policies steps tools = Inr result"
  shows "map Inr result = map Inr tools @ map build (map snd (filter (\<lambda>(e, n). e \<and> isAllowed n policies) steps))"
  using assms
proof (induction steps arbitrary: tools)
  case (Cons step steps)
  obtain enabled name where step: "step = (enabled, name)" by (cases step)
  show ?case
  proof (cases "enabled \<and> isAllowed name policies")
    case True
    with Cons.prems obtain ot where ot: "build_tool build cfg name = Inr ot" by (auto simp: step split: sum.splits)
    then obtain t where t: "build name = Inr t" "ot = Some t"
      by (auto simp: build_tool_def buildWebSearchTool_def EffectiveEngine_def Let_def split: if_splits sum.splits prod.splits)
    with True Cons.prems ot have "build_loop build cfg policies steps (tools @ [t]) = Inr result" by (simp add: step)
    from Cons.IH [OF this] True t show ?thesis by (simp add: step)
  qed (use Cons in \<open>auto simp: step\<close>)
qed simp

text \<open>
  The tools an agent gets are decided by configuration and policy alone: when building
  succeeds, the tools are exactly those that are switched on and let through by the policy, in their fixed
  order; a tool named by the deny list, or any tool when the deny list has the wildcard, is never
  among them, whatever the allow list says.
\<close>

theorem built_tools_obey_policy:
  assumes "BuildTools build cfg policies opts = Inr tools"
  shows "map Inr tools = map build (map snd (filter (\<lambda>(e, n). e \<and> isAllowed n policies) (tool_steps cfg opts)))
    \<and> (\<forall>p n. policies = Some p \<and> (n \<in> set (tp_Deny p) \<or> ''*'' \<in> set (tp_Deny p)) \<longrightarrow> \<not> isAllowed n policies)"
  using build_loop_result [OF assms [unfolded BuildTools_def]] by (auto simp: isAllowed_iff)

definition all_on :: AgentToolsConfig where
  "all_on = \<lparr>tc_WebFetch = True, tc_WebSearch = True, tc_Bash = True, tc_DocFetcher = True, tc_Weather = True, tc_Cron = True,
     tc_WebSearchConfig = \<lparr>ws_Google = True, ws_DuckDuckGo = False\<rparr>\<rparr>"

theorem built_tools_obey_policy_witness:
  "BuildTools Inr all_on (Some \<lparr>tp_Allow = [''*''], tp_Deny = [''bash'']\<rparr>) None =
     Inr [''web_fetch'', ''web_search'', ''doc_fetch'', ''get_weather'', ''cron_list_jobs'', ''cron_add_job'', ''cron_remove_job'',
          ''at_list_jobs'', ''at_add_job'', ''at_remove_job'', ''get_datetime'']
   \<and> \<not> isAllowed ''bash'' (Some \<lparr>tp_Allow = [''*''], tp_Deny = [''bash'']\<rparr>)"
proof -
  let ?p = "\<lparr>tp_Allow = [''*''], tp_Deny = [''bash'']\<rparr>"
  let ?tools = "[''web_fetch'', ''web_search'', ''doc_fetch'', ''get_weather'', ''cron_list_jobs'', ''cron_add_job'', ''cron_remove_job'',
          ''at_list_jobs'', ''at_add_job'', ''at_remove_job'', ''get_datetime'']"
  have "BuildTools Inr all_on (Some ?p) None = Inr ?tools"
    by (simp add: BuildTools_def tool_steps_def all_on_def build_tool_def buildWebSearchTool_def EffectiveEngine_def isAllowed_def)
  moreover from built_tools_obey_policy [OF this] have "\<not> isAllowed ''bash'' (Some ?p)" by simp
  ultimately show ?thesis by blast
qed

text \<open>
  Web search switched on without an engine is an error for all tools, although the code has a branch
  that means to leave the tool out.
\<close>

theorem web_search_without_engine_fails:
  assumes "tc_WebSearch cfg" "isAllowed ''web_search'' policies"
    and "\<not> ws_Google (tc_WebSearchConfig cfg)" "\<not> ws_DuckDuckGo (tc_WebSearchConfig cfg)"
    and "\<And>n. \<exists>t. build n = Inr t"
  shows "BuildTools build cfg policies opts = Inl WebSearchEngine"
proof -
  obtain t where "build ''web_fetch'' = Inr t" using assms(5) by blast
  with assms show ?thesis
    by (simp add: BuildTools_def tool_steps_def build_tool_def buildWebSearchTool_def EffectiveEngine_def)
qed

section \<open>How often a call is executed\<close>

type_synonym tool_call = "nat \<times> string"

definition find_invokable :: "'s BaseTool list \<Rightarrow> nat \<Rightarrow> 's InvokableTool option" where
  "find_invokable tools i = (if i < length tools then (case tools ! i of Invokable t \<Rightarrow> Some t | OtherTool _ \<Rightarrow> None) else None)"

fun run_calls :: "'s BaseTool list \<Rightarrow> tool_call list \<Rightarrow> 's \<Rightarrow> 's" where
  "run_calls tools [] s = s"
| "run_calls tools ((i, args) # calls) s =
     (case find_invokable tools i of
        None \<Rightarrow> run_calls tools calls s
      | Some t \<Rightarrow> run_calls tools calls (fst (iv_Run t args s)))"

definition call_key :: "(string \<Rightarrow> string) \<Rightarrow> 's BaseTool list \<Rightarrow> tool_call \<Rightarrow> dedupKey option" where
  "call_key Sum256 tools c =
     (case find_invokable tools (fst c) of None \<Rightarrow> None | Some t \<Rightarrow> Some (tool_name t, Sum256 (snd c)))"

definition call_limit :: "dedupKey \<Rightarrow> nat" where
  "call_limit k = (if fst k = ''skill_exec'' then 2 else 4)"

text \<open>The reference: of the calls with the same tool name and argument hash, the first ones up to the limit.\<close>

fun admitted :: "(tool_call \<Rightarrow> dedupKey option) \<Rightarrow> (dedupKey \<Rightarrow> nat) \<Rightarrow> tool_call list \<Rightarrow> tool_call list" where
  "admitted key seen [] = []"
| "admitted key seen (c # cs) =
     (case key c of
        None \<Rightarrow> admitted key seen cs
      | Some k \<Rightarrow> (if seen k < call_limit k then [c] else []) @ admitted key (seen(k := seen k + 1)) cs)"

lemma find_invokable_wrap:
  "find_invokable (map (wrap_dedup Sum256 quote) tools) i = map_option (dedupTool Sum256 quote) (find_invokable tools i)"
  by (simp add: find_invokable_def split: BaseTool.split)

lemma dedup_run_state:
  "fst (dedup_InvokableRun Sum256 quote t args (tr, s)) =
     (let k = (tool_name t, Sum256 args) in
      (tr\<lparr>tk_calls := (tk_calls tr)(k := tk_calls tr k + 1)\<rparr>, if tk_calls tr k < call_limit k then fst (iv_Run t args s) else s))"
  by (simp add: dedup_InvokableRun_def check_call_def call_limit_def maxIdenticalSkillExecCalls_def maxIdenticalToolCalls_def
      Let_def split: prod.split)

lemma run_calls_append: "run_calls tools (xs @ ys) s = run_calls tools ys (run_calls tools xs s)"
  by (induction tools xs s rule: run_calls.induct) (auto split: option.split)

lemma run_calls_dedup:
  "snd (run_calls (map (wrap_dedup Sum256 quote) tools) calls (tr, s)) =
     run_calls tools (admitted (call_key Sum256 tools) (tk_calls tr) calls) s"
proof (induction calls arbitrary: tr s)
  case (Cons c calls)
  obtain i args where c: "c = (i, args)" by (cases c)
  show ?case
    by (cases "find_invokable tools i")
      (simp_all add: c find_invokable_wrap call_key_def dedupTool_def dedup_run_state Cons Let_def fun_upd_def)
qed simp

lemma count_admitted:
  "count_list (map key (admitted key seen calls)) (Some k) =
     min (call_limit k - seen k) (count_list (map key calls) (Some k))"
proof (induction key seen calls rule: admitted.induct)
  case (2 key seen c cs)
  then show ?case by (cases "key c") (auto simp: fun_upd_def)
qed simp

text \<open>
  C30: repeated identical tool calls are cut off. A run of calls on the wrapped tools has the same
  effect as running on the bare tools only the first calls of each tool name and argument hash, and of
  those at most two of \<^verbatim>\<open>skill_exec\<close> and at most four of any other tool are executed.
\<close>

theorem identical_calls_bounded:
  assumes "wrapToolsWithDedup Sum256 quote tools = (tracker, wrapped)"
  shows "snd (run_calls wrapped calls (tracker, s)) = run_calls tools (admitted (call_key Sum256 tools) (\<lambda>_. 0) calls) s
    \<and> count_list (map (call_key Sum256 tools) (admitted (call_key Sum256 tools) (\<lambda>_. 0) calls)) (Some k)
        = min (if fst k = ''skill_exec'' then 2 else 4) (count_list (map (call_key Sum256 tools) calls) (Some k))"
  using assms by (auto simp: wrapToolsWithDedup_def newToolCallTracker_def run_calls_dedup count_admitted call_limit_def)

definition logging_tool :: "string \<Rightarrow> string list BaseTool" where
  "logging_tool name = Invokable \<lparr>iv_Info = (Some \<lparr>ti_Name = name, ti_Desc = []\<rparr>, None), iv_Run = (\<lambda>args s. (s @ [args], Inr []))\<rparr>"

theorem identical_calls_bounded_witness:
  "let (tracker, wrapped) = wrapToolsWithDedup id id [logging_tool ''skill_exec'']
   in snd (run_calls wrapped [(0, ''a''), (0, ''b''), (0, ''a''), (0, ''a'')] (tracker, [])) = [''a'', ''b'', ''a'']"
proof -
  obtain tracker wrapped where w: "wrapToolsWithDedup id id [logging_tool ''skill_exec''] = (tracker, wrapped)" by force
  show ?thesis
    using identical_calls_bounded [OF w, of "[(0, ''a''), (0, ''b''), (0, ''a''), (0, ''a'')]" "[]" "(''skill_exec'', ''a'')"] w
    by (simp add: call_key_def find_invokable_def logging_tool_def tool_name_def call_limit_def)
qed

section \<open>The ranking of matches\<close>

abbreviation rank :: "scored \<Rightarrow> int" where "rank m \<equiv> - int (snd m)"

lemma swap_back_sink:
  assumes "sorted (map rank xs)"
  shows "swap_back (length xs) (xs @ x # ys) = filter (\<lambda>y. rank y \<le> rank x) xs @ x # filter (\<lambda>y. rank x < rank y) xs @ ys"
  using assms
proof (induction xs arbitrary: ys rule: rev_induct)
  case (snoc z xs)
  have sorted: "sorted (map rank xs)" "\<forall>y \<in> set xs. rank y \<le> rank z" using snoc.prems by (auto simp: sorted_append)
  show ?case
  proof (cases "snd z < snd x")
    case True
    then have "swap_back (length (xs @ [z])) ((xs @ [z]) @ x # ys) = swap_back (length xs) (xs @ x # z # ys)"
      by (simp add: nth_append list_update_append)
    with snoc.IH [OF sorted(1), of "z # ys"] True show ?thesis by simp
  next
    case False
    then have "filter (\<lambda>y. rank y \<le> rank x) xs = xs" "filter (\<lambda>y. rank x < rank y) xs = []"
      using sorted(2) by (auto simp: filter_id_conv filter_empty_conv)
    with False show ?thesis by (simp add: nth_append)
  qed
qed simp

lemma filter_sort_key_same: "filter (\<lambda>x. f k = f x) (sort_key f xs) = filter (\<lambda>x. f k = f x) xs"
proof -
  have "sorted (map f (filter (\<lambda>x. f k = f x) xs))" by (induction xs) auto
  then show ?thesis unfolding filter_sort by (intro properties_for_sort_key) simp_all
qed

lemma sort_key_snoc:
  fixes f :: "'a \<Rightarrow> int"
  shows "sort_key f (xs @ [x]) = filter (\<lambda>y. f y \<le> f x) (sort_key f xs) @ x # filter (\<lambda>y. f x < f y) (sort_key f xs)"
    (is "_ = ?r")
proof (rule properties_for_sort_key)
  let ?s = "sort_key f xs"
  have "mset (filter (\<lambda>y. f y \<le> f x) ?s) + mset (filter (\<lambda>y. f x < f y) ?s) = mset ?s"
    using multiset_partition [of "mset ?s" "\<lambda>y. f y \<le> f x"] by (simp add: not_le)
  then show "mset ?r = mset (xs @ [x])" by simp
  show "sorted (map f ?r)"
    using sorted_sort_key [of f xs] by (auto simp: sorted_append sorted_filter)
  fix k
  have "filter (\<lambda>y. f k = f y) ?r = filter (\<lambda>y. f k = f y) ?s @ filter (\<lambda>y. f k = f y) [x]"
    by (cases "f k \<le> f x") (auto simp: filter_empty_conv intro!: filter_cong)
  then show "filter (\<lambda>y. f k = f y) ?r = filter (\<lambda>y. f k = f y) (xs @ [x])"
    by (simp only: filter_sort_key_same filter_append)
qed

lemma sort_key_of_map: "sort_key f (map g xs) = map g (sort_key (\<lambda>x. f (g x)) xs)"
proof -
  have "insort_key f (g x) (map g ys) = map g (insort_key (\<lambda>x. f (g x)) x ys)" for x ys
    by (induction ys) simp_all
  then show ?thesis by (induction xs) simp_all
qed

lemma sort_matches_stable: "sort_matches ms = sort_key rank ms"
proof -
  have "fold swap_back [1..<n] ms = sort_key rank (take n ms) @ drop n ms" if "1 \<le> n" "n \<le> length ms" for n
    using that
  proof (induction n rule: dec_induct)
    case base
    then show ?case by (cases ms) auto
  next
    case (step n)
    have "take (Suc n) ms = take n ms @ [ms ! n]" "drop n ms = ms ! n # drop (Suc n) ms"
      using step by (simp_all add: take_Suc_conv_app_nth Cons_nth_drop_Suc)
    with step swap_back_sink [of "sort_key rank (take n ms)" "ms ! n" "drop (Suc n) ms"] show ?case
      by (simp add: sort_key_snoc)
  qed
  from this [of "length ms"] show ?thesis by (cases ms) (auto simp: sort_matches_def)
qed

text \<open>
  The keyword search returns the entries with a positive score, ordered by falling score and,
  among equal scores, in the order of the catalogue, cut at the limit when there is one: the exchange
  loop is a stable sort.
\<close>

theorem match_ranks_stably:
  assumes "intent \<noteq> []"
  shows "Match to_lower intent catalog maxResults =
    (let ranked = sort_key (\<lambda>e. - int (entry_score to_lower (to_lower intent) e))
           (filter (\<lambda>e. 0 < entry_score to_lower (to_lower intent) e) catalog)
     in map te_Name (if 0 < maxResults then take maxResults ranked else ranked))"
proof -
  let ?sc = "entry_score to_lower (to_lower intent)"
  have "sort_matches (filter (\<lambda>m. 0 < snd m) (map (\<lambda>e. (te_Name e, ?sc e)) catalog)) =
      map (\<lambda>e. (te_Name e, ?sc e)) (sort_key (\<lambda>e. - int (?sc e)) (filter (\<lambda>e. 0 < ?sc e) catalog))"
    by (simp add: sort_matches_stable filter_map o_def sort_key_of_map)
  with assms show ?thesis by (simp add: Match_def Let_def o_def take_map)
qed

end
