(* ===== verification/QueueChannels.thy ===== *)
theory QueueChannels
  imports Models MessageQueue
begin

text \<open>
  The two channels that take messages from a broker, MQTT and RabbitMQ
  (\<^verbatim>\<open>internal/channels/mqtt\<close>, \<^verbatim>\<open>internal/channels/rabbitmq\<close>): topic and queue names, the normalisers
  that turn a payload into a message, the delivery of responses, and what the adapters do with one incoming
  delivery.

  JSON decoding is an argument, as are fresh identifiers and the clock; the handler of an adapter
  is a function on the state it changes. A publish is recorded as its target and payload, together with
  the broker's verdict, which is an argument.
\<close>

record inbound_env =
  ie_uuid :: string
  ie_now :: time

section \<open>MQTT\<close>

record MQTTInboundPayload =
  mi_Text :: string
  mi_CorrelationID :: string
  mi_ResponseTopic :: string
  mi_MessageID :: string

record MqttNormalizerConfig =
  mq_Broker :: string
  mq_TopicPrefix :: string
  mq_DefaultQoS :: int

datatype normalize_error = BadTopic string | BadPayload | NoUser string

definition topic_prefix :: "string \<Rightarrow> string" where
  "topic_prefix prefix = (let p = TrimRight1 prefix (CHR ''/'') in if p = [] then ''nipper'' else p)"

definition ExtractUserIDFromTopic :: "string \<Rightarrow> string \<Rightarrow> normalize_error + string" where
  "ExtractUserIDFromTopic topic prefix =
     (let expected = topic_prefix prefix @ ''/'' in
      if \<not> HasPrefix topic expected then Inl (BadTopic topic)
      else let rest = TrimPrefix topic expected; parts = SplitN2 rest (CHR ''/'')
           in if length parts < 1 \<or> hd parts = [] then Inl (BadTopic topic) else Inr (hd parts))"

definition OutboxTopic :: "string \<Rightarrow> string \<Rightarrow> string" where
  "OutboxTopic prefix userID = topic_prefix prefix @ ''/'' @ userID @ ''/outbox''"

definition InboxTopic :: "string \<Rightarrow> string \<Rightarrow> string" where
  "InboxTopic prefix userID = topic_prefix prefix @ ''/'' @ userID @ ''/inbox''"

definition mqtt_NormalizeInbound ::
  "(string \<Rightarrow> MQTTInboundPayload option) \<Rightarrow> inbound_env \<Rightarrow> MqttNormalizerConfig \<Rightarrow> string \<Rightarrow> string
     \<Rightarrow> normalize_error + NipperMessage option" where
  "mqtt_NormalizeInbound parse env cfg raw topic =
     (case ExtractUserIDFromTopic topic (mq_TopicPrefix cfg) of
        Inl e \<Rightarrow> Inl e
      | Inr userID \<Rightarrow>
          (case parse raw of
             None \<Rightarrow> Inl BadPayload
           | Some payload \<Rightarrow>
               if TrimSpace (mi_Text payload) = [] then Inr None
               else let originMsgID = (if mi_MessageID payload = [] then ''mqtt:'' @ userID @ '':'' @ show_int (ie_now env)
                                       else mi_MessageID payload)
                    in Inr (Some
                      \<lparr>nm_MessageID = ie_uuid env, nm_OriginMessageID = originMsgID, nm_UserID = userID, nm_SessionKey = [],
                       nm_ChannelType = ChannelTypeMQTT, nm_ChannelIdentity = ''mqtt:'' @ userID,
                       nm_Content = \<lparr>mc_Text = mi_Text payload, mc_Parts = []\<rparr>,
                       nm_DeliveryContext = zeroDeliveryContext
                         \<lparr>dc_ChannelType := ChannelTypeMQTT, dc_ChannelID := topic, dc_ReplyMode := ''direct'',
                          dc_Capabilities := MQTTCapabilities\<rparr>,
                       nm_Meta = Some (MetaMqtt
                         \<lparr>mm_Broker = mq_Broker cfg, mm_Topic = topic, mm_QoS = mq_DefaultQoS cfg, mm_Retain = False,
                          mm_ClientID = userID, mm_CorrelationID = mi_CorrelationID payload,
                          mm_ResponseTopic = mi_ResponseTopic payload\<rparr>),
                       nm_Timestamp = ie_now env, nm_DedupeKey = []\<rparr>)))"

definition mqtt_onMessage ::
  "(string \<Rightarrow> MQTTInboundPayload option) \<Rightarrow> inbound_env \<Rightarrow> MqttNormalizerConfig
     \<Rightarrow> ('s \<Rightarrow> NipperMessage \<Rightarrow> 's \<times> bool) option \<Rightarrow> string \<Rightarrow> string \<Rightarrow> 's \<Rightarrow> 's" where
  "mqtt_onMessage parse env cfg handler topic payload s =
     (case handler of
        None \<Rightarrow> s
      | Some h \<Rightarrow>
          (case mqtt_NormalizeInbound parse env cfg payload topic of
             Inl _ \<Rightarrow> s
           | Inr None \<Rightarrow> s
           | Inr (Some m) \<Rightarrow> fst (h s m)))"

text \<open>Delivery. The conversion to a byte keeps the low eight bits.\<close>

definition to_byte :: "int \<Rightarrow> int" where
  "to_byte n = n mod 256"

definition new_delivery_qos :: "int \<Rightarrow> int" where
  "new_delivery_qos defaultQoS = (let qos = to_byte defaultQoS in if 2 < qos then 1 else qos)"

definition extractMQTTMeta :: "NipperResponse \<Rightarrow> MqttMeta option" where
  "extractMQTTMeta resp = (case nr_Meta resp of Some (MetaMqtt m) \<Rightarrow> Some m | _ \<Rightarrow> None)"

definition resolveOutboundTopic :: "string \<Rightarrow> NipperResponse \<Rightarrow> string" where
  "resolveOutboundTopic prefix resp =
     (case extractMQTTMeta resp of
        Some m \<Rightarrow> if mm_ResponseTopic m \<noteq> [] then mm_ResponseTopic m else OutboxTopic prefix (nr_UserID resp)
      | None \<Rightarrow> OutboxTopic prefix (nr_UserID resp))"

definition resolveQoS :: "int \<Rightarrow> NipperResponse \<Rightarrow> int" where
  "resolveQoS defaultQoS resp =
     (case extractMQTTMeta resp of
        Some m \<Rightarrow> let qos = to_byte (mm_QoS m) in if qos \<le> 2 then qos else defaultQoS
      | None \<Rightarrow> defaultQoS)"

record ResponsePayload =
  rp_ResponseID :: string
  rp_InReplyTo :: string
  rp_SessionKey :: string
  rp_UserID :: string
  rp_Text :: string
  rp_Parts :: "ContentPart list"
  rp_CorrelationID :: string
  rp_Timestamp :: time

definition mqtt_buildPayload :: "NipperResponse \<Rightarrow> ResponsePayload" where
  "mqtt_buildPayload resp =
     \<lparr>rp_ResponseID = nr_ResponseID resp, rp_InReplyTo = [], rp_SessionKey = nr_SessionKey resp, rp_UserID = nr_UserID resp,
      rp_Text = nr_Text resp, rp_Parts = nr_Parts resp,
      rp_CorrelationID = (case extractMQTTMeta resp of Some m \<Rightarrow> mm_CorrelationID m | None \<Rightarrow> []),
      rp_Timestamp = nr_Timestamp resp\<rparr>"

datatype deliver_error = NoPublisherSet | NotConnected | PublishRefused

record mqtt_publish =
  mp_topic :: string
  mp_qos :: int
  mp_payload :: ResponsePayload

datatype publisher_state = NilPublisher | Disconnected | Connected

definition mqtt_DeliverResponse ::
  "string \<Rightarrow> int \<Rightarrow> publisher_state \<Rightarrow> (mqtt_publish \<Rightarrow> bool) \<Rightarrow> NipperResponse option
     \<Rightarrow> mqtt_publish list \<times> (deliver_error + unit)" where
  "mqtt_DeliverResponse prefix defaultQoS publisher accepts oresp =
     (case oresp of
        None \<Rightarrow> ([], Inr ())
      | Some resp \<Rightarrow>
          if publisher = NilPublisher then ([], Inl NoPublisherSet)
          else if publisher = Disconnected then ([], Inl NotConnected)
          else let p = \<lparr>mp_topic = resolveOutboundTopic prefix resp, mp_qos = resolveQoS defaultQoS resp,
                        mp_payload = mqtt_buildPayload resp\<rparr>
               in ([p], if accepts p then Inr () else Inl PublishRefused))"

section \<open>RabbitMQ\<close>

record RabbitMQInboundPayload =
  ri_Text :: string
  ri_Source :: string
  ri_CorrelationID :: string
  ri_MessageID :: string
  ri_Headers :: "string \<rightharpoonup> string"

text \<open>Reading an absent key of a Go map gives the empty string, so headers are a total function.\<close>

record InboundMeta =
  im_Exchange :: string
  im_RoutingKey :: string
  im_Queue :: string
  im_ConsumerTag :: string
  im_DeliveryTag :: nat
  im_ReplyTo :: string
  im_MessageID :: string
  im_Headers :: "string \<Rightarrow> string"

definition OutboundRoutingKey :: "string \<Rightarrow> string" where
  "OutboundRoutingKey userID = ''nipper.'' @ userID @ ''.outbox''"

definition InboundRoutingKey :: "string \<Rightarrow> string" where
  "InboundRoutingKey userID = ''nipper.'' @ userID @ ''.inbox''"

definition InboundQueueName :: "string \<Rightarrow> string" where
  "InboundQueueName userID = ''nipper-'' @ userID @ ''-inbox''"

definition OutboundQueueName :: "string \<Rightarrow> string" where
  "OutboundQueueName userID = ''nipper-'' @ userID @ ''-outbox''"

definition extractUserIDFromRoutingKey :: "string \<Rightarrow> string" where
  "extractUserIDFromRoutingKey key =
     (let parts = Split key (CHR ''.'') in
      if 3 \<le> length parts \<and> parts ! 0 = ''nipper'' \<and> last parts = ''inbox''
      then Join (tl (butlast parts)) (CHR ''.'') else [])"

definition extractUserIDFromQueue :: "string \<Rightarrow> string" where
  "extractUserIDFromQueue queue =
     (if \<not> HasPrefix queue ''nipper-'' \<or> \<not> HasSuffix queue ''-inbox'' then []
      else TrimSuffix (TrimPrefix queue ''nipper-'') ''-inbox'')"

definition resolveUserID :: "InboundMeta \<Rightarrow> string" where
  "resolveUserID meta =
     (if im_Headers meta ''x-nipper-user'' \<noteq> [] then im_Headers meta ''x-nipper-user''
      else if extractUserIDFromRoutingKey (im_RoutingKey meta) \<noteq> [] then extractUserIDFromRoutingKey (im_RoutingKey meta)
      else extractUserIDFromQueue (im_Queue meta))"

definition resolveReplyMode :: "string \<Rightarrow> string" where
  "resolveReplyMode replyTo = (if replyTo \<noteq> [] then ''reply-to'' else ''direct'')"

definition first_nonempty :: "string \<Rightarrow> string \<Rightarrow> string" where
  "first_nonempty a b = (if a = [] then b else a)"

definition rmq_NormalizeInbound ::
  "(string \<Rightarrow> RabbitMQInboundPayload option) \<Rightarrow> inbound_env \<Rightarrow> string \<Rightarrow> InboundMeta \<Rightarrow> normalize_error + NipperMessage option" where
  "rmq_NormalizeInbound parse env raw meta =
     (case parse raw of
        None \<Rightarrow> Inl BadPayload
      | Some payload \<Rightarrow>
          if TrimSpace (ri_Text payload) = [] then Inr None
          else let userID = resolveUserID meta in
            if userID = [] then Inl (NoUser (im_RoutingKey meta))
            else let originMsgID = first_nonempty (first_nonempty (ri_MessageID payload) (im_MessageID meta))
                       (''rabbitmq:'' @ im_RoutingKey meta @ '':'' @ show_int (ie_now env));
                     correlationID = first_nonempty (ri_CorrelationID payload) (im_Headers meta ''x-correlation-id'');
                     replyTo = first_nonempty (im_ReplyTo meta) (im_Headers meta ''x-reply-to'')
                 in Inr (Some
                   \<lparr>nm_MessageID = ie_uuid env, nm_OriginMessageID = originMsgID, nm_UserID = userID, nm_SessionKey = [],
                    nm_ChannelType = ChannelTypeRabbitMQ, nm_ChannelIdentity = ''rabbitmq:'' @ userID,
                    nm_Content = \<lparr>mc_Text = ri_Text payload, mc_Parts = []\<rparr>,
                    nm_DeliveryContext = zeroDeliveryContext
                      \<lparr>dc_ChannelType := ChannelTypeRabbitMQ,
                       dc_ChannelID := (if replyTo \<noteq> [] then replyTo else OutboundQueueName userID),
                       dc_ReplyMode := resolveReplyMode replyTo, dc_Capabilities := RabbitMQCapabilities\<rparr>,
                    nm_Meta = Some (MetaRabbitMq
                      \<lparr>rm_Exchange = im_Exchange meta, rm_RoutingKey = im_RoutingKey meta, rm_CorrelationID = correlationID,
                       rm_ReplyTo = replyTo, rm_MessageID = im_MessageID meta\<rparr>),
                    nm_Timestamp = ie_now env, nm_DedupeKey = []\<rparr>))"

text \<open>What the adapter answers the broker for one delivery.\<close>

datatype rmq_settlement = RAck | RNack bool  \<comment> \<open>requeue\<close>

record amqp_delivery =
  ad_Exchange :: string
  ad_RoutingKey :: string
  ad_ConsumerTag :: string
  ad_DeliveryTag :: nat
  ad_ReplyTo :: string
  ad_MessageId :: string
  ad_Headers :: "string \<Rightarrow> string"
  ad_Body :: string

definition delivery_meta :: "string \<Rightarrow> amqp_delivery \<Rightarrow> InboundMeta" where
  "delivery_meta userID d =
     \<lparr>im_Exchange = ad_Exchange d, im_RoutingKey = ad_RoutingKey d, im_Queue = InboundQueueName userID,
      im_ConsumerTag = ad_ConsumerTag d, im_DeliveryTag = ad_DeliveryTag d, im_ReplyTo = ad_ReplyTo d,
      im_MessageID = ad_MessageId d, im_Headers = ad_Headers d\<rparr>"

definition rmq_handleDelivery ::
  "(string \<Rightarrow> RabbitMQInboundPayload option) \<Rightarrow> inbound_env \<Rightarrow> ('s \<Rightarrow> NipperMessage \<Rightarrow> 's \<times> bool) option
     \<Rightarrow> string \<Rightarrow> amqp_delivery \<Rightarrow> 's \<Rightarrow> 's \<times> rmq_settlement" where
  "rmq_handleDelivery parse env handler userID d s =
     (case handler of
        None \<Rightarrow> (s, RNack True)
      | Some h \<Rightarrow>
          (case rmq_NormalizeInbound parse env (ad_Body d) (delivery_meta userID d) of
               Inl _ \<Rightarrow> (s, RNack False)
             | Inr None \<Rightarrow> (s, RAck)
             | Inr (Some m) \<Rightarrow> (let (s', failed) = h s m in (s', if failed then RNack True else RAck))))"

definition extractRabbitMQMeta :: "NipperResponse \<Rightarrow> RabbitMqMeta option" where
  "extractRabbitMQMeta resp = (case nr_Meta resp of Some (MetaRabbitMq m) \<Rightarrow> Some m | _ \<Rightarrow> None)"

definition resolveTarget :: "string \<Rightarrow> NipperResponse \<Rightarrow> string \<times> string" where
  "resolveTarget exchangeOutbound resp =
     (case extractRabbitMQMeta resp of
        Some m \<Rightarrow> if rm_ReplyTo m \<noteq> [] then ([], rm_ReplyTo m) else (exchangeOutbound, OutboundRoutingKey (nr_UserID resp))
      | None \<Rightarrow> (exchangeOutbound, OutboundRoutingKey (nr_UserID resp)))"

definition buildHeaders :: "NipperResponse \<Rightarrow> string \<rightharpoonup> string" where
  "buildHeaders resp =
     (let headers = [''x-nipper-response-id'' \<mapsto> nr_ResponseID resp, ''content-type'' \<mapsto> ''application/json''] in
      case extractRabbitMQMeta resp of
        Some m \<Rightarrow> if rm_CorrelationID m \<noteq> [] then headers(''x-correlation-id'' \<mapsto> rm_CorrelationID m) else headers
      | None \<Rightarrow> headers)"

definition rmq_buildPayload :: "NipperResponse \<Rightarrow> ResponsePayload" where
  "rmq_buildPayload resp =
     \<lparr>rp_ResponseID = nr_ResponseID resp, rp_InReplyTo = nr_OriginMessageID resp, rp_SessionKey = nr_SessionKey resp,
      rp_UserID = nr_UserID resp, rp_Text = nr_Text resp, rp_Parts = nr_Parts resp,
      rp_CorrelationID = (case extractRabbitMQMeta resp of Some m \<Rightarrow> rm_CorrelationID m | None \<Rightarrow> []),
      rp_Timestamp = nr_Timestamp resp\<rparr>"

record rmq_publish =
  rb_exchange :: string
  rb_key :: string
  rb_payload :: ResponsePayload
  rb_headers :: "string \<rightharpoonup> string"

definition rmq_DeliverResponse ::
  "string \<Rightarrow> publisher_state \<Rightarrow> (rmq_publish \<Rightarrow> bool) \<Rightarrow> NipperResponse option \<Rightarrow> rmq_publish list \<times> (deliver_error + unit)" where
  "rmq_DeliverResponse exchangeOutbound publisher accepts oresp =
     (case oresp of
        None \<Rightarrow> ([], Inr ())
      | Some resp \<Rightarrow>
          if publisher = NilPublisher then ([], Inl NoPublisherSet)
          else if publisher = Disconnected then ([], Inl NotConnected)
          else let (exchange, key) = resolveTarget exchangeOutbound resp;
                   p = \<lparr>rb_exchange = exchange, rb_key = key, rb_payload = rmq_buildPayload resp, rb_headers = buildHeaders resp\<rparr>
               in ([p], if accepts p then Inr () else Inl PublishRefused))"

section \<open>Addresses\<close>

lemma Split_snoc_sep: "c \<notin> set v \<Longrightarrow> Split (s @ c # v) c = Split s c @ [v]"
  by (induction s c rule: Split.induct) (auto simp: Split_free split: list.split)

text \<open>
  The names of a user's topic, routing key and queue give the user back: for every user id without
  a slash (and not empty) on MQTT, and for every user id at all on RabbitMQ, dots and dashes
  included.
\<close>

theorem channel_addresses_roundtrip:
  "(userID \<noteq> [] \<and> CHR ''/'' \<notin> set userID \<longrightarrow> ExtractUserIDFromTopic (InboxTopic prefix userID) prefix = Inr userID)
   \<and> extractUserIDFromRoutingKey (InboundRoutingKey userID) = userID
   \<and> extractUserIDFromQueue (InboundQueueName userID) = userID"
proof (intro conjI impI)
  assume u: "userID \<noteq> [] \<and> CHR ''/'' \<notin> set userID"
  have "InboxTopic prefix userID = (topic_prefix prefix @ ''/'') @ userID @ CHR ''/'' # ''inbox''"
    by (simp add: InboxTopic_def)
  then show "ExtractUserIDFromTopic (InboxTopic prefix userID) prefix = Inr userID"
    using u by (simp only: ExtractUserIDFromTopic_def Let_def HasPrefix_append TrimPrefix_append) simp
next
  have "InboundRoutingKey userID = ''nipper'' @ CHR ''.'' # userID @ CHR ''.'' # ''inbox''"
    by (simp add: InboundRoutingKey_def)
  then have "Split (InboundRoutingKey userID) (CHR ''.'') = ''nipper'' # Split userID (CHR ''.'') @ [''inbox'']"
    by (simp add: Split_append_sep Split_snoc_sep)
  then show "extractUserIDFromRoutingKey (InboundRoutingKey userID) = userID"
    by (simp add: extractUserIDFromRoutingKey_def Suc_le_eq)
next
  have "HasPrefix (''nipper-'' @ (userID @ ''-inbox'')) ''nipper-''" by (rule HasPrefix_append)
  moreover have "HasSuffix ((''nipper-'' @ userID) @ ''-inbox'') ''-inbox''" by (rule HasSuffix_append)
  moreover have "TrimPrefix (''nipper-'' @ (userID @ ''-inbox'')) ''nipper-'' = userID @ ''-inbox''" by (rule TrimPrefix_append)
  ultimately show "extractUserIDFromQueue (InboundQueueName userID) = userID"
    unfolding extractUserIDFromQueue_def InboundQueueName_def by (simp only: append_assoc TrimSuffix_append) simp
qed

end
