(* ===== verification/Redelivery.thy ===== *)
theory Redelivery
  imports QueueChannels Router ReplyText
begin

text \<open>
  The RabbitMQ channel joined to the router (\<^verbatim>\<open>cli/serve.go\<close> hands the router's
  \<^verbatim>\<open>HandleNormalizedMessage\<close> to the adapter as its handler): what becomes of a delivery the
  adapter puts back because the router could not publish it.
\<close>

section \<open>The router as the adapter's handler\<close>

definition route_handler :: "'s RouterDeps \<Rightarrow> route_env \<Rightarrow> 's Router \<Rightarrow> NipperMessage \<Rightarrow> 's Router \<times> bool" where
  "route_handler deps env rt m =
     (let (rt', out) = HandleNormalizedMessage deps env rt (Some m) in (rt', case out of RouteFailed _ \<Rightarrow> True | _ \<Rightarrow> False))"

lemma rmq_message:
  assumes "rmq_NormalizeInbound parse env raw meta = Inr (Some m)"
  obtains payload where "parse raw = Some payload" "TrimSpace (ri_Text payload) \<noteq> []" "resolveUserID meta \<noteq> []"
    "nm_UserID m = resolveUserID meta" "nm_ChannelType m = ChannelTypeRabbitMQ"
    "nm_OriginMessageID m = first_nonempty (first_nonempty (ri_MessageID payload) (im_MessageID meta))
                       (''rabbitmq:'' @ im_RoutingKey meta @ '':'' @ show_int (ie_now env))"
proof (cases "parse raw")
  case None
  then show thesis using assms by (simp add: rmq_NormalizeInbound_def)
next
  case (Some payload)
  show thesis
  proof (cases "TrimSpace (ri_Text payload) = [] \<or> resolveUserID meta = []")
    case True
    then show thesis using assms by (auto simp: rmq_NormalizeInbound_def Some Let_def split: if_splits)
  next
    case False
    then show thesis using assms that [OF Some] by (simp add: rmq_NormalizeInbound_def Some Let_def) force
  qed
qed

lemma rmq_renormalised:
  assumes "rmq_NormalizeInbound parse env raw meta = Inr (Some m)" "im_MessageID meta \<noteq> []"
  obtains m' where "rmq_NormalizeInbound parse env' raw meta = Inr (Some m')" "nm_UserID m' = nm_UserID m" "nm_UserID m \<noteq> []"
    "nm_ChannelType m' = ChannelTypeRabbitMQ" "nm_OriginMessageID m' = nm_OriginMessageID m" "nm_OriginMessageID m \<noteq> []"
proof -
  obtain payload where p: "parse raw = Some payload" "TrimSpace (ri_Text payload) \<noteq> []" "resolveUserID meta \<noteq> []"
    "nm_UserID m = resolveUserID meta" "nm_OriginMessageID m = first_nonempty (first_nonempty (ri_MessageID payload) (im_MessageID meta))
                       (''rabbitmq:'' @ im_RoutingKey meta @ '':'' @ show_int (ie_now env))"
    using assms(1) by (rule rmq_message) blast
  then obtain m' where m': "rmq_NormalizeInbound parse env' raw meta = Inr (Some m')"
    by (simp add: rmq_NormalizeInbound_def Let_def)
  obtain "nm_UserID m' = resolveUserID meta" "nm_ChannelType m' = ChannelTypeRabbitMQ"
    "nm_OriginMessageID m' = first_nonempty (first_nonempty (ri_MessageID payload) (im_MessageID meta))
                       (''rabbitmq:'' @ im_RoutingKey meta @ '':'' @ show_int (ie_now env'))"
    using m' p(1) by (auto elim: rmq_message)
  then show thesis using that [OF m'] p assms(2) by (simp add: first_nonempty_def)
qed

lemma prepared_user: "nm_UserID m \<noteq> [] \<Longrightarrow> nm_UserID (prepared deps env rt m) = nm_UserID m"
  by (simp add: prepared_def stamp_def Let_def)


lemma publish_failure_recorded:
  assumes "handleNormalizedMessage deps env n rt (Some m) = (rt', out)" "\<exists>item. rt_log rt' = rt_log rt @ [PublishFailed item]"
  shows "out = RouteFailed PublishError"
  using assms(1)
proof (cases rule: handle_cases)
  case (stopped st)
  then show ?thesis using assms(2) by simp
next
  case (entered st0 st)
  then show ?thesis using assms(2)
    by (auto simp: register_and_dedup_eq after_dedup_def dispatch_accepted_def onAccepted_def enqueueCollect_def open_buffer_def Let_def
      split: prod.splits option.splits if_splits)
qed

lemma register_not_early:
  assumes "register_and_dedup deps env n rt m = (rt', out)"
  shows "out \<noteq> RouteFailed (AllowlistError e)" "out \<noteq> RouteFailed (ResolverError e')"
  using assms by (auto simp: register_and_dedup_eq dispatch_accepted_def Let_def split: if_splits prod.splits)

lemma open_store_routes:
  assumes "handleNormalizedMessage deps env n rt (Some m) = (rt', out)" "dp_repo deps = sqlite_repo"
    and "db_open (rt_store rt)" "store_wf (rt_store rt)" "nm_UserID m \<noteq> []" "nm_ChannelType m \<noteq> []"
  shows "out \<noteq> RouteFailed (AllowlistError e)" "out \<noteq> RouteFailed (ResolverError e')"
proof -
  obtain st b where g: "Guard_Check sqlite_repo (rt_store rt) (nm_UserID m) (nm_ChannelType m) (nm_ChannelIdentity m) (en_guard_now env) = (st, Inr b)"
    using check_answers [OF assms(3,4)] by blast
  have s: "nm_UserID (stamp env m) = nm_UserID m" "nm_ChannelType (stamp env m) = nm_ChannelType m"
    "nm_ChannelIdentity (stamp env m) = nm_ChannelIdentity m"
    by (simp_all add: stamp_def Let_def)
  then have "(stamp env m)\<lparr>nm_UserID := nm_UserID m\<rparr> = stamp env m" by (metis NipperMessage.surjective NipperMessage.update_convs(3))
  then show "out \<noteq> RouteFailed (AllowlistError e)" "out \<noteq> RouteFailed (ResolverError e')"
    using assms s g
    by (cases b; auto simp: handleNormalizedMessage_def resolve_session_def Resolve_def Let_def split: if_splits dest: register_not_early)+
qed

text \<open>
  A message put back for redelivery is lost. When the router could not publish a message
  of the RabbitMQ channel, the adapter returns the delivery to its queue. The router has recorded the
  message as seen before it tried to publish, so within the deduplication window the redelivery, although it
  carries a fresh message id and the broker is back, is suppressed as a duplicate and acknowledged: nothing
  is published for it, buffered or left in the queue.
\<close>

theorem requeued_message_lost:
  assumes first: "rmq_handleDelivery parse nenv1 (Some (route_handler deps env1)) userID d rt = (rt1, RNack True)"
    and failed: "rt_log rt1 = rt_log rt @ [PublishFailed item]"
    and again: "rmq_handleDelivery parse nenv2 (Some (route_handler deps env2)) userID d rt1 = (rt2, settled)"
    and repo: "dp_repo deps = sqlite_repo" "db_open (rt_store rt1)" "store_wf (rt_store rt1)"
    and "ad_MessageId d \<noteq> []" "en_dedup_now env2 < en_dedup_store env1 + dd_window (rt_dedup rt)"
  shows "settled = RAck \<and> rt_log rt2 = rt_log rt1 \<and> rt_buffers rt2 = rt_buffers rt1"
proof -
  let ?meta = "delivery_meta userID d"
  obtain m1 out1 where m1: "rmq_NormalizeInbound parse nenv1 (ad_Body d) ?meta = Inr (Some m1)"
    and h1: "handleNormalizedMessage deps env1 False rt (Some m1) = (rt1, out1)"
    using first failed by (auto simp: rmq_handleDelivery_def route_handler_def HandleNormalizedMessage_def Let_def
      split: sum.splits option.splits prod.splits if_splits)
  obtain m2 where m2: "rmq_NormalizeInbound parse nenv2 (ad_Body d) ?meta = Inr (Some m2)" "nm_UserID m2 = nm_UserID m1"
    "nm_UserID m1 \<noteq> []" "nm_ChannelType m2 = ChannelTypeRabbitMQ" "nm_OriginMessageID m2 = nm_OriginMessageID m1"
    "nm_OriginMessageID m1 \<noteq> []"
    using rmq_renormalised [OF m1, of nenv2] assms(7) by (auto simp: delivery_meta_def)
  obtain out2 where h2: "handleNormalizedMessage deps env2 False rt1 (Some m2) = (rt2, out2)"
    and st: "settled = (if (case out2 of RouteFailed _ \<Rightarrow> True | _ \<Rightarrow> False) then RNack True else RAck)"
    using again m2(1) by (auto simp: rmq_handleDelivery_def route_handler_def HandleNormalizedMessage_def Let_def split: prod.splits)
  have "taken_over out1" using publish_failure_recorded [OF h1] failed by (simp add: taken_over_def)
  from accepted_recorded [OF h1 this m2(6)] have rec: "dd_entries (rt_dedup rt1)
      (origin_key (nm_UserID (prepared deps env2 rt1 m2)) (nm_OriginMessageID m2)) = Some (en_dedup_store env1 + dd_window (rt_dedup rt))"
    using m2 by (simp add: prepared_user)
  have "nm_OriginMessageID m2 \<noteq> []" "nm_UserID m2 \<noteq> []" "nm_ChannelType m2 \<noteq> []" using m2 by simp_all
  note recorded_suppresses [OF h2 this(1) rec assms(8)] open_store_routes [OF h2 repo this(2,3)]
  then show ?thesis using st by auto
qed

section \<open>A delivery that is put back\<close>

definition failing_env :: route_env where
  "failing_env = demo_env\<lparr>en_publish_ok := False\<rparr>"

definition queue_deps :: "Store RouterDeps" where
  "queue_deps = demo_deps\<lparr>dp_config := None\<rparr>"

definition ask_delivery :: amqp_delivery where
  "ask_delivery = \<lparr>ad_Exchange = ''x'', ad_RoutingKey = ''nipper.usr_1.inbox'', ad_ConsumerTag = ''c'', ad_DeliveryTag = 1,
     ad_ReplyTo = [], ad_MessageId = ''m1'', ad_Headers = (\<lambda>h. if h = ''x-nipper-user'' then ''usr_1'' else []), ad_Body = ''hi''\<rparr>"

definition ask_parse :: "string \<Rightarrow> RabbitMQInboundPayload option" where
  "ask_parse raw = Some \<lparr>ri_Text = raw, ri_Source = [], ri_CorrelationID = [], ri_MessageID = [], ri_Headers = Map.empty\<rparr>"

definition ask_env :: inbound_env where
  "ask_env = \<lparr>ie_uuid = ''u1'', ie_now = 9\<rparr>"

lemma rabbit_admitted: "Guard_Check sqlite_repo demo_denied ''usr_1'' ''rabbitmq'' i t = (demo_denied, Inr True)"
proof -
  have "allow_row demo_denied ''usr_1'' ''rabbitmq'' = None"
    by (simp add: allow_row_def demo_denied_def demo_user_def SetAllowed_def CreateUser_def emptyStore_def exec_simps has_user_def)
  moreover have "db_open demo_denied" "store_wf demo_denied" 
    using demo_denied_reachable db_reachable_wf [OF _ store_wf_empty] by auto
  ultimately show ?thesis using demo_denied_rows
    by (simp add: Guard_Check_def IsUserEnabled_active IsAllowed_rows)
qed


lemma ask_text: "TrimSpace ''hi'' \<noteq> []"
  by (simp add: TrimSpace_plain IsSpace_def)


lemma rabbit_publish_fails:
  assumes "nm_UserID m = ''usr_1''" "nm_ChannelType m = ''rabbitmq''"
  obtains rt1 item where "handleNormalizedMessage queue_deps failing_env False demo_router (Some m) = (rt1, RouteFailed PublishError)"
    "rt_log rt1 = rt_log demo_router @ [PublishFailed item]" "rt_store rt1 = demo_denied"
proof -
  have s: "nm_UserID (stamp e m) = ''usr_1''" "nm_ChannelType (stamp e m) = ''rabbitmq''" for e
    using assms by (simp_all add: stamp_def Let_def)
  have p: "dp_repo queue_deps = sqlite_repo" "dp_publisher queue_deps" "dp_config queue_deps = None" "\<not> en_publish_ok failing_env"
    "rt_store demo_router = demo_denied"
    by (simp_all add: queue_deps_def failing_env_def)
  have "handleNormalizedMessage queue_deps failing_env False demo_router (Some m)
      = resolve_session queue_deps failing_env False demo_router ((stamp failing_env m)\<lparr>nm_UserID := ''usr_1''\<rparr>)"
    unfolding handleNormalizedMessage_def Let_def by (simp add: s p rabbit_admitted) (simp add: demo_router_def NewRouter_def)
  also have "\<dots> = (fst \<dots>, RouteFailed PublishError) \<and> (\<exists>item. rt_log (fst \<dots>) = rt_log demo_router @ [PublishFailed item])
      \<and> rt_store (fst \<dots>) = demo_denied"
    by (simp add: resolve_session_def Resolve_def s p register_and_dedup_eq after_dedup_def is_dup_def NewDeduplicator_def IsDuplicate_def
        dispatch_accepted_def queueModeFor_def onAccepted_def Let_def)
  finally show thesis using that by blast
qed

lemma ask_normalised:
  obtains m where "rmq_NormalizeInbound ask_parse ask_env (ad_Body ask_delivery) (delivery_meta ''usr_1'' ask_delivery) = Inr (Some m)"
    "nm_UserID m = ''usr_1''" "nm_ChannelType m = ''rabbitmq''"
  using that by (simp add: rmq_NormalizeInbound_def delivery_meta_def ask_parse_def ask_delivery_def ask_text resolveUserID_def Let_def)

lemma first_delivery_fails:
  obtains rt1 item where
    "rmq_handleDelivery ask_parse ask_env (Some (route_handler queue_deps failing_env)) ''usr_1'' ask_delivery demo_router = (rt1, RNack True)"
    "rt_log rt1 = rt_log demo_router @ [PublishFailed item]" "rt_store rt1 = demo_denied"
proof -
  obtain m where m: "rmq_NormalizeInbound ask_parse ask_env (ad_Body ask_delivery) (delivery_meta ''usr_1'' ask_delivery) = Inr (Some m)"
    "nm_UserID m = ''usr_1''" "nm_ChannelType m = ''rabbitmq''"
    by (rule ask_normalised)
  obtain rt1 item where h: "handleNormalizedMessage queue_deps failing_env False demo_router (Some m) = (rt1, RouteFailed PublishError)"
    "rt_log rt1 = rt_log demo_router @ [PublishFailed item]" "rt_store rt1 = demo_denied"
    using rabbit_publish_fails [OF m(2,3)] by blast
  show thesis
    by (rule that [OF _ h(2,3)]) (simp add: rmq_handleDelivery_def m(1) route_handler_def HandleNormalizedMessage_def h(1))
qed

theorem requeued_message_lost_witness:
  "\<exists>rt1 rt2 item.
     rmq_handleDelivery ask_parse ask_env (Some (route_handler queue_deps failing_env)) ''usr_1'' ask_delivery demo_router = (rt1, RNack True)
     \<and> rt_log rt1 = rt_log demo_router @ [PublishFailed item]
     \<and> rmq_handleDelivery ask_parse ask_env (Some (route_handler queue_deps demo_env)) ''usr_1'' ask_delivery rt1 = (rt2, RAck)
     \<and> rt_log rt2 = rt_log rt1"
proof -
  obtain rt1 item where f: 
    "rmq_handleDelivery ask_parse ask_env (Some (route_handler queue_deps failing_env)) ''usr_1'' ask_delivery demo_router = (rt1, RNack True)"
    "rt_log rt1 = rt_log demo_router @ [PublishFailed item]" "rt_store rt1 = demo_denied"
    by (rule first_delivery_fails)
  obtain rt2 settled where a: "rmq_handleDelivery ask_parse ask_env (Some (route_handler queue_deps demo_env)) ''usr_1'' ask_delivery rt1 = (rt2, settled)"
    by force
  have "db_open demo_denied" "store_wf demo_denied" 
    using demo_denied_reachable db_reachable_wf [OF _ store_wf_empty] by auto
  then have "settled = RAck \<and> rt_log rt2 = rt_log rt1 \<and> rt_buffers rt2 = rt_buffers rt1"
    using requeued_message_lost [OF f(1,2) a] f(3)
    by (simp add: queue_deps_def demo_deps_def ask_delivery_def failing_env_def demo_env_def NewDeduplicator_def)
  with f a show ?thesis by blast
qed
end
