(* ===== verification/WhatsApp.thy ===== *)
theory WhatsApp
  imports Models ReplyText
begin

text \<open>
  The WhatsApp channel (\<^verbatim>\<open>internal/channels/whatsapp\<close>): the normaliser that turns a Wuzapi
  webhook into a message, and the client that delivers responses through the Wuzapi API.

  Arguments stand for JSON decoding, the parsing of a time, the printing of a coordinate, base64, the fetch
  from an object store and the Markdown formatter applied to captions. A post is recorded in a log; its
  outcome, and whether the context is done after it, are functions of its number.
\<close>

section \<open>Webhook payloads\<close>

record WuzapiMessageSource =
  ms_Chat :: string
  ms_Sender :: string
  ms_IsFromMe :: bool
  ms_IsGroup :: bool

record WuzapiInfo =
  wi_ID :: string
  wi_MessageSource :: WuzapiMessageSource
  wi_Chat :: string
  wi_Sender :: string
  wi_IsFromMe :: bool
  wi_IsGroup :: bool
  wi_SenderAlt :: string
  wi_PushName :: string
  wi_Timestamp :: string
  wi_Type :: string

record WuzapiS3 =
  s3_URL :: string
  s3_MimeType :: string
  s3_FileName :: string
  s3_Size :: int

record WuzapiEvent =
  we_Info :: WuzapiInfo
  we_Message :: json_text
  we_S3 :: "WuzapiS3 option"

record WuzapiWebhook =
  wh_Type :: string
  wh_Event :: "WuzapiEvent option"
  wh_Info :: WuzapiInfo
  wh_Message :: json_text
  wh_S3 :: "WuzapiS3 option"
  wh_UserID :: string
  wh_InstanceName :: string
  wh_Token :: string

record wuzapiContextInfo =
  ci_StanzaID :: string
  ci_Participant :: string

record wuzapiExtendedText =
  xt_Text :: string
  xt_ContextInfo :: "wuzapiContextInfo option"

record wuzapiMediaMessage =
  wmm_Caption :: string
  wmm_Mimetype :: string
  wmm_ContextInfo :: "wuzapiContextInfo option"

record wuzapiLocation =
  lo_Latitude :: float64
  lo_Longitude :: float64
  lo_Name :: string
  lo_Address :: string

record wuzapiContact =
  co_DisplayName :: string
  co_Vcard :: string

record wuzapiMessage =
  wz_Conversation :: string
  wz_ExtendedText :: "wuzapiExtendedText option"
  wz_ImageMessage :: "wuzapiMediaMessage option"
  wz_AudioMessage :: "wuzapiMediaMessage option"
  wz_VideoMessage :: "wuzapiMediaMessage option"
  wz_DocumentMessage :: "wuzapiMediaMessage option"
  wz_StickerMessage :: "wuzapiMediaMessage option"
  wz_LocationMessage :: "wuzapiLocation option"
  wz_ContactMessage :: "wuzapiContact option"

definition ResolvedChat :: "WuzapiInfo \<Rightarrow> string" where
  "ResolvedChat i = (if ms_Chat (wi_MessageSource i) \<noteq> [] then ms_Chat (wi_MessageSource i) else wi_Chat i)"

definition ResolvedSender :: "WuzapiInfo \<Rightarrow> string" where
  "ResolvedSender i =
     (if wi_SenderAlt i \<noteq> [] then wi_SenderAlt i
      else if ms_Sender (wi_MessageSource i) \<noteq> [] then ms_Sender (wi_MessageSource i)
      else wi_Sender i)"

definition ResolvedIsFromMe :: "WuzapiInfo \<Rightarrow> bool" where
  "ResolvedIsFromMe i =
     (if ms_Chat (wi_MessageSource i) \<noteq> [] then ms_IsFromMe (wi_MessageSource i) else wi_IsFromMe i)"

definition ResolvedIsGroup :: "WuzapiInfo \<Rightarrow> bool" where
  "ResolvedIsGroup i =
     (if ms_Chat (wi_MessageSource i) \<noteq> [] then ms_IsGroup (wi_MessageSource i) else wi_IsGroup i)"

section \<open>Normalising\<close>

definition normalizeJID :: "string \<Rightarrow> string" where
  "normalizeJID jid =
     (case Index jid ''@'' of
        None \<Rightarrow> jid
      | Some at \<Rightarrow>
          if at = 0 then jid
          else let user = take at jid; domain = drop at jid
               in case Index user '':'' of
                    None \<Rightarrow> user @ domain
                  | Some colon \<Rightarrow> (if 0 < colon then take colon user else user) @ domain)"

definition pin :: string where
  "pin = [CHR 0xF0, CHR 0x9F, CHR 0x93, CHR 0x8D]"

definition formatLocationText :: "(float64 \<Rightarrow> string) \<Rightarrow> wuzapiLocation \<Rightarrow> string" where
  "formatLocationText fmt6 loc =
     (if lo_Name loc \<noteq> [] then pin @ '' '' @ lo_Name loc
      else pin @ '' '' @ fmt6 (lo_Latitude loc) @ '', '' @ fmt6 (lo_Longitude loc))"

definition buildMediaContent :: "wuzapiMediaMessage \<Rightarrow> string \<Rightarrow> WuzapiS3 option \<Rightarrow> MessageContent" where
  "buildMediaContent media partType s3 =
     (let url = (case s3 of Some s \<Rightarrow> s3_URL s | None \<Rightarrow> []);
          caption = wmm_Caption media;
          part = zeroContentPart\<lparr>cp_Type := partType, cp_MimeType := wmm_Mimetype media, cp_URL := url, cp_Caption := caption\<rparr>;
          parts = (if caption \<noteq> [] then [zeroContentPart\<lparr>cp_Type := ''text'', cp_Text := caption\<rparr>, part] else [part])
      in \<lparr>mc_Text = (if caption = [] then ''['' @ partType @ '' message]'' else caption), mc_Parts = parts\<rparr>)"

definition text_only :: "string \<Rightarrow> MessageContent" where
  "text_only t = \<lparr>mc_Text = t, mc_Parts = []\<rparr>"

definition extractContent :: "(float64 \<Rightarrow> string) \<Rightarrow> wuzapiMessage \<Rightarrow> WuzapiS3 option \<Rightarrow> MessageContent \<times> string" where
  "extractContent fmt6 msg s3 =
     (if wz_Conversation msg \<noteq> [] then (text_only (wz_Conversation msg), [])
      else case wz_ExtendedText msg of Some x \<Rightarrow> (text_only (xt_Text x), []) | None \<Rightarrow>
      (case wz_ImageMessage msg of Some m \<Rightarrow> (buildMediaContent m ''image'' s3, ''image'') | None \<Rightarrow>
      (case wz_AudioMessage msg of Some m \<Rightarrow> (buildMediaContent m ''audio'' s3, ''audio'') | None \<Rightarrow>
      (case wz_VideoMessage msg of Some m \<Rightarrow> (buildMediaContent m ''video'' s3, ''video'') | None \<Rightarrow>
      (case wz_DocumentMessage msg of Some m \<Rightarrow> (buildMediaContent m ''document'' s3, ''document'') | None \<Rightarrow>
      (case wz_StickerMessage msg of Some m \<Rightarrow> (buildMediaContent m ''image'' s3, ''sticker'') | None \<Rightarrow>
      (case wz_LocationMessage msg of
         Some l \<Rightarrow> (\<lparr>mc_Text = formatLocationText fmt6 l,
                    mc_Parts = [zeroContentPart\<lparr>cp_Type := ''location'', cp_Latitude := lo_Latitude l,
                                  cp_Longitude := lo_Longitude l, cp_Address := lo_Address l\<rparr>]\<rparr>, [])
       | None \<Rightarrow>
      (case wz_ContactMessage msg of
         Some c \<Rightarrow> (\<lparr>mc_Text = (if co_DisplayName c = [] then ''Shared contact'' else co_DisplayName c),
                    mc_Parts = [zeroContentPart\<lparr>cp_Type := ''contact'', cp_Text := co_Vcard c\<rparr>]\<rparr>, [])
       | None \<Rightarrow> (text_only [], [])))))))))"

fun first_context :: "wuzapiContextInfo option list \<Rightarrow> wuzapiContextInfo option" where
  "first_context [] = None"
| "first_context (Some c # cs) = Some c"
| "first_context (None # cs) = first_context cs"

definition quoted_context :: "wuzapiMessage \<Rightarrow> wuzapiContextInfo option" where
  "quoted_context msg =
     first_context [Option.bind (wz_ExtendedText msg) xt_ContextInfo, Option.bind (wz_ImageMessage msg) wmm_ContextInfo,
       Option.bind (wz_AudioMessage msg) wmm_ContextInfo, Option.bind (wz_VideoMessage msg) wmm_ContextInfo,
       Option.bind (wz_DocumentMessage msg) wmm_ContextInfo, Option.bind (wz_StickerMessage msg) wmm_ContextInfo]"

definition setQuotedContext :: "wuzapiMessage \<Rightarrow> WhatsAppMeta \<Rightarrow> WhatsAppMeta" where
  "setQuotedContext msg meta =
     (case quoted_context msg of
        None \<Rightarrow> meta
      | Some ci \<Rightarrow> meta\<lparr>wm_QuotedMessageID := ci_StanzaID ci, wm_QuotedParticipant := ci_Participant ci\<rparr>)"

record whatsapp_env =
  wa_parse :: "json_text \<Rightarrow> WuzapiWebhook option"
  wa_parse_message :: "json_text \<Rightarrow> wuzapiMessage option"
  wa_parse_time :: "string \<Rightarrow> time option"
  wa_fmt6 :: "float64 \<Rightarrow> string"
  wa_uuid :: string
  wa_now :: time
  wa_BaseURL :: string  \<comment> \<open>from the normaliser's configuration\<close>

datatype whatsapp_error = BadWebhook | BadMessage

text \<open>The payload of the nested layout moved to the top.\<close>

definition flatten_event :: "WuzapiWebhook \<Rightarrow> WuzapiWebhook" where
  "flatten_event wh =
     (case wh_Event wh of
        None \<Rightarrow> wh
      | Some e \<Rightarrow> wh\<lparr>wh_Info := we_Info e, wh_Message := we_Message e,
                    wh_S3 := (if we_S3 e \<noteq> None then we_S3 e else wh_S3 wh)\<rparr>)"

definition whatsapp_NormalizeInbound :: "whatsapp_env \<Rightarrow> json_text \<Rightarrow> whatsapp_error + NipperMessage option" where
  "whatsapp_NormalizeInbound env raw =
     (case wa_parse env raw of
        None \<Rightarrow> Inl BadWebhook
      | Some wh0 \<Rightarrow>
          if wh_Type wh0 \<noteq> ''Message'' then Inr None
          else let wh = flatten_event wh0; info = wh_Info wh in
            if ResolvedIsFromMe info then Inr None
            else case wa_parse_message env (wh_Message wh) of
              None \<Rightarrow> Inl BadMessage
            | Some msg \<Rightarrow>
                let (content, mediaType) = extractContent (wa_fmt6 env) msg (wh_S3 wh);
                    chatJID = normalizeJID (ResolvedChat info);
                    senderJID = normalizeJID (ResolvedSender info);
                    meta = setQuotedContext msg
                      \<lparr>wm_WuzapiUserID = wh_UserID wh, wm_WuzapiInstanceName = wh_InstanceName wh,
                       wm_WuzapiBaseURL = wa_BaseURL env, wm_ChatJID = chatJID, wm_SenderJID = senderJID,
                       wm_MessageID = wi_ID info, wm_PushName = wi_PushName info, wm_IsGroup = ResolvedIsGroup info,
                       wm_IsFromMe = False, wm_QuotedMessageID = [], wm_QuotedParticipant = [],
                       wm_HasMedia = (mediaType \<noteq> []), wm_MediaType = mediaType,
                       wm_S3URL = (case wh_S3 wh of Some s \<Rightarrow> s3_URL s | None \<Rightarrow> []), wm_MediaKey = []\<rparr>;
                    ts = (if wi_Timestamp info \<noteq> []
                          then (case wa_parse_time env (wi_Timestamp info) of Some t \<Rightarrow> t | None \<Rightarrow> wa_now env)
                          else wa_now env)
                in Inr (Some
                     \<lparr>nm_MessageID = wa_uuid env, nm_OriginMessageID = wi_ID info, nm_UserID = [], nm_SessionKey = [],
                      nm_ChannelType = ChannelTypeWhatsApp, nm_ChannelIdentity = senderJID, nm_Content = content,
                      nm_DeliveryContext = zeroDeliveryContext
                        \<lparr>dc_ChannelType := ChannelTypeWhatsApp, dc_ChannelID := chatJID, dc_ReplyMode := ''inline'',
                         dc_Capabilities := WhatsAppCapabilities\<rparr>,
                      nm_Meta = Some (MetaWhatsApp meta), nm_Timestamp = ts, nm_DedupeKey = []\<rparr>))"

section \<open>Delivery\<close>

definition phoneFromJID :: "string \<Rightarrow> string" where
  "phoneFromJID jid = (case Index jid ''@'' of None \<Rightarrow> jid | Some at \<Rightarrow> if at = 0 then jid else take at jid)"

definition resolveTargetJID :: "WhatsAppMeta \<Rightarrow> string" where
  "resolveTargetJID meta =
     (let chat = normalizeJID (wm_ChatJID meta); sender = normalizeJID (wm_SenderJID meta) in
      if HasSuffix chat ''@g.us'' then chat
      else if HasSuffix chat ''@s.whatsapp.net'' then chat
      else if sender \<noteq> [] then sender
      else chat)"

definition isImageMIME :: "string \<Rightarrow> bool" where
  "isImageMIME mime = HasPrefix (ToLower (TrimSpace mime)) ''image/''"

text \<open>\<^verbatim>\<open>strings.LastIndex\<close> of one byte.\<close>

definition LastIndex1 :: "string \<Rightarrow> char \<Rightarrow> nat option" where
  "LastIndex1 s c = (if c \<in> set s then Some (length s - Suc (length (takeWhile (\<lambda>x. x \<noteq> c) (rev s)))) else None)"

definition chunk_cut :: "nat \<Rightarrow> string \<Rightarrow> nat" where
  "chunk_cut maxLen body =
     (case LastIndex1 (take maxLen body) (CHR 0x0A) of
        None \<Rightarrow> maxLen
      | Some i \<Rightarrow> if i = 0 then maxLen else i)"

definition drop_newline :: "string \<Rightarrow> string" where
  "drop_newline s = (if s \<noteq> [] \<and> hd s = CHR 0x0A then tl s else s)"

text \<open>The loop may not end, namely for \<open>maxLen = 0\<close>; the program calls it with 4000.\<close>

partial_function (option) split_loop :: "nat \<Rightarrow> string \<Rightarrow> string list option" where
  "split_loop maxLen body =
     (if body = [] then Some []
      else if length body \<le> maxLen then Some [body]
      else Option.bind (split_loop maxLen (drop_newline (drop (chunk_cut maxLen body) body)))
             (\<lambda>chunks. Some (take (chunk_cut maxLen body) body # chunks)))"

definition splitTextChunks :: "string \<Rightarrow> nat \<Rightarrow> string list option" where
  "splitTextChunks body maxLen = (if length body \<le> maxLen then Some [body] else split_loop maxLen body)"

record DeliveryOptions =
  do_MarkAsRead :: bool
  do_ShowTyping :: bool
  do_QuoteOriginal :: bool

datatype wuzapi_call =
  SendText string string "(string \<times> string) option" bool  \<comment> \<open>phone, body, quoted, link preview\<close>
| SendImage string string string  \<comment> \<open>phone, image, caption\<close>
| SendDocument string string string
| SendReaction string string string
| SetPresence string string
| MarkRead string string

record wuzapi_env =
  wz_ok :: "nat \<Rightarrow> bool"  \<comment> \<open>the outcome of the post with this number\<close>
  wz_done :: "nat \<Rightarrow> bool"  \<comment> \<open>the context is done after that many posts\<close>
  wz_is_s3 :: "string \<Rightarrow> bool"
  wz_fetch :: "string \<Rightarrow> string option"
  wz_base64 :: "string \<Rightarrow> string"
  wz_format :: "string \<Rightarrow> string"
  wz_options :: DeliveryOptions

datatype wuzapi_error = MissingMeta | NoPhone string | PostFailed | ContextDone | FetchFailed | EmptyImage

type_synonym call_log = "wuzapi_call list"

text \<open>A payload is sent as JSON: the service reads each text as it is after encoding and decoding.\<close>

fun as_json :: "wuzapi_call \<Rightarrow> wuzapi_call" where
  "as_json (SendText phone body quoted preview) =
     SendText (json_decoded phone) (json_decoded body) (map_option (map_prod json_decoded json_decoded) quoted) preview"
| "as_json (SendImage phone img caption) = SendImage (json_decoded phone) (json_decoded img) (json_decoded caption)"
| "as_json (SendDocument phone doc caption) = SendDocument (json_decoded phone) (json_decoded doc) (json_decoded caption)"
| "as_json (SendReaction phone i emoji) = SendReaction (json_decoded phone) (json_decoded i) (json_decoded emoji)"
| "as_json (SetPresence phone state) = SetPresence (json_decoded phone) (json_decoded state)"
| "as_json (MarkRead i phone) = MarkRead (json_decoded i) (json_decoded phone)"

definition wuzapi_post :: "wuzapi_env \<Rightarrow> wuzapi_call \<Rightarrow> call_log \<Rightarrow> call_log \<times> bool" where
  "wuzapi_post env call log = (log @ [as_json call], wz_ok env (length log))"

fun post_attempts :: "wuzapi_env \<Rightarrow> wuzapi_call \<Rightarrow> nat \<Rightarrow> call_log \<Rightarrow> call_log \<times> wuzapi_error option" where
  "post_attempts env call 0 log = (log, Some PostFailed)"
| "post_attempts env call (Suc left) log =
     (let (log', ok) = wuzapi_post env call log in
      if ok then (log', None)
      else if wz_done env (length log') then (log', Some ContextDone)
      else post_attempts env call left log')"

definition postWithRetry :: "wuzapi_env \<Rightarrow> wuzapi_call \<Rightarrow> call_log \<Rightarrow> call_log \<times> wuzapi_error option" where
  "postWithRetry env call log = post_attempts env call 3 log"

definition sendText :: "wuzapi_env \<Rightarrow> string \<Rightarrow> string \<Rightarrow> WhatsAppMeta \<Rightarrow> call_log \<Rightarrow> call_log \<times> wuzapi_error option" where
  "sendText env phone body meta log =
     postWithRetry env
       (SendText phone body
          (if do_QuoteOriginal (wz_options env) \<and> wm_MessageID meta \<noteq> [] then Some (wm_MessageID meta, wm_SenderJID meta) else None)
          (Contains body ''http://'' \<or> Contains body ''https://'')) log"

definition resolveImagePayload :: "wuzapi_env \<Rightarrow> ContentPart \<Rightarrow> wuzapi_error + string" where
  "resolveImagePayload env part =
     (if cp_URL part = [] then Inr []
      else if \<not> HasPrefix (cp_URL part) ''s3://'' \<and> \<not> wz_is_s3 env (cp_URL part) then Inr (cp_URL part)
      else case wz_fetch env (cp_URL part) of
             None \<Rightarrow> Inl FetchFailed
           | Some bytes \<Rightarrow> if bytes = [] then Inl EmptyImage else Inr (wz_base64 env bytes))"

definition sendImage :: "wuzapi_env \<Rightarrow> string \<Rightarrow> ContentPart \<Rightarrow> call_log \<Rightarrow> call_log \<times> wuzapi_error option" where
  "sendImage env phone part log =
     (case resolveImagePayload env part of
        Inl e \<Rightarrow> (log, Some e)
      | Inr payload \<Rightarrow> postWithRetry env (SendImage phone payload (cp_Caption part)) log)"

definition sendDocument :: "wuzapi_env \<Rightarrow> string \<Rightarrow> ContentPart \<Rightarrow> call_log \<Rightarrow> call_log \<times> wuzapi_error option" where
  "sendDocument env phone part log = postWithRetry env (SendDocument phone (cp_URL part) (cp_Caption part)) log"

fun send_chunks :: "wuzapi_env \<Rightarrow> string \<Rightarrow> WhatsAppMeta \<Rightarrow> string list \<Rightarrow> call_log \<Rightarrow> call_log \<times> wuzapi_error option" where
  "send_chunks env phone meta [] log = (log, None)"
| "send_chunks env phone meta (chunk # chunks) log =
     (case sendText env phone chunk meta log of
        (log', Some e) \<Rightarrow> (log', Some e)
      | (log', None) \<Rightarrow> send_chunks env phone meta chunks log')"

definition send_part :: "wuzapi_env \<Rightarrow> string \<Rightarrow> ContentPart \<Rightarrow> call_log \<Rightarrow> call_log \<times> wuzapi_error option" where
  "send_part env phone part log =
     (let part' = part\<lparr>cp_Caption := (if cp_Caption part \<noteq> [] then wz_format env (cp_Caption part) else [])\<rparr> in
      if cp_Type part = ''image'' then sendImage env phone part' log
      else if cp_Type part = ''document'' then
        (if isImageMIME (cp_MimeType part) then sendImage env phone part' log else sendDocument env phone part' log)
      else (log, None))"

fun send_parts :: "wuzapi_env \<Rightarrow> string \<Rightarrow> ContentPart list \<Rightarrow> wuzapi_error option \<Rightarrow> call_log \<Rightarrow> call_log \<times> wuzapi_error option" where
  "send_parts env phone [] err log = (log, err)"
| "send_parts env phone (p # ps) err log =
     (let (log', e) = send_part env phone p log in send_parts env phone ps (if err = None then e else err) log')"

definition setPresence :: "wuzapi_env \<Rightarrow> string \<Rightarrow> string \<Rightarrow> call_log \<Rightarrow> call_log" where
  "setPresence env phone state log = fst (wuzapi_post env (SetPresence phone state) log)"

definition markRead :: "wuzapi_env \<Rightarrow> string \<Rightarrow> string \<Rightarrow> call_log \<Rightarrow> call_log" where
  "markRead env messageID targetJID log = fst (wuzapi_post env (MarkRead messageID (phoneFromJID targetJID)) log)"

definition extractWAMeta :: "NipperResponse \<Rightarrow> WhatsAppMeta option" where
  "extractWAMeta resp = (case nr_Meta resp of Some (MetaWhatsApp m) \<Rightarrow> Some m | _ \<Rightarrow> None)"

definition whatsapp_DeliverResponse ::
  "wuzapi_env \<Rightarrow> NipperResponse option \<Rightarrow> call_log \<Rightarrow> call_log \<times> wuzapi_error option" where
  "whatsapp_DeliverResponse env oresp log =
     (case oresp of
        None \<Rightarrow> (log, None)
      | Some resp \<Rightarrow>
          (case extractWAMeta resp of
             None \<Rightarrow> (log, Some MissingMeta)
           | Some meta \<Rightarrow>
               let targetJID = resolveTargetJID meta; phone = phoneFromJID targetJID; opts = wz_options env in
               if phone = [] then (log, Some (NoPhone targetJID))
               else let log1 = (if do_ShowTyping opts then setPresence env phone ''composing'' log else log);
                        (log2, e2) = (if nr_Text resp = [] then (log1, None)
                          else (case splitTextChunks (nr_Text resp) 4000 of
                                  None \<Rightarrow> (log1, None)
                                | Some chunks \<Rightarrow> send_chunks env phone meta chunks log1));
                        (log3, e3) = send_parts env phone (nr_Parts resp) e2 log2;
                        log4 = (if do_MarkAsRead opts \<and> wm_MessageID meta \<noteq> [] then markRead env (wm_MessageID meta) targetJID log3 else log3);
                        log5 = (if do_ShowTyping opts then setPresence env phone ''paused'' log4 else log4)
                    in (log5, e3)))"

definition SendInboundFeedback :: "wuzapi_env \<Rightarrow> string \<Rightarrow> WhatsAppMeta \<Rightarrow> call_log \<Rightarrow> call_log \<times> wuzapi_error option" where
  "SendInboundFeedback env emoji meta log =
     (let targetJID = resolveTargetJID meta; phone = phoneFromJID targetJID; opts = wz_options env in
      if phone = [] then (log, Some (NoPhone targetJID))
      else let log1 = (if do_MarkAsRead opts \<and> wm_MessageID meta \<noteq> [] then markRead env (wm_MessageID meta) targetJID log else log);
               log2 = (if wm_MessageID meta \<noteq> [] then fst (wuzapi_post env (SendReaction phone (wm_MessageID meta) emoji) log1) else log1);
               log3 = (if do_ShowTyping opts then setPresence env phone ''composing'' log2 else log2)
           in (log3, None))"

definition NotifyInbound :: "wuzapi_env \<Rightarrow> string \<Rightarrow> NipperMessage option \<Rightarrow> call_log \<Rightarrow> call_log" where
  "NotifyInbound env emoji omsg log =
     (case omsg of
        Some msg \<Rightarrow> (case nm_Meta msg of
                      Some (MetaWhatsApp meta) \<Rightarrow> fst (SendInboundFeedback env emoji meta log)
                    | _ \<Rightarrow> log)
      | None \<Rightarrow> log)"

definition whatsapp_SendTypingIndicator :: "wuzapi_env \<Rightarrow> ChannelMeta option \<Rightarrow> call_log \<Rightarrow> call_log" where
  "whatsapp_SendTypingIndicator env meta log =
     (if \<not> do_ShowTyping (wz_options env) then log
      else case meta of
        Some (MetaWhatsApp m) \<Rightarrow>
          (let phone = phoneFromJID (resolveTargetJID m) in if phone = [] then log else setPresence env phone ''composing'' log)
      | _ \<Rightarrow> log)"

section \<open>Identifiers\<close>

lemma Index_single: "Index s [c] = (if c \<in> set s then Some (length (takeWhile (\<lambda>x. x \<noteq> c) s)) else None)"
  by (induction s) (auto simp: Index.simps split: option.split)

definition strip_device :: "string \<Rightarrow> string" where
  "strip_device user = (case Index user '':'' of None \<Rightarrow> user | Some colon \<Rightarrow> if 0 < colon then take colon user else user)"

lemma normalizeJID_parts:
  assumes "CHR ''@'' \<notin> set user" "user \<noteq> []"
  shows "normalizeJID (user @ CHR ''@'' # domain) = strip_device user @ CHR ''@'' # domain"
proof -
  have "takeWhile (\<lambda>x. x \<noteq> CHR ''@'') (user @ CHR ''@'' # domain) = user"
    using assms(1) by (induction user) auto
  then show ?thesis using assms(2) by (simp add: normalizeJID_def Index_single strip_device_def)
qed

lemma strip_device_idem: "strip_device (strip_device user) = strip_device user"
  by (auto simp: strip_device_def Index_single takeWhile_eq_take [symmetric] dest: set_takeWhileD)

lemma strip_device_at: "CHR ''@'' \<notin> set user \<Longrightarrow> CHR ''@'' \<notin> set (strip_device user)"
  by (auto simp: strip_device_def dest: in_set_takeD split: option.split)

lemma strip_device_nonempty: "user \<noteq> [] \<Longrightarrow> strip_device user \<noteq> []"
  by (auto simp: strip_device_def split: option.split)

text \<open>Normalising a JID twice is normalising it once.\<close>

lemma normalizeJID_idem: "normalizeJID (normalizeJID jid) = normalizeJID jid"
proof (cases "CHR ''@'' \<in> set jid \<and> hd jid \<noteq> CHR ''@''")
  case True
  then obtain user domain where jid: "jid = user @ CHR ''@'' # domain" "CHR ''@'' \<notin> set user"
    using split_list_first by metis
  with True have "user \<noteq> []" by auto
  with jid show ?thesis
    by (simp add: normalizeJID_parts strip_device_at strip_device_nonempty strip_device_idem)
next
  case False
  then have "normalizeJID jid = jid" by (cases jid) (auto simp: normalizeJID_def Index_single)
  then show ?thesis by simp
qed

section \<open>Splitting long answers\<close>

lemma LastIndex1_lt: "LastIndex1 s c = Some i \<Longrightarrow> i < length s"
  by (auto simp: LastIndex1_def split: if_splits) (metis diff_Suc_less length_pos_if_in_set)

lemma chunk_cut_bounds: "0 < maxLen \<Longrightarrow> maxLen < length body \<Longrightarrow> 0 < chunk_cut maxLen body \<and> chunk_cut maxLen body \<le> maxLen"
  using LastIndex1_lt [of "take maxLen body"] by (auto simp: chunk_cut_def less_imp_le split: option.split)

definition breaks_text :: "bool \<Rightarrow> string" where
  "breaks_text b = (if b then [CHR 0x0A] else [])"

text \<open>The chunks of a text with, after each, the newline that was dropped there or nothing.\<close>

definition rejoin :: "string list \<Rightarrow> bool list \<Rightarrow> string" where
  "rejoin chunks dropped = concat (map2 (\<lambda>c b. c @ breaks_text b) chunks dropped)"

lemma drop_newline_split: "s = breaks_text (s \<noteq> [] \<and> hd s = CHR 0x0A) @ drop_newline s"
  by (cases s) (auto simp: breaks_text_def drop_newline_def)

lemma split_loop_total:
  assumes "0 < maxLen"
  shows "\<exists>chunks dropped. split_loop maxLen body = Some chunks \<and> length dropped = length chunks
    \<and> rejoin chunks dropped = body \<and> (\<forall>c \<in> set chunks. c \<noteq> [] \<and> length c \<le> maxLen)"
proof (induction body rule: length_induct)
  case (1 body)
  show ?case
  proof (cases "length body \<le> maxLen")
    case True
    then show ?thesis
    proof (cases "body = []")
      case False
      with True have "split_loop maxLen body = Some [body]" by (simp add: split_loop.simps)
      with True False show ?thesis
        by (intro exI [of _ "[body]"] exI [of _ "[False]"]) (simp add: rejoin_def breaks_text_def)
    qed (auto simp: split_loop.simps rejoin_def)
  next
    case False
    let ?cut = "chunk_cut maxLen body" and ?rest = "drop (chunk_cut maxLen body) body"
    have cut: "0 < ?cut" "?cut \<le> maxLen" using chunk_cut_bounds [OF assms, of body] False by auto
    have ne: "body \<noteq> []" using False by auto
    have "length (drop_newline ?rest) \<le> length ?rest" by (cases ?rest) (auto simp: drop_newline_def)
    then have "length (drop_newline ?rest) < length body" using cut False by simp
    with 1 obtain chunks dropped where ih: "split_loop maxLen (drop_newline ?rest) = Some chunks"
      "length dropped = length chunks" "rejoin chunks dropped = drop_newline ?rest"
      "\<forall>c \<in> set chunks. c \<noteq> [] \<and> length c \<le> maxLen" by blast
    have "split_loop maxLen body = Some (take ?cut body # chunks)"
      using False ne ih(1) by (subst split_loop.simps) simp
    moreover have "rejoin (take ?cut body # chunks) ((?rest \<noteq> [] \<and> hd ?rest = CHR 0x0A) # dropped) = body"
    proof -
      have "take ?cut body @ breaks_text (?rest \<noteq> [] \<and> hd ?rest = CHR 0x0A) @ drop_newline ?rest = body"
        using drop_newline_split [of ?rest] by (metis append_take_drop_id)
      then show ?thesis using ih(3) by (simp add: rejoin_def)
    qed
    moreover have "take ?cut body \<noteq> [] \<and> length (take ?cut body) \<le> maxLen" using cut ne by simp
    ultimately show ?thesis using ih(2,4)
      by (intro exI [of _ "take ?cut body # chunks"] exI [of _ "(?rest \<noteq> [] \<and> hd ?rest = CHR 0x0A) # dropped"]) auto
  qed
qed

section \<open>An answer arrives whole\<close>

text \<open>The text bodies posted to a phone.\<close>

fun body_to :: "string \<Rightarrow> wuzapi_call \<Rightarrow> string list" where
  "body_to phone (SendText p body q l) = (if p = phone then [body] else [])"
| "body_to phone _ = []"

definition bodies_to :: "string \<Rightarrow> call_log \<Rightarrow> string list" where
  "bodies_to phone log = concat (map (body_to phone) log)"

lemma bodies_to_simps [simp]:
  "bodies_to phone [] = []" "bodies_to phone (xs @ ys) = bodies_to phone xs @ bodies_to phone ys"
  "bodies_to phone [c] = body_to phone c"
  by (simp_all add: bodies_to_def)

lemma send_chunks_bodies:
  assumes "\<And>n. wz_ok env n"
  shows "\<exists>log'. send_chunks env phone meta chunks log = (log', None)
    \<and> bodies_to (json_decoded phone) log' = bodies_to (json_decoded phone) log @ map json_decoded chunks"
proof (induction chunks arbitrary: log)
  case (Cons chunk chunks)
  let ?p = "json_decoded phone" and ?c = "json_decoded chunk"
  obtain q l where s: "sendText env phone chunk meta log = (log @ [SendText ?p ?c q l], None)"
    using assms by (simp add: sendText_def postWithRetry_def wuzapi_post_def eval_nat_numeral)
  obtain log' where "send_chunks env phone meta chunks (log @ [SendText ?p ?c q l]) = (log', None)"
    "bodies_to ?p log' = bodies_to ?p (log @ [SendText ?p ?c q l]) @ map json_decoded chunks"
    using Cons.IH by blast
  with s show ?case by simp
qed simp

lemma splitTextChunks_total:
  assumes "0 < maxLen"
  shows "\<exists>chunks dropped. splitTextChunks body maxLen = Some chunks \<and> length dropped = length chunks
    \<and> rejoin chunks dropped = body \<and> (\<forall>c \<in> set chunks. length c \<le> maxLen \<and> (body \<noteq> [] \<longrightarrow> c \<noteq> []))"
proof (cases "length body \<le> maxLen")
  case True
  then show ?thesis
    by (intro exI [of _ "[body]"] exI [of _ "[False]"]) (simp add: splitTextChunks_def rejoin_def breaks_text_def)
next
  case False
  then show ?thesis using split_loop_total [OF assms, of body] unfolding splitTextChunks_def by (metis (full_types))
qed

lemma quiet_calls [simp]:
  "bodies_to phone (setPresence env p st log) = bodies_to phone log"
  "bodies_to phone (markRead env i j log) = bodies_to phone log"
  by (simp_all add: setPresence_def markRead_def wuzapi_post_def)

text \<open>A text whose lines are short is only cut at newlines, so a valid text gives valid pieces.\<close>

definition short_lines :: "nat \<Rightarrow> string \<Rightarrow> bool" where
  "short_lines maxLen s \<longleftrightarrow> list_all (\<lambda>l. Suc (length l) < maxLen) (Split s (CHR 0x0A))"

lemma short_lines_newline:
  "CHR 0x0A \<notin> set u \<Longrightarrow> short_lines maxLen (u @ CHR 0x0A # v) \<longleftrightarrow> Suc (length u) < maxLen \<and> short_lines maxLen v"
  by (simp add: short_lines_def Split_append_sep)

lemma short_lines_suffix: "short_lines maxLen (u @ CHR 0x0A # v) \<Longrightarrow> short_lines maxLen v"
proof (induction u rule: length_induct)
  case (1 u)
  show ?case
  proof (cases "CHR 0x0A \<in> set u")
    case True
    then obtain a b where u: "u = a @ CHR 0x0A # b" "CHR 0x0A \<notin> set a" by (meson split_list_first)
    with "1.prems" have "short_lines maxLen (b @ CHR 0x0A # v)" by (simp add: short_lines_newline)
    moreover have "length b < length u" using u by simp
    ultimately show ?thesis using "1.IH" by blast
  next
    case False
    with "1.prems" show ?thesis by (simp add: short_lines_newline)
  qed
qed

lemma newline_within:
  assumes "short_lines maxLen s" "maxLen < length s"
  shows "\<exists>i. 0 < i \<and> i < maxLen \<and> s ! i = CHR 0x0A"
proof -
  have first: "\<exists>u v. t = u @ CHR 0x0A # v \<and> CHR 0x0A \<notin> set u \<and> Suc (length u) < maxLen"
    if "short_lines maxLen t" "maxLen \<le> Suc (length t)" for t
  proof -
    have "CHR 0x0A \<in> set t"
    proof (rule ccontr)
      assume "CHR 0x0A \<notin> set t"
      with that show False by (simp add: short_lines_def Split_free)
    qed
    then obtain u v where t: "t = u @ CHR 0x0A # v" "CHR 0x0A \<notin> set u" by (meson split_list_first)
    with that(1) show ?thesis by (auto simp: short_lines_newline)
  qed
  obtain u v where u: "s = u @ CHR 0x0A # v" "Suc (length u) < maxLen" using first [OF assms(1)] assms(2) by auto
  show ?thesis
  proof (cases "u = []")
    case False
    then show ?thesis using u by (intro exI [of _ "length u"]) auto
  next
    case True
    have "short_lines maxLen v" "maxLen \<le> Suc (length v)"
      using short_lines_suffix [of maxLen u v] u True assms by auto
    from first [OF this] obtain a b where "v = a @ CHR 0x0A # b" "Suc (length a) < maxLen" by blast
    then show ?thesis using u True by (intro exI [of _ "Suc (length a)"]) auto
  qed
qed

lemma LastIndex1_last:
  assumes "i < length s" "s ! i = c"
  shows "\<exists>j. LastIndex1 s c = Some j \<and> i \<le> j \<and> j < length s \<and> s ! j = c"
proof -
  have "c \<in> set s" using assms by auto
  then obtain a b where s: "s = a @ c # b" "c \<notin> set b" by (meson split_list_last)
  then have "takeWhile (\<lambda>x. x \<noteq> c) (rev s) = rev b" by (auto simp: takeWhile_append)
  then have "LastIndex1 s c = Some (length a)" using s by (simp add: LastIndex1_def)
  moreover have "i \<le> length a"
  proof (rule ccontr)
    assume "\<not> i \<le> length a"
    then have "s ! i \<in> set b" using assms(1) s(1) by (auto simp: nth_append nth_Cons split: nat.splits)
    with assms(2) s(2) show False by simp
  qed
  ultimately show ?thesis using s by (intro exI [of _ "length a"]) auto
qed

lemma chunk_at_newline:
  assumes "short_lines maxLen body" "maxLen < length body"
  shows "\<exists>u v. body = u @ CHR 0x0A # v \<and> chunk_cut maxLen body = length u"
proof -
  obtain i where i: "0 < i" "i < maxLen" "body ! i = CHR 0x0A" using newline_within [OF assms] by blast
  with assms(2) obtain j where j: "LastIndex1 (take maxLen body) (CHR 0x0A) = Some j" "i \<le> j" "j < length (take maxLen body)"
      "take maxLen body ! j = CHR 0x0A"
    using LastIndex1_last [of i "take maxLen body" "CHR 0x0A"] by auto
  then have c: "chunk_cut maxLen body = j" "body ! j = CHR 0x0A" "j < length body" using i by (auto simp: chunk_cut_def)
  have "body = take j body @ CHR 0x0A # drop (Suc j) body" using id_take_nth_drop [OF c(3)] c(2) by simp
  moreover have "chunk_cut maxLen body = length (take j body)" using c by simp
  ultimately show ?thesis by blast
qed

lemma split_loop_valid:
  assumes "0 < maxLen"
  shows "short_lines maxLen body \<Longrightarrow> valid_text body \<Longrightarrow> split_loop maxLen body = Some chunks \<Longrightarrow> list_all valid_text chunks"
proof (induction body arbitrary: chunks rule: length_induct)
  case (1 body)
  show ?case
  proof (cases "length body \<le> maxLen")
    case True
    with 1 show ?thesis by (auto simp: split_loop.simps [of maxLen body] split: if_splits)
  next
    case False
    then obtain u v where u: "body = u @ CHR 0x0A # v" "chunk_cut maxLen body = length u"
      using chunk_at_newline [OF "1.prems"(1)] by auto
    have v: "valid_text u" "valid_text v" using "1.prems"(2) u(1) valid_text_control [of "CHR 0x0A" u v] by simp_all
    have rest: "drop_newline (drop (chunk_cut maxLen body) body) = v" using u by (simp add: drop_newline_def)
    obtain cs where cs: "split_loop maxLen v = Some cs" "chunks = u # cs"
      using "1.prems"(3) False u rest
      by (subst (asm) split_loop.simps) (auto simp: bind_eq_Some_conv split: if_splits)
    have "list_all valid_text cs"
      using "1.IH" [rule_format, of v] cs(1) v(2) u(1) short_lines_suffix [of maxLen u v] "1.prems"(1) by simp
    with cs(2) v(1) show ?thesis by simp
  qed
qed

lemma splitTextChunks_valid:
  assumes "short_lines maxLen body" "valid_text body" "splitTextChunks body maxLen = Some chunks"
  shows "list_all valid_text chunks"
proof -
  have "0 < maxLen" using assms(1) by (cases "Split body (CHR 0x0A)") (auto simp: short_lines_def)
  with assms show ?thesis by (auto simp: splitTextChunks_def split_loop_valid split: if_splits)
qed

text \<open>
  C34: a long answer arrives whole. When every post succeeds, delivering a text response makes
  the phone of the answered chat receive, in order, pieces that are not empty and at most 4000
  bytes long before encoding, and that make up the text again when the newline dropped between
  two of them, if any, is put back; splitting always ends. What arrives is each piece as JSON
  carries it, so unchanged when it is valid UTF-8, which every piece is when the text is and has
  no line of 3999 bytes or more; a longer line can be cut inside a character.
\<close>

theorem whatsapp_answer_whole:
  assumes "\<And>n. wz_ok env n" and "nr_Meta resp = Some (MetaWhatsApp meta)"
    and "phone = phoneFromJID (resolveTargetJID meta)" "phone \<noteq> []" and "nr_Text resp \<noteq> []" "nr_Parts resp = []"
  shows "\<exists>log' bodies dropped. whatsapp_DeliverResponse env (Some resp) log = (log', None)
    \<and> bodies_to (json_decoded phone) log' = bodies_to (json_decoded phone) log @ map json_decoded bodies
    \<and> length dropped = length bodies \<and> rejoin bodies dropped = nr_Text resp
    \<and> (\<forall>b \<in> set bodies. b \<noteq> [] \<and> length b \<le> 4000)
    \<and> (valid_text (nr_Text resp) \<and> short_lines 4000 (nr_Text resp) \<longrightarrow> map json_decoded bodies = bodies)"
proof -
  obtain bodies dropped where b: "splitTextChunks (nr_Text resp) 4000 = Some bodies" "length dropped = length bodies"
    "rejoin bodies dropped = nr_Text resp" "\<forall>b \<in> set bodies. b \<noteq> [] \<and> length b \<le> 4000"
    using splitTextChunks_total [of 4000 "nr_Text resp"] assms(5) by auto
  have v: "map json_decoded bodies = bodies" if "valid_text (nr_Text resp)" "short_lines 4000 (nr_Text resp)"
    using splitTextChunks_valid [OF that(2,1) b(1)] by (simp add: list_all_iff json_decoded_valid map_idI)
  let ?log1 = "if do_ShowTyping (wz_options env) then setPresence env phone ''composing'' log else log"
  obtain log2 where "send_chunks env phone meta bodies ?log1 = (log2, None)"
    "bodies_to (json_decoded phone) log2 = bodies_to (json_decoded phone) ?log1 @ map json_decoded bodies"
    using send_chunks_bodies [OF assms(1)] by blast
  then obtain log' where "whatsapp_DeliverResponse env (Some resp) log = (log', None)"
    "bodies_to (json_decoded phone) log' = bodies_to (json_decoded phone) log @ map json_decoded bodies"
    using assms(2-6) b(1) by (auto simp: whatsapp_DeliverResponse_def extractWAMeta_def Let_def)
  with b v show ?thesis by (intro exI [of _ log'] exI [of _ bodies] exI [of _ dropped]) simp
qed

definition plain_wuzapi :: wuzapi_env where
  "plain_wuzapi = \<lparr>wz_ok = (\<lambda>_. True), wz_done = (\<lambda>_. False), wz_is_s3 = (\<lambda>_. False), wz_fetch = (\<lambda>_. None), wz_base64 = id,
     wz_format = id, wz_options = \<lparr>do_MarkAsRead = True, do_ShowTyping = True, do_QuoteOriginal = False\<rparr>\<rparr>"

definition direct_meta :: WhatsAppMeta where
  "direct_meta = \<lparr>wm_WuzapiUserID = [], wm_WuzapiInstanceName = [], wm_WuzapiBaseURL = [], wm_ChatJID = ''12:3@s.whatsapp.net'',
     wm_SenderJID = [], wm_MessageID = ''m'', wm_PushName = [], wm_IsGroup = False, wm_IsFromMe = False, wm_QuotedMessageID = [],
     wm_QuotedParticipant = [], wm_HasMedia = False, wm_MediaType = [], wm_S3URL = [], wm_MediaKey = []\<rparr>"

definition long_response :: NipperResponse where
  "long_response = \<lparr>nr_ResponseID = [], nr_SessionKey = [], nr_UserID = [], nr_ChannelType = ''whatsapp'', nr_ChannelIdentity = [],
     nr_Text = concat (replicate 2500 (''a'' @ [CHR 0x0A])), nr_Parts = [], nr_DeliveryContext = zeroDeliveryContext,
     nr_Meta = Some (MetaWhatsApp direct_meta), nr_OriginMessageID = [], nr_Timestamp = 0, nr_ContextUsage = None\<rparr>"

text \<open>A cut inside a character damages it: the two bytes of one letter arrive as two replacements.\<close>

lemma hard_cut_damages:
  "splitTextChunks (''a'' @ [CHR 0xC3, CHR 0xA9]) 2 = Some [''a'' @ [CHR 0xC3], [CHR 0xA9]]
   \<and> valid_text (''a'' @ [CHR 0xC3, CHR 0xA9])
   \<and> map json_decoded [''a'' @ [CHR 0xC3], [CHR 0xA9]] = [''a'' @ replacement, replacement]"
  by (simp add: splitTextChunks_def split_loop.simps chunk_cut_def LastIndex1_def drop_newline_def json_decoded_def
      valid_text_def runes.simps invalid_byte_def RuneError_def in_range_def tail_bits_def Let_def)

theorem whatsapp_answer_whole_witness:
  "\<exists>log' bodies dropped. whatsapp_DeliverResponse plain_wuzapi (Some long_response) [] = (log', None)
     \<and> bodies_to ''12'' log' = bodies \<and> rejoin bodies dropped = concat (replicate 2500 (''a'' @ [CHR 0x0A]))"
proof -
  have "''12'' = phoneFromJID (resolveTargetJID direct_meta)"
    by (simp add: direct_meta_def resolveTargetJID_def normalizeJID_def phoneFromJID_def Index_single HasSuffix_def HasPrefix_def)
  moreover have "\<And>n. wz_ok plain_wuzapi n" "nr_Meta long_response = Some (MetaWhatsApp direct_meta)"
    "nr_Parts long_response = []" and body: "nr_Text long_response = concat (replicate 2500 (''a'' @ [CHR 0x0A]))"
    by (simp_all add: plain_wuzapi_def long_response_def)
  moreover have "nr_Text long_response \<noteq> []" unfolding body by simp
  moreover have "json_decoded ''12'' = ''12''" by (rule json_decoded_valid [OF valid_ascii]) simp
  moreover have "valid_text (nr_Text long_response)" unfolding body by (rule valid_ascii) auto
  moreover have "short_lines 4000 (concat (replicate n (''a'' @ [CHR 0x0A])))" for n
    by (induction n) (simp_all add: short_lines_def)
  ultimately show ?thesis
    using whatsapp_answer_whole [of plain_wuzapi long_response direct_meta "''12''" "[]"] unfolding body by fastforce
qed

end
