(* ===== verification/Slack.thy ===== *)
theory Slack
  imports Models GoStrings
begin

text \<open>
  The Slack channel (\<^verbatim>\<open>internal/channels/slack\<close>): the normaliser of Events API payloads, the client
  that posts and updates messages through the Web API, and the adapter around them.

  JSON decoding is an argument. The client's state is the map of streaming messages and the log of API calls;
  what the API answers to the call with a given number, and whether the context is done after it, are
  arguments.
\<close>

section \<open>Normalising\<close>

record SlackFile =
  sf_ID :: string
  sf_Name :: string
  sf_MimeType :: string
  sf_URLPrivate :: string
  sf_Size :: int

record SlackEvent =
  se_Type :: string
  se_Subtype :: string
  se_User :: string
  se_BotID :: string
  se_Text :: string
  se_Channel :: string
  se_TS :: string
  se_ThreadTS :: string
  se_ChannelType :: string
  se_Files :: "SlackFile list"

record SlackEnvelope =
  sv_Token :: string
  sv_TeamID :: string
  sv_APIAppID :: string
  sv_Type :: string
  sv_Challenge :: string
  sv_Event :: json_text
  sv_EventID :: string
  sv_EventTime :: int

definition isFilteredSubtype :: "string \<Rightarrow> bool" where
  "isFilteredSubtype subtype \<longleftrightarrow>
     subtype \<in> {''message_changed'', ''message_deleted'', ''message_replied'',
       ''channel_join'', ''channel_leave'', ''channel_topic'', ''channel_purpose'',
       ''channel_name'', ''channel_archive'', ''channel_unarchive'',
       ''group_join'', ''group_leave'', ''group_topic'', ''group_purpose'',
       ''group_name'', ''group_archive'', ''group_unarchive'',
       ''file_share'', ''file_comment'', ''file_mention'',
       ''pinned_item'', ''unpinned_item'',
       ''bot_message'', ''bot_add'', ''bot_remove'',
       ''ekm_access_denied'', ''me_message'',
       ''thread_broadcast''}"

definition mimeToPartType :: "string \<Rightarrow> string" where
  "mimeToPartType mime =
     (if 5 \<le> length mime \<and> take 5 mime = ''image'' then ''image''
      else if 5 \<le> length mime \<and> take 5 mime = ''audio'' then ''audio''
      else if 5 \<le> length mime \<and> take 5 mime = ''video'' then ''video''
      else ''document'')"

definition slack_buildContent :: "SlackEvent \<Rightarrow> MessageContent" where
  "slack_buildContent event =
     (if length (se_Files event) = 0 then \<lparr>mc_Text = se_Text event, mc_Parts = []\<rparr>
      else let parts = (if se_Text event \<noteq> [] then [zeroContentPart\<lparr>cp_Type := ''text'', cp_Text := se_Text event\<rparr>] else [])
                 @ map (\<lambda>f. zeroContentPart\<lparr>cp_Type := mimeToPartType (sf_MimeType f), cp_MimeType := sf_MimeType f,
                               cp_URL := sf_URLPrivate f, cp_Caption := sf_Name f\<rparr>) (se_Files event);
               body = (if se_Text event = [] \<and> 0 < length (se_Files event)
                       then ''['' @ show_nat (length (se_Files event)) @ '' file(s) attached]'' else se_Text event)
           in \<lparr>mc_Text = body, mc_Parts = parts\<rparr>)"

record slack_norm_env =
  sn_parse :: "json_text \<Rightarrow> SlackEnvelope option"
  sn_parse_event :: "json_text \<Rightarrow> SlackEvent option"
  sn_uuid :: string
  sn_now :: time
  sn_BotToken :: string  \<comment> \<open>from the normaliser's configuration\<close>

datatype slack_norm_error = BadEnvelope | BadEvent

definition slack_message_of :: "slack_norm_env \<Rightarrow> SlackEnvelope \<Rightarrow> SlackEvent \<Rightarrow> NipperMessage" where
  "slack_message_of env envelope event =
     \<lparr>nm_MessageID = sn_uuid env, nm_OriginMessageID = se_TS event, nm_UserID = [], nm_SessionKey = [],
      nm_ChannelType = ChannelTypeSlack, nm_ChannelIdentity = se_User event, nm_Content = slack_buildContent event,
      nm_DeliveryContext = zeroDeliveryContext
        \<lparr>dc_ChannelType := ChannelTypeSlack, dc_ChannelID := se_Channel event,
         dc_ThreadID := (if se_ThreadTS event \<noteq> [] then se_ThreadTS event else []),
         dc_ReplyMode := (if se_ThreadTS event \<noteq> [] then ''thread'' else ''inline''),
         dc_Capabilities := SlackCapabilities\<rparr>,
      nm_Meta = Some (MetaSlack
        \<lparr>sm_TeamID = sv_TeamID envelope, sm_ChannelID = se_Channel event, sm_SlackUserID = se_User event,
         sm_ThreadTS = se_ThreadTS event, sm_MessageTS = se_TS event, sm_AppID = sv_APIAppID envelope, sm_BotID = [],
         sm_BotToken = sn_BotToken env\<rparr>),
      nm_Timestamp = (if 0 < sv_EventTime envelope then sv_EventTime envelope * Second else sn_now env),
      nm_DedupeKey = []\<rparr>"

definition slack_NormalizeInbound :: "slack_norm_env \<Rightarrow> json_text \<Rightarrow> slack_norm_error + NipperMessage option" where
  "slack_NormalizeInbound env raw =
     (case sn_parse env raw of
        None \<Rightarrow> Inl BadEnvelope
      | Some envelope \<Rightarrow>
          if sv_Type envelope = ''url_verification'' then Inr None
          else if sv_Type envelope \<noteq> ''event_callback'' then Inr None
          else if length (sv_Event envelope) = 0 then Inr None
          else case sn_parse_event env (sv_Event envelope) of
            None \<Rightarrow> Inl BadEvent
          | Some event \<Rightarrow>
              if se_Type event \<noteq> ''message'' then Inr None
              else if se_BotID event \<noteq> [] then Inr None
              else if isFilteredSubtype (se_Subtype event) then Inr None
              else if se_User event = [] then Inr None
              else Inr (Some (slack_message_of env envelope event)))"

section \<open>The client\<close>

datatype slack_call =
  PostMessage string string string string  \<comment> \<open>token, channel, thread, text\<close>
| UpdateMessage string string string string  \<comment> \<open>token, channel, message, text\<close>
| AddReactionCall string string string string
| RemoveReactionCall string string string string
| AuthTestCall string

text \<open>The answer to a call: none or a status of 400 or more, a body that does not decode, or a result.\<close>

datatype api_answer = CallFailed | BadBody | Result bool string string  \<comment> \<open>ok, error, message time stamp\<close>

record slack_api =
  sa_answer :: "nat \<Rightarrow> api_answer"
  sa_done :: "nat \<Rightarrow> bool"

record SlackClient =
  sl_botToken :: string
  sl_stream :: "string \<rightharpoonup> string"  \<comment> \<open>session key to message time stamp\<close>
  sl_log :: "slack_call list"

definition NewSlackClient :: "string \<Rightarrow> SlackClient" where
  "NewSlackClient botToken = \<lparr>sl_botToken = botToken, sl_stream = Map.empty, sl_log = []\<rparr>"

datatype slack_error = MissingSlackMeta | NoChannel | ApiFailed | ContextCancelled | ParseFailed | ApiError string

definition apiCall :: "slack_api \<Rightarrow> slack_call \<Rightarrow> SlackClient \<Rightarrow> SlackClient \<times> api_answer" where
  "apiCall api call c = (c\<lparr>sl_log := sl_log c @ [call]\<rparr>, sa_answer api (length (sl_log c)))"

fun call_attempts :: "slack_api \<Rightarrow> slack_call \<Rightarrow> nat \<Rightarrow> SlackClient \<Rightarrow> SlackClient \<times> (slack_error + api_answer)" where
  "call_attempts api call 0 c = (c, Inl ApiFailed)"
| "call_attempts api call (Suc left) c =
     (let (c', answer) = apiCall api call c in
      if answer \<noteq> CallFailed then (c', Inr answer)
      else if sa_done api (length (sl_log c')) then (c', Inl ContextCancelled)
      else call_attempts api call left c')"

definition apiCallWithRetry :: "slack_api \<Rightarrow> slack_call \<Rightarrow> SlackClient \<Rightarrow> SlackClient \<times> (slack_error + api_answer)" where
  "apiCallWithRetry api call c = call_attempts api call 3 c"

definition chatPostMessageReturningTS ::
  "slack_api \<Rightarrow> string \<Rightarrow> string \<Rightarrow> string \<Rightarrow> string \<Rightarrow> SlackClient \<Rightarrow> SlackClient \<times> (slack_error + string)" where
  "chatPostMessageReturningTS api token channel threadTS body c =
     (case apiCallWithRetry api (PostMessage token channel threadTS body) c of
        (c', Inl e) \<Rightarrow> (c', Inl e)
      | (c', Inr (Result ok err ts)) \<Rightarrow> (c', if ok then Inr ts else Inl (ApiError err))
      | (c', Inr _) \<Rightarrow> (c', Inl ParseFailed))"

definition chatPostMessage ::
  "slack_api \<Rightarrow> string \<Rightarrow> string \<Rightarrow> string \<Rightarrow> string \<Rightarrow> SlackClient \<Rightarrow> SlackClient \<times> slack_error option" where
  "chatPostMessage api token channel threadTS body c =
     (case chatPostMessageReturningTS api token channel threadTS body c of
        (c', Inl e) \<Rightarrow> (c', Some e) | (c', Inr _) \<Rightarrow> (c', None))"

definition chatUpdate ::
  "slack_api \<Rightarrow> string \<Rightarrow> string \<Rightarrow> string \<Rightarrow> string \<Rightarrow> SlackClient \<Rightarrow> SlackClient \<times> slack_error option" where
  "chatUpdate api token channel messageTS body c =
     (case apiCallWithRetry api (UpdateMessage token channel messageTS body) c of
        (c', Inl e) \<Rightarrow> (c', Some e)
      | (c', Inr (Result ok err ts)) \<Rightarrow> (c', if ok then None else Some (ApiError err))
      | (c', Inr _) \<Rightarrow> (c', Some ParseFailed))"

definition reaction_result :: "string \<Rightarrow> api_answer \<Rightarrow> slack_error option" where
  "reaction_result tolerated answer =
     (case answer of
        CallFailed \<Rightarrow> Some ApiFailed
      | BadBody \<Rightarrow> Some ParseFailed
      | Result ok err ts \<Rightarrow> if \<not> ok \<and> err \<noteq> tolerated then Some (ApiError err) else None)"

definition AddReaction :: "slack_api \<Rightarrow> string \<Rightarrow> string \<Rightarrow> string \<Rightarrow> string \<Rightarrow> SlackClient \<Rightarrow> SlackClient \<times> slack_error option" where
  "AddReaction api token channel messageTS emoji c =
     (let (c', answer) = apiCall api (AddReactionCall token channel messageTS emoji) c
      in (c', reaction_result ''already_reacted'' answer))"

definition RemoveReaction :: "slack_api \<Rightarrow> string \<Rightarrow> string \<Rightarrow> string \<Rightarrow> string \<Rightarrow> SlackClient \<Rightarrow> SlackClient \<times> slack_error option" where
  "RemoveReaction api token channel messageTS emoji c =
     (let (c', answer) = apiCall api (RemoveReactionCall token channel messageTS emoji) c
      in (c', reaction_result ''no_reaction'' answer))"

definition AuthTest :: "slack_api \<Rightarrow> SlackClient \<Rightarrow> SlackClient \<times> slack_error option" where
  "AuthTest api c =
     (let (c', answer) = apiCall api (AuthTestCall (sl_botToken c)) c in
      (c', case answer of CallFailed \<Rightarrow> Some ApiFailed | BadBody \<Rightarrow> Some ParseFailed
           | Result ok err ts \<Rightarrow> if ok then None else Some (ApiError err)))"

definition resolveToken :: "SlackClient \<Rightarrow> SlackMeta \<Rightarrow> string" where
  "resolveToken c meta = (if sm_BotToken meta \<noteq> [] then sm_BotToken meta else sl_botToken c)"

definition extractSlackMeta :: "NipperResponse \<Rightarrow> SlackMeta option" where
  "extractSlackMeta resp = (case nr_Meta resp of Some (MetaSlack m) \<Rightarrow> Some m | _ \<Rightarrow> None)"

definition zeroSlackMeta :: SlackMeta where
  "zeroSlackMeta = \<lparr>sm_TeamID = [], sm_ChannelID = [], sm_SlackUserID = [], sm_ThreadTS = [], sm_MessageTS = [], sm_AppID = [],
     sm_BotID = [], sm_BotToken = []\<rparr>"

definition extractSlackMetaFromEvent :: "NipperEvent \<Rightarrow> SlackMeta \<times> bool" where
  "extractSlackMetaFromEvent event = (zeroSlackMeta, False)"

definition take_stream :: "string \<Rightarrow> SlackClient \<Rightarrow> SlackClient \<times> string option" where
  "take_stream sessionKey c = (c\<lparr>sl_stream := (sl_stream c)(sessionKey := None)\<rparr>, sl_stream c sessionKey)"

definition slack_DeliverResponse :: "slack_api \<Rightarrow> NipperResponse option \<Rightarrow> SlackClient \<Rightarrow> SlackClient \<times> slack_error option" where
  "slack_DeliverResponse api oresp c =
     (case oresp of
        None \<Rightarrow> (c, None)
      | Some resp \<Rightarrow>
          (case extractSlackMeta resp of
             None \<Rightarrow> (c, Some MissingSlackMeta)
           | Some meta \<Rightarrow>
               let token = resolveToken c meta;
                   channel = (if sm_ChannelID meta = [] then dc_ChannelID (nr_DeliveryContext resp) else sm_ChannelID meta);
                   threadTS = (if sm_ThreadTS meta = [] then dc_ThreadID (nr_DeliveryContext resp) else sm_ThreadTS meta)
               in if channel = [] then (c, Some NoChannel)
                  else (case take_stream (nr_SessionKey resp) c of
                          (c1, Some existingTS) \<Rightarrow>
                            if existingTS \<noteq> [] then chatUpdate api token channel existingTS (nr_Text resp) c1
                            else chatPostMessage api token channel threadTS (nr_Text resp) c1
                        | (c1, None) \<Rightarrow> chatPostMessage api token channel threadTS (nr_Text resp) c1)))"

definition handleDelta ::
  "slack_api \<Rightarrow> string \<Rightarrow> string \<Rightarrow> string \<Rightarrow> string \<Rightarrow> string \<Rightarrow> SlackClient \<Rightarrow> SlackClient \<times> slack_error option" where
  "handleDelta api token channel threadTS sessionKey body c =
     (case sl_stream c sessionKey of
        Some existingTS \<Rightarrow>
          if existingTS \<noteq> [] then chatUpdate api token channel existingTS body c
          else (case chatPostMessageReturningTS api token channel threadTS body c of
                  (c', Inl e) \<Rightarrow> (c', Some e)
                | (c', Inr ts) \<Rightarrow> (c'\<lparr>sl_stream := (sl_stream c')(sessionKey \<mapsto> ts)\<rparr>, None))
      | None \<Rightarrow>
          (case chatPostMessageReturningTS api token channel threadTS body c of
             (c', Inl e) \<Rightarrow> (c', Some e)
           | (c', Inr ts) \<Rightarrow> (c'\<lparr>sl_stream := (sl_stream c')(sessionKey \<mapsto> ts)\<rparr>, None)))"

definition slack_DeliverEvent :: "slack_api \<Rightarrow> NipperEvent option \<Rightarrow> SlackClient \<Rightarrow> SlackClient \<times> slack_error option" where
  "slack_DeliverEvent api oevent c =
     (case oevent of
        None \<Rightarrow> (c, None)
      | Some event \<Rightarrow>
          let (meta, ok) = extractSlackMetaFromEvent event in
          if \<not> ok then (c, None)
          else let token = resolveToken c meta; channel = sm_ChannelID meta; threadTS = sm_ThreadTS meta in
            if channel = [] then (c, None)
            else if ev_Type event = EventTypeDelta then
              (case ev_Delta event of
                 None \<Rightarrow> (c, None)
               | Some d \<Rightarrow> handleDelta api token channel threadTS (ev_SessionKey event) d c)
            else if ev_Type event = EventTypeDone then
              (let (c1, existing) = take_stream (ev_SessionKey event) c in
               case (existing, ev_Delta event) of
                 (Some ts, Some d) \<Rightarrow> if ts \<noteq> [] then chatUpdate api token channel ts d c1 else (c1, None)
               | _ \<Rightarrow> (c1, None))
            else if ev_Type event = EventTypeError then
              (case ev_Error event of
                 None \<Rightarrow> (c, None)
               | Some er \<Rightarrow>
                   let body = '':warning: Error: '' @ er_Message er; (c1, existing) = take_stream (ev_SessionKey event) c
                   in case existing of
                        Some ts \<Rightarrow> if ts \<noteq> [] then chatUpdate api token channel ts body c1
                                   else chatPostMessage api token channel threadTS body c1
                      | None \<Rightarrow> chatPostMessage api token channel threadTS body c1)
            else (c, None))"

section \<open>The adapter\<close>

definition typing_target :: "SlackClient \<Rightarrow> DeliveryContext \<Rightarrow> ChannelMeta option \<Rightarrow> (string \<times> string \<times> string) option" where
  "typing_target c dc meta =
     (case meta of
        Some (MetaSlack m) \<Rightarrow>
          (let channel = (if sm_ChannelID m = [] then dc_ChannelID dc else sm_ChannelID m)
           in if sm_MessageTS m = [] then None else Some (resolveToken c m, channel, sm_MessageTS m))
      | _ \<Rightarrow> None)"

definition slack_SendTypingIndicator ::
  "slack_api \<Rightarrow> DeliveryContext \<Rightarrow> ChannelMeta option \<Rightarrow> SlackClient \<Rightarrow> SlackClient \<times> slack_error option" where
  "slack_SendTypingIndicator api dc meta c =
     (case typing_target c dc meta of
        None \<Rightarrow> (c, None)
      | Some (token, channel, ts) \<Rightarrow> AddReaction api token channel ts ''thinking_face'' c)"

definition slack_RemoveTypingIndicator ::
  "slack_api \<Rightarrow> DeliveryContext \<Rightarrow> ChannelMeta option \<Rightarrow> SlackClient \<Rightarrow> SlackClient \<times> slack_error option" where
  "slack_RemoveTypingIndicator api dc meta c =
     (case typing_target c dc meta of
        None \<Rightarrow> (c, None)
      | Some (token, channel, ts) \<Rightarrow> RemoveReaction api token channel ts ''thinking_face'' c)"

fun add_reactions :: "slack_api \<Rightarrow> string \<Rightarrow> string \<Rightarrow> string \<Rightarrow> string list \<Rightarrow> SlackClient \<Rightarrow> SlackClient" where
  "add_reactions api token channel ts [] c = c"
| "add_reactions api token channel ts (emoji # emojis) c =
     add_reactions api token channel ts emojis (fst (AddReaction api token channel ts emoji c))"

definition slack_NotifyInbound :: "slack_api \<Rightarrow> NipperMessage option \<Rightarrow> SlackClient \<Rightarrow> SlackClient" where
  "slack_NotifyInbound api omsg c =
     (case omsg of
        None \<Rightarrow> c
      | Some msg \<Rightarrow>
          (case nm_Meta msg of
             Some (MetaSlack m) \<Rightarrow>
               if sm_ChannelID m = [] then c
               else if sm_MessageTS m = [] then c
               else add_reactions api (resolveToken c m) (sm_ChannelID m) (sm_MessageTS m) [''fire'', ''ok_hand'', ''star''] c
           | _ \<Rightarrow> c))"

section \<open>Answers and events\<close>

text \<open>
  Streaming does nothing on Slack: the client finds no metadata in an event, so no event, not
  even an error, makes it call the API.
\<close>

theorem slack_events_never_sent: "slack_DeliverEvent api oevent c = (c, None)"
  by (simp add: slack_DeliverEvent_def extractSlackMetaFromEvent_def split: option.split)

lemma call_attempts_log:
  "call_attempts api call n c = (c', r) \<Longrightarrow>
     \<exists>k \<le> n. c' = c\<lparr>sl_log := sl_log c @ replicate k call\<rparr> \<and> (0 < n \<longrightarrow> 0 < k)
       \<and> (\<forall>a. r = Inr a \<longrightarrow> a \<noteq> CallFailed \<and> a = sa_answer api (length (sl_log c) + k - 1))"
proof (induction api call n c arbitrary: c' r rule: call_attempts.induct)
  case (1 api call c)
  then show ?case by auto
next
  case (2 api call left c)
  let ?c1 = "c\<lparr>sl_log := sl_log c @ [call]\<rparr>" and ?a = "sa_answer api (length (sl_log c))"
  show ?case
  proof (cases "?a \<noteq> CallFailed \<or> sa_done api (Suc (length (sl_log c)))")
    case True
    with 2(2) have "c' = ?c1 \<and> (\<forall>a. r = Inr a \<longrightarrow> a \<noteq> CallFailed \<and> a = ?a)"
      by (auto simp: apiCall_def split: if_splits)
    then show ?thesis by (intro exI [of _ 1]) simp
  next
    case False
    with 2(2) have next_try: "call_attempts api call left ?c1 = (c', r)" by (simp add: apiCall_def)
    from 2(1) [of "(?c1, ?a)" ?c1 ?a c' r] next_try False obtain k where "k \<le> left"
      "c' = ?c1\<lparr>sl_log := sl_log ?c1 @ replicate k call\<rparr>" "0 < left \<longrightarrow> 0 < k"
      "\<forall>a. r = Inr a \<longrightarrow> a \<noteq> CallFailed \<and> a = sa_answer api (length (sl_log ?c1) + k - 1)"
      by (auto simp: apiCall_def)
    then show ?thesis by (intro exI [of _ "Suc k"]) (cases left, auto)
  qed
qed

lemma chatPostMessage_log:
  assumes "chatPostMessage api token channel threadTS body c = (c', e)"
  shows "\<exists>k. 0 < k \<and> k \<le> 3 \<and> c' = c\<lparr>sl_log := sl_log c @ replicate k (PostMessage token channel threadTS body)\<rparr>
    \<and> (e = None \<longrightarrow> (\<exists>err ts. sa_answer api (length (sl_log c) + k - 1) = Result True err ts))"
proof -
  obtain c1 r where r: "call_attempts api (PostMessage token channel threadTS body) 3 c = (c1, r)" by force
  from call_attempts_log [OF r] obtain k where k: "k \<le> 3" "0 < k"
    "c1 = c\<lparr>sl_log := sl_log c @ replicate k (PostMessage token channel threadTS body)\<rparr>"
    "\<forall>a. r = Inr a \<longrightarrow> a \<noteq> CallFailed \<and> a = sa_answer api (length (sl_log c) + k - 1)" by auto
  from assms r have "c' = c1 \<and> (e = None \<longrightarrow> (\<exists>err ts. r = Inr (Result True err ts)))"
    by (auto simp: chatPostMessage_def chatPostMessageReturningTS_def apiCallWithRetry_def
        split: sum.splits api_answer.splits if_splits)
  with k show ?thesis by (metis)
qed

text \<open>
  C35: a Slack answer is posted where the question was asked. For a message the normaliser made, which is
  never one of a bot, and a response that carries its metadata and delivery context, the client posts the
  text in the channel of the message and in its thread, if it was in one; it makes between one and three equal calls,
  and reports success only when Slack accepted the last of them.
\<close>

theorem slack_answer_in_thread:
  assumes "slack_NormalizeInbound env raw = Inr (Some m)"
    and "nr_Meta resp = nm_Meta m" "nr_DeliveryContext resp = nm_DeliveryContext m"
    and "sl_stream c (nr_SessionKey resp) = None" "dc_ChannelID (nm_DeliveryContext m) \<noteq> []"
    and "slack_DeliverResponse api (Some resp) c = (c', e)"
  shows "\<exists>envelope event token k. sn_parse env raw = Some envelope \<and> sn_parse_event env (sv_Event envelope) = Some event
    \<and> se_BotID event = [] \<and> 0 < k \<and> k \<le> 3
    \<and> c' = c\<lparr>sl_log := sl_log c @ replicate k (PostMessage token (se_Channel event) (se_ThreadTS event) (nr_Text resp))\<rparr>
    \<and> (e = None \<longrightarrow> (\<exists>err ts. sa_answer api (length (sl_log c) + k - 1) = Result True err ts))"
proof -
  obtain envelope event where n: "sn_parse env raw = Some envelope" "sn_parse_event env (sv_Event envelope) = Some event"
    "se_BotID event = []" "m = slack_message_of env envelope event"
    using assms(1) by (auto simp: slack_NormalizeInbound_def split: option.splits if_splits)
  obtain meta where meta: "nm_Meta m = Some (MetaSlack meta)" "sm_ChannelID meta = se_Channel event" "sm_ThreadTS meta = se_ThreadTS event"
    by (simp add: n(4) slack_message_of_def)
  have ctx: "dc_ChannelID (nm_DeliveryContext m) = se_Channel event" "dc_ThreadID (nm_DeliveryContext m) = se_ThreadTS event"
    by (simp_all add: n(4) slack_message_of_def)
  have "sl_stream c = (sl_stream c)(nr_SessionKey resp := None)" using assms(4) by auto
  then have "c\<lparr>sl_stream := (sl_stream c)(nr_SessionKey resp := None)\<rparr> = c" by (cases c) simp
  then have "chatPostMessage api (resolveToken c meta) (se_Channel event) (se_ThreadTS event) (nr_Text resp) c = (c', e)"
    using assms(2-6) meta ctx by (simp add: slack_DeliverResponse_def extractSlackMeta_def take_stream_def split: if_splits)
  from chatPostMessage_log [OF this] n(1-3) show ?thesis by blast
qed

definition thread_event :: SlackEvent where
  "thread_event = \<lparr>se_Type = ''message'', se_Subtype = [], se_User = ''U1'', se_BotID = [], se_Text = ''hi'', se_Channel = ''C1'',
     se_TS = ''2.0'', se_ThreadTS = ''1.0'', se_ChannelType = [], se_Files = []\<rparr>"

definition thread_env :: slack_norm_env where
  "thread_env = \<lparr>sn_parse = (\<lambda>_. Some \<lparr>sv_Token = [], sv_TeamID = [], sv_APIAppID = [], sv_Type = ''event_callback'', sv_Challenge = [],
       sv_Event = ''e'', sv_EventID = [], sv_EventTime = 0\<rparr>),
     sn_parse_event = (\<lambda>_. Some thread_event), sn_uuid = ''m'', sn_now = 1, sn_BotToken = ''t''\<rparr>"

definition thread_response :: "NipperMessage \<Rightarrow> NipperResponse" where
  "thread_response m = \<lparr>nr_ResponseID = [], nr_SessionKey = ''s'', nr_UserID = [], nr_ChannelType = ''slack'', nr_ChannelIdentity = [],
     nr_Text = ''yes'', nr_Parts = [], nr_DeliveryContext = nm_DeliveryContext m, nr_Meta = nm_Meta m, nr_OriginMessageID = [],
     nr_Timestamp = 0, nr_ContextUsage = None\<rparr>"

theorem slack_answer_in_thread_witness:
  "\<exists>m c' e token k. slack_NormalizeInbound thread_env ''{}'' = Inr (Some m)
     \<and> slack_DeliverResponse \<lparr>sa_answer = (\<lambda>n. if n = 0 then CallFailed else Result True [] ''3.0''), sa_done = (\<lambda>_. False)\<rparr>
         (Some (thread_response m)) (NewSlackClient ''t'') = (c', e)
     \<and> sl_log c' = replicate k (PostMessage token ''C1'' ''1.0'' ''yes'')"
proof -
  let ?api = "\<lparr>sa_answer = (\<lambda>n. if n = 0 then CallFailed else Result True [] ''3.0''), sa_done = (\<lambda>_. False)\<rparr> :: slack_api"
  obtain m where m: "slack_NormalizeInbound thread_env ''{}'' = Inr (Some m)" "dc_ChannelID (nm_DeliveryContext m) = ''C1''"
    by (simp add: slack_NormalizeInbound_def thread_env_def thread_event_def isFilteredSubtype_def slack_message_of_def)
  obtain c' e where d: "slack_DeliverResponse ?api (Some (thread_response m)) (NewSlackClient ''t'') = (c', e)" by force
  have "\<exists>token k. sl_log c' = replicate k (PostMessage token ''C1'' ''1.0'' ''yes'')"
    using slack_answer_in_thread [OF m(1) _ _ _ _ d] m(2)
    by (auto simp: thread_response_def NewSlackClient_def thread_env_def thread_event_def)
  with m(1) d show ?thesis by blast
qed

end
