(* ===== verification/ChannelAdapters.thy ===== *)
theory ChannelAdapters
  imports QueueChannels
begin

text \<open>
  The adapters of the two broker channels: \<^verbatim>\<open>internal/channels/mqtt/adapter.go\<close> and
  \<^verbatim>\<open>internal/channels/rabbitmq/adapter.go\<close>. The client libraries are the answers the
  operations receive; what the adapter asked of them is a log. The goroutines of the RabbitMQ adapter are entries
  of a state that a step relation moves. Delays are unbounded integers: they stay below the configured
  maximum, far from the width of \<^verbatim>\<open>time.Duration\<close>.
\<close>

record ReconnectConfig =
  rc_Enabled :: bool
  rc_InitialDelayMS :: int
  rc_MaxDelayMS :: int

section \<open>MQTT\<close>

record MQTTConfig =
  mc_Broker :: string
  mc_ClientID :: string
  mc_Username :: string
  mc_Password :: string
  mc_TopicPrefix :: string
  mc_QoS :: int
  mc_CleanSession :: bool
  mc_KeepAlive :: int
  mc_Reconnect :: ReconnectConfig

text \<open>The options handed to the client library; the times in milliseconds.\<close>

record MqttOptions =
  mo_Broker :: string
  mo_ClientID :: string
  mo_CleanSession :: bool
  mo_AutoReconnect :: bool
  mo_Username :: "string option"
  mo_Password :: "string option"
  mo_KeepAlive :: int
  mo_ConnectRetryInterval :: "int option"
  mo_MaxReconnectInterval :: "int option"

definition mqtt_options :: "MQTTConfig \<Rightarrow> MqttOptions" where
  "mqtt_options cfg =
     (let rc = mc_Reconnect cfg;
          initialDelay = (if rc_InitialDelayMS rc \<le> 0 then 1000 else rc_InitialDelayMS rc);
          maxDelay = (if rc_MaxDelayMS rc \<le> 0 then 30000 else rc_MaxDelayMS rc)
      in \<lparr>mo_Broker = mc_Broker cfg, mo_ClientID = mc_ClientID cfg, mo_CleanSession = mc_CleanSession cfg,
          mo_AutoReconnect = rc_Enabled rc,
          mo_Username = (if mc_Username cfg \<noteq> [] then Some (mc_Username cfg) else None),
          mo_Password = (if mc_Password cfg \<noteq> [] then Some (mc_Password cfg) else None),
          mo_KeepAlive = 1000 * (if mc_KeepAlive cfg \<le> 0 then 60 else mc_KeepAlive cfg),
          mo_ConnectRetryInterval = (if rc_Enabled rc then Some initialDelay else None),
          mo_MaxReconnectInterval = (if rc_Enabled rc then Some maxDelay else None)\<rparr>)"

text \<open>What a token of the client library says when the adapter has waited for it.\<close>

datatype mqtt_token = TokenOk | TokenError string | TokenTimeout

datatype mqtt_effect = ConnectTried MqttOptions | SubscribeTried string int mqtt_token
  | UnsubscribeTried string mqtt_token | Disconnected

datatype mqtt_error = NotConnected | SubTimedOut string | SubFailed string string | NoClient
  | BrokerRequired | ClientIDRequired | TopicPrefixRequired

record MqttAdapter =
  ma_cfg :: MQTTConfig
  ma_client :: "MqttOptions option"
  ma_delivery :: bool
  ma_subscribers :: "string list"
  ma_connected :: bool
  ma_log :: "mqtt_effect list"

definition mqtt_NewAdapter :: "MQTTConfig \<Rightarrow> MqttAdapter" where
  "mqtt_NewAdapter cfg = \<lparr>ma_cfg = cfg, ma_client = None, ma_delivery = False, ma_subscribers = [], ma_connected = False, ma_log = []\<rparr>"

definition mqtt_Start :: "mqtt_token \<Rightarrow> MqttAdapter \<Rightarrow> MqttAdapter" where
  "mqtt_Start tok a =
     (let opts = mqtt_options (ma_cfg a);
          a1 = a\<lparr>ma_client := Some opts, ma_delivery := True, ma_log := ma_log a @ [ConnectTried opts]\<rparr>
      in if tok = TokenOk then a1\<lparr>ma_connected := True\<rparr> else a1)"

definition mqtt_Stop :: "bool \<Rightarrow> MqttAdapter \<Rightarrow> MqttAdapter" where
  "mqtt_Stop up a =
     (let a1 = (if ma_client a \<noteq> None \<and> up then a\<lparr>ma_log := ma_log a @ [Disconnected]\<rparr> else a)
      in a1\<lparr>ma_connected := False\<rparr>)"

definition mqtt_HealthCheck :: "bool \<Rightarrow> MqttAdapter \<Rightarrow> mqtt_error option" where
  "mqtt_HealthCheck up a = (if ma_client a = None then Some NoClient else if \<not> up then Some NotConnected else None)"

definition mqtt_Validate :: "MQTTConfig \<Rightarrow> mqtt_error option" where
  "mqtt_Validate cfg =
     (if mc_Broker cfg = [] then Some BrokerRequired
      else if mc_ClientID cfg = [] then Some ClientIDRequired
      else if mc_TopicPrefix cfg = [] then Some TopicPrefixRequired else None)"

definition subscribe_qos :: "MQTTConfig \<Rightarrow> int" where
  "subscribe_qos cfg = (let qos = to_byte (mc_QoS cfg) in if 2 < qos then 1 else qos)"

text \<open>The loop of \<^verbatim>\<open>subscribeAll\<close>; \<open>answer\<close> gives the token of each topic.\<close>

fun subscribe_loop :: "(string \<Rightarrow> mqtt_token) \<Rightarrow> MqttAdapter \<Rightarrow> string list \<Rightarrow> MqttAdapter" where
  "subscribe_loop answer a [] = a"
| "subscribe_loop answer a (userID # users) =
     (let topic = InboxTopic (mc_TopicPrefix (ma_cfg a)) userID; tok = answer topic;
          a1 = a\<lparr>ma_log := ma_log a @ [SubscribeTried topic (subscribe_qos (ma_cfg a)) tok]\<rparr>
      in subscribe_loop answer
           (if tok = TokenOk then a1\<lparr>ma_subscribers := ma_subscribers a1 @ [userID]\<rparr> else a1) users)"

text \<open>The lister: absent, failing, or the users it lists.\<close>

datatype lister = NoLister | ListerFails | Lists "string list"

definition mqtt_subscribeAll :: "lister \<Rightarrow> (string \<Rightarrow> mqtt_token) \<Rightarrow> MqttAdapter \<Rightarrow> MqttAdapter" where
  "mqtt_subscribeAll l answer a =
     (case l of
        NoLister \<Rightarrow> a
      | ListerFails \<Rightarrow> a
      | Lists users \<Rightarrow> subscribe_loop answer (a\<lparr>ma_subscribers := []\<rparr>) users)"

definition mqtt_onConnect :: "lister \<Rightarrow> (string \<Rightarrow> mqtt_token) \<Rightarrow> MqttAdapter \<Rightarrow> MqttAdapter" where
  "mqtt_onConnect l answer a = mqtt_subscribeAll l answer (a\<lparr>ma_connected := True\<rparr>)"

definition mqtt_onConnectionLost :: "MqttAdapter \<Rightarrow> MqttAdapter" where
  "mqtt_onConnectionLost a = a\<lparr>ma_connected := False\<rparr>"

definition SubscribeUser :: "bool \<Rightarrow> mqtt_token \<Rightarrow> MqttAdapter \<Rightarrow> string \<Rightarrow> MqttAdapter \<times> mqtt_error option" where
  "SubscribeUser up tok a userID =
     (if ma_client a = None \<or> \<not> up then (a, Some NotConnected)
      else let topic = InboxTopic (mc_TopicPrefix (ma_cfg a)) userID;
               a1 = a\<lparr>ma_log := ma_log a @ [SubscribeTried topic (subscribe_qos (ma_cfg a)) tok]\<rparr>
           in case tok of
                TokenTimeout \<Rightarrow> (a1, Some (SubTimedOut topic))
              | TokenError e \<Rightarrow> (a1, Some (SubFailed topic e))
              | TokenOk \<Rightarrow> (if userID \<in> set (ma_subscribers a1) then a1
                            else a1\<lparr>ma_subscribers := ma_subscribers a1 @ [userID]\<rparr>, None))"

definition UnsubscribeUser :: "bool \<Rightarrow> mqtt_token \<Rightarrow> MqttAdapter \<Rightarrow> string \<Rightarrow> MqttAdapter \<times> mqtt_error option" where
  "UnsubscribeUser up tok a userID =
     (if ma_client a = None \<or> \<not> up then (a, Some NotConnected)
      else let topic = InboxTopic (mc_TopicPrefix (ma_cfg a)) userID;
               a1 = a\<lparr>ma_log := ma_log a @ [UnsubscribeTried topic tok]\<rparr>
           in case tok of
                TokenTimeout \<Rightarrow> (a1, Some (SubTimedOut topic))
              | TokenError e \<Rightarrow> (a1, Some (SubFailed topic e))
              | TokenOk \<Rightarrow> (a1\<lparr>ma_subscribers := remove1 userID (ma_subscribers a1)\<rparr>, None))"

definition Subscriptions :: "MqttAdapter \<Rightarrow> string list" where
  "Subscriptions a = ma_subscribers a"

definition SubscriberCount :: "MqttAdapter \<Rightarrow> nat" where
  "SubscriberCount a = length (ma_subscribers a)"

text \<open>Redaction for the logs: from the scheme on, up to the first at sign.\<close>

definition RedactBrokerURL :: "string \<Rightarrow> string" where
  "RedactBrokerURL url =
     (case Index url ''@'' of
        Some idx \<Rightarrow>
          (if 0 < idx
           then take (case Index url ''://'' of Some i \<Rightarrow> i + 3 | None \<Rightarrow> 2) url @ ''[REDACTED]'' @ drop idx url
           else url)
      | None \<Rightarrow> url)"

subsection \<open>Subscriptions\<close>

text \<open>What the broker has acknowledged, by replaying the log; a connection starts with no subscriptions.\<close>

fun acked :: "string set \<Rightarrow> mqtt_effect list \<Rightarrow> string set" where
  "acked T [] = T"
| "acked T (SubscribeTried t q tok # es) = acked (if tok = TokenOk then insert t T else T) es"
| "acked T (UnsubscribeTried t tok # es) = acked (if tok = TokenOk then T - {t} else T) es"
| "acked T (_ # es) = acked T es"

lemma acked_append [simp]: "acked T (es @ es') = acked (acked T es) es'"
  by (induction es arbitrary: T rule: acked.induct) simp_all

text \<open>Operations on one connection: single subscriptions and their ends.\<close>

datatype mqtt_op = Sub bool mqtt_token string | Unsub bool mqtt_token string

fun mqtt_apply :: "MqttAdapter \<Rightarrow> mqtt_op \<Rightarrow> MqttAdapter" where
  "mqtt_apply a (Sub up tok u) = fst (SubscribeUser up tok a u)"
| "mqtt_apply a (Unsub up tok u) = fst (UnsubscribeUser up tok a u)"

lemma InboxTopic_inject [simp]: "InboxTopic p u = InboxTopic p v \<longleftrightarrow> u = v"
  by (simp add: InboxTopic_def)

definition subs_agree :: "mqtt_effect list \<Rightarrow> MqttAdapter \<Rightarrow> bool" where
  "subs_agree base a \<longleftrightarrow> distinct (ma_subscribers a)
     \<and> (\<exists>es. ma_log a = base @ es \<and> acked {} es = InboxTopic (mc_TopicPrefix (ma_cfg a)) ` set (ma_subscribers a))"

lemma subscribe_loop_agrees:
  assumes "subs_agree base a" "distinct users" "set users \<inter> set (ma_subscribers a) = {}"
  shows "subs_agree base (subscribe_loop answer a users) \<and> ma_cfg (subscribe_loop answer a users) = ma_cfg a"
  using assms
proof (induction users arbitrary: a)
  case (Cons u users)
  let ?t = "InboxTopic (mc_TopicPrefix (ma_cfg a)) u"
  let ?a1 = "a\<lparr>ma_log := ma_log a @ [SubscribeTried ?t (subscribe_qos (ma_cfg a)) (answer ?t)]\<rparr>"
  let ?a2 = "if answer ?t = TokenOk then ?a1\<lparr>ma_subscribers := ma_subscribers a @ [u]\<rparr> else ?a1"
  have "subs_agree base ?a2" using Cons.prems by (auto simp: subs_agree_def)
  moreover have "set users \<inter> set (ma_subscribers ?a2) = {}" using Cons.prems by auto
  ultimately show ?case using Cons.IH [of ?a2] Cons.prems(2) by (auto simp: Let_def)
qed simp

lemma mqtt_apply_agrees: "subs_agree base a \<Longrightarrow> subs_agree base (mqtt_apply a op)"
proof (cases op)
  case (Sub up tok u)
  then show "subs_agree base a \<Longrightarrow> ?thesis"
    by (auto simp: subs_agree_def SubscribeUser_def Let_def split: mqtt_token.splits)
next
  case (Unsub up tok u)
  then show "subs_agree base a \<Longrightarrow> ?thesis"
    by (auto simp: subs_agree_def UnsubscribeUser_def Let_def set_remove1_eq split: mqtt_token.splits)
qed

lemma mqtt_apply_cfg [simp]: "ma_cfg (mqtt_apply a op) = ma_cfg a"
  by (cases op) (auto simp: SubscribeUser_def UnsubscribeUser_def Let_def split: mqtt_token.splits)

lemma mqtt_run_agrees:
  assumes "subs_agree base a"
  shows "subs_agree base (foldl mqtt_apply a ops)" "ma_cfg (foldl mqtt_apply a ops) = ma_cfg a"
  using assms by (induction ops arbitrary: a) (simp_all add: mqtt_apply_agrees)

text \<open>
  C33: the adapter knows exactly its subscriptions. From the moment a connection comes up and the listing
  of the users succeeds, each user listed once, whatever the broker answers, and through any subscribing and
  unsubscribing of single users, the users the adapter reports are exactly those whose inbox topic the
  broker has acknowledged in time and not released since, each once.
\<close>

theorem mqtt_subscriptions_exact:
  assumes "distinct users" and "a' = foldl mqtt_apply (mqtt_onConnect (Lists users) answer a) ops"
  shows "\<exists>es. ma_log a' = ma_log a @ es \<and> distinct (Subscriptions a')
    \<and> acked {} es = (\<lambda>u. InboxTopic (mc_TopicPrefix (ma_cfg a)) u) ` set (Subscriptions a')"
proof -
  let ?a = "a\<lparr>ma_connected := True, ma_subscribers := []\<rparr>"
  have "subs_agree (ma_log a) ?a" by (simp add: subs_agree_def)
  from subscribe_loop_agrees [OF this assms(1), of answer]
  have "subs_agree (ma_log a) (mqtt_onConnect (Lists users) answer a)" "ma_cfg (mqtt_onConnect (Lists users) answer a) = ma_cfg a"
    by (simp_all add: mqtt_onConnect_def mqtt_subscribeAll_def)
  with mqtt_run_agrees [OF this(1), of ops] assms(2) show ?thesis
    by (simp add: subs_agree_def Subscriptions_def)
qed

definition home_mqtt :: MQTTConfig where
  "home_mqtt = \<lparr>mc_Broker = ''tcp://b'', mc_ClientID = ''nipper'', mc_Username = [], mc_Password = [], mc_TopicPrefix = ''home'',
     mc_QoS = 1, mc_CleanSession = True, mc_KeepAlive = 0,
     mc_Reconnect = \<lparr>rc_Enabled = True, rc_InitialDelayMS = 0, rc_MaxDelayMS = 0\<rparr>\<rparr>"

theorem mqtt_subscriptions_exact_witness:
  "\<exists>a' es. a' = foldl mqtt_apply (mqtt_onConnect (Lists [''ann'', ''bob'']) (\<lambda>t. if t = ''home/bob/inbox'' then TokenTimeout else TokenOk)
         (mqtt_Start TokenOk (mqtt_NewAdapter home_mqtt))) [Sub True TokenOk ''cid'', Unsub True TokenOk ''ann'']
     \<and> Subscriptions a' = [''cid''] \<and> acked {} es = {''home/cid/inbox''}"
proof -
  define a where "a = mqtt_Start TokenOk (mqtt_NewAdapter home_mqtt)"
  define a' where "a' = foldl mqtt_apply (mqtt_onConnect (Lists [''ann'', ''bob'']) (\<lambda>t. if t = ''home/bob/inbox'' then TokenTimeout else TokenOk) a)
    [Sub True TokenOk ''cid'', Unsub True TokenOk ''ann'']"
  have topic: "InboxTopic ''home'' u = ''home/'' @ u @ ''/inbox''" for u
    by (simp add: InboxTopic_def topic_prefix_def TrimRight1_def)
  have a: "mc_TopicPrefix (ma_cfg a) = ''home''" "ma_client a \<noteq> None"
    by (simp_all add: a_def mqtt_Start_def mqtt_NewAdapter_def home_mqtt_def Let_def)
  then have "Subscriptions a' = [''cid'']"
    by (simp add: a'_def Subscriptions_def mqtt_onConnect_def mqtt_subscribeAll_def SubscribeUser_def UnsubscribeUser_def topic Let_def)
  moreover from mqtt_subscriptions_exact [OF _ a'_def] obtain es where
    "acked {} es = InboxTopic (mc_TopicPrefix (ma_cfg a)) ` set (Subscriptions a')" by auto
  ultimately show ?thesis using a topic a'_def a_def by auto
qed

text \<open>
  When the listing fails after a reconnection nothing is subscribed, yet the adapter goes on reporting
  the users of the connection before.
\<close>

lemma failed_listing_keeps_report:
  "Subscriptions (mqtt_onConnect ListerFails answer a) = Subscriptions a"
  "ma_log (mqtt_onConnect ListerFails answer a) = ma_log a"
  by (simp_all add: mqtt_onConnect_def mqtt_subscribeAll_def Subscriptions_def)

text \<open>
  Redaction of a broker URL hides what stands before the first at sign and keeps all that follows, also the
  rest of a password that contains one.
\<close>

theorem redaction_up_to_first_at:
  assumes "CHR ''@'' \<notin> set scheme" "CHR ''@'' \<notin> set user" "CHR '':'' \<notin> set scheme"
  shows "RedactBrokerURL (scheme @ ''://'' @ user @ ''@'' @ rest) = scheme @ ''://[REDACTED]@'' @ rest"
proof -
  have "Index ((scheme @ ''://'' @ user) @ (CHR ''@'' # []) @ rest) (CHR ''@'' # []) = Some (length (scheme @ ''://'' @ user))"
    by (rule Index_append_marker) (use assms in auto)
  moreover have "Index (scheme @ (CHR '':'' # ''//'') @ user @ ''@'' @ rest) (CHR '':'' # ''//'') = Some (length scheme)"
    by (rule Index_append_marker) (rule assms(3))
  ultimately show ?thesis by (simp add: RedactBrokerURL_def numeral_3_eq_3)
qed

section \<open>RabbitMQ\<close>

record RabbitMQChanConfig =
  rq_URL :: string
  rq_Username :: string
  rq_Password :: string
  rq_VHost :: string
  rq_ExchangeInbound :: string
  rq_ExchangeOutbound :: string
  rq_ExchangeDLX :: string
  rq_Prefetch :: int
  rq_Heartbeat :: int
  rq_Reconnect :: ReconnectConfig

datatype rmq_config_error = URLRequired | InboundRequired | OutboundRequired

definition rmq_Validate :: "RabbitMQChanConfig \<Rightarrow> rmq_config_error option" where
  "rmq_Validate cfg =
     (if rq_URL cfg = [] then Some URLRequired
      else if rq_ExchangeInbound cfg = [] then Some InboundRequired
      else if rq_ExchangeOutbound cfg = [] then Some OutboundRequired else None)"

text \<open>
  Calls on a channel, in the order made. A queue is declared durable with the dead letter exchange of its
  arguments; exchanges are durable topic exchanges.
\<close>

datatype channel_call = QosSet int | ExchangeDeclared string | QueueDeclared string "string option"
  | QueueBound string string string  \<comment> \<open>queue, key, exchange\<close> | Consuming string string  \<comment> \<open>queue, tag\<close> | ChannelClosed

text \<open>What the broker answers while a connection is set up; per queue: declaration, binding, consuming.\<close>

record setup_env =
  se_channel :: bool
  se_qos :: bool
  se_inbound :: bool
  se_outbound :: bool
  se_dlx :: bool
  se_lister :: lister
  se_queue :: "string \<Rightarrow> bool \<times> bool \<times> bool"

text \<open>Connections are numbered; a channel belongs to its connection.\<close>

record RmqAdapter =
  ra_cfg :: RabbitMQChanConfig
  ra_conn :: "nat option"
  ra_channel :: "nat option"
  ra_delivery :: "nat option"
  ra_consumers :: "string list"
  ra_connected :: bool
  ra_stopped :: bool
  ra_calls :: "channel_call list"

definition rmq_NewAdapter :: "RabbitMQChanConfig \<Rightarrow> RmqAdapter" where
  "rmq_NewAdapter cfg = \<lparr>ra_cfg = cfg, ra_conn = None, ra_channel = None, ra_delivery = None, ra_consumers = [],
     ra_connected = False, ra_stopped = False, ra_calls = []\<rparr>"

definition rmq_HealthCheck :: "RmqAdapter \<Rightarrow> bool" where
  "rmq_HealthCheck a = ra_connected a"

definition rmq_ConsumerCount :: "RmqAdapter \<Rightarrow> nat" where
  "rmq_ConsumerCount a = length (ra_consumers a)"

text \<open>One user in \<^verbatim>\<open>subscribeAll\<close>; each failure goes on with the next user.\<close>

definition rmq_subscribe_user :: "(string \<Rightarrow> bool \<times> bool \<times> bool) \<Rightarrow> RmqAdapter \<Rightarrow> string \<Rightarrow> RmqAdapter" where
  "rmq_subscribe_user answer a userID =
     (let queueName = InboundQueueName userID; routingKey = InboundRoutingKey userID; cfg = ra_cfg a;
          dlx = (if rq_ExchangeDLX cfg \<noteq> [] then Some (rq_ExchangeDLX cfg) else None);
          (declared, bound, consuming) = answer queueName
      in if \<not> declared then a
         else let a1 = a\<lparr>ra_calls := ra_calls a @ [QueueDeclared queueName dlx]\<rparr> in
           if \<not> bound then a1
           else let a2 = a1\<lparr>ra_calls := ra_calls a1 @ [QueueBound queueName routingKey (rq_ExchangeInbound cfg)]\<rparr> in
             if \<not> consuming then a2
             else a2\<lparr>ra_calls := ra_calls a2 @ [Consuming queueName (''nipper-channel-'' @ userID)],
                     ra_consumers := ra_consumers a2 @ [userID]\<rparr>)"

definition rmq_subscribeAll :: "setup_env \<Rightarrow> RmqAdapter \<Rightarrow> RmqAdapter" where
  "rmq_subscribeAll env a =
     (case se_lister env of
        NoLister \<Rightarrow> a
      | ListerFails \<Rightarrow> a
      | Lists users \<Rightarrow>
          let a1 = a\<lparr>ra_consumers := []\<rparr> in
          if ra_channel a1 = None then a1 else foldl (rmq_subscribe_user (se_queue env)) a1 users)"

text \<open>The declarations before the adapter takes over the connection, and whether they all succeeded.\<close>

definition setup_calls :: "RabbitMQChanConfig \<Rightarrow> setup_env \<Rightarrow> channel_call list \<times> bool" where
  "setup_calls cfg env =
     (let prefetch = (if rq_Prefetch cfg \<le> 0 then 1 else rq_Prefetch cfg);
          c1 = [QosSet prefetch]; c2 = c1 @ [ExchangeDeclared (rq_ExchangeInbound cfg)];
          c3 = c2 @ [ExchangeDeclared (rq_ExchangeOutbound cfg)]
      in if \<not> se_channel env then ([], False)
         else if \<not> se_qos env then ([ChannelClosed], False)
         else if \<not> se_inbound env then (c1 @ [ChannelClosed], False)
         else if \<not> se_outbound env then (c2 @ [ChannelClosed], False)
         else if rq_ExchangeDLX cfg = [] then (c3, True)
         else if \<not> se_dlx env then (c3 @ [ChannelClosed], False)
         else (c3 @ [ExchangeDeclared (rq_ExchangeDLX cfg)], True))"

definition rmq_setup :: "setup_env \<Rightarrow> nat \<Rightarrow> RmqAdapter \<Rightarrow> RmqAdapter \<times> bool" where
  "rmq_setup env conn a =
     (let (calls, ok) = setup_calls (ra_cfg a) env; a1 = a\<lparr>ra_calls := ra_calls a @ calls\<rparr> in
      if \<not> ok then (a1, False)
      else (rmq_subscribeAll env
              (a1\<lparr>ra_conn := Some conn, ra_channel := Some conn, ra_connected := True, ra_delivery := Some conn\<rparr>), True))"

definition rmq_Stop :: "RmqAdapter \<Rightarrow> RmqAdapter" where
  "rmq_Stop a = a\<lparr>ra_stopped := True, ra_connected := False\<rparr>"

subsection \<open>What is consumed\<close>

text \<open>The users among the listed ones for whom every answer is favourable.\<close>

definition consumable :: "(string \<Rightarrow> bool \<times> bool \<times> bool) \<Rightarrow> string list \<Rightarrow> string list" where
  "consumable answer users = filter (\<lambda>u. answer (InboundQueueName u) = (True, True, True)) users"

definition consume_calls :: "RabbitMQChanConfig \<Rightarrow> string \<Rightarrow> channel_call list" where
  "consume_calls cfg u =
     [QueueDeclared (InboundQueueName u) (if rq_ExchangeDLX cfg \<noteq> [] then Some (rq_ExchangeDLX cfg) else None),
      QueueBound (InboundQueueName u) (InboundRoutingKey u) (rq_ExchangeInbound cfg),
      Consuming (InboundQueueName u) (''nipper-channel-'' @ u)]"

lemma subscribe_user_effect:
  "\<exists>k. rmq_subscribe_user answer a u = a\<lparr>ra_calls := ra_calls a @ take k (consume_calls (ra_cfg a) u),
     ra_consumers := ra_consumers a @ consumable answer [u]\<rparr> \<and> {(q, t). Consuming q t \<in> set (take k (consume_calls (ra_cfg a) u))}
        = (\<lambda>u. (InboundQueueName u, ''nipper-channel-'' @ u)) ` set (consumable answer [u])"
proof -
  obtain d b c where ans: "answer (InboundQueueName u) = (d, b, c)" by (metis prod_cases3)
  let ?k = "if \<not> d then 0 else if \<not> b then 1 else if \<not> c then 2 else 3 :: nat"
  show ?thesis
    by (rule exI [of _ ?k]) (simp add: rmq_subscribe_user_def consumable_def consume_calls_def ans Let_def numeral_eq_Suc)
qed

lemma subscribe_users_effect:
  "\<exists>calls. foldl (rmq_subscribe_user answer) a users
      = a\<lparr>ra_calls := ra_calls a @ calls, ra_consumers := ra_consumers a @ consumable answer users\<rparr>
    \<and> {(q, t). Consuming q t \<in> set calls} = (\<lambda>u. (InboundQueueName u, ''nipper-channel-'' @ u)) ` set (consumable answer users)
    \<and> (\<forall>q k ex. QueueBound q k ex \<in> set calls \<longrightarrow> (\<exists>u. q = InboundQueueName u \<and> k = InboundRoutingKey u \<and> ex = rq_ExchangeInbound (ra_cfg a)))"
proof (induction users arbitrary: a)
  case Nil
  show ?case by (rule exI [of _ "[]"]) (simp add: consumable_def)
next
  case (Cons u users)
  obtain k where k: "rmq_subscribe_user answer a u = a\<lparr>ra_calls := ra_calls a @ take k (consume_calls (ra_cfg a) u),
     ra_consumers := ra_consumers a @ consumable answer [u]\<rparr>" "{(q, t). Consuming q t \<in> set (take k (consume_calls (ra_cfg a) u))}
        = (\<lambda>u. (InboundQueueName u, ''nipper-channel-'' @ u)) ` set (consumable answer [u])"
    using subscribe_user_effect by blast
  have cons: "consumable answer (u # users) = consumable answer [u] @ consumable answer users" by (simp add: consumable_def)
  obtain calls where IH: "foldl (rmq_subscribe_user answer) (rmq_subscribe_user answer a u) users
      = (rmq_subscribe_user answer a u)\<lparr>ra_calls := ra_calls (rmq_subscribe_user answer a u) @ calls,
          ra_consumers := ra_consumers (rmq_subscribe_user answer a u) @ consumable answer users\<rparr>"
    "{(q, t). Consuming q t \<in> set calls} = (\<lambda>u. (InboundQueueName u, ''nipper-channel-'' @ u)) ` set (consumable answer users)"
    "\<forall>q k ex. QueueBound q k ex \<in> set calls \<longrightarrow> (\<exists>u. q = InboundQueueName u \<and> k = InboundRoutingKey u \<and> ex = rq_ExchangeInbound (ra_cfg a))"
    using Cons.IH [of "rmq_subscribe_user answer a u"] k(1) by auto
  show ?case
  proof (rule exI [of _ "take k (consume_calls (ra_cfg a) u) @ calls"], intro conjI)
    show "foldl (rmq_subscribe_user answer) a (u # users) = a\<lparr>ra_calls := ra_calls a @ take k (consume_calls (ra_cfg a) u) @ calls,
        ra_consumers := ra_consumers a @ consumable answer (u # users)\<rparr>"
      using IH(1) k(1) cons by simp
    show "{(q, t). Consuming q t \<in> set (take k (consume_calls (ra_cfg a) u) @ calls)}
        = (\<lambda>u. (InboundQueueName u, ''nipper-channel-'' @ u)) ` set (consumable answer (u # users))"
      using IH(2) k(2) unfolding cons set_append image_Un Un_iff by blast
    show "\<forall>q ka ex. QueueBound q ka ex \<in> set (take k (consume_calls (ra_cfg a) u) @ calls) \<longrightarrow>
        (\<exists>u. q = InboundQueueName u \<and> ka = InboundRoutingKey u \<and> ex = rq_ExchangeInbound (ra_cfg a))"
      using IH(3) by (auto simp: consume_calls_def dest!: in_set_takeD)
  qed
qed

text \<open>
  A set-up that succeeds consumes, for each listed user the broker grants it, exactly the queue of that
  user, and binds queues to the inbound exchange only under their user's key.
\<close>

theorem rmq_consumes_own_queues:
  assumes "rmq_setup env n a = (a', True)" "se_lister env = Lists users"
  shows "ra_consumers a' = consumable (se_queue env) users"
    and "\<exists>calls. ra_calls a' = ra_calls a @ calls
      \<and> {(q, t). Consuming q t \<in> set calls} = (\<lambda>u. (InboundQueueName u, ''nipper-channel-'' @ u)) ` set (ra_consumers a')
      \<and> (\<forall>q k ex. QueueBound q k ex \<in> set calls \<longrightarrow>
            (\<exists>u. q = InboundQueueName u \<and> k = InboundRoutingKey u \<and> ex = rq_ExchangeInbound (ra_cfg a)))"
proof -
  obtain cs where cs: "setup_calls (ra_cfg a) env = (cs, True)"
    using assms(1) by (cases "setup_calls (ra_cfg a) env") (auto simp: rmq_setup_def Let_def split: if_splits)
  have pre: "Consuming q t \<notin> set cs" "QueueBound q k ex \<notin> set cs" for q t k ex
    using cs by (auto simp: setup_calls_def Let_def split: if_splits)
  let ?b = "a\<lparr>ra_calls := ra_calls a @ cs, ra_conn := Some n, ra_channel := Some n, ra_connected := True, ra_delivery := Some n,
      ra_consumers := []\<rparr>"
  have a': "a' = foldl (rmq_subscribe_user (se_queue env)) ?b users"
    using assms cs by (simp add: rmq_setup_def rmq_subscribeAll_def Let_def)
  obtain calls where calls: "a' = ?b\<lparr>ra_calls := ra_calls ?b @ calls, ra_consumers := consumable (se_queue env) users\<rparr>"
    "{(q, t). Consuming q t \<in> set calls} = (\<lambda>u. (InboundQueueName u, ''nipper-channel-'' @ u)) ` set (consumable (se_queue env) users)"
    "\<forall>q k ex. QueueBound q k ex \<in> set calls \<longrightarrow> (\<exists>u. q = InboundQueueName u \<and> k = InboundRoutingKey u \<and> ex = rq_ExchangeInbound (ra_cfg a))"
    using subscribe_users_effect [of "se_queue env" ?b users] a' by auto
  show "ra_consumers a' = consumable (se_queue env) users" using calls(1) by simp
  show "\<exists>calls. ra_calls a' = ra_calls a @ calls
      \<and> {(q, t). Consuming q t \<in> set calls} = (\<lambda>u. (InboundQueueName u, ''nipper-channel-'' @ u)) ` set (ra_consumers a')
      \<and> (\<forall>q k ex. QueueBound q k ex \<in> set calls \<longrightarrow>
            (\<exists>u. q = InboundQueueName u \<and> k = InboundRoutingKey u \<and> ex = rq_ExchangeInbound (ra_cfg a)))"
    using calls pre by (intro exI [of _ "cs @ calls"]) simp
qed

subsection \<open>Losing and regaining the connection\<close>

text \<open>
  The goroutines of the adapter. A watcher waits for the loss of a connection; the reconnect loop waits
  for its delay and then dials. The flag tells whether a watcher called the loop and goes on after it
  or \<^verbatim>\<open>Start\<close> did.
\<close>

datatype goroutine = Watching nat | Waiting bool int | Dialling bool int

record rmq_system =
  rs_adapter :: RmqAdapter
  rs_routines :: "goroutine list"
  rs_live :: "nat set"
  rs_next :: nat

definition initial_delay :: "RabbitMQChanConfig \<Rightarrow> int" where
  "initial_delay cfg =
     (let d = rc_InitialDelayMS (rq_Reconnect cfg) in if d \<le> 0 then 1000 else d)"

definition max_delay :: "RabbitMQChanConfig \<Rightarrow> int" where
  "max_delay cfg = (let d = rc_MaxDelayMS (rq_Reconnect cfg) in if d \<le> 0 then 30000 else d)"

definition next_delay :: "RabbitMQChanConfig \<Rightarrow> int \<Rightarrow> int" where
  "next_delay cfg d = min (d * 2) (max_delay cfg)"

text \<open>What a dial brings: no connection, or one whose set-up is answered.\<close>

definition rmq_dial :: "setup_env option \<Rightarrow> rmq_system \<Rightarrow> rmq_system \<times> bool" where
  "rmq_dial answer s =
     (case answer of
        None \<Rightarrow> (s, False)
      | Some env \<Rightarrow>
          let (a, ok) = rmq_setup env (rs_next s) (rs_adapter s) in
          (s\<lparr>rs_adapter := a, rs_next := rs_next s + 1, rs_live := (if ok then insert (rs_next s) (rs_live s) else rs_live s)\<rparr>, ok))"

definition rmq_Start :: "setup_env option \<Rightarrow> rmq_system \<Rightarrow> rmq_system" where
  "rmq_Start answer s =
     (let (s', ok) = rmq_dial answer s in
      s'\<lparr>rs_routines := rs_routines s' @
           [if ok then Watching (rs_next s) else Waiting False (initial_delay (ra_cfg (rs_adapter s)))]\<rparr>)"

definition rmq_lost :: "RmqAdapter \<Rightarrow> RmqAdapter" where
  "rmq_lost a = a\<lparr>ra_connected := False, ra_consumers := []\<rparr>"

inductive rmq_step :: "rmq_system \<Rightarrow> rmq_system \<Rightarrow> bool" where
  broker_loses: "rmq_step s (s\<lparr>rs_live := rs_live s - {n}\<rparr>)"
| notice: "rs_routines s = gs @ Watching n # gs' \<Longrightarrow> n \<notin> rs_live s \<Longrightarrow>
    rmq_step s (s\<lparr>rs_adapter := rmq_lost (rs_adapter s),
      rs_routines := gs @ Waiting True (initial_delay (ra_cfg (rs_adapter s))) # gs'\<rparr>)"
| timer: "rs_routines s = gs @ Waiting w d # gs' \<Longrightarrow> rmq_step s (s\<lparr>rs_routines := gs @ Dialling w d # gs'\<rparr>)"
| redial_fails: "rs_routines s = gs @ Dialling w d # gs' \<Longrightarrow> rmq_dial answer s = (s', False) \<Longrightarrow>
    rmq_step s (s'\<lparr>rs_routines := gs @ Waiting w (next_delay (ra_cfg (rs_adapter s)) d) # gs'\<rparr>)"
| redial_ok: "rs_routines s = gs @ Dialling w d # gs' \<Longrightarrow> rmq_dial answer s = (s', True) \<Longrightarrow>
    rmq_step s (s'\<lparr>rs_routines := gs @ (if w \<and> \<not> ra_stopped (rs_adapter s) then [Watching (rs_next s)] else []) @ gs'\<rparr>)"
| stop: "rmq_step s (s\<lparr>rs_adapter := rmq_Stop (rs_adapter s), rs_live := rs_live s - set_option (ra_conn (rs_adapter s))\<rparr>)"
| leave: "rs_routines s = gs @ g # gs' \<Longrightarrow> ra_stopped (rs_adapter s) \<Longrightarrow> \<forall>w d. g \<noteq> Dialling w d \<Longrightarrow>
    rmq_step s (s\<lparr>rs_routines := gs @ gs'\<rparr>)"

definition fresh_system :: "RabbitMQChanConfig \<Rightarrow> rmq_system" where
  "fresh_system cfg = \<lparr>rs_adapter = rmq_NewAdapter cfg, rs_routines = [], rs_live = {}, rs_next = 0\<rparr>"

lemma subscribe_keeps:
  "ra_cfg (rmq_subscribeAll env a) = ra_cfg a" "ra_conn (rmq_subscribeAll env a) = ra_conn a"
  "ra_connected (rmq_subscribeAll env a) = ra_connected a" "ra_stopped (rmq_subscribeAll env a) = ra_stopped a"
proof -
  have "ra_cfg (foldl (rmq_subscribe_user f) b us) = ra_cfg b \<and> ra_conn (foldl (rmq_subscribe_user f) b us) = ra_conn b
    \<and> ra_connected (foldl (rmq_subscribe_user f) b us) = ra_connected b
    \<and> ra_stopped (foldl (rmq_subscribe_user f) b us) = ra_stopped b" for f b us
    using subscribe_users_effect [of f b us] by auto
  then show "ra_cfg (rmq_subscribeAll env a) = ra_cfg a" "ra_conn (rmq_subscribeAll env a) = ra_conn a"
    "ra_connected (rmq_subscribeAll env a) = ra_connected a" "ra_stopped (rmq_subscribeAll env a) = ra_stopped a"
    by (simp_all add: rmq_subscribeAll_def Let_def split: lister.split)
qed

lemma setup_keeps:
  assumes "rmq_setup env n a = (a', ok)"
  shows "ra_cfg a' = ra_cfg a" "ra_stopped a' = ra_stopped a" "ra_connected a' = (ok \<or> ra_connected a)"
    "ra_conn a' = (if ok then Some n else ra_conn a)"
  using assms by (auto simp: rmq_setup_def subscribe_keeps Let_def split: prod.splits if_splits)

lemma dial_keeps:
  assumes "rmq_dial answer s = (s', ok)"
  shows "ra_cfg (rs_adapter s') = ra_cfg (rs_adapter s)" "ra_stopped (rs_adapter s') = ra_stopped (rs_adapter s)"
    "ra_connected (rs_adapter s') = (ok \<or> ra_connected (rs_adapter s))" "rs_routines s' = rs_routines s"
    "ra_conn (rs_adapter s') = (if ok then Some (rs_next s) else ra_conn (rs_adapter s))"
  using assms by (auto simp: rmq_dial_def Let_def dest: setup_keeps split: prod.splits option.splits)

text \<open>An adapter whose start found the broker is watched: one goroutine waits for the loss of its connection or works on a new one.\<close>

fun watched_by :: "RmqAdapter \<Rightarrow> goroutine \<Rightarrow> bool" where
  "watched_by a (Watching n) \<longleftrightarrow> ra_conn a = Some n \<and> ra_connected a"
| "watched_by a (Waiting w d) \<longleftrightarrow> w \<and> \<not> ra_connected a \<and> 0 < d \<and> d \<le> max (initial_delay (ra_cfg a)) (max_delay (ra_cfg a))"
| "watched_by a (Dialling w d) \<longleftrightarrow> w \<and> \<not> ra_connected a \<and> 0 < d \<and> d \<le> max (initial_delay (ra_cfg a)) (max_delay (ra_cfg a))"

definition watched :: "rmq_system \<Rightarrow> bool" where
  "watched s \<longleftrightarrow> ra_stopped (rs_adapter s) \<or> (\<exists>g. rs_routines s = [g] \<and> watched_by (rs_adapter s) g)"

lemma delays_positive [simp]: "0 < initial_delay cfg" "0 < max_delay cfg"
  by (simp_all add: initial_delay_def max_delay_def Let_def)

lemma watched_step:
  assumes "rmq_step s s'" "watched s"
  shows "watched s'"
  using assms
proof (cases rule: rmq_step.cases)
  case (notice gs n gs')
  then show ?thesis using assms(2) by (auto simp: watched_def rmq_lost_def append_eq_Cons_conv Cons_eq_append_conv)
next
  case (redial_fails gs w d gs' answer t)
  then show ?thesis using assms(2) dial_keeps [OF redial_fails(3)]
    by (auto simp: watched_def next_delay_def append_eq_Cons_conv Cons_eq_append_conv)
next
  case (redial_ok gs w d gs' answer t)
  then show ?thesis using assms(2) dial_keeps [OF redial_ok(3)]
    by (auto simp: watched_def append_eq_Cons_conv Cons_eq_append_conv)
qed (auto simp: watched_def rmq_Stop_def append_eq_Cons_conv Cons_eq_append_conv)

lemma watched_run: "rmq_step\<^sup>*\<^sup>* s s' \<Longrightarrow> watched s \<Longrightarrow> watched s'"
  by (induction rule: rtranclp_induct) (auto intro: watched_step)

lemma step_cfg: "rmq_step s s' \<Longrightarrow> ra_cfg (rs_adapter s') = ra_cfg (rs_adapter s)"
  by (induction rule: rmq_step.induct) (auto simp: rmq_lost_def rmq_Stop_def dest: dial_keeps)

lemma run_cfg: "rmq_step\<^sup>*\<^sup>* s s' \<Longrightarrow> ra_cfg (rs_adapter s') = ra_cfg (rs_adapter s)"
  by (induction rule: rtranclp_induct) (auto dest: step_cfg)

lemma dial_succeeds:
  assumes "snd (setup_calls (ra_cfg (rs_adapter s)) env)"
  obtains s' where "rmq_dial (Some env) s = (s', True)" "ra_connected (rs_adapter s')"
    "ra_conn (rs_adapter s') = Some (rs_next s)" "rs_next s \<in> rs_live s'" "ra_stopped (rs_adapter s') = ra_stopped (rs_adapter s)"
proof -
  obtain a where a: "rmq_setup env (rs_next s) (rs_adapter s) = (a, True)"
    using assms by (cases "setup_calls (ra_cfg (rs_adapter s)) env") (simp add: rmq_setup_def Let_def)
  then show thesis using that setup_keeps [OF a] by (simp add: rmq_dial_def)
qed

abbreviation regained :: "rmq_system \<Rightarrow> bool" where
  "regained s \<equiv> ra_connected (rs_adapter s)
     \<and> (\<exists>n. ra_conn (rs_adapter s) = Some n \<and> n \<in> rs_live s \<and> rs_routines s = [Watching n])"

lemma dialling_regains:
  assumes "rs_routines s = [Dialling True d]" "\<not> ra_stopped (rs_adapter s)" "snd (setup_calls (ra_cfg (rs_adapter s)) env)"
  shows "\<exists>s'. rmq_step\<^sup>*\<^sup>* s s' \<and> regained s'"
proof -
  obtain u where u: "rmq_dial (Some env) s = (u, True)" "ra_connected (rs_adapter u)" "ra_conn (rs_adapter u) = Some (rs_next s)"
    "rs_next s \<in> rs_live u"
    using dial_succeeds [OF assms(3)] by blast
  have "rmq_step s (u\<lparr>rs_routines := [Watching (rs_next s)]\<rparr>)"
    using redial_ok [of s "[]" True d "[]", OF _ u(1)] assms(1,2) by simp
  with u show ?thesis by (intro exI [of _ "u\<lparr>rs_routines := [Watching (rs_next s)]\<rparr>"]) auto
qed

lemma waiting_regains:
  assumes "rs_routines s = [Waiting True d]" "\<not> ra_stopped (rs_adapter s)" "snd (setup_calls (ra_cfg (rs_adapter s)) env)"
  shows "\<exists>s'. rmq_step\<^sup>*\<^sup>* s s' \<and> regained s'"
proof -
  let ?t = "s\<lparr>rs_routines := [Dialling True d]\<rparr>"
  have "rmq_step s ?t" using timer [of s "[]" True d "[]"] assms(1) by simp
  moreover have "\<exists>s'. rmq_step\<^sup>*\<^sup>* ?t s' \<and> regained s'"
    by (rule dialling_regains [of ?t d env]) (use assms in simp_all)
  ultimately show ?thesis by (blast intro: converse_rtranclp_into_rtranclp)
qed

lemma started_watched:
  assumes "snd (setup_calls cfg env)"
  shows "watched (rmq_Start (Some env) (fresh_system cfg))" "ra_cfg (rs_adapter (rmq_Start (Some env) (fresh_system cfg))) = cfg"
proof -
  have f: "ra_cfg (rs_adapter (fresh_system cfg)) = cfg" "rs_routines (fresh_system cfg) = []"
    by (simp_all add: fresh_system_def rmq_NewAdapter_def)
  obtain u where u: "rmq_dial (Some env) (fresh_system cfg) = (u, True)" "ra_connected (rs_adapter u)"
    "ra_conn (rs_adapter u) = Some (rs_next (fresh_system cfg))"
    using dial_succeeds [of "fresh_system cfg" env] assms f(1) by auto
  with f dial_keeps [OF u(1)] show "watched (rmq_Start (Some env) (fresh_system cfg))"
    "ra_cfg (rs_adapter (rmq_Start (Some env) (fresh_system cfg))) = cfg"
    by (simp_all add: rmq_Start_def watched_def)
qed

text \<open>
  C32: an adapter that found the broker at its start regains every lost connection. In whatever state it
  is, until it is stopped, exactly one goroutine watches its connection or works on a new one, and when the broker
  grants the set-up again, there are steps to a state with a live, watched connection.
\<close>

theorem rmq_connection_regained:
  assumes "snd (setup_calls cfg env0)" and "rmq_step\<^sup>*\<^sup>* (rmq_Start (Some env0) (fresh_system cfg)) s"
    and "\<not> ra_stopped (rs_adapter s)" and "snd (setup_calls cfg env)"
  shows "length (rs_routines s) = 1 \<and> (\<exists>s'. rmq_step\<^sup>*\<^sup>* s s' \<and> ra_connected (rs_adapter s')
    \<and> (\<exists>n. ra_conn (rs_adapter s') = Some n \<and> n \<in> rs_live s' \<and> rs_routines s' = [Watching n]))"
proof -
  from watched_run [OF assms(2) started_watched(1) [OF assms(1)]] assms(3)
  obtain g where g: "rs_routines s = [g]" "watched_by (rs_adapter s) g" by (auto simp: watched_def)
  have c: "ra_cfg (rs_adapter s) = cfg" using run_cfg [OF assms(2)] started_watched(2) [OF assms(1)] by simp
  show ?thesis
  proof (cases g)
    case (Watching n)
    let ?u = "s\<lparr>rs_adapter := rmq_lost (rs_adapter s), rs_routines := [Waiting True (initial_delay cfg)]\<rparr>"
    show ?thesis
    proof (cases "n \<in> rs_live s")
      case True
      with g Watching show ?thesis by auto
    next
      case False
      then have "rmq_step s ?u" using notice [of s "[]" n "[]"] g(1) Watching c by simp
      moreover have "\<exists>s'. rmq_step\<^sup>*\<^sup>* ?u s' \<and> regained s'"
        by (rule waiting_regains [of ?u "initial_delay cfg" env]) (use c assms(3,4) in \<open>simp_all add: rmq_lost_def\<close>)
      ultimately show ?thesis using g(1) by (simp, blast intro: converse_rtranclp_into_rtranclp)
    qed
  next
    case (Waiting w d)
    then show ?thesis using waiting_regains [of s d env] g c assms(3,4) by simp
  next
    case (Dialling w d)
    then show ?thesis using dialling_regains [of s d env] g c assms(3,4) by simp
  qed
qed

definition bus :: RabbitMQChanConfig where
  "bus = \<lparr>rq_URL = ''amqp://b'', rq_Username = [], rq_Password = [], rq_VHost = [], rq_ExchangeInbound = ''in'',
     rq_ExchangeOutbound = ''out'', rq_ExchangeDLX = [], rq_Prefetch = 0, rq_Heartbeat = 0,
     rq_Reconnect = \<lparr>rc_Enabled = True, rc_InitialDelayMS = 0, rc_MaxDelayMS = 0\<rparr>\<rparr>"

definition willing :: setup_env where
  "willing = \<lparr>se_channel = True, se_qos = True, se_inbound = True, se_outbound = True, se_dlx = True,
     se_lister = Lists [''ann''], se_queue = (\<lambda>q. (True, True, True))\<rparr>"

lemma willing_succeeds: "snd (setup_calls bus willing)"
  by (simp add: setup_calls_def bus_def willing_def)

text \<open>The connection of the first start, lost and noticed.\<close>

definition lost_system :: rmq_system where
  "lost_system = (let s = rmq_Start (Some willing) (fresh_system bus) in
     s\<lparr>rs_live := {}, rs_adapter := rmq_lost (rs_adapter s), rs_routines := [Waiting True 1000]\<rparr>)"

lemma start_bus:
  "rs_routines (rmq_Start (Some willing) (fresh_system bus)) = [Watching 0]"
  "rs_live (rmq_Start (Some willing) (fresh_system bus)) = {0}"
  "ra_cfg (rs_adapter (rmq_Start (Some willing) (fresh_system bus))) = bus"
  "\<not> ra_stopped (rs_adapter (rmq_Start (Some willing) (fresh_system bus)))"
  by (simp_all add: rmq_Start_def rmq_dial_def fresh_system_def rmq_NewAdapter_def rmq_setup_def setup_calls_def bus_def willing_def
      rmq_subscribeAll_def rmq_subscribe_user_def Let_def)

lemma lost_reachable:
  "rmq_step\<^sup>*\<^sup>* (rmq_Start (Some willing) (fresh_system bus)) lost_system" "\<not> ra_stopped (rs_adapter lost_system)"
proof -
  let ?s = "rmq_Start (Some willing) (fresh_system bus)"
  let ?t = "?s\<lparr>rs_live := {}\<rparr>"
  have 1: "rmq_step ?s ?t" using broker_loses [of ?s 0] start_bus(2) by simp
  have "rmq_step ?t lost_system"
    using notice [of ?t "[]" 0 "[]"] start_bus by (simp add: lost_system_def Let_def initial_delay_def bus_def)
  with 1 show "rmq_step\<^sup>*\<^sup>* ?s lost_system" by auto
  show "\<not> ra_stopped (rs_adapter lost_system)" using start_bus(4) by (simp add: lost_system_def Let_def rmq_lost_def)
qed

theorem rmq_connection_regained_witness:
  "\<not> ra_connected (rs_adapter lost_system)
   \<and> (\<exists>s'. rmq_step\<^sup>*\<^sup>* lost_system s' \<and> ra_connected (rs_adapter s') \<and> rs_live s' \<noteq> {})"
proof -
  have "\<not> ra_connected (rs_adapter lost_system)" by (simp add: lost_system_def rmq_lost_def Let_def)
  then show ?thesis
    using rmq_connection_regained [OF willing_succeeds lost_reachable willing_succeeds] by auto
qed

text \<open>
  An adapter whose start did not find the broker never notices a later loss. Once its background
  loop has connected, no goroutine is left: until it is stopped it reports that it is connected and keeps its
  consumers and its connection, whatever happens to that connection.
\<close>

definition unwatched :: "rmq_system \<Rightarrow> bool" where
  "unwatched s \<longleftrightarrow> ra_stopped (rs_adapter s) \<or> rs_routines s = [] \<and> ra_connected (rs_adapter s)
     \<or> \<not> ra_connected (rs_adapter s) \<and> (\<exists>d. rs_routines s = [Waiting False d] \<or> rs_routines s = [Dialling False d])"

lemma unwatched_step:
  assumes "rmq_step s s'" "unwatched s"
  shows "unwatched s' \<and> (\<not> ra_stopped (rs_adapter s') \<longrightarrow> ra_connected (rs_adapter s) \<longrightarrow> rs_adapter s' = rs_adapter s)"
  using assms
proof (cases rule: rmq_step.cases)
  case (redial_fails gs w d gs' answer t)
  then show ?thesis using assms(2) dial_keeps [OF redial_fails(3)]
    by (auto simp: unwatched_def append_eq_Cons_conv Cons_eq_append_conv)
next
  case (redial_ok gs w d gs' answer t)
  then show ?thesis using assms(2) dial_keeps [OF redial_ok(3)]
    by (auto simp: unwatched_def append_eq_Cons_conv Cons_eq_append_conv)
qed (auto simp: unwatched_def rmq_Stop_def rmq_lost_def append_eq_Cons_conv Cons_eq_append_conv)

lemma step_stopped: "rmq_step s s' \<Longrightarrow> ra_stopped (rs_adapter s) \<Longrightarrow> ra_stopped (rs_adapter s')"
  by (induction rule: rmq_step.induct) (auto simp: rmq_lost_def rmq_Stop_def dest: dial_keeps)

lemma unwatched_run:
  assumes "rmq_step\<^sup>*\<^sup>* s s'" "unwatched s"
  shows "unwatched s' \<and> (\<not> ra_stopped (rs_adapter s') \<longrightarrow> ra_connected (rs_adapter s) \<longrightarrow> rs_adapter s' = rs_adapter s)"
  using assms by (induction rule: rtranclp_induct) (auto dest: unwatched_step step_stopped)

lemma failed_start_unwatched: "unwatched (rmq_Start None (fresh_system cfg))"
  by (simp add: rmq_Start_def rmq_dial_def unwatched_def fresh_system_def rmq_NewAdapter_def)

theorem rmq_loss_unnoticed:
  assumes "rmq_step\<^sup>*\<^sup>* (rmq_Start None (fresh_system cfg)) s" "ra_connected (rs_adapter s)"
    and "rmq_step\<^sup>*\<^sup>* s s'" "\<not> ra_stopped (rs_adapter s')"
  shows "rs_routines s' = [] \<and> rs_adapter s' = rs_adapter s"
proof -
  have "unwatched s" using unwatched_run [OF assms(1) failed_start_unwatched] by blast
  from unwatched_run [OF assms(3) this] assms(2,4) show ?thesis by (auto simp: unwatched_def)
qed

theorem rmq_loss_unnoticed_witness:
  "\<exists>s s'. rmq_step\<^sup>*\<^sup>* (rmq_Start None (fresh_system bus)) s \<and> rmq_step\<^sup>*\<^sup>* s s' \<and> rs_live s \<noteq> {} \<and> rs_live s' = {}
     \<and> rs_routines s' = [] \<and> rmq_HealthCheck (rs_adapter s')"
proof -
  let ?s = "rmq_Start None (fresh_system bus)" and ?d = "(fresh_system bus)\<lparr>rs_routines := [Dialling False 1000]\<rparr>"
  have st: "?s = (fresh_system bus)\<lparr>rs_routines := [Waiting False 1000]\<rparr>"
    by (simp add: rmq_Start_def rmq_dial_def fresh_system_def rmq_NewAdapter_def initial_delay_def bus_def)
  have 1: "rmq_step ?s ?d" unfolding st
    using timer [of "(fresh_system bus)\<lparr>rs_routines := [Waiting False 1000]\<rparr>" "[]" False 1000 "[]"] by simp
  obtain u where u: "rmq_dial (Some willing) ?d = (u, True)" "ra_connected (rs_adapter u)" "rs_next ?d \<in> rs_live u"
    "ra_stopped (rs_adapter u) = ra_stopped (rs_adapter ?d)"
    using dial_succeeds [of ?d willing] willing_succeeds by (auto simp: fresh_system_def rmq_NewAdapter_def)
  let ?u = "u\<lparr>rs_routines := []\<rparr>"
  have 2: "rmq_step ?d ?u" using redial_ok [of ?d "[]" False 1000 "[]", OF _ u(1)] by simp
  let ?v = "?u\<lparr>rs_live := rs_live ?u - {0}\<rparr>"
  have 3: "rmq_step\<^sup>*\<^sup>* ?u ?v" by (rule r_into_rtranclp) (rule broker_loses)
  have live: "rs_live u = {0}" using u(1) by (auto simp: rmq_dial_def fresh_system_def Let_def split: prod.splits if_splits)
  have r: "rmq_step\<^sup>*\<^sup>* ?s ?u" using 1 2 by auto
  have "ra_connected (rs_adapter ?u)" "\<not> ra_stopped (rs_adapter ?v)"
    using u(2,4) by (simp_all add: fresh_system_def rmq_NewAdapter_def)
  from rmq_loss_unnoticed [OF r this(1) 3 this(2)] have "rs_routines ?v = [] \<and> rmq_HealthCheck (rs_adapter ?v)"
    using u(2) by (simp add: rmq_HealthCheck_def)
  moreover have "rs_live ?u \<noteq> {}" "rs_live ?v = {}" using live by simp_all
  ultimately show ?thesis using r 3 by blast
qed

end
