(* ===== verification/ChannelTypes.thy ===== *)
theory ChannelTypes
  imports Slack WhatsApp QueueChannels Scheduler Router Dispatcher
begin

text \<open>
  Channel metadata is an interface value in the code: each adapter recovers its own struct from a response by a
  type assertion and refuses the response when it fails. Here the channels are types, the metadata of a message
  is checked against the channel of its delivery context, and the judgement is kept from the normalisers through the
  router and the registry to the responses the dispatcher hands to the adapters.
\<close>

section \<open>Typing\<close>

fun meta_type :: "ChannelMeta \<Rightarrow> ChannelType option" where
  "meta_type (MetaWhatsApp _) = Some ChannelTypeWhatsApp"
| "meta_type (MetaSlack _) = Some ChannelTypeSlack"
| "meta_type (MetaCron _) = Some ChannelTypeCron"
| "meta_type (MetaMqtt _) = Some ChannelTypeMQTT"
| "meta_type (MetaRabbitMq _) = Some ChannelTypeRabbitMQ"
| "meta_type (RawMeta _) = None"

definition meta_fits :: "ChannelType \<Rightarrow> ChannelMeta option \<Rightarrow> bool" where
  "meta_fits ct meta \<longleftrightarrow> (\<exists>m. meta = Some m \<and> meta_type m = Some ct)"

lemma meta_fits_simps [simp]:
  "meta_fits ct (Some m) \<longleftrightarrow> meta_type m = Some ct" "\<not> meta_fits ct None"
  by (simp_all add: meta_fits_def)

text \<open>The messages the channels bring in, whatever the payload, the clock and the identifiers.\<close>

inductive from_channel :: "NipperMessage \<Rightarrow> bool" where
  from_slack: "slack_NormalizeInbound senv raw = Inr (Some m) \<Longrightarrow> from_channel m"
| from_whatsapp: "whatsapp_NormalizeInbound wenv raw = Inr (Some m) \<Longrightarrow> from_channel m"
| from_mqtt: "mqtt_NormalizeInbound mparse ienv cfg raw topic = Inr (Some m) \<Longrightarrow> from_channel m"
| from_rabbitmq: "rmq_NormalizeInbound rparse ienv raw imeta = Inr (Some m) \<Longrightarrow> from_channel m"
| from_cron: "fireJob fenv s job = Some m \<Longrightarrow> from_channel m"
| from_at: "fireAtJob fenv s atjob = Some m \<Longrightarrow> from_channel m"

definition well_typed :: "NipperMessage \<Rightarrow> bool" where
  "well_typed m \<longleftrightarrow> dc_ChannelType (nm_DeliveryContext m) = nm_ChannelType m \<and> meta_fits (nm_ChannelType m) (nm_Meta m)"

lemma channel_messages_typed: "from_channel m \<Longrightarrow> well_typed m"
proof (induction rule: from_channel.induct)
  case (from_slack senv raw m)
  then show ?case
    by (auto simp: slack_NormalizeInbound_def slack_message_of_def well_typed_def split: option.splits if_splits)
next
  case (from_whatsapp wenv raw m)
  then show ?case
    by (auto simp: whatsapp_NormalizeInbound_def well_typed_def Let_def split: option.splits if_splits prod.splits)
next
  case (from_mqtt mparse ienv cfg raw topic m)
  then show ?case
    by (auto simp: mqtt_NormalizeInbound_def well_typed_def Let_def split: sum.splits option.splits if_splits)
next
  case (from_rabbitmq rparse ienv raw imeta m)
  then show ?case
    by (auto simp: rmq_NormalizeInbound_def well_typed_def Let_def split: option.splits if_splits)
next
  case (from_cron fenv s job m)
  then show ?case by (auto simp: fireJob_def job_message_def well_typed_def split: if_splits)
next
  case (from_at fenv s atjob m)
  then show ?case by (auto simp: fireAtJob_def job_message_def well_typed_def split: if_splits)
qed

section \<open>From the router to the adapters\<close>

text \<open>Open deliveries are typed by the channel of their context.\<close>

definition typed_registry :: "Registry \<Rightarrow> bool" where
  "typed_registry r \<longleftrightarrow> (\<forall>k. \<forall>e \<in> set (pending r k). meta_fits (dc_ChannelType (de_Context e)) (de_Meta e))"

text \<open>
  What an adapter finds in a response handed to it: its own metadata, or none where the
  channel needs none.
\<close>

definition response_typed :: "ChannelType \<Rightarrow> NipperResponse \<Rightarrow> bool" where
  "response_typed ct resp \<longleftrightarrow> nr_ChannelType resp = ct \<and> dc_ChannelType (nr_DeliveryContext resp) = ct
     \<and> (meta_fits ct (nr_Meta resp) \<or> nr_Meta resp = None \<and> ct \<noteq> ChannelTypeWhatsApp \<and> ct \<noteq> ChannelTypeSlack)"

fun effect_typed :: "delivery_effect \<Rightarrow> bool" where
  "effect_typed (ResponseTried ct resp tries) = response_typed ct resp"
| "effect_typed _ = True"

abbreviation typed_log :: "delivery_effect list \<Rightarrow> bool" where
  "typed_log \<equiv> list_all effect_typed"

lemma response_fits:
  "meta_fits (dc_ChannelType dc) meta \<Longrightarrow> response_typed (dc_ChannelType dc) (response env ev dc meta text parts)"
  by (simp add: response_typed_def response_def)

lemma typed_registry_Register:
  "typed_registry r \<Longrightarrow> meta_fits (dc_ChannelType dc) meta \<Longrightarrow> typed_registry (Register r k dc meta parts now)"
  by (simp add: typed_registry_def pending_Register)

lemma in_set_tlD: "x \<in> set (tl xs) \<Longrightarrow> x \<in> set xs"
  by (cases xs) simp_all

lemma typed_registry_Consume:
  "typed_registry r \<Longrightarrow> typed_registry (fst (Consume r k))"
  unfolding typed_registry_def pending_Consume by (metis in_set_tlD)

lemma typed_registry_front:
  "typed_registry r \<Longrightarrow> snd (Consume r k) = Some (dc, meta, parts) \<Longrightarrow> meta_fits (dc_ChannelType dc) meta"
  by (cases "pending r k") (auto simp: typed_registry_def Consume_answer payload_def dest: spec [of _ k])

lemma broadcast_typed: "typed_log (ds_log d) \<Longrightarrow> typed_log (ds_log (broadcast_loop env ev t n targets d))"
proof (induction env ev t n targets d rule: broadcast_loop.induct)
  case (2 env ev t n target rest d)
  then show ?case
    by (auto simp: deliverWithRetry_def SplitN2_def Let_def response_typed_def response_def broadcast_meta_def zeroDeliveryContext_def
        split: option.splits)
qed simp

lemma route_event_typed:
  assumes "typed_log (ds_log d)" "meta_fits (dc_ChannelType dc) meta"
  shows "typed_log (ds_log (route_event env ev (dc, meta, parts) d))"
proof -
  have log: "ds_log (clearAccumulator k e) = ds_log e" "ds_log (accumulate env ev e) = ds_log e" for k e
    by (simp_all add: clearAccumulator_def accumulate_def Let_def)
  have err: "response_typed (dc_ChannelType dc) (assembleErrorResponse env ev dc meta)"
    using assms(2) by (simp add: assembleErrorResponse_def response_typed_def response_def Let_def)
  have fan: "typed_log (ds_log (fanOutToWebSocket env ev d))" using assms(1)
    by (auto simp: fanOutToWebSocket_def list_all_iff)
  have typing: "typed_log (ds_log (clearTypingSent ad k dc meta e)) = typed_log (ds_log e)"
    "typed_log (ds_log (maybeSendTypingIndicator ad k dc meta e)) = typed_log (ds_log e)" for ad k e
    by (simp_all add: clearTypingSent_def maybeSendTypingIndicator_def Let_def)
  show ?thesis
    using fan assms(2) err
    by (simp add: route_event_def deliverBroadcast_def handleStreamingEvent_def handleBufferedEvent_def log broadcast_typed
        deliverWithRetry_def assembleFinalResponse_def assembleResponseFromEvent_def response_fits typing Let_def split: option.split)
qed

lemma HandleEvent_typed:
  assumes "typed_registry (ds_registry d)" "typed_log (ds_log d)"
  shows "typed_registry (ds_registry (HandleEvent env d oev)) \<and> typed_log (ds_log (HandleEvent env d oev))"
proof (cases oev)
  case (Some ev)
  obtain reg found where rf: "(if is_terminal ev then Consume (ds_registry d) (ev_SessionKey ev)
      else (ds_registry d, Lookup (ds_registry d) (ev_SessionKey ev))) = (reg, found)" by force
  then have reg: "typed_registry reg" "found = Some (dc, meta, parts) \<Longrightarrow> meta_fits (dc_ChannelType dc) meta" for dc meta parts
    using assms(1) typed_registry_Consume [OF assms(1), of "ev_SessionKey ev"] typed_registry_front [OF assms(1), of "ev_SessionKey ev"]
    by (auto simp: Lookup_front split: if_splits)
  have "ds_registry (HandleEvent env d oev) = reg"
    using rf by (cases found) (auto simp: Some HandleEvent_def route_event_frame Let_def split: prod.splits)
  moreover have "typed_log (ds_log (HandleEvent env d oev))"
    using rf reg(2) assms(2) by (cases found) (auto simp: Some HandleEvent_def Let_def intro!: route_event_typed)
  ultimately show ?thesis using reg(1) by simp
qed (use assms in \<open>simp add: HandleEvent_def\<close>)

section \<open>Runs of the gateway\<close>

text \<open>The router and the dispatcher share the registry; an operation is a message that comes in or an event from an agent.\<close>

datatype gateway_op = Inbound route_env bool NipperMessage | Outbound deliver_env NipperEvent

fun gateway_apply :: "'s RouterDeps \<Rightarrow> 's Router \<times> Dispatcher \<Rightarrow> gateway_op \<Rightarrow> 's Router \<times> Dispatcher" where
  "gateway_apply deps (rt, d) (Inbound env notify m) =
     (let rt' = fst (handleNormalizedMessage deps env notify rt (Some m)) in (rt', d\<lparr>ds_registry := rt_registry rt'\<rparr>))"
| "gateway_apply deps (rt, d) (Outbound env ev) =
     (let d' = HandleEvent env d (Some ev) in (rt\<lparr>rt_registry := ds_registry d'\<rparr>, d'))"

definition gateway_run :: "'s RouterDeps \<Rightarrow> gateway_op list \<Rightarrow> 's Router \<times> Dispatcher \<Rightarrow> 's Router \<times> Dispatcher" where
  "gateway_run deps ops s = foldl (gateway_apply deps) s ops"

definition typed_state :: "'s Router \<times> Dispatcher \<Rightarrow> bool" where
  "typed_state s \<longleftrightarrow> ds_registry (snd s) = rt_registry (fst s) \<and> typed_registry (rt_registry (fst s)) \<and> typed_log (ds_log (snd s))"

lemma prepared_typed: "well_typed m \<Longrightarrow> meta_fits (dc_ChannelType (nm_DeliveryContext m)) (nm_Meta m)"
  by (simp add: well_typed_def)

lemma router_typed:
  assumes "typed_registry (rt_registry rt)" "well_typed m"
  shows "typed_registry (rt_registry (fst (handleNormalizedMessage deps env n rt (Some m))))"
proof -
  obtain rt' out where h: "handleNormalizedMessage deps env n rt (Some m) = (rt', out)" by force
  then show ?thesis
  proof (cases rule: handle_cases)
    case (stopped st)
    then show ?thesis using assms(1) h by simp
  next
    case (entered st0 st)
    have "rt' = fst (register_and_dedup deps env n (rt\<lparr>rt_store := st\<rparr>) (prepared deps env rt m))"
      using entered(1) by (metis fst_conv)
    then have "typed_registry (rt_registry rt')"
      using typed_registry_Register [OF assms(1) prepared_typed [OF assms(2)]] by (simp add: register_registry prepared_keeps)
    with h show ?thesis by simp
  qed
qed

definition typed_op :: "gateway_op \<Rightarrow> bool" where
  "typed_op op \<longleftrightarrow> (\<forall>env n m. op = Inbound env n m \<longrightarrow> well_typed m)"

lemma gateway_apply_typed: "typed_state s \<Longrightarrow> typed_op op \<Longrightarrow> typed_state (gateway_apply deps s op)"
  by (cases s; cases op) (auto simp: typed_state_def typed_op_def Let_def router_typed HandleEvent_typed)

lemma gateway_run_typed: "typed_state s \<Longrightarrow> list_all typed_op ops \<Longrightarrow> typed_state (gateway_run deps ops s)"
  unfolding gateway_run_def
proof (induction ops arbitrary: s)
  case (Cons op ops)
  then show ?case using gateway_apply_typed [of s op deps] by simp
qed simp

text \<open>
  C31: answers are well typed. However messages of the channels and events of agents interleave, every response
  handed to an adapter is for that adapter's channel, and the adapters that need metadata find it:
  WhatsApp and Slack always recover their own, so no answer is refused for missing metadata, and MQTT and RabbitMQ
  find their own or, for a broadcast, none.
\<close>

theorem answers_well_typed:
  assumes "\<forall>env n m. Inbound env n m \<in> set ops \<longrightarrow> from_channel m"
    and "rt_registry rt = NewRegistry" "(rt', d') = gateway_run deps ops (rt, NewDispatcher NewRegistry adapters)"
    and "ResponseTried ct resp tries \<in> set (ds_log d')"
  shows "nr_ChannelType resp = ct \<and> dc_ChannelType (nr_DeliveryContext resp) = ct
    \<and> (ct = ChannelTypeWhatsApp \<longrightarrow> extractWAMeta resp \<noteq> None) \<and> (ct = ChannelTypeSlack \<longrightarrow> extractSlackMeta resp \<noteq> None)
    \<and> (nr_Meta resp = None \<or> meta_fits ct (nr_Meta resp))"
proof -
  have "typed_state (rt, NewDispatcher NewRegistry adapters)"
    using assms(2) by (simp add: typed_state_def NewDispatcher_def typed_registry_def)
  moreover have "list_all typed_op ops"
    using assms(1) channel_messages_typed by (auto simp: list_all_iff typed_op_def)
  ultimately have "typed_state (rt', d')" unfolding assms(3) by (rule gateway_run_typed)
  with assms(4) have r: "response_typed ct resp" by (auto simp: typed_state_def list_all_iff)
  then show ?thesis
    by (auto simp: response_typed_def extractWAMeta_def extractSlackMeta_def meta_fits_def split: bool.split ChannelMeta.split
        elim!: meta_type.elims)
qed

definition news_job :: CronJob where
  "news_job = \<lparr>cj_ID = ''news'', cj_Schedule = ''0 0 7 * * *'', cj_UserID = ''usr_1'', cj_Prompt = ''news'', cj_NotifyChannels = [''whatsapp:1'']\<rparr>"

definition news_message :: NipperMessage where
  "news_message = job_message \<lparr>fe_uuid = ''m'', fe_now = 5, fe_now_text = ''t''\<rparr> ''cron'' ''news'' ''usr_1'' ''news'' [''whatsapp:1'']"

definition news_ops :: "gateway_op list" where
  "news_ops = [Inbound demo_env False news_message,
     Outbound demo_deliver (demo_event EventTypeDone (nm_SessionKey (prepared demo_deps demo_env demo_router news_message)) (Some ''hi''))]"

theorem answers_well_typed_witness:
  "\<exists>rt' d' resp tries.
     (rt', d') = gateway_run demo_deps news_ops
        (demo_router, NewDispatcher NewRegistry [''whatsapp'' \<mapsto> \<lparr>ad_TypingIndicator = True, ad_TypingIndicatorRemover = False\<rparr>])
     \<and> ResponseTried ''whatsapp'' resp tries \<in> set (ds_log d') \<and> extractWAMeta resp \<noteq> None"
proof -
  let ?k = "nm_SessionKey (prepared demo_deps demo_env demo_router news_message)"
  let ?d = "NewDispatcher NewRegistry [''whatsapp'' \<mapsto> \<lparr>ad_TypingIndicator = True, ad_TypingIndicatorRemover = False\<rparr>]"
  define rt1 where "rt1 = fst (handleNormalizedMessage demo_deps demo_env False demo_router (Some news_message))"
  have m: "nm_UserID news_message \<noteq> []" "nm_ChannelType news_message = ChannelTypeCron"
    "dc_ReplyMode (nm_DeliveryContext news_message) = ''broadcast''" "dc_NotifyChannels (nm_DeliveryContext news_message) = [''whatsapp:1'']"
    by (simp_all add: news_message_def job_message_def)
  have "pending (rt_registry rt1) ?k = [\<lparr>de_Context = nm_DeliveryContext news_message, de_Meta = nm_Meta news_message,
      de_InboundParts = mc_Parts (nm_Content news_message), de_CreatedAt = en_registered_at demo_env\<rparr>]"
    unfolding rt1_def cron_enters [OF m(1,2)] register_registry
    by (simp add: prepared_keeps pending_Register demo_router_def NewRouter_def)
  then obtain reg where c: "Consume (rt_registry rt1) ?k = (reg, Some (nm_DeliveryContext news_message, nm_Meta news_message, mc_Parts (nm_Content news_message)))"
    using Consume_answer [of "rt_registry rt1" ?k] by (cases "Consume (rt_registry rt1) ?k") (simp add: payload_def)
  obtain rt' d' where run: "(rt', d') = gateway_run demo_deps news_ops (demo_router, ?d)" by (metis surj_pair)
  then have "d' = HandleEvent demo_deliver (?d\<lparr>ds_registry := rt_registry rt1\<rparr>) (Some (demo_event EventTypeDone ?k (Some ''hi'')))"
    by (simp add: gateway_run_def news_ops_def rt1_def Let_def)
  then obtain resp tries where r: "ResponseTried ''whatsapp'' resp tries \<in> set (ds_log d')"
    by (simp add: HandleEvent_def demo_event_def is_terminal_def c route_event_def m fanOutToWebSocket_def deliverBroadcast_def
        SplitN2_def NewDispatcher_def deliverWithRetry_def clearAccumulator_def Let_def)
  have "from_channel news_message"
    by (rule from_cron [of "\<lparr>fe_uuid = ''m'', fe_now = 5, fe_now_text = ''t''\<rparr>" "SetHandler NewScheduler" news_job])
      (simp add: fireJob_def SetHandler_def news_message_def news_job_def)
  then have "\<forall>env n m. Inbound env n m \<in> set news_ops \<longrightarrow> from_channel m" by (simp add: news_ops_def)
  from answers_well_typed [OF this _ run r] have "extractWAMeta resp \<noteq> None" by (simp add: demo_router_def NewRouter_def)
  with run r show ?thesis by blast
qed

end
