(* ===== verification/Notify.thy ===== *)
theory Notify
  imports JobApi Dispatcher
begin

text \<open>
  The agents' notify endpoint (\<^verbatim>\<open>internal/gateway/agent_notify_handler.go\<close>): a text message to all
  channels of the user of the authenticated agent, and the cron adapter
  (\<^verbatim>\<open>internal/channels/cron/adapter.go\<close>) around the scheduler. What a delivery brings is
  only logged by the code, so the model lists the responses handed to the adapters.
\<close>

section \<open>The notify endpoint\<close>

datatype notify_reply = Notified | NotifyRefused nat string

record notify_env =
  ne_uuid :: string
  ne_now :: "nat \<Rightarrow> time"

definition notify_resolveAgentUser :: "(string \<Rightarrow> string) \<Rightarrow> Store \<Rightarrow> string \<Rightarrow> (nat \<times> string) + string" where
  "notify_resolveAgentUser hash st authorization =
     (let token = extractBearerToken authorization in
      if token = [] then Inl (401, ''unauthorized'')
      else case GetAgentByTokenHash st (hash token) of
             Inl _ \<Rightarrow> Inl (401, ''unauthorized'')
           | Inr agent \<Rightarrow>
               if ag_Status agent \<noteq> AgentStatusProvisioned \<and> ag_Status agent \<noteq> AgentStatusRegistered
               then Inl (403, ''agent revoked'') else Inr (ag_UserID agent))"

definition notify_response :: "notify_env \<Rightarrow> string \<Rightarrow> string \<Rightarrow> nat \<Rightarrow> ChannelType \<Rightarrow> string \<Rightarrow> NipperResponse" where
  "notify_response env userID message n ct channelID =
     \<lparr>nr_ResponseID = ne_uuid env, nr_SessionKey = ''system-notify-'' @ ne_uuid env, nr_UserID = userID, nr_ChannelType = ct,
      nr_ChannelIdentity = [], nr_Text = message, nr_Parts = [],
      nr_DeliveryContext = zeroDeliveryContext\<lparr>dc_ChannelType := ct, dc_ChannelID := channelID\<rparr>,
      nr_Meta = broadcast_meta ct channelID, nr_OriginMessageID = [], nr_Timestamp = ne_now env n, nr_ContextUsage = None\<rparr>"

fun notify_deliveries ::
  "(ChannelType \<Rightarrow> bool) \<Rightarrow> notify_env \<Rightarrow> string \<Rightarrow> string \<Rightarrow> nat \<Rightarrow> string list \<Rightarrow> (ChannelType \<times> NipperResponse) list" where
  "notify_deliveries adapters env userID message n [] = []"
| "notify_deliveries adapters env userID message n (target # targets) =
     (case SplitN2 target (CHR '':'') of
        [ct, channelID] \<Rightarrow>
          if \<not> adapters ct then notify_deliveries adapters env userID message n targets
          else (ct, notify_response env userID message n ct channelID)
                 # notify_deliveries adapters env userID message (Suc n) targets
      | _ \<Rightarrow> notify_deliveries adapters env userID message n targets)"

text \<open>The body is \<open>None\<close> when it does not decode.\<close>

definition notify_Handle ::
  "(string \<Rightarrow> string) \<Rightarrow> (ChannelType \<Rightarrow> bool) \<Rightarrow> notify_env \<Rightarrow> Store \<Rightarrow> string \<Rightarrow> string option
     \<Rightarrow> notify_reply \<times> (ChannelType \<times> NipperResponse) list" where
  "notify_Handle hash adapters env st authorization body =
     (case notify_resolveAgentUser hash st authorization of
        Inl (status, e) \<Rightarrow> (NotifyRefused status e, [])
      | Inr userID \<Rightarrow>
          (case body of
             None \<Rightarrow> (NotifyRefused 400 ''invalid JSON'', [])
           | Some message \<Rightarrow>
               if TrimSpace message = [] then (NotifyRefused 400 ''message is required'', [])
               else case resolveNotifyChannels st userID of
                      Inl _ \<Rightarrow> (NotifyRefused 500 ''failed to resolve delivery channels'', [])
                    | Inr targets \<Rightarrow> (Notified, notify_deliveries adapters env userID message 0 targets)))"

definition target_channel :: "string \<Rightarrow> ChannelType" where
  "target_channel target = takeWhile (\<lambda>c. c \<noteq> CHR '':'') target"

definition delivery_target :: "ChannelType \<times> NipperResponse \<Rightarrow> string" where
  "delivery_target p = fst p @ '':'' @ dc_ChannelID (nr_DeliveryContext (snd p))"

lemma SplitN2_target:
  assumes "c \<in> set s"
  shows "SplitN2 s c = [takeWhile (\<lambda>x. x \<noteq> c) s, tl (dropWhile (\<lambda>x. x \<noteq> c) s)]"
    "takeWhile (\<lambda>x. x \<noteq> c) s @ c # tl (dropWhile (\<lambda>x. x \<noteq> c) s) = s"
proof -
  show "SplitN2 s c = [takeWhile (\<lambda>x. x \<noteq> c) s, tl (dropWhile (\<lambda>x. x \<noteq> c) s)]" using assms by (simp add: SplitN2_def)
  have "dropWhile (\<lambda>x. x \<noteq> c) s = c # tl (dropWhile (\<lambda>x. x \<noteq> c) s)"
    using assms by (induction s) auto
  then show "takeWhile (\<lambda>x. x \<noteq> c) s @ c # tl (dropWhile (\<lambda>x. x \<noteq> c) s) = s"
    by (metis takeWhile_dropWhile_id)
qed

lemma notify_deliveries_targets:
  assumes "\<forall>t \<in> set targets. CHR '':'' \<in> set t"
  shows "map delivery_target (notify_deliveries ad env u m n targets) = filter (ad \<circ> target_channel) targets"
    "\<forall>(ct, r) \<in> set (notify_deliveries ad env u m n targets). nr_UserID r = u \<and> nr_Text r = m \<and> nr_ChannelType r = ct
       \<and> dc_ChannelType (nr_DeliveryContext r) = ct \<and> nr_Meta r = broadcast_meta ct (dc_ChannelID (nr_DeliveryContext r))"
  using assms
  by (induction targets arbitrary: n)
     (auto simp: SplitN2_target target_channel_def delivery_target_def notify_response_def)

lemma notify_loop_colon: "t \<in> set (notify_loop st u is) \<Longrightarrow> CHR '':'' \<in> set t"
  by (induction "is") (auto split: sum.splits bool.splits if_splits)

text \<open>
  A notification reaches the user of the agent on every channel and nobody else. Whatever is delivered was asked for
  with the token of an active agent, and the delivered targets are exactly, in order, those channel
  identities of that agent's own user that the user may use and the gateway has an adapter for; each
  response carries the message unchanged for that user, with the metadata its channel needs.
\<close>

theorem notify_reaches_own_channels:
  assumes "notify_Handle hash adapters env st authorization (Some message) = (reply, sent)" "reply = Notified \<or> sent \<noteq> []"
  shows "\<exists>agent targets. GetAgentByTokenHash st (hash (extractBearerToken authorization)) = Inr agent
    \<and> ag_Status agent \<in> {AgentStatusProvisioned, AgentStatusRegistered}
    \<and> resolveNotifyChannels st (ag_UserID agent) = Inr targets
    \<and> map delivery_target sent = filter (adapters \<circ> target_channel) targets
    \<and> (\<forall>(ct, r) \<in> set sent. nr_UserID r = ag_UserID agent \<and> nr_Text r = message \<and> dc_ChannelType (nr_DeliveryContext r) = ct
          \<and> nr_Meta r = broadcast_meta ct (dc_ChannelID (nr_DeliveryContext r)))"
proof -
  obtain agent where agent: "GetAgentByTokenHash st (hash (extractBearerToken authorization)) = Inr agent"
    "ag_Status agent \<in> {AgentStatusProvisioned, AgentStatusRegistered}"
    "notify_resolveAgentUser hash st authorization = Inr (ag_UserID agent)"
    using assms by (auto simp: notify_Handle_def notify_resolveAgentUser_def Let_def split: sum.splits prod.splits if_splits)
  then obtain targets where targets: "resolveNotifyChannels st (ag_UserID agent) = Inr targets"
    "sent = notify_deliveries adapters env (ag_UserID agent) message 0 targets"
    using assms by (auto simp: notify_Handle_def split: sum.splits if_splits)
  have "\<forall>t \<in> set targets. CHR '':'' \<in> set t"
    using targets(1) notify_loop_colon by (auto simp: resolveNotifyChannels_def split: sum.splits)
  from notify_deliveries_targets [OF this] agent targets show ?thesis by fastforce
qed

section \<open>The cron adapter\<close>

record CronAdapter =
  cr_cfgJobs :: "CronJob list"
  cr_initialJobs :: "CronJob list"
  cr_scheduler :: Scheduler
  cr_validator :: "user_validator option"

text \<open>The time zone is checked by the library; \<open>zone_ok\<close> is its answer.\<close>

definition cron_NewAdapter :: "bool \<Rightarrow> string \<Rightarrow> CronJob list \<Rightarrow> user_validator option \<Rightarrow> CronAdapter option" where
  "cron_NewAdapter zone_ok timezone jobs validator =
     (if timezone \<noteq> [] \<and> \<not> zone_ok then None
      else Some \<lparr>cr_cfgJobs = jobs, cr_initialJobs = [], cr_scheduler = NewScheduler, cr_validator = validator\<rparr>)"

definition SetInitialJobs :: "CronJob list \<Rightarrow> CronAdapter \<Rightarrow> CronAdapter" where
  "SetInitialJobs jobs a = a\<lparr>cr_initialJobs := jobs\<rparr>"

definition start_jobs :: "CronAdapter \<Rightarrow> CronJob list" where
  "start_jobs a = (if cr_initialJobs a \<noteq> [] then cr_initialJobs a else cr_cfgJobs a)"

text \<open>\<open>entries\<close> are the engine's answers to the registrations, in order.\<close>

definition cron_Start :: "nat option list \<Rightarrow> CronAdapter \<Rightarrow> CronAdapter" where
  "cron_Start entries a =
     a\<lparr>cr_scheduler := LoadJobs (cr_scheduler a) (zip (start_jobs a) entries) (cr_validator a)\<rparr>"

definition cron_HealthCheck :: "CronAdapter \<Rightarrow> bool" where
  "cron_HealthCheck a = (\<not> (0 < length (start_jobs a) \<and> JobCount (cr_scheduler a) = 0))"

datatype cron_config_error = BadTimezone | JobNoID | DuplicateJob string | JobNoSchedule string | JobNoUser string | JobNoPrompt string

fun validate_jobs :: "string set \<Rightarrow> CronJob list \<Rightarrow> cron_config_error option" where
  "validate_jobs seen [] = None"
| "validate_jobs seen (job # jobs) =
     (if cj_ID job = [] then Some JobNoID
      else if cj_ID job \<in> seen then Some (DuplicateJob (cj_ID job))
      else if cj_Schedule job = [] then Some (JobNoSchedule (cj_ID job))
      else if cj_UserID job = [] then Some (JobNoUser (cj_ID job))
      else if cj_Prompt job = [] then Some (JobNoPrompt (cj_ID job))
      else validate_jobs (insert (cj_ID job) seen) jobs)"

definition cron_Validate :: "bool \<Rightarrow> string \<Rightarrow> CronJob list \<Rightarrow> cron_config_error option" where
  "cron_Validate zone_ok timezone jobs =
     (if timezone \<noteq> [] \<and> \<not> zone_ok then Some BadTimezone else validate_jobs {} jobs)"

lemma validate_jobs_None:
  "validate_jobs seen jobs = None \<longleftrightarrow>
     distinct (map cj_ID jobs) \<and> set (map cj_ID jobs) \<inter> seen = {}
     \<and> (\<forall>j \<in> set jobs. cj_ID j \<noteq> [] \<and> cj_Schedule j \<noteq> [] \<and> cj_UserID j \<noteq> [] \<and> cj_Prompt j \<noteq> [])"
  by (induction jobs arbitrary: seen) auto

lemma load_valid_jobs:
  assumes "\<forall>p \<in> set ps. cj_ID (fst p) \<noteq> [] \<and> cj_Schedule (fst p) \<noteq> [] \<and> cj_UserID (fst p) \<noteq> [] \<and> cj_Prompt (fst p) \<noteq> []
      \<and> snd p \<noteq> None \<and> (case v of None \<Rightarrow> True | Some f \<Rightarrow> f (cj_UserID (fst p)) = Some True)"
  shows "sc_jobs (fold (load_job v) ps s) = sc_jobs s @ map fst ps"
  using assms by (induction ps arbitrary: s) (auto simp: load_job_def register_entry_def Let_def split: option.splits)

text \<open>
  A valid configuration is scheduled completely: when the check of the configuration passes, the engine takes every
  schedule and every user is enabled, starting the adapter lists exactly the configured jobs and the health
  check passes.
\<close>

theorem valid_jobs_scheduled:
  assumes "cron_Validate zone_ok timezone jobs = None" "cron_NewAdapter zone_ok timezone jobs v = Some a"
    and "length entries = length jobs" "None \<notin> set entries"
    and "\<forall>f. v = Some f \<longrightarrow> (\<forall>j \<in> set jobs. f (cj_UserID j) = Some True)"
  shows "Jobs (cr_scheduler (cron_Start entries a)) = jobs \<and> cron_HealthCheck (cron_Start entries a)"
proof -
  have a: "start_jobs a = jobs" "cr_validator a = v" "cr_cfgJobs a = jobs" "cr_initialJobs a = []"
    using assms(2) by (auto simp: cron_NewAdapter_def start_jobs_def split: if_splits)
  have ok: "\<forall>j \<in> set jobs. cj_ID j \<noteq> [] \<and> cj_Schedule j \<noteq> [] \<and> cj_UserID j \<noteq> [] \<and> cj_Prompt j \<noteq> []"
    using assms(1) by (auto simp: cron_Validate_def validate_jobs_None split: if_splits)
  have "sc_jobs (fold (load_job v) (zip jobs entries) ((cr_scheduler a)\<lparr>sc_jobs := []\<rparr>))
      = sc_jobs ((cr_scheduler a)\<lparr>sc_jobs := []\<rparr>) @ map fst (zip jobs entries)"
  proof (rule load_valid_jobs, rule ballI)
    fix p assume p: "p \<in> set (zip jobs entries)"
    then have "fst p \<in> set jobs" "snd p \<in> set entries" by (metis prod.collapse set_zip_leftD, metis prod.collapse set_zip_rightD)
    moreover from this(2) have "snd p \<noteq> None" using assms(4) by metis
    ultimately show "cj_ID (fst p) \<noteq> [] \<and> cj_Schedule (fst p) \<noteq> [] \<and> cj_UserID (fst p) \<noteq> [] \<and> cj_Prompt (fst p) \<noteq> []
      \<and> snd p \<noteq> None \<and> (case v of None \<Rightarrow> True | Some f \<Rightarrow> f (cj_UserID (fst p)) = Some True)"
      using ok assms(5) by (auto split: option.split)
  qed
  then have "Jobs (cr_scheduler (cron_Start entries a)) = jobs"
    using assms(3) by (simp add: Jobs_def cron_Start_def LoadJobs_def a)
  then show ?thesis using a by (auto simp: cron_HealthCheck_def JobCount_def Jobs_def start_jobs_def cron_Start_def)
qed

end
