(* ===== verification/GoFloat.thy ===== *)
theory GoFloat
  imports GoStrings "HOL-Library.Log_Nat"
begin

text \<open>
  Go's \<^verbatim>\<open>float64\<close> arithmetic as the modelled code uses it: finite numbers are rationals, and every operation
  rounds its exact result to the nearest double, ties to even. Subnormal and infinite results do not occur
  with the magnitudes involved (token counts, durations, prices); fused multiply-add, which Go permits on some
  architectures, is not used (amd64). \<open>float_bits\<close> gives the 64 bits of a positive number or zero, \<open>Fixed n\<close> is
  the verb \<^verbatim>\<open>%.nf\<close>.
\<close>

section \<open>Rounding\<close>

definition pow2 :: "int \<Rightarrow> rat" where
  "pow2 e = (if 0 \<le> e then 2 ^ nat e else 1 / 2 ^ nat (- e))"

definition round_even :: "rat \<Rightarrow> int" where
  "round_even x =
     (let f = \<lfloor>x\<rfloor>; d = x - of_int f
      in if d < 1 / 2 then f else if 1 / 2 < d then f + 1 else if even f then f else f + 1)"

text \<open>The exponent of a positive rational: \<open>pow2 e \<le> x < pow2 (e + 1)\<close>.\<close>

definition exponent :: "rat \<Rightarrow> int" where
  "exponent x =
     (let (a, b) = quotient_of x; e = bitlen a - bitlen b in if pow2 e \<le> x then e else e - 1)"

definition rnd :: "rat \<Rightarrow> rat" where
  "rnd x =
     (if x = 0 then 0
      else let e = exponent \<bar>x\<bar> - 52 in of_int (round_even (x / pow2 e)) * pow2 e)"

definition fadd :: "rat \<Rightarrow> rat \<Rightarrow> rat" where "fadd x y = rnd (x + y)"
definition fsub :: "rat \<Rightarrow> rat \<Rightarrow> rat" where "fsub x y = rnd (x - y)"
definition fmul :: "rat \<Rightarrow> rat \<Rightarrow> rat" where "fmul x y = rnd (x * y)"
definition fdiv :: "rat \<Rightarrow> rat \<Rightarrow> rat" where "fdiv x y = rnd (x / y)"

definition of_int64 :: "int \<Rightarrow> rat" where "of_int64 n = rnd (of_int n)"

section \<open>Bits and digits\<close>

definition float_bits :: "rat \<Rightarrow> 64 word" where
  "float_bits x =
     (if x \<le> 0 then 0
      else let e = exponent x; m = \<lfloor>x / pow2 (e - 52)\<rfloor> in of_int ((e + 1023) * 2 ^ 52 + (m - 2 ^ 52)))"

fun pad_zeros :: "nat \<Rightarrow> string \<Rightarrow> string" where
  "pad_zeros n s = replicate (n - length s) (CHR ''0'') @ s"

definition Fixed :: "nat \<Rightarrow> rat \<Rightarrow> string" where
  "Fixed n x =
     (let k = nat \<bar>round_even (x * 10 ^ n)\<bar>; s = show_nat (k div 10 ^ n)
      in (if x < 0 then ''-'' else []) @ s @ (if n = 0 then [] else ''.'' @ pad_zeros n (show_nat (k mod 10 ^ n))))"

section \<open>Accuracy\<close>

lemma pow2_pos [simp]: "0 < pow2 e"
  by (simp add: pow2_def)

lemma pow2_nz [simp]: "pow2 e \<noteq> 0"
  using pow2_pos [of e] by linarith

lemma pow2_add: "pow2 (a + b) = pow2 a * pow2 b"
proof -
  have powi: "pow2 e = power_int 2 e" for e
    by (cases "0 \<le> e") (simp_all add: pow2_def power_int_def power_one_over inverse_eq_divide)
  show ?thesis by (simp add: powi power_int_add)
qed

lemma pow2_0 [simp]: "pow2 0 = 1" and pow2_1 [simp]: "pow2 1 = 2"
  by (simp_all add: pow2_def)

lemma bitlen_between: "0 < a \<Longrightarrow> pow2 (bitlen a - 1) \<le> of_int a \<and> of_int a < pow2 (bitlen a)"
proof -
  assume a: "0 < a"
  then have "2 ^ nat (bitlen a - 1) \<le> a \<and> a < 2 ^ nat (bitlen a)" by (rule bitlen_bounds)
  moreover have "0 < bitlen a" using a bitlen_le_iff_power [of a 0] bitlen_nonneg [of a] by force
  moreover have "rat_of_int (2 ^ nat (bitlen a - 1)) \<le> of_int a" "of_int a < rat_of_int (2 ^ nat (bitlen a))"
    using calculation(1) by (simp_all only: of_int_le_iff of_int_less_iff)
  ultimately show ?thesis by (simp add: pow2_def)
qed

lemma exponent_between:
  assumes "0 < x"
  shows "pow2 (exponent x) \<le> x \<and> x < pow2 (exponent x + 1)"
proof -
  obtain a b where q: "quotient_of x = (a, b)" by fastforce
  then have b: "0 < b" by (rule quotient_of_denom_pos)
  have x: "x = of_int a / of_int b" using quotient_of_div [OF q] .
  then have a: "0 < a" using assms b by (simp add: zero_less_divide_iff)
  let ?e = "bitlen a - bitlen b"
  note ba = bitlen_between [OF a] and bb = bitlen_between [OF b]
  have up: "x < pow2 (?e + 1)"
  proof -
    have "pow2 (bitlen a) = pow2 (?e + 1) * pow2 (bitlen b - 1)" by (simp flip: pow2_add)
    also have "\<dots> \<le> pow2 (?e + 1) * of_int b" using bb by (simp add: mult_left_mono order_less_imp_le)
    finally show ?thesis using ba b by (simp add: x divide_less_eq)
  qed
  have low: "pow2 (?e - 1) \<le> x"
  proof -
    have "pow2 (?e - 1) * of_int b \<le> pow2 (?e - 1) * pow2 (bitlen b)"
      using bb by (simp add: mult_left_mono order_less_imp_le)
    also have "\<dots> = pow2 (bitlen a - 1)" by (simp flip: pow2_add)
    finally show ?thesis using ba b by (simp add: x le_divide_eq)
  qed
  show ?thesis using up low by (auto simp: exponent_def q Let_def)
qed

lemma round_even_close: "\<bar>of_int (round_even x) - x\<bar> \<le> 1 / 2"
proof -
  have "of_int \<lfloor>x\<rfloor> \<le> x" "x < of_int \<lfloor>x\<rfloor> + 1" by linarith+
  then show ?thesis by (auto simp: round_even_def Let_def abs_le_iff)
qed

text \<open>Rounding errs by at most one part in \<open>2\<^sup>53\<close>.\<close>

lemma rnd_accurate: "\<bar>rnd x - x\<bar> \<le> \<bar>x\<bar> * pow2 (- 53)"
proof (cases "x = 0")
  case False
  define e where "e = exponent \<bar>x\<bar> - 52"
  define k where "k = round_even (x / pow2 e)"
  have "rnd x = of_int k * pow2 e" by (simp add: rnd_def False e_def k_def Let_def)
  then have "rnd x - x = (of_int k - x / pow2 e) * pow2 e" by (simp add: left_diff_distrib)
  then have "\<bar>rnd x - x\<bar> = \<bar>of_int k - x / pow2 e\<bar> * pow2 e" by (simp add: abs_mult abs_of_pos)
  also have "\<dots> \<le> 1 / 2 * pow2 e" unfolding k_def using round_even_close by (intro mult_right_mono) (auto simp: order_less_imp_le)
  also have "\<dots> = pow2 (exponent \<bar>x\<bar>) * pow2 (- 53)"
  proof -
    have "pow2 e = pow2 (exponent \<bar>x\<bar> + - 53) * pow2 1" unfolding e_def by (subst pow2_add [symmetric]) simp
    then show ?thesis by (simp flip: pow2_add)
  qed
  also have "\<dots> \<le> \<bar>x\<bar> * pow2 (- 53)" using exponent_between [of "\<bar>x\<bar>"] False by simp
  finally show ?thesis .
qed (simp add: rnd_def)

lemma rnd_0 [simp]: "rnd 0 = 0" by (simp add: rnd_def)

lemma pow2_neg53_less: "pow2 (- 53) < 1" by (simp add: pow2_def)

lemma rnd_nonneg: "0 \<le> x \<Longrightarrow> 0 \<le> rnd x"
proof -
  assume x: "0 \<le> x"
  have "x - rnd x \<le> x * pow2 (- 53)" using rnd_accurate [of x] x by (simp add: abs_le_iff)
  also have "\<dots> \<le> x" using x pow2_neg53_less by (simp add: mult_left_le order_less_imp_le)
  finally show ?thesis by simp
qed

end
