(* ===== verification/Usage.thy ===== *)
theory Usage
  imports GoFloat ReplyText Prelude "HOL-Library.Multiset"
begin

text \<open>
  Token accounting of the agent (\<^verbatim>\<open>internal/agent/usage.go\<close>): the accumulator of one request, the per-session
  tracker with its report, the footer and the cost estimate. The price table is a Go map, so the order in which
  \<^verbatim>\<open>estimateCost\<close> visits it is an argument; \<open>rfc3339\<close> is \<^verbatim>\<open>time.Format\<close>.
\<close>

section \<open>One request\<close>

record requestTokenAccumulator =
  ta_promptTokens :: int
  ta_completionTokens :: int
  ta_steps :: int
  ta_lastPromptTokens :: int
  ta_lastTTFT :: duration
  ta_lastGenDur :: duration

definition newAccumulator :: requestTokenAccumulator where
  "newAccumulator = \<lparr>ta_promptTokens = 0, ta_completionTokens = 0, ta_steps = 0, ta_lastPromptTokens = 0,
     ta_lastTTFT = 0, ta_lastGenDur = 0\<rparr>"

definition accum_Add :: "requestTokenAccumulator \<Rightarrow> int \<Rightarrow> int \<Rightarrow> requestTokenAccumulator" where
  "accum_Add a prompt completion =
     a\<lparr>ta_promptTokens := to_int64 (ta_promptTokens a + prompt),
       ta_completionTokens := to_int64 (ta_completionTokens a + completion),
       ta_steps := to_int32 (ta_steps a + 1), ta_lastPromptTokens := prompt\<rparr>"

definition AddTiming :: "requestTokenAccumulator \<Rightarrow> duration \<Rightarrow> duration \<Rightarrow> requestTokenAccumulator" where
  "AddTiming a ttft genDuration = a\<lparr>ta_lastTTFT := ttft, ta_lastGenDur := genDuration\<rparr>"

definition Totals :: "requestTokenAccumulator \<Rightarrow> int \<times> int \<times> int \<times> int" where
  "Totals a = (ta_promptTokens a, ta_completionTokens a, ta_steps a, ta_lastPromptTokens a)"

definition LastTiming :: "requestTokenAccumulator \<Rightarrow> duration \<times> duration" where
  "LastTiming a = (ta_lastTTFT a, ta_lastGenDur a)"

section \<open>Cost\<close>

type_synonym prices = "(string \<times> rat \<times> rat) list"

definition modelCostPerToken :: prices where
  "modelCostPerToken =
     [(''gpt-4o'', 25 / 10^7, 10 / 10^6),
      (''gpt-4o-mini'', 15 / 10^8, 6 / 10^7),
      (''gpt-4-turbo'', 10 / 10^6, 30 / 10^6),
      (''gpt-4'', 30 / 10^6, 60 / 10^6),
      (''gpt-3.5-turbo'', 5 / 10^7, 15 / 10^7),
      (''claude-sonnet'', 3 / 10^6, 15 / 10^6),
      (''claude-haiku'', 25 / 10^8, 125 / 10^8),
      (''claude-opus'', 15 / 10^6, 75 / 10^6),
      (''o1'', 15 / 10^6, 60 / 10^6),
      (''o1-mini'', 3 / 10^6, 12 / 10^6),
      (''o3-mini'', 11 / 10^7, 44 / 10^7),
      (''gemini-1.5-pro'', 125 / 10^8, 5 / 10^6),
      (''gemini-1.5-flash'', 75 / 10^9, 3 / 10^7),
      (''mistral-large'', 2 / 10^6, 6 / 10^6),
      (''mistral-small'', 2 / 10^7, 6 / 10^7)]"

definition estimateCost :: "prices \<Rightarrow> string \<Rightarrow> int \<Rightarrow> int \<Rightarrow> rat" where
  "estimateCost visited model inputTokens outputTokens =
     (case find_first (\<lambda>e. Contains (ToLower model) (fst e)) visited of
        None \<Rightarrow> 0
      | Some (_, c_in, c_out) \<Rightarrow>
          fadd (fmul (of_int64 inputTokens) (rnd c_in)) (fmul (of_int64 outputTokens) (rnd c_out)))"

section \<open>The tracker\<close>

record SessionUsage =
  su_TotalInputTokens :: int
  su_TotalOutputTokens :: int
  su_TotalRequests :: int
  su_EstimatedCostUSD :: rat
  su_ContextWindowSize :: int
  su_LastUsagePercent :: rat
  su_LastPromptTokens :: int
  su_LastRequestInputTokens :: int
  su_StartedAt :: time

record UsageTracker =
  ut_sessions :: "string \<rightharpoonup> SessionUsage"
  ut_model :: string
  ut_contextWindowMax :: int

definition NewUsageTracker :: "string \<Rightarrow> int \<Rightarrow> UsageTracker" where
  "NewUsageTracker model window = \<lparr>ut_sessions = Map.empty, ut_model = model, ut_contextWindowMax = window\<rparr>"

definition newSessionUsage :: "time \<Rightarrow> SessionUsage" where
  "newSessionUsage now = \<lparr>su_TotalInputTokens = 0, su_TotalOutputTokens = 0, su_TotalRequests = 0,
     su_EstimatedCostUSD = 0, su_ContextWindowSize = 0, su_LastUsagePercent = 0, su_LastPromptTokens = 0,
     su_LastRequestInputTokens = 0, su_StartedAt = now\<rparr>"

definition usage_percent :: "int \<Rightarrow> int \<Rightarrow> rat" where
  "usage_percent lastPrompt window =
     (let p = fmul (fdiv (of_int64 lastPrompt) (of_int64 window)) 100 in if 100 < p then 100 else p)"

definition Record ::
  "prices \<Rightarrow> time \<Rightarrow> UsageTracker \<Rightarrow> string \<Rightarrow> int \<Rightarrow> int \<Rightarrow> int \<Rightarrow> UsageTracker" where
  "Record visited now t sessionKey inputTokens outputTokens lastPromptTokens =
     (let u = (case ut_sessions t sessionKey of None \<Rightarrow> newSessionUsage now | Some u \<Rightarrow> u);
          u1 = u\<lparr>su_TotalInputTokens := to_int64 (su_TotalInputTokens u + inputTokens),
                 su_TotalOutputTokens := to_int64 (su_TotalOutputTokens u + outputTokens),
                 su_TotalRequests := to_int64 (su_TotalRequests u + 1),
                 su_EstimatedCostUSD := fadd (su_EstimatedCostUSD u) (estimateCost visited (ut_model t) inputTokens outputTokens),
                 su_LastRequestInputTokens := inputTokens\<rparr>;
          u2 = (if 0 < ut_contextWindowMax t
                then u1\<lparr>su_ContextWindowSize := ut_contextWindowMax t, su_LastPromptTokens := lastPromptTokens,
                        su_LastUsagePercent := usage_percent lastPromptTokens (ut_contextWindowMax t)\<rparr>
                else u1)
      in t\<lparr>ut_sessions := (ut_sessions t)(sessionKey \<mapsto> u2)\<rparr>)"

definition usage_Get :: "UsageTracker \<Rightarrow> string \<Rightarrow> SessionUsage option" where
  "usage_Get t sessionKey = ut_sessions t sessionKey"

definition usage_Reset :: "UsageTracker \<Rightarrow> string \<Rightarrow> UsageTracker" where
  "usage_Reset t sessionKey = t\<lparr>ut_sessions := (ut_sessions t)(sessionKey := None)\<rparr>"

definition FormatUsage :: "(time \<Rightarrow> string) \<Rightarrow> UsageTracker \<Rightarrow> string \<Rightarrow> string" where
  "FormatUsage rfc3339 t sessionKey =
     (case usage_Get t sessionKey of
        None \<Rightarrow> ''No usage data for this session.''
      | Some u \<Rightarrow>
          ''*Session Usage*'' @ newline @ newline
          @ ''- Model: '' @ ut_model t @ newline
          @ ''- Session started: '' @ rfc3339 (su_StartedAt u) @ newline
          @ ''- Total requests: '' @ show_int (su_TotalRequests u) @ newline
          @ ''- Input tokens: '' @ show_int (su_TotalInputTokens u) @ newline
          @ ''- Output tokens: '' @ show_int (su_TotalOutputTokens u) @ newline
          @ ''- Total tokens: '' @ show_int (to_int64 (su_TotalInputTokens u + su_TotalOutputTokens u)) @ newline
          @ (if 0 < su_ContextWindowSize u
             then ''- Context window: '' @ show_int (su_ContextWindowSize u) @ '' tokens'' @ newline
                  @ ''- Last context usage: '' @ Fixed 1 (su_LastUsagePercent u) @ ''%'' @ newline
             else [])
          @ ''- Estimated cost: $'' @ Fixed 6 (su_EstimatedCostUSD u) @ '' USD'' @ newline)"

section \<open>The footer\<close>

text \<open>\<^verbatim>\<open>Duration.Seconds\<close>.\<close>

definition Seconds :: "duration \<Rightarrow> rat" where
  "Seconds d = fadd (of_int64 (d div Second)) (fdiv (of_int64 (d mod Second)) (of_int64 Second))"

record FooterTiming =
  ft_TTFT :: duration
  ft_GenerationDuration :: duration

definition middot :: string where "middot = '' '' @ [CHR 0xC2, CHR 0xB7] @ '' ''"

definition token_rate :: "int \<Rightarrow> rat \<Rightarrow> FooterTiming option \<Rightarrow> rat" where
  "token_rate completionTokens secs timing =
     (case timing of
        Some t \<Rightarrow>
          if 0 < ft_GenerationDuration t \<and> 0 < completionTokens
          then fdiv (of_int64 completionTokens) (Seconds (ft_GenerationDuration t))
          else if 0 < secs \<and> 0 < completionTokens then fdiv (of_int64 completionTokens) secs else 0
      | None \<Rightarrow> if 0 < secs \<and> 0 < completionTokens then fdiv (of_int64 completionTokens) secs else 0)"

definition FormatResponseFooter ::
  "prices \<Rightarrow> string \<Rightarrow> int \<Rightarrow> int \<Rightarrow> int \<Rightarrow> int \<Rightarrow> int \<Rightarrow> int \<Rightarrow> duration \<Rightarrow> FooterTiming option \<Rightarrow> string" where
  "FormatResponseFooter visited model promptTokens completionTokens steps lastPromptTokens contextWindowMax
     compactionThresholdPct elapsed timing =
     (let secs = Seconds elapsed; total = to_int64 (promptTokens + completionTokens);
          rate = token_rate completionTokens secs timing; cost = estimateCost visited model promptTokens completionTokens;
          fill = fmul (fdiv (of_int64 lastPromptTokens) (of_int64 contextWindowMax)) 100
      in newline @ newline @ [CHR 0xE2, CHR 0x80, CHR 0x94] @ newline @ Fixed 2 secs @ ''s''
         @ (if 0 < total
            then middot @ show_int total @ '' tokens (in: '' @ show_int promptTokens @ '', out: '' @ show_int completionTokens @ '')''
              @ (if 1 < steps then middot @ show_int steps @ '' steps'' else [])
              @ (if 0 < rate then middot @ Fixed 0 rate @ '' tok/s'' else [])
              @ (case timing of
                   Some t \<Rightarrow> if 0 < ft_TTFT t then middot @ ''TTFT: '' @ Fixed 2 (Seconds (ft_TTFT t)) @ ''s'' else []
                 | None \<Rightarrow> [])
              @ (if 0 < contextWindowMax \<and> 0 < lastPromptTokens
                 then middot @ ''Ctx: '' @ Fixed 0 fill @ ''%''
                      @ (if 0 < compactionThresholdPct then ''/'' @ show_int compactionThresholdPct @ ''%'' else [])
                 else [])
              @ (if 0 < cost then middot @ ''$'' @ Fixed 4 cost else [])
            else []))"

section \<open>What the tracker knows\<close>

datatype usage_op = RecordOp prices time string int int int | ResetOp string

fun usage_run :: "UsageTracker \<Rightarrow> usage_op list \<Rightarrow> UsageTracker" where
  "usage_run t [] = t"
| "usage_run t (RecordOp v now k i out l # ops) = usage_run (Record v now t k i out l) ops"
| "usage_run t (ResetOp k # ops) = usage_run (usage_Reset t k) ops"

text \<open>The requests of a session since its last reset, each with its estimated cost.\<close>

record usage_request =
  ur_at :: time
  ur_in :: int
  ur_out :: int
  ur_last :: int
  ur_cost :: rat

fun recorded :: "string \<Rightarrow> string \<Rightarrow> usage_op list \<Rightarrow> usage_request list \<Rightarrow> usage_request list" where
  "recorded model k [] acc = acc"
| "recorded model k (RecordOp v now k' i out l # ops) acc =
     recorded model k ops
       (if k' = k
        then acc @ [\<lparr>ur_at = now, ur_in = i, ur_out = out, ur_last = l, ur_cost = estimateCost v model i out\<rparr>]
        else acc)"
| "recorded model k (ResetOp k' # ops) acc = recorded model k ops (if k' = k then [] else acc)"

text \<open>The usage the requests \<open>rs\<close> amount to.\<close>

definition usage_of :: "int \<Rightarrow> usage_request list \<Rightarrow> SessionUsage option" where
  "usage_of window rs =
     (if rs = [] then None
      else Some
        \<lparr>su_TotalInputTokens = to_int64 (sum_list (map ur_in rs)),
         su_TotalOutputTokens = to_int64 (sum_list (map ur_out rs)),
         su_TotalRequests = to_int64 (int (length rs)),
         su_EstimatedCostUSD = foldl fadd 0 (map ur_cost rs),
         su_ContextWindowSize = (if 0 < window then window else 0),
         su_LastUsagePercent = (if 0 < window then usage_percent (ur_last (last rs)) window else 0),
         su_LastPromptTokens = (if 0 < window then ur_last (last rs) else 0),
         su_LastRequestInputTokens = ur_in (last rs),
         su_StartedAt = ur_at (hd rs)\<rparr>)"

lemma Record_keeps [simp]:
  "ut_contextWindowMax (Record v now t k i out l) = ut_contextWindowMax t" "ut_model (Record v now t k i out l) = ut_model t"
  "ut_contextWindowMax (usage_Reset t k) = ut_contextWindowMax t" "ut_model (usage_Reset t k) = ut_model t"
  by (simp_all add: Record_def usage_Reset_def Let_def)

lemma Record_usage_of:
  assumes "usage_Get t k = usage_of (ut_contextWindowMax t) rs"
  shows "usage_Get (Record v now t k' i out l) k = usage_of (ut_contextWindowMax t)
    (if k' = k then rs @ [\<lparr>ur_at = now, ur_in = i, ur_out = out, ur_last = l, ur_cost = estimateCost v (ut_model t) i out\<rparr>]
     else rs)"
  using assms
  by (cases "rs = []") (auto simp: usage_Get_def Record_def usage_of_def newSessionUsage_def Let_def algebra_simps)

lemma Reset_usage_of:
  "usage_Get t k = usage_of (ut_contextWindowMax t) rs
   \<Longrightarrow> usage_Get (usage_Reset t k') k = usage_of (ut_contextWindowMax t) (if k' = k then [] else rs)"
  by (simp add: usage_Get_def usage_Reset_def usage_of_def)

lemma usage_run_of:
  "usage_Get t k = usage_of (ut_contextWindowMax t) rs
   \<Longrightarrow> usage_Get (usage_run t ops) k = usage_of (ut_contextWindowMax t) (recorded (ut_model t) k ops rs)"
proof (induction t ops arbitrary: rs rule: usage_run.induct)
  case (2 t v now k' i out l ops)
  show ?case using "2.IH" Record_usage_of [OF "2.prems", of v now k' i out l] by simp
next
  case (3 t k' ops)
  show ?case using "3.IH" Reset_usage_of [OF "3.prems", of k'] by simp
qed simp

text \<open>
  C37: whatever was recorded and reset, what the tracker reports of a session is determined by
  the requests recorded for it since its last reset: the token and request totals are their sums
  in 64-bit arithmetic (the exact sums as long as these fit 64 bits), the estimated cost is the
  floating-point sum of the requests' costs in order, the context figures and the last input are
  those of the last request, the start is the first request's time; without a request there is no
  usage. Requests of other sessions have no influence.
\<close>

theorem usage_totals_exact:
  "usage_Get (usage_run (NewUsageTracker model window) ops) k = usage_of window (recorded model k ops [])"
  using usage_run_of [of "NewUsageTracker model window" k "[]" ops]
  by (simp add: NewUsageTracker_def usage_Get_def usage_of_def)

lemma rnd_band: "0 \<le> x \<Longrightarrow> x * (999 / 1000) \<le> rnd x \<and> rnd x \<le> x * (1001 / 1000)"
proof -
  assume x: "0 \<le> x"
  have p: "pow2 (- 53) \<le> 1 / 1000" by (simp add: pow2_def)
  have h: "\<bar>rnd x - x\<bar> \<le> x * (1 / 1000)"
    using rnd_accurate [of x] mult_left_mono [OF p x] x by linarith
  show ?thesis using abs_le_D1 [OF h] abs_le_D2 [OF h] by (simp add: algebra_simps)
qed

lemma fmul_band:
  assumes "0 \<le> a" "a \<le> x" "x \<le> b" "0 \<le> c" "c \<le> y" "y \<le> d"
  shows "a * c * (999 / 1000) \<le> fmul x y \<and> fmul x y \<le> b * d * (1001 / 1000)"
proof -
  have "a * c \<le> x * y" "x * y \<le> b * d" using assms by (auto intro!: mult_mono)
  moreover have "0 \<le> x * y" using assms by simp
  ultimately show ?thesis using rnd_band [of "x * y"] unfolding fmul_def by (simp add: algebra_simps)
qed

lemma fadd_band:
  assumes "0 \<le> a" "a \<le> x" "x \<le> b" "0 \<le> c" "c \<le> y" "y \<le> d"
  shows "(a + c) * (999 / 1000) \<le> fadd x y \<and> fadd x y \<le> (b + d) * (1001 / 1000)"
  using assms rnd_band [of "x + y"] unfolding fadd_def by (simp add: algebra_simps)

lemma cost_band:
  assumes "0 \<le> p" "0 \<le> q"
  shows "(p + q) * 1000 * (99 / 100) \<le> fadd (fmul (of_int64 1000) (rnd p)) (fmul (of_int64 1000) (rnd q))
    \<and> fadd (fmul (of_int64 1000) (rnd p)) (fmul (of_int64 1000) (rnd q)) \<le> (p + q) * 1000 * (101 / 100)"
proof -
  have k: "999 \<le> of_int64 1000" "of_int64 1000 \<le> 1001" using rnd_band [of 1000] by (simp_all add: of_int64_def)
  have m: "999 * (x * (999 / 1000)) * (999 / 1000) \<le> fmul (of_int64 1000) (rnd x)
      \<and> fmul (of_int64 1000) (rnd x) \<le> 1001 * (x * (1001 / 1000)) * (1001 / 1000)" if "0 \<le> x" for x
    using fmul_band [of 999 "of_int64 1000" 1001 "x * (999 / 1000)" "rnd x" "x * (1001 / 1000)"] k rnd_band [OF that] that by simp
  show ?thesis
    using fadd_band [of "999 * (p * (999 / 1000)) * (999 / 1000)" "fmul (of_int64 1000) (rnd p)" "1001 * (p * (1001 / 1000)) * (1001 / 1000)"
        "999 * (q * (999 / 1000)) * (999 / 1000)" "fmul (of_int64 1000) (rnd q)" "1001 * (q * (1001 / 1000)) * (1001 / 1000)"]
      m [OF assms(1)] m [OF assms(2)] assms by (simp add: algebra_simps)
qed

text \<open>The cost depends on the order in which the table is visited.\<close>

theorem cost_depends_on_order:
  "\<exists>v w. mset v = mset modelCostPerToken \<and> mset w = mset modelCostPerToken
     \<and> 150 * estimateCost v ''gpt-4o-mini'' 1000 1000 < estimateCost w ''gpt-4o-mini'' 1000 1000 * 2"
proof -
  define m where "m = (''gpt-4o-mini'', 15 / 10^8 :: rat, 6 / 10^7 :: rat)"
  define g where "g = (''gpt-4'', 30 / 10^6 :: rat, 60 / 10^6 :: rat)"
  define v where "v = m # remove1 m modelCostPerToken"
  define w where "w = g # remove1 g modelCostPerToken"
  have "m \<in> set modelCostPerToken" "g \<in> set modelCostPerToken" by (simp_all add: modelCostPerToken_def m_def g_def)
  then have ms: "mset v = mset modelCostPerToken" "mset w = mset modelCostPerToken" by (simp_all add: v_def w_def)
  have lower: "Contains (ToLower ''gpt-4o-mini'') ''gpt-4o-mini''" "Contains (ToLower ''gpt-4o-mini'') ''gpt-4''"
    by (simp_all add: ToLower_def lower_rune_def runes_ascii Contains_def Index.simps)
  have "estimateCost v ''gpt-4o-mini'' 1000 1000
      = fadd (fmul (of_int64 1000) (rnd (15 / 10^8))) (fmul (of_int64 1000) (rnd (6 / 10^7)))"
    using lower(1) by (simp add: estimateCost_def v_def m_def)
  moreover have "estimateCost w ''gpt-4o-mini'' 1000 1000
      = fadd (fmul (of_int64 1000) (rnd (30 / 10^6))) (fmul (of_int64 1000) (rnd (60 / 10^6)))"
    using lower(2) by (simp add: estimateCost_def w_def g_def)
  moreover have "150 * fadd (fmul (of_int64 1000) (rnd (15 / 10^8))) (fmul (of_int64 1000) (rnd (6 / 10^7)))
      < fadd (fmul (of_int64 1000) (rnd (30 / 10^6))) (fmul (of_int64 1000) (rnd (60 / 10^6))) * 2"
    using cost_band [of "15 / 10^8" "6 / 10^7"] cost_band [of "30 / 10^6" "60 / 10^6"] by simp
  ultimately show ?thesis using ms by metis
qed

end
