(* ===== verification/Profile.thy ===== *)
theory Profile
  imports AgentTools Prelude
begin

text \<open>
  The user profile (\<^verbatim>\<open>internal/agent/profile.go\<close>) and the command that edits it
  (\<^verbatim>\<open>cmdSetup\<close> in \<^verbatim>\<open>commands.go\<close>). The profile files are a map from users to contents, \<open>None\<close>
  for a file that does not decode; a write succeeds or fails as its argument says. Whether a text is a number
  (\<^verbatim>\<open>strconv.ParseFloat\<close>) is an argument.
\<close>

section \<open>Profiles\<close>

record UserProfile =
  up_UserName :: string
  up_AgentName :: string
  up_Personality :: string
  up_Location :: string
  up_SkillLevel :: string
  up_Language :: string
  up_Latitude :: string
  up_Longitude :: string
  up_Email :: string
  up_Calendar :: string
  up_ConfiguredAt :: time
  up_ProfileUpdatedAt :: time

definition zeroProfile :: UserProfile where
  "zeroProfile = \<lparr>up_UserName = [], up_AgentName = [], up_Personality = [], up_Location = [], up_SkillLevel = [],
     up_Language = [], up_Latitude = [], up_Longitude = [], up_Email = [], up_Calendar = [],
     up_ConfiguredAt = zero_time, up_ProfileUpdatedAt = zero_time\<rparr>"

record profileField =
  pf_Label :: string
  pf_Get :: "UserProfile \<Rightarrow> string"
  pf_Set :: "UserProfile \<Rightarrow> string \<Rightarrow> UserProfile"

definition profileFields :: "profileField list" where
  "profileFields =
     [\<lparr>pf_Label = ''User Name'', pf_Get = up_UserName, pf_Set = (\<lambda>p v. p\<lparr>up_UserName := v\<rparr>)\<rparr>,
      \<lparr>pf_Label = ''Agent Name'', pf_Get = up_AgentName, pf_Set = (\<lambda>p v. p\<lparr>up_AgentName := v\<rparr>)\<rparr>,
      \<lparr>pf_Label = ''Personality'', pf_Get = up_Personality, pf_Set = (\<lambda>p v. p\<lparr>up_Personality := v\<rparr>)\<rparr>,
      \<lparr>pf_Label = ''Location'', pf_Get = up_Location, pf_Set = (\<lambda>p v. p\<lparr>up_Location := v\<rparr>)\<rparr>,
      \<lparr>pf_Label = ''Skill Level'', pf_Get = up_SkillLevel, pf_Set = (\<lambda>p v. p\<lparr>up_SkillLevel := v\<rparr>)\<rparr>,
      \<lparr>pf_Label = ''Preferred Language'', pf_Get = up_Language, pf_Set = (\<lambda>p v. p\<lparr>up_Language := v\<rparr>)\<rparr>,
      \<lparr>pf_Label = ''Latitude'', pf_Get = up_Latitude, pf_Set = (\<lambda>p v. p\<lparr>up_Latitude := v\<rparr>)\<rparr>,
      \<lparr>pf_Label = ''Longitude'', pf_Get = up_Longitude, pf_Set = (\<lambda>p v. p\<lparr>up_Longitude := v\<rparr>)\<rparr>,
      \<lparr>pf_Label = ''Email'', pf_Get = up_Email, pf_Set = (\<lambda>p v. p\<lparr>up_Email := v\<rparr>)\<rparr>,
      \<lparr>pf_Label = ''Calendar'', pf_Get = up_Calendar,
       pf_Set = (\<lambda>p v. p\<lparr>up_Calendar := (if v = [] then ''primary'' else v)\<rparr>)\<rparr>]"

definition profileFieldAliases :: "(string \<times> nat) list" where
  "profileFieldAliases =
     [(''name'', 0), (''username'', 0), (''user'', 0), (''1'', 0), (''agent'', 1),
      (''agentname'', 1), (''bot'', 1), (''2'', 1), (''personality'', 2), (''persona'', 2),
      (''3'', 2), (''location'', 3), (''city'', 3), (''loc'', 3), (''4'', 3),
      (''skill'', 4), (''skilllevel'', 4), (''level'', 4), (''5'', 4), (''language'', 5),
      (''lang'', 5), (''6'', 5), (''latitude'', 6), (''lat'', 6), (''7'', 6),
      (''longitude'', 7), (''lon'', 7), (''lng'', 7), (''8'', 7), (''email'', 8),
      (''mail'', 8), (''9'', 8), (''calendar'', 9), (''cal'', 9), (''10'', 9)]"

definition IsCoordinatesAlias :: "string \<Rightarrow> bool" where
  "IsCoordinatesAlias alias \<longleftrightarrow> ToLower (TrimSpace alias) \<in> {''coordinates'', ''coords'', ''gps''}"

definition ResolveFieldAlias :: "string \<Rightarrow> nat option" where
  "ResolveFieldAlias alias = map_of profileFieldAliases (ToLower (TrimSpace alias))"

definition SetField :: "UserProfile \<Rightarrow> nat \<Rightarrow> string \<Rightarrow> UserProfile" where
  "SetField p idx val =
     (if idx < length profileFields then pf_Set (profileFields ! idx) p (TrimSpace val) else p)"

definition FieldLabel :: "nat \<Rightarrow> string" where
  "FieldLabel idx = (if idx < length profileFields then pf_Label (profileFields ! idx) else ''Unknown'')"

datatype coord_error = TwoExpected | BadLatitude string | BadLongitude string

definition ParseCoordinates :: "(string \<Rightarrow> bool) \<Rightarrow> string \<Rightarrow> coord_error + string \<times> string" where
  "ParseCoordinates is_number raw0 =
     (let raw = TrimSpace raw0;
          parts = (if Contains raw '','' then SplitN2 raw (CHR '','') else Fields raw)
      in if length parts \<noteq> 2 then Inl TwoExpected
         else let lat = TrimSpace (parts ! 0); lon = TrimSpace (parts ! 1) in
           if \<not> is_number lat then Inl (BadLatitude lat)
           else if \<not> is_number lon then Inl (BadLongitude lon) else Inr (lat, lon))"

definition IsEmpty :: "UserProfile \<Rightarrow> bool" where
  "IsEmpty p \<longleftrightarrow> up_UserName p = [] \<and> up_AgentName p = [] \<and> up_Personality p = [] \<and> up_Location p = []
     \<and> up_SkillLevel p = [] \<and> up_Language p = [] \<and> up_Latitude p = [] \<and> up_Longitude p = []
     \<and> up_Email p = [] \<and> up_Calendar p = []"

definition IsSkillLevelAboveIntermediate :: "string \<Rightarrow> bool" where
  "IsSkillLevelAboveIntermediate level \<longleftrightarrow> ToLower (TrimSpace level) \<in> {''advanced'', ''expert''}"

fun display_lines :: "nat \<Rightarrow> profileField list \<Rightarrow> UserProfile \<Rightarrow> string" where
  "display_lines i [] p = []"
| "display_lines i (f # fs) p =
     show_nat (i + 1) @ ''. '' @ pf_Label f @ '': '' @ (if pf_Get f p = [] then ''(not set)'' else pf_Get f p) @ newline
       @ display_lines (i + 1) fs p"

definition FormatDisplay :: "UserProfile \<Rightarrow> string" where
  "FormatDisplay p =
     ''*Profile Settings*'' @ newline @ newline @ display_lines 0 profileFields p @
     newline @ ''*To change a setting:*'' @ newline @ ''  /setup name <your name>'' @ newline @
     ''  /setup agent <agent name>'' @ newline @ ''  /setup personality <type>'' @ newline @
     ''  /setup location <City, Country>'' @ newline @
     ''  /setup skill <beginner|intermediate|advanced|expert>'' @ newline @
     ''  /setup language <preferred language>'' @ newline @ ''  /setup coords <lat,lon> (e.g., 45.49,-75.66)'' @
     newline @ ''  /setup email <your@email.com>'' @ newline @
     ''  /setup calendar <calendar id> (default: primary)'' @ newline @ newline @
     ''You can also use the field number: /setup 1 Jane Doe''"

definition FormatForPrompt :: "UserProfile \<Rightarrow> string" where
  "FormatForPrompt p =
     (if IsEmpty p then []
      else ''## User Profile'' @ newline @ newline
        @ (if up_UserName p \<noteq> [] then ''- User Name: '' @ up_UserName p @ newline else [])
        @ (if up_AgentName p \<noteq> [] then ''- Your Name (the assistant): '' @ up_AgentName p @ newline else [])
        @ (if up_Personality p \<noteq> [] then ''- Personality: '' @ up_Personality p @ newline else [])
        @ (if up_Location p \<noteq> [] then ''- User Location: '' @ up_Location p @ newline else [])
        @ (if up_SkillLevel p \<noteq> [] then ''- User Skill Level: '' @ up_SkillLevel p @ newline else [])
        @ (if up_Language p \<noteq> [] then ''- Preferred Language: '' @ up_Language p
             @ '' (always respond in this language unless asked otherwise)'' @ newline else [])
        @ (if up_Latitude p \<noteq> [] \<and> up_Longitude p \<noteq> [] then ''- Coordinates: '' @ up_Latitude p @ '', '' @ up_Longitude p
             @ '' (use these for weather and location-based tools)'' @ newline else [])
        @ (if up_Email p \<noteq> [] then ''- Email: '' @ up_Email p @ '' (use this as the user'' @ [CHR 0x27]
             @ ''s email for Gmail, calendar, and other integrations)'' @ newline else [])
        @ ''- Calendar: '' @ (if up_Calendar p = [] then ''primary'' else up_Calendar p)
        @ '' (use this as the calendar ID for calendar operations)'' @ newline)"

section \<open>The files\<close>

type_synonym profiles = "string \<rightharpoonup> UserProfile option"

definition LoadProfile :: "profiles \<Rightarrow> string \<Rightarrow> UserProfile option" where
  "LoadProfile fs userID = (case fs userID of None \<Rightarrow> Some zeroProfile | Some c \<Rightarrow> c)"

text \<open>The profile comes back stamped, also when the write failed.\<close>

definition SaveProfile :: "bool \<Rightarrow> time \<Rightarrow> profiles \<Rightarrow> string \<Rightarrow> UserProfile \<Rightarrow> profiles \<times> UserProfile \<times> bool" where
  "SaveProfile write_ok now fs userID p =
     (let p1 = p\<lparr>up_ProfileUpdatedAt := now\<rparr>;
          p2 = (if up_ConfiguredAt p1 = zero_time then p1\<lparr>up_ConfiguredAt := up_ProfileUpdatedAt p1\<rparr> else p1)
      in (if write_ok then fs(userID \<mapsto> Some p2) else fs, p2, write_ok))"

section \<open>The setup command\<close>

datatype setup_reply = LoadFailed | ShowProfile string | CoordsMissing | CoordsInvalid coord_error | SaveFailed
  | CoordsUpdated string string string | UnknownField string | ValueMissing string | FieldUpdated string string string

text \<open>The answer as the branch taken with the texts it quotes.\<close>

definition cmdSetup ::
  "(string \<Rightarrow> bool) \<Rightarrow> bool \<Rightarrow> time \<Rightarrow> profiles \<Rightarrow> string \<Rightarrow> string \<Rightarrow> profiles \<times> setup_reply" where
  "cmdSetup is_number write_ok now fs userID args0 =
     (case LoadProfile fs userID of
        None \<Rightarrow> (fs, LoadFailed)
      | Some profile \<Rightarrow>
          let args = TrimSpace args0 in
          if args = [] then (fs, ShowProfile (FormatDisplay profile))
          else let parts = SplitN2 args (CHR '' ''); fieldKey = TrimSpace (hd parts);
                   fieldValue = (if 1 < length parts then TrimSpace (parts ! 1) else [])
               in if IsCoordinatesAlias fieldKey then
                    if fieldValue = [] then (fs, CoordsMissing)
                    else (case ParseCoordinates is_number fieldValue of
                            Inl e \<Rightarrow> (fs, CoordsInvalid e)
                          | Inr (lat, lon) \<Rightarrow>
                              let (fs', p', ok) = SaveProfile write_ok now fs userID (profile\<lparr>up_Latitude := lat, up_Longitude := lon\<rparr>)
                              in if ok then (fs', CoordsUpdated lat lon (FormatDisplay p')) else (fs', SaveFailed))
                  else (case ResolveFieldAlias fieldKey of
                          None \<Rightarrow> (fs, UnknownField fieldKey)
                        | Some idx \<Rightarrow>
                            if fieldValue = [] then (fs, ValueMissing fieldKey)
                            else let (fs', p', ok) = SaveProfile write_ok now fs userID (SetField profile idx fieldValue)
                                 in if ok then (fs', FieldUpdated (FieldLabel idx) fieldValue (FormatDisplay p')) else (fs', SaveFailed)))"

definition coord_text :: "(string \<Rightarrow> string) \<Rightarrow> coord_error \<Rightarrow> string" where
  "coord_text quote e =
     (case e of
        TwoExpected \<Rightarrow> ''expected '' @ [CHR 0x27] @ ''latitude,longitude'' @ [CHR 0x27] @ '' (e.g., 45.49,-75.66)''
      | BadLatitude s \<Rightarrow> ''invalid latitude '' @ quote s @ '': must be a number''
      | BadLongitude s \<Rightarrow> ''invalid longitude '' @ quote s @ '': must be a number'')"

text \<open>The answers; \<open>io\<close> is the text of the file error, \<open>quote\<close> is \<^verbatim>\<open>%q\<close>.\<close>

definition setup_text :: "(string \<Rightarrow> string) \<Rightarrow> string \<Rightarrow> setup_reply \<Rightarrow> string" where
  "setup_text quote io reply =
     (case reply of
        LoadFailed \<Rightarrow> ''Failed to load profile: '' @ io
      | ShowProfile s \<Rightarrow> s
      | CoordsMissing \<Rightarrow> ''Please provide coordinates.'' @ newline @ newline
          @ ''Usage: /setup coords <lat,lon>'' @ newline @ ''Example: /setup coords 45.49,-75.66''
      | CoordsInvalid e \<Rightarrow> ''Invalid coordinates: '' @ coord_text quote e @ newline @ newline
          @ ''Example: /setup coords 45.49,-75.66''
      | SaveFailed \<Rightarrow> ''Failed to save profile: '' @ io
      | CoordsUpdated lat lon shown \<Rightarrow> ''Updated *Coordinates* to: '' @ lat @ '', '' @ lon @ newline @ newline @ shown
      | UnknownField k \<Rightarrow> ''Unknown field: *'' @ k @ ''*'' @ newline @ newline
          @ ''Valid fields: name, agent, personality, location, skill, language, lat, lon, coords, email, calendar (or 1-10).''
      | ValueMissing k \<Rightarrow> ''Please provide a value.'' @ newline @ newline @ ''Usage: /setup '' @ k @ '' <value>''
      | FieldUpdated label v shown \<Rightarrow> ''Updated *'' @ label @ ''* to: '' @ v @ newline @ newline @ shown)"

section \<open>What the command does to the profile\<close>

lemma fields_count [simp]: "length profileFields = 10"
  by (simp add: profileFields_def)

lemma alias_has_field: "ResolveFieldAlias a = Some idx \<Longrightarrow> idx < 10"
  unfolding ResolveFieldAlias_def by (drule map_of_SomeD) (auto simp: profileFieldAliases_def)

text \<open>The fields are independent: setting one shows in its own getter and in no other.\<close>

lemma field_get_set:
  assumes "i < 10" and "j < 10" and "v \<noteq> []"
  shows "pf_Get (profileFields ! j) (pf_Set (profileFields ! i) p v)
         = (if i = j then v else pf_Get (profileFields ! j) p)"
proof -
  have i: "i \<in> {0, 1, 2, 3, 4, 5, 6, 7, 8, 9}" and j: "j \<in> {0, 1, 2, 3, 4, 5, 6, 7, 8, 9}" using assms by auto
  from i show ?thesis
    by (elim insertE emptyE; use j in \<open>elim insertE emptyE; simp add: profileFields_def assms(3)\<close>)
qed

lemma field_get_stamp [simp]:
  assumes "j < 10"
  shows "pf_Get (profileFields ! j) (p\<lparr>up_ProfileUpdatedAt := t\<rparr>) = pf_Get (profileFields ! j) p"
    and "pf_Get (profileFields ! j) (p\<lparr>up_ConfiguredAt := t\<rparr>) = pf_Get (profileFields ! j) p"
proof -
  have "j \<in> {0, 1, 2, 3, 4, 5, 6, 7, 8, 9}" using assms by auto
  then show "pf_Get (profileFields ! j) (p\<lparr>up_ProfileUpdatedAt := t\<rparr>) = pf_Get (profileFields ! j) p"
    and "pf_Get (profileFields ! j) (p\<lparr>up_ConfiguredAt := t\<rparr>) = pf_Get (profileFields ! j) p"
    by (auto simp: profileFields_def)
qed

lemma SaveProfile_cases:
  assumes "SaveProfile ok now fs u p = (fs', p', res)"
  shows "res = ok \<and> fs' = (if ok then fs(u \<mapsto> Some p') else fs)
         \<and> (\<forall>j < 10. pf_Get (profileFields ! j) p' = pf_Get (profileFields ! j) p)"
  using assms by (auto simp: SaveProfile_def Let_def split: if_splits)

abbreviation shown_values :: "UserProfile \<Rightarrow> string list" where
  "shown_values p \<equiv> map (\<lambda>f. pf_Get f p) profileFields"

lemma shown_set_field:
  assumes "i < 10" and "v \<noteq> []" and "TrimSpace v = v"
    and "\<forall>j < 10. pf_Get (profileFields ! j) p' = pf_Get (profileFields ! j) (SetField p i v)"
  shows "shown_values p' = (shown_values p)[i := v]"
  using assms by (intro nth_equalityI) (auto simp: SetField_def field_get_set nth_list_update)

lemma shown_set_coords:
  assumes "\<forall>j < 10. pf_Get (profileFields ! j) p' = pf_Get (profileFields ! j) (p\<lparr>up_Latitude := lat, up_Longitude := lon\<rparr>)"
  shows "shown_values p' = (shown_values p)[6 := lat, 7 := lon]"
proof (rule nth_equalityI)
  fix j assume "j < length (shown_values p')"
  then have j: "j < 10" by simp
  then have "j \<in> {0, 1, 2, 3, 4, 5, 6, 7, 8, 9}" by auto
  then have "pf_Get (profileFields ! j) (p\<lparr>up_Latitude := lat, up_Longitude := lon\<rparr>)
      = (if j = 6 then lat else if j = 7 then lon else pf_Get (profileFields ! j) p)"
    by (auto simp: profileFields_def)
  then show "shown_values p' ! j = (shown_values p)[6 := lat, 7 := lon] ! j"
    using assms j by (auto simp: nth_list_update)
qed simp

lemma ParseCoordinates_numbers:
  "ParseCoordinates is_number raw = Inr (lat, lon) \<Longrightarrow> is_number lat \<and> is_number lon"
  by (auto simp: ParseCoordinates_def Let_def split: if_splits)

text \<open>
  A field set with \<^verbatim>\<open>/setup\<close> is what the profile shows from then on, and it is the only one that changed; every
  other answer of the command leaves the files as they were.
\<close>

theorem setup_sets_one_field:
  assumes "cmdSetup is_number ok now fs u args = (fs', reply)"
  shows "case reply of
           FieldUpdated label v shown \<Rightarrow>
             (\<exists>p p' idx. LoadProfile fs u = Some p \<and> LoadProfile fs' u = Some p' \<and> idx < 10 \<and> label = FieldLabel idx
                \<and> v \<noteq> [] \<and> shown = FormatDisplay p' \<and> fs' = fs(u \<mapsto> Some p')
                \<and> shown_values p' = (shown_values p)[idx := v])
         | CoordsUpdated lat lon shown \<Rightarrow>
             (\<exists>p p'. LoadProfile fs u = Some p \<and> LoadProfile fs' u = Some p' \<and> is_number lat \<and> is_number lon
                \<and> shown = FormatDisplay p' \<and> fs' = fs(u \<mapsto> Some p')
                \<and> shown_values p' = (shown_values p)[6 := lat, 7 := lon])
         | _ \<Rightarrow> fs' = fs"
proof (cases "LoadProfile fs u")
  case None
  then show ?thesis using assms by (auto simp: cmdSetup_def)
next
  case p: (Some p)
  define a where "a = TrimSpace args"
  define key where "key = TrimSpace (hd (SplitN2 a (CHR '' '')))"
  define v where "v = (if 1 < length (SplitN2 a (CHR '' '')) then TrimSpace (SplitN2 a (CHR '' '') ! 1) else [])"
  have v: "TrimSpace v = v" by (simp add: v_def)
  have run: "cmdSetup is_number ok now fs u args =
     (if a = [] then (fs, ShowProfile (FormatDisplay p))
      else if IsCoordinatesAlias key then
        if v = [] then (fs, CoordsMissing)
        else (case ParseCoordinates is_number v of
                Inl e \<Rightarrow> (fs, CoordsInvalid e)
              | Inr (lat, lon) \<Rightarrow>
                  let (fs', p', ok) = SaveProfile ok now fs u (p\<lparr>up_Latitude := lat, up_Longitude := lon\<rparr>)
                  in if ok then (fs', CoordsUpdated lat lon (FormatDisplay p')) else (fs', SaveFailed))
      else (case ResolveFieldAlias key of
              None \<Rightarrow> (fs, UnknownField key)
            | Some idx \<Rightarrow>
                if v = [] then (fs, ValueMissing key)
                else let (fs', p', ok) = SaveProfile ok now fs u (SetField p idx v)
                     in if ok then (fs', FieldUpdated (FieldLabel idx) v (FormatDisplay p')) else (fs', SaveFailed)))"
    by (simp only: cmdSetup_def p Let_def option.case a_def key_def v_def)
  have saved: "LoadProfile (fs(u \<mapsto> Some q)) u = Some q" for q by (simp add: LoadProfile_def)
  show ?thesis
  proof (cases "a = [] \<or> v = []")
    case True
    then show ?thesis using assms unfolding run by (auto split: if_splits option.splits)
  next
    case False
    show ?thesis
    proof (cases "IsCoordinatesAlias key")
      case True
      show ?thesis
      proof (cases "ParseCoordinates is_number v")
        case (Inl e)
        then show ?thesis using assms False True unfolding run by auto
      next
        case (Inr c)
        obtain lat lon where c: "c = (lat, lon)" by (cases c)
        obtain fs1 p1 r where s: "SaveProfile ok now fs u (p\<lparr>up_Latitude := lat, up_Longitude := lon\<rparr>) = (fs1, p1, r)"
          using prod_cases3 by blast
        note st = SaveProfile_cases [OF s]
        have sh: "shown_values p1 = (shown_values p)[6 := lat, 7 := lon]" using st by (intro shown_set_coords) auto
        show ?thesis
          using assms False True st sh ParseCoordinates_numbers [of is_number v lat lon] saved [of p1] p
          unfolding run Inr c by (auto simp: s split: if_splits)
      qed
    next
      case no: False
      show ?thesis
      proof (cases "ResolveFieldAlias key")
        case None
        then show ?thesis using assms False no unfolding run by auto
      next
        case (Some idx)
        obtain fs1 p1 r where s: "SaveProfile ok now fs u (SetField p idx v) = (fs1, p1, r)"
          using prod_cases3 by blast
        note st = SaveProfile_cases [OF s]
        have idx: "idx < 10" using alias_has_field [OF Some] .
        have sh: "shown_values p1 = (shown_values p)[idx := v]" using st idx v False by (intro shown_set_field) auto
        show ?thesis
          using assms False no st sh idx saved [of p1] p unfolding run Some by (auto simp: s split: if_splits)
      qed
    qed
  qed
qed

definition demo_named :: UserProfile where
  "demo_named = zeroProfile\<lparr>up_UserName := ''Jane'', up_ProfileUpdatedAt := 5, up_ConfiguredAt := 5\<rparr>"

lemma demo_setup_words:
  "TrimSpace ''name Jane'' = ''name Jane''" "TrimSpace ''name'' = ''name''" "TrimSpace ''Jane'' = ''Jane''"
  by (simp_all add: TrimSpace_def runes_ascii IsSpace_def)

lemma demo_setup_key:
  "SplitN2 ''name Jane'' (CHR '' '') = [''name'', ''Jane'']" "\<not> IsCoordinatesAlias ''name''"
  "ResolveFieldAlias ''name'' = Some 0" "FieldLabel 0 = ''User Name''"
  by (simp_all add: SplitN2_def IsCoordinatesAlias_def ResolveFieldAlias_def demo_setup_words ToLower_def lower_rune_def
      runes_ascii profileFieldAliases_def FieldLabel_def profileFields_def)

lemma demo_setup:
  "cmdSetup (\<lambda>_. False) True 5 Map.empty ''u'' ''name Jane''
     = (Map.empty(''u'' \<mapsto> Some demo_named), FieldUpdated ''User Name'' ''Jane'' (FormatDisplay demo_named))"
proof -
  have load: "LoadProfile Map.empty ''u'' = Some zeroProfile" by (simp add: LoadProfile_def)
  have set_f: "SetField zeroProfile 0 ''Jane'' = zeroProfile\<lparr>up_UserName := ''Jane''\<rparr>"
    by (simp only: SetField_def demo_setup_words fields_count) (simp add: profileFields_def)
  have save: "SaveProfile True 5 Map.empty ''u'' (zeroProfile\<lparr>up_UserName := ''Jane''\<rparr>)
      = (Map.empty(''u'' \<mapsto> Some demo_named), demo_named, True)"
    by (simp add: SaveProfile_def Let_def demo_named_def zeroProfile_def zero_time_def)
  show ?thesis
    unfolding cmdSetup_def load option.case Let_def demo_setup_words
    by (simp add: demo_setup_words demo_setup_key set_f save del: fun_upd_apply)
qed

theorem setup_sets_one_field_witness:
  "\<exists>p p' idx. LoadProfile Map.empty ''u'' = Some p \<and> idx < (10 :: nat) \<and> ''User Name'' = FieldLabel idx
     \<and> LoadProfile (Map.empty(''u'' \<mapsto> Some demo_named)) ''u'' = Some p'
     \<and> shown_values p' = (shown_values p)[idx := ''Jane'']"
  using setup_sets_one_field [OF demo_setup] unfolding setup_reply.case
  by (elim exE conjE) (intro exI conjI; assumption)

end
