(* ===== verification/Skills.thy ===== *)
theory Skills
  imports AgentTools "HOL-Library.List_Lexorder" "HOL-Library.Char_ord"
begin

text \<open>
  The skills (plugins) of the agent: loading and prompt sections (\<^verbatim>\<open>internal/agent/skills/loader.go\<close>, \<^verbatim>\<open>types.go\<close>),
  secrets (\<^verbatim>\<open>secrets.go\<close>), running one in the sandbox (\<^verbatim>\<open>executor.go\<close>) and the tool \<^verbatim>\<open>skill_exec\<close>
  (\<^verbatim>\<open>tools/skill_exec.go\<close>). What the directory scan reads, the JSON decoder, the Unicode classes, the order in which
  Go visits a map and the container's answer are arguments.
\<close>

section \<open>Skills\<close>

record SkillSecretRef =
  sr_Name :: string
  sr_EnvVar :: string
  sr_Provider :: string
  sr_Ref :: string

record SkillConfig =
  kc_Name :: string
  kc_Version :: string
  kc_Description :: string
  kc_PromptHint :: string
  kc_MCPTools :: "string list"
  kc_Keywords :: "string list"
  kc_Type :: string
  kc_Runtime :: string
  kc_Entrypoint :: string
  kc_Timeout :: int
  kc_Secrets :: "SkillSecretRef list"
  kc_Network :: bool
  kc_Confirm :: bool
  kc_Channels :: "string list"
  kc_DepsSystem :: "string list"

record Skill =
  sk_Name :: string
  sk_Path :: string
  sk_Description :: string
  sk_Config :: "SkillConfig option"

definition promptDesc :: "Skill \<Rightarrow> string" where
  "promptDesc s =
     (case sk_Config s of
        Some c \<Rightarrow> if kc_PromptHint c \<noteq> [] then kc_PromptHint c else sk_Description s
      | None \<Rightarrow> sk_Description s)"

definition ActivationKeywords :: "Skill \<Rightarrow> string list" where
  "ActivationKeywords s = (case sk_Config s of None \<Rightarrow> [] | Some c \<Rightarrow> kc_Keywords c)"

definition MCPToolNames :: "Skill \<Rightarrow> string list" where
  "MCPToolNames s = (case sk_Config s of None \<Rightarrow> [] | Some c \<Rightarrow> kc_MCPTools c)"

definition IsMCPOnly :: "Skill \<Rightarrow> bool" where
  "IsMCPOnly s = (case sk_Config s of None \<Rightarrow> False | Some c \<Rightarrow> kc_Type c = ''mcp'')"

definition RequiresSandbox :: "Skill \<Rightarrow> bool" where
  "RequiresSandbox s \<longleftrightarrow> \<not> IsMCPOnly s"

text \<open>\<^verbatim>\<open>oneLineDesc\<close>: the configured description, else the first line that is no header, cut at 120 bytes.\<close>

fun first_line :: "string \<Rightarrow> string list \<Rightarrow> string" where
  "first_line name [] = name"
| "first_line name (l # ls) =
     (let line = TrimSpace l in
      if line = [] \<or> HasPrefix line ''#'' then first_line name ls
      else if 120 < length line then take 117 line @ ''...'' else line)"

definition oneLineDesc :: "Skill \<Rightarrow> string" where
  "oneLineDesc s =
     (let rest = first_line (sk_Name s) (SplitStr (sk_Description s) newline) in
      case sk_Config s of
        Some c \<Rightarrow> if kc_Description c \<noteq> [] then kc_Description c else rest
      | None \<Rightarrow> rest)"

section \<open>The loader\<close>

record Loader =
  sl_skills :: "Skill list"
  sl_sandboxAvailable :: bool

text \<open>
  What the scan finds in one directory entry: \<^verbatim>\<open>SKILL.md\<close> unless missing or unreadable, and \<^verbatim>\<open>config.yaml\<close>, absent,
  malformed (\<open>Some None\<close>) or decoded.
\<close>

record dir_entry =
  de_Name :: string
  de_IsDir :: bool
  de_AbsPath :: string
  de_Markdown :: "string option"
  de_Config :: "SkillConfig option option"

definition load_entry :: "dir_entry \<Rightarrow> Skill option" where
  "load_entry e =
     (if \<not> de_IsDir e then None
      else if de_Name e \<noteq> [] \<and> hd (de_Name e) = CHR ''.'' then None
      else case de_Markdown e of
             None \<Rightarrow> None
           | Some desc \<Rightarrow>
               Some \<lparr>sk_Name = de_Name e, sk_Path = de_AbsPath e, sk_Description = desc,
                     sk_Config = (case de_Config e of Some (Some c) \<Rightarrow> Some c | _ \<Rightarrow> None)\<rparr>)"

definition scan_skills :: "dir_entry list \<Rightarrow> Loader" where
  "scan_skills entries =
     \<lparr>sl_skills = sort_key sk_Name (List.map_filter load_entry entries), sl_sandboxAvailable = True\<rparr>"

definition SetSandboxAvailable :: "Loader \<Rightarrow> bool \<Rightarrow> Loader" where
  "SetSandboxAvailable l available = l\<lparr>sl_sandboxAvailable := available\<rparr>"

definition AvailableSkills :: "Loader \<Rightarrow> Skill list" where
  "AvailableSkills l =
     (if sl_sandboxAvailable l then sl_skills l else filter (\<lambda>s. \<not> RequiresSandbox s) (sl_skills l))"

definition SkillByName :: "Loader \<Rightarrow> string \<Rightarrow> Skill option" where
  "SkillByName l name = find_first (\<lambda>s. sk_Name s = name) (sl_skills l)"

definition skills_header :: string where
  "skills_header =
     newline @ newline @ ''## Available Skills'' @ newline @ newline @
     ''Skills are NOT tools. Use skill_exec with the skill name as '' @ [CHR 0x27] @ ''name'' @ [CHR 0x27] @
     '' param. MCP-only skills: use MCP tools directly (not skill_exec).'' @ newline @ newline"

definition mcp_tag :: "Skill \<Rightarrow> string" where
  "mcp_tag s = (if IsMCPOnly s then '' [MCP-only]'' else [])"

definition slim_line :: "Skill \<Rightarrow> string" where
  "slim_line s = ''- '' @ sk_Name s @ mcp_tag s @ '': '' @ oneLineDesc s @ newline"

definition full_entry :: "Skill \<Rightarrow> string" where
  "full_entry s =
     ''<skill name='' @ [CHR 0x22] @ sk_Name s @ [CHR 0x22] @ ''>'' @ newline
     @ promptDesc s @ (if IsMCPOnly s then newline @ newline @ ''(MCP-only: use MCP tools directly, not skill_exec.)'' else [])
     @ newline @ ''</skill>'' @ newline @ newline"

text \<open>The loop over the available skills with the two texts it builds.\<close>

fun section_loop :: "string list option \<Rightarrow> Skill list \<Rightarrow> string \<times> string \<Rightarrow> string \<times> string" where
  "section_loop active [] (full, slim) = (full, slim)"
| "section_loop active (s # ss) (full, slim) =
     (if (case active of None \<Rightarrow> True | Some names \<Rightarrow> sk_Name s \<in> set names)
      then section_loop active ss (full @ full_entry s, slim)
      else section_loop active ss (full, slim @ slim_line s))"

definition BuildPromptSectionForSkills :: "Loader \<Rightarrow> string list option \<Rightarrow> string" where
  "BuildPromptSectionForSkills l active =
     (let available = AvailableSkills l in
      if available = [] then []
      else let (full, slim) = section_loop active available ([], [])
           in skills_header @ full
              @ (if slim \<noteq> [] then ''Other skills (send a message mentioning the skill to activate):'' @ newline @ slim else []))"

definition BuildPromptSection :: "Loader \<Rightarrow> string" where
  "BuildPromptSection l = BuildPromptSectionForSkills l None"

definition BuildSlimPromptSection :: "Loader \<Rightarrow> string" where
  "BuildSlimPromptSection l =
     (if AvailableSkills l = [] then []
      else newline @ newline @ ''Available skills (use skill_exec tool with skill name as '' @ [CHR 0x27] @ ''name'' @
     [CHR 0x27] @ '' param; MCP-only skills use MCP tools directly):'' @ newline
           @ concat (map slim_line (AvailableSkills l)))"

section \<open>Secrets\<close>

text \<open>A provider answers with values by environment variable, \<open>None\<close> for an error; \<open>env\<close> is \<^verbatim>\<open>os.Getenv\<close>.\<close>

type_synonym SecretProvider = "SkillSecretRef list \<Rightarrow> (string \<rightharpoonup> string) option"

definition EnvVarProvider :: "(string \<Rightarrow> string) \<Rightarrow> SecretProvider" where
  "EnvVarProvider env refs =
     Some (fold (\<lambda>ref m. if sr_Provider ref \<noteq> [] \<and> sr_Provider ref \<noteq> ''env'' then m
                         else if env (sr_Ref ref) = [] then m else m(sr_EnvVar ref \<mapsto> env (sr_Ref ref))) refs Map.empty)"

type_synonym ProviderRegistry = "string \<rightharpoonup> SecretProvider"

definition secret_Resolve :: "ProviderRegistry \<Rightarrow> SkillSecretRef list \<Rightarrow> (string \<rightharpoonup> string)" where
  "secret_Resolve r refs =
     fold (\<lambda>ref m. case r (if sr_Provider ref = [] then ''env'' else sr_Provider ref) of
                     None \<Rightarrow> m
                   | Some p \<Rightarrow> (case p [ref] of None \<Rightarrow> m | Some one \<Rightarrow> m ++ one)) refs Map.empty"

section \<open>Arguments\<close>

datatype json_value = JString string | JNumber string | JBool bool | JOther

fun value_text :: "json_value \<Rightarrow> string option" where
  "value_text (JString s) = Some s"
| "value_text (JNumber g) = Some g"
| "value_text (JBool b) = Some (if b then ''true'' else ''false'')"
| "value_text JOther = None"

definition shellQuote :: "string \<Rightarrow> string" where
  "shellQuote s = [CHR 0x22] @ concat (map (\<lambda>c. if c = CHR 0x22 then [CHR 0x5C, CHR 0x22] else [c]) s) @ [CHR 0x22]"

text \<open>What the library answers; \<open>kl_unmarshal\<close> gives the members of the object a text decodes to, with different names.\<close>

record skill_lib =
  kl_alnum :: "rune \<Rightarrow> bool"  \<comment> \<open>letter or digit\<close>
  kl_upper :: "rune \<Rightarrow> string"  \<comment> \<open>the bytes of its upper case\<close>
  kl_clean :: "string \<Rightarrow> string"  \<comment> \<open>\<^verbatim>\<open>filepath.Clean\<close>\<close>
  kl_quote :: "string \<Rightarrow> string"  \<comment> \<open>\<^verbatim>\<open>%q\<close>\<close>
  kl_unmarshal :: "string \<Rightarrow> (string \<times> json_value) list option"
  kl_visited :: "(string \<rightharpoonup> string) \<Rightarrow> (string \<times> string) list"  \<comment> \<open>the order in which a map is ranged over\<close>

definition toEnvKey :: "skill_lib \<Rightarrow> string \<Rightarrow> string" where
  "toEnvKey u name =
     concat (map (\<lambda>(r, _). if r = of_char (CHR ''-'') \<or> r = of_char (CHR '' '') then ''_''
                           else if kl_alnum u r \<or> r = of_char (CHR ''_'') then kl_upper u r else []) (runes name))"

definition parseSkillArgs ::
  "skill_lib \<Rightarrow> string \<Rightarrow> (string \<rightharpoonup> string) \<times> string" where
  "parseSkillArgs u args0 =
     (let args = TrimSpace args0 in
      if args = [] \<or> \<not> HasPrefix args ''{'' then (Map.empty, [])
      else case kl_unmarshal u args of
             None \<Rightarrow> (Map.empty, [])
           | Some m \<Rightarrow>
               let texts = List.map_filter (\<lambda>(k, v). map_option (\<lambda>s. (k, s)) (value_text v)) (sort_key fst m)
               in (fold (\<lambda>(k, s) env. env(toEnvKey u k \<mapsto> s)) texts Map.empty,
                   JoinStr (map (\<lambda>(k, s). shellQuote s) texts) '' ''))"

definition isLargeSecret :: "string \<Rightarrow> bool" where
  "isLargeSecret v \<longleftrightarrow> 4096 < length v \<or> Contains v newline"

section \<open>Running a skill\<close>

record container_call =
  cc_command :: string
  cc_workDir :: string
  cc_timeout :: duration
  cc_env :: "string \<rightharpoonup> string"

record Sandbox =
  sb_WorkDir :: string
  sb_StagingDir :: string
  sb_Exec :: "container_call \<Rightarrow> string \<times> string \<times> int \<times> string option"
  sb_stage_ok :: "string \<Rightarrow> bool"  \<comment> \<open>writing the staging file of that name succeeds\<close>

record Executor =
  xe_sandbox :: "Sandbox option"
  xe_providers :: ProviderRegistry
  xe_UserID :: string
  xe_SessionID :: string
  xe_Workspace :: string

datatype skill_error = NeedsSandbox string | ExecFailed string | NameRequired | SkillNotFound string

record skill_run =
  kr_stdout :: string
  kr_stderr :: string
  kr_exitCode :: int
  kr_err :: "skill_error option"
  kr_resolved :: "(string \<times> string \<times> string) list"  \<comment> \<open>skill, secret and provider of each observer event\<close>
  kr_call :: "container_call option"  \<comment> \<open>what ran in the container\<close>

definition join_path :: "skill_lib \<Rightarrow> string list \<Rightarrow> string" where
  "join_path u ps = kl_clean u (JoinStr (filter (\<lambda>p. p \<noteq> []) ps) ''/'')"

definition safe_name :: "string \<Rightarrow> string" where
  "safe_name k = map (\<lambda>c. if c = CHR ''/'' then CHR ''_'' else c) k"

definition standard_env :: "skill_lib \<Rightarrow> Executor \<Rightarrow> Skill \<Rightarrow> (string \<rightharpoonup> string)" where
  "standard_env u e s =
     (let e0 = [''NIPPER_PLUGIN_NAME'' \<mapsto> sk_Name s, ''NIPPER_PLUGIN_DIR'' \<mapsto> join_path u [''/skills'', sk_Name s]];
          e1 = (if xe_UserID e \<noteq> [] then e0(''NIPPER_USER_ID'' \<mapsto> xe_UserID e) else e0);
          e2 = (if xe_SessionID e \<noteq> [] then e1(''NIPPER_SESSION_ID'' \<mapsto> xe_SessionID e) else e1)
      in if xe_Workspace e \<noteq> [] then e2(''NIPPER_WORKSPACE'' \<mapsto> xe_Workspace e) else e2)"

text \<open>One secret of the loop: a large one becomes a staged file named by another variable.\<close>

definition put_secret :: "skill_lib \<Rightarrow> Sandbox \<Rightarrow> string \<times> string \<Rightarrow> (string \<rightharpoonup> string) \<Rightarrow> (string \<rightharpoonup> string)" where
  "put_secret u sb kv env =
     (let (k, v) = kv in
      if isLargeSecret v \<and> sb_StagingDir sb \<noteq> [] then
        if sb_stage_ok sb (safe_name k) then env(k @ ''_FILE'' \<mapsto> join_path u [''/tmp/secrets'', safe_name k]) else env(k \<mapsto> v)
      else env(k \<mapsto> v))"

definition skill_timeout :: "Skill \<Rightarrow> duration \<Rightarrow> duration" where
  "skill_timeout s timeout0 =
     (let timeout = (if timeout0 \<le> 0 then 120 * Second else timeout0) in
      case sk_Config s of
        Some c \<Rightarrow> if 0 < kc_Timeout c \<and> timeout < kc_Timeout c * Second then kc_Timeout c * Second else timeout
      | None \<Rightarrow> timeout)"

definition skill_secrets :: "Skill \<Rightarrow> SkillSecretRef list" where
  "skill_secrets s = (case sk_Config s of None \<Rightarrow> [] | Some c \<Rightarrow> kc_Secrets c)"

definition secret_events :: "Skill \<Rightarrow> (string \<rightharpoonup> string) \<Rightarrow> (string \<times> string \<times> string) list" where
  "secret_events s resolved =
     map (\<lambda>ref. (sk_Name s, sr_Name ref, if sr_Provider ref = [] then ''env'' else sr_Provider ref))
       (filter (\<lambda>ref. resolved (sr_EnvVar ref) \<noteq> None) (skill_secrets s))"

definition skill_command :: "skill_lib \<Rightarrow> Skill \<Rightarrow> string \<Rightarrow> string" where
  "skill_command u s args =
     TrimSpace (join_path u [''/skills'', sk_Name s,
       (case sk_Config s of Some c \<Rightarrow> if kc_Entrypoint c \<noteq> [] then kc_Entrypoint c else ''scripts/run.sh''
                          | None \<Rightarrow> ''scripts/run.sh'')] @ '' '' @ args)"

definition mcp_only_text :: "(string \<Rightarrow> string) \<Rightarrow> Skill \<Rightarrow> string" where
  "mcp_only_text quote s =
     ''Skill '' @ quote (sk_Name s) @ '' is workflow-only (no script). Do not call skill_exec again. Follow the steps for this skill in the '' @ [CHR 0x22] @ ''Available Skills'' @ [CHR 0x22]
     @ '' section using your available tools (e.g. web_fetch, create_note, list_folders, list_tags).''"

definition Execute ::
  "skill_lib \<Rightarrow> Executor \<Rightarrow> Skill \<Rightarrow> string \<Rightarrow> duration \<Rightarrow> skill_run" where
  "Execute u e s args0 timeout0 =
     (if IsMCPOnly s then
        \<lparr>kr_stdout = mcp_only_text (kl_quote u) s, kr_stderr = [], kr_exitCode = 0, kr_err = None, kr_resolved = [], kr_call = None\<rparr>
      else case xe_sandbox e of
        None \<Rightarrow> \<lparr>kr_stdout = [], kr_stderr = [], kr_exitCode = - 1, kr_err = Some (NeedsSandbox (sk_Name s)), kr_resolved = [],
                 kr_call = None\<rparr>
      | Some sb \<Rightarrow>
          let resolved = secret_Resolve (xe_providers e) (skill_secrets s);
              env1 = fold (put_secret u sb) (kl_visited u resolved) (standard_env u e s);
              (argsEnv, positional) = parseSkillArgs u args0;
              call = \<lparr>cc_command = skill_command u s (if positional \<noteq> [] then positional else args0),
                      cc_workDir = (if xe_Workspace e = [] then sb_WorkDir sb else xe_Workspace e),
                      cc_timeout = skill_timeout s timeout0, cc_env = env1 ++ argsEnv\<rparr>;
              (out, err, code, failure) = sb_Exec sb call
          in \<lparr>kr_stdout = out, kr_stderr = err, kr_exitCode = code, kr_err = map_option ExecFailed failure,
              kr_resolved = secret_events s resolved, kr_call = Some call\<rparr>)"

section \<open>The tool\<close>

definition failed_run :: "skill_error \<Rightarrow> skill_run" where
  "failed_run e = \<lparr>kr_stdout = [], kr_stderr = [], kr_exitCode = - 1, kr_err = Some e, kr_resolved = [], kr_call = None\<rparr>"

definition ExecSkillExec ::
  "skill_lib \<Rightarrow> Loader \<Rightarrow> Executor \<Rightarrow> string \<Rightarrow> string \<Rightarrow> int \<Rightarrow> skill_run" where
  "ExecSkillExec u l e name args timeout =
     (if name = [] then failed_run NameRequired
      else case SkillByName l name of
        None \<Rightarrow> failed_run (SkillNotFound name)
      | Some s \<Rightarrow>
          if RequiresSandbox s \<and> xe_sandbox e = None then failed_run (NeedsSandbox name)
          else let r = Execute u e s args (timeout * Second) in
            if kr_err r = None \<and> kr_exitCode r = 0 \<and> 8192 < length (kr_stdout r)
            then r\<lparr>kr_stdout := drop (length (kr_stdout r) - 8192) (kr_stdout r)\<rparr> else r)"

section \<open>The prompt section\<close>

definition is_active :: "string list option \<Rightarrow> Skill \<Rightarrow> bool" where
  "is_active active s = (case active of None \<Rightarrow> True | Some names \<Rightarrow> sk_Name s \<in> set names)"

lemma section_loop_filter:
  "section_loop active ss (full, slim)
     = (full @ concat (map full_entry (filter (is_active active) ss)),
        slim @ concat (map slim_line (filter (\<lambda>s. \<not> is_active active s) ss)))"
  by (induction active ss "(full, slim)" arbitrary: full slim rule: section_loop.induct)
    (auto simp: is_active_def split: option.splits)

text \<open>Every skill that can run is in the section once, the active ones in full, and no other.\<close>

lemma prompt_section_complete:
  assumes "AvailableSkills l \<noteq> []"
  shows "\<exists>rest. BuildPromptSectionForSkills l active
           = skills_header @ concat (map full_entry (filter (is_active active) (AvailableSkills l))) @ rest
         \<and> (let slim = concat (map slim_line (filter (\<lambda>s. \<not> is_active active s) (AvailableSkills l)))
            in if slim = [] then rest = []
               else rest = ''Other skills (send a message mentioning the skill to activate):'' @ newline @ slim)"
  using assms by (simp add: BuildPromptSectionForSkills_def section_loop_filter Let_def)

lemma no_sandbox_skills:
  "\<not> sl_sandboxAvailable l \<Longrightarrow> set (AvailableSkills l) = {s \<in> set (sl_skills l). IsMCPOnly s}"
  by (auto simp: AvailableSkills_def RequiresSandbox_def)

section \<open>Running\<close>

text \<open>Nothing runs in a container without one.\<close>

lemma no_sandbox_no_call:
  assumes "xe_sandbox e = None"
  shows "kr_call (ExecSkillExec u l e name args timeout) = None"
  using assms
  by (auto simp: ExecSkillExec_def Execute_def failed_run_def RequiresSandbox_def Let_def split: option.splits)

text \<open>
  Quoting for the shell escapes the double quote only: any other text stands between the quotes
  as it is, with its dollar signs, backquotes and backslashes.
\<close>

lemma shellQuote_verbatim: "CHR 0x22 \<notin> set s \<Longrightarrow> shellQuote s = CHR 0x22 # s @ [CHR 0x22]"
  by (induction s) (auto simp: shellQuote_def)

text \<open>
  The arguments come last: whatever the secrets and the standard variables are, a member of the JSON arguments
  is the value its variable has in the container.
\<close>

theorem arguments_override_environment:
  assumes "kr_call (ExecSkillExec u l e name args timeout) = Some call"
  shows "\<exists>s sb. SkillByName l name = Some s \<and> \<not> IsMCPOnly s \<and> xe_sandbox e = Some sb
     \<and> cc_env call = fold (put_secret u sb) (kl_visited u (secret_Resolve (xe_providers e) (skill_secrets s))) (standard_env u e s)
                      ++ fst (parseSkillArgs u args)
     \<and> cc_command call = skill_command u s (if snd (parseSkillArgs u args) = [] then args else snd (parseSkillArgs u args))"
  using assms
  by (auto simp: ExecSkillExec_def Execute_def failed_run_def RequiresSandbox_def Let_def
      split: option.splits if_splits prod.splits)

end
