(* ===== verification/AgentCommands.thy ===== *)
theory AgentCommands
  imports SessionStore Usage Profile Skills Registration
begin

text \<open>
  The state of the agent runtime (\<^verbatim>\<open>Runtime\<close> in \<^verbatim>\<open>internal/agent/runtime.go\<close>), its event publisher
  (\<^verbatim>\<open>publisher.go\<close>) and the slash commands it answers without the model (\<^verbatim>\<open>commands.go\<close>).

  The broker answers each publication through \<open>pub_answer\<close>; clock readings, fresh identifiers and time stamps of
  archives come with the environment. Errors of the store reach the user as text through \<open>ce_err_text\<close>.
\<close>

section \<open>Publishing events\<close>

datatype amqp_channel = NoAmqpChannel | OpenChannel | DeadChannel

record EventPublisher =
  ep_UserID :: string
  ep_Exchange :: string
  ep_EventsPublish :: string
  ep_ch :: amqp_channel
  ep_sent :: "(string \<times> string \<times> NipperEvent) list"  \<comment> \<open>exchange, routing key and event, as the broker took them\<close>
  ep_calls :: nat

record pub_answer =
  pa_uuid :: string
  pa_now :: time
  pa_closed :: bool  \<comment> \<open>the channel held turns out to be closed\<close>
  pa_open :: bool
  pa_publish :: bool

datatype event_publish_error = ChannelUnavailable | EventRefused

text \<open>\<^verbatim>\<open>strings.ReplaceAll\<close> with a nonempty pattern.\<close>

definition ReplaceAll :: "string \<Rightarrow> string \<Rightarrow> string \<Rightarrow> string" where
  "ReplaceAll s old new = JoinStr (SplitStr s old) new"

definition routingKey :: "EventPublisher \<Rightarrow> string \<Rightarrow> string" where
  "routingKey p sessionKey = ReplaceAll (ep_EventsPublish p) ''{sessionId}'' sessionKey"

definition ensureChannel :: "pub_answer \<Rightarrow> EventPublisher \<Rightarrow> EventPublisher \<times> bool" where
  "ensureChannel a p =
     (if ep_ch p = OpenChannel \<and> \<not> pa_closed a then (p, True)
      else if pa_open a then (p\<lparr>ep_ch := OpenChannel\<rparr>, True)
      else (p\<lparr>ep_ch := (if ep_ch p = OpenChannel then DeadChannel else ep_ch p)\<rparr>, False))"

definition stamp_event :: "pub_answer \<Rightarrow> EventPublisher \<Rightarrow> NipperEvent \<Rightarrow> NipperEvent" where
  "stamp_event a p event =
     event\<lparr>ev_EventID := (if ev_EventID event = [] then pa_uuid a else ev_EventID event),
           ev_Timestamp := (if ev_Timestamp event = zero_time then pa_now a else ev_Timestamp event),
           ev_UserID := (if ev_UserID event = [] then ep_UserID p else ev_UserID event)\<rparr>"

definition PublishEvent ::
  "(nat \<Rightarrow> pub_answer) \<Rightarrow> EventPublisher \<Rightarrow> NipperEvent \<Rightarrow> EventPublisher \<times> event_publish_error option" where
  "PublishEvent answers p0 event =
     (let a = answers (ep_calls p0); p = p0\<lparr>ep_calls := ep_calls p0 + 1\<rparr>; ev = stamp_event a p event;
          (p1, ready) = ensureChannel a p
      in if \<not> ready then (p1, Some ChannelUnavailable)
         else if pa_publish a then
           (p1\<lparr>ep_sent := ep_sent p1 @ [(ep_Exchange p1, routingKey p1 (ev_SessionKey ev), ev)]\<rparr>, None)
         else (p1\<lparr>ep_ch := NoAmqpChannel\<rparr>, Some EventRefused))"

definition blank_event :: "NipperEventType \<Rightarrow> string \<Rightarrow> NipperEvent" where
  "blank_event t sessionKey =
     \<lparr>ev_EventID = [], ev_Type = t, ev_SessionKey = sessionKey, ev_ResponseID = [], ev_Timestamp = zero_time,
      ev_Delta = None, ev_ToolInfo = None, ev_SkillInfo = None, ev_Thinking = None, ev_Error = None,
      ev_ContextUsage = None, ev_UserID = []\<rparr>"

definition done_event :: "string \<Rightarrow> string \<Rightarrow> string \<Rightarrow> ContextUsage option \<Rightarrow> NipperEvent" where
  "done_event sessionKey responseID reply contextUsage =
     (blank_event EventTypeDone sessionKey)\<lparr>ev_ResponseID := responseID, ev_Delta := Some reply, ev_ContextUsage := contextUsage\<rparr>"

definition error_event :: "string \<Rightarrow> string \<Rightarrow> string \<Rightarrow> bool \<Rightarrow> NipperEvent" where
  "error_event sessionKey code message recoverable =
     (blank_event EventTypeError sessionKey)\<lparr>ev_Error := Some \<lparr>er_Code = code, er_Message = message, er_Recoverable = recoverable\<rparr>\<rparr>"

definition PublishDone ::
  "(nat \<Rightarrow> pub_answer) \<Rightarrow> EventPublisher \<Rightarrow> string \<Rightarrow> string \<Rightarrow> string \<Rightarrow> ContextUsage option
     \<Rightarrow> EventPublisher \<times> event_publish_error option" where
  "PublishDone answers p sessionKey responseID reply contextUsage =
     PublishEvent answers p (done_event sessionKey responseID reply contextUsage)"

definition PublishError ::
  "(nat \<Rightarrow> pub_answer) \<Rightarrow> EventPublisher \<Rightarrow> string \<Rightarrow> string \<Rightarrow> string \<Rightarrow> bool \<Rightarrow> EventPublisher \<times> event_publish_error option" where
  "PublishError answers p sessionKey code message recoverable =
     PublishEvent answers p (error_event sessionKey code message recoverable)"

definition publisher_Close :: "EventPublisher \<Rightarrow> EventPublisher" where
  "publisher_Close p = p\<lparr>ep_ch := NoAmqpChannel\<rparr>"

section \<open>The runtime\<close>

record AgentRuntimeConfig =
  rc_Provider :: string
  rc_Model :: string
  rc_LeanMCPTools :: bool
  rc_SystemPrompt :: string
  rc_CompactKeepLines :: int
  rc_AutoCompactionThresholdPercent :: int
  rc_Tools :: AgentToolsConfig
  rc_MaxSteps :: int

record Runtime =
  rt_cfg :: AgentRuntimeConfig
  rt_regUserID :: string
  rt_regDefaultModel :: string
  rt_sessions :: SStore
  rt_profiles :: profiles
  rt_usageTracker :: "UsageTracker option"
  rt_skillsLoader :: "Loader option"
  rt_contextWindowMax :: int
  rt_sessionPersonas :: "string \<rightharpoonup> string"
  rt_visionUnsupported :: bool

datatype CommandAction = ActionNone | ActionNewSession | ActionCompact

record CommandResult =
  cr_Handled :: bool
  cr_Response :: string
  cr_Action :: CommandAction

definition answer :: "string \<Rightarrow> CommandResult" where
  "answer s = \<lparr>cr_Handled = True, cr_Response = s, cr_Action = ActionNone\<rparr>"

record command_env =
  ce_now :: time
  ce_ts :: string  \<comment> \<open>the time stamp of archive names\<close>
  ce_fresh :: string  \<comment> \<open>a fresh session identifier\<close>
  ce_rfc3339 :: "time \<Rightarrow> string"
  ce_err_text :: "sess_error \<Rightarrow> string"
  ce_io_text :: string  \<comment> \<open>the text of a failed profile file operation\<close>
  ce_is_number :: "string \<Rightarrow> bool"
  ce_write_ok :: bool
  ce_quote :: "string \<Rightarrow> string"

section \<open>The commands\<close>

definition help_text :: string where
  "help_text =
     ''*Available Commands*'' @ newline @ newline @ ''- /help '' @ [CHR 0xE2, CHR 0x80, CHR 0x94] @
     '' Show this help message'' @ newline @ ''- /new '' @ [CHR 0xE2, CHR 0x80, CHR 0x94] @
     '' Start a new session (clears conversation history)'' @ newline @ ''- /reset '' @
     [CHR 0xE2, CHR 0x80, CHR 0x94] @ '' Alias for /new'' @ newline @ ''- /setup '' @
     [CHR 0xE2, CHR 0x80, CHR 0x94] @ '' View or update your profile (name, language, etc.)'' @ newline @
     ''- /usage '' @ [CHR 0xE2, CHR 0x80, CHR 0x94] @ '' Show context window usage and estimated LLM costs'' @
     newline @ ''- /compact '' @ [CHR 0xE2, CHR 0x80, CHR 0x94] @
     '' Force transcript compaction to free context space'' @ newline @ ''- /status '' @
     [CHR 0xE2, CHR 0x80, CHR 0x94] @ '' Show current session information'' @ newline @
     ''- /persona <description> '' @ [CHR 0xE2, CHR 0x80, CHR 0x94] @
     '' Set the agent persona for this session'' @ newline @ newline @
     ''All commands are processed locally and do not consume LLM tokens.''"

definition cmdHelp :: CommandResult where
  "cmdHelp = answer help_text"

text \<open>What a session is created with: the parts of its key, or of the message when the key does not parse.\<close>

definition key_parts :: "NipperMessage \<Rightarrow> string \<times> string \<times> string" where
  "key_parts msg =
     (case ParseSessionKey (nm_SessionKey msg) of
        Inl _ \<Rightarrow> (nm_UserID msg, nm_ChannelType msg, nm_SessionKey msg)
      | Inr parts \<Rightarrow> parts)"

definition session_request :: "Runtime \<Rightarrow> NipperMessage \<Rightarrow> CreateSessionRequest" where
  "session_request r msg =
     (let (userID, channelType, sessionID) = key_parts msg
      in \<lparr>sr_UserID = userID, sr_SessionID = sessionID, sr_ChannelType = channelType,
          sr_Model = (if rt_regDefaultModel r \<noteq> [] then rt_regDefaultModel r else rc_Model (rt_cfg r)),
          sr_ChannelMeta = None\<rparr>)"

definition reset_usage :: "string \<Rightarrow> string \<Rightarrow> UsageTracker \<Rightarrow> UsageTracker" where
  "reset_usage sessionKey storeKey t =
     (let t1 = usage_Reset t sessionKey in if storeKey \<noteq> sessionKey then usage_Reset t1 storeKey else t1)"

definition cmdNewSession :: "command_env \<Rightarrow> Runtime \<Rightarrow> NipperMessage \<Rightarrow> Runtime \<times> CommandResult" where
  "cmdNewSession env r msg =
     (let (st1, _) = ArchiveSession (rt_sessions r) (nm_SessionKey msg) (ce_ts env) (ce_now env)
      in case CreateSession st1 (session_request r msg) (ce_fresh env) (ce_now env) of
           (st2, Inl _) \<Rightarrow> (r\<lparr>rt_sessions := st2\<rparr>, answer ''Failed to create new session. Please try again.'')
         | (st2, Inr sess) \<Rightarrow>
             (r\<lparr>rt_sessions := st2, rt_usageTracker := map_option (reset_usage (nm_SessionKey msg) (ps_Key sess)) (rt_usageTracker r)\<rparr>,
              \<lparr>cr_Handled = True,
               cr_Response = ''Session cleared. Starting fresh. Your conversation history has been archived.'',
               cr_Action = ActionNewSession\<rparr>))"

definition cmdUsage :: "command_env \<Rightarrow> Runtime \<Rightarrow> string \<Rightarrow> CommandResult" where
  "cmdUsage env r sessionKey =
     (case rt_usageTracker r of
        None \<Rightarrow> answer ''Usage tracking is not available.''
      | Some t \<Rightarrow> answer (FormatUsage (ce_rfc3339 env) t sessionKey))"

definition cmdCompact :: "command_env \<Rightarrow> Runtime \<Rightarrow> string \<Rightarrow> Runtime \<times> CommandResult" where
  "cmdCompact env r sessionKey =
     (case Compact (rt_sessions r) sessionKey 20 (ce_ts env) (ce_now env) of
        (st, Inl e) \<Rightarrow> (r\<lparr>rt_sessions := st\<rparr>, answer (''Compaction failed: '' @ ce_err_text env e))
      | (st, Inr res) \<Rightarrow>
          (r\<lparr>rt_sessions := st\<rparr>,
           \<lparr>cr_Handled = True,
            cr_Response =
              (if \<not> co_Compacted res
               then ''No compaction needed. Transcript has '' @ show_nat (co_OriginalLineCount res) @ '' messages (threshold: 20).''
               else ''Compaction complete.'' @ newline @ ''- Archived: '' @ show_nat (co_ArchivedLineCount res) @ '' messages'' @ newline
                    @ ''- Remaining: '' @ show_nat (co_RemainingLineCount res) @ '' messages'' @ newline
                    @ ''- Compaction #'' @ show_int (co_CompactionCount res)),
            cr_Action = ActionCompact\<rparr>))"

definition status_name :: "PStatus \<Rightarrow> string" where
  "status_name s = (case s of StatusActive \<Rightarrow> ''active'' | StatusArchived \<Rightarrow> ''archived'' | StatusExpired \<Rightarrow> ''expired'')"

definition cmdStatus :: "command_env \<Rightarrow> Runtime \<Rightarrow> string \<Rightarrow> CommandResult" where
  "cmdStatus env r sessionKey =
     (case GetSession (rt_sessions r) sessionKey of
        Inl e \<Rightarrow> answer (''Could not load session: '' @ ce_err_text env e)
      | Inr sess \<Rightarrow>
          let m = ps_Metadata sess in
          answer (''*Session Status*'' @ newline @ newline
            @ ''- Session key: '' @ sessionKey @ newline
            @ ''- Status: '' @ status_name (ps_Status sess) @ newline
            @ ''- Model: '' @ pm_Model m @ newline
            @ ''- Provider: '' @ rc_Provider (rt_cfg r) @ newline
            @ ''- Messages: '' @ show_int (pm_MessageCount m) @ newline
            @ ''- Compactions: '' @ show_int (pm_CompactionCount m) @ newline
            @ ''- Created: '' @ ce_rfc3339 env (ps_CreatedAt sess) @ newline
            @ ''- Last activity: '' @ ce_rfc3339 env (pm_LastActivityAt m) @ newline
            @ (case rt_usageTracker r of
                 None \<Rightarrow> []
               | Some t \<Rightarrow>
                   (case usage_Get t sessionKey of
                      None \<Rightarrow> []
                    | Some u \<Rightarrow>
                        if 0 < su_ContextWindowSize u
                        then ''- Context window: '' @ show_int (su_ContextWindowSize u) @ '' tokens'' @ newline
                             @ ''- Last context usage: '' @ Fixed 1 (su_LastUsagePercent u) @ ''%'' @ newline
                        else []))))"

definition cmdPersona :: "Runtime \<Rightarrow> string \<Rightarrow> string \<Rightarrow> Runtime \<times> CommandResult" where
  "cmdPersona r sessionKey persona =
     (if TrimSpace persona = []
      then (r, answer (''Usage: /persona <description>'' @ newline @ newline
                 @ ''Example: /persona You are a senior DevOps engineer who speaks concisely.''))
      else (r\<lparr>rt_sessionPersonas := (rt_sessionPersonas r)(sessionKey \<mapsto> persona)\<rparr>,
            answer (''Persona updated for this session:'' @ newline @ newline @ ''_'' @ persona @ ''_'')))"

definition run_setup :: "command_env \<Rightarrow> Runtime \<Rightarrow> string \<Rightarrow> string \<Rightarrow> Runtime \<times> CommandResult" where
  "run_setup env r userID args =
     (let (fs', reply) = cmdSetup (ce_is_number env) (ce_write_ok env) (ce_now env) (rt_profiles r) userID args
      in (r\<lparr>rt_profiles := fs'\<rparr>, answer (setup_text (ce_quote env) (ce_io_text env) reply)))"

section \<open>Dispatch\<close>

text \<open>The text of a message: its content, or when that is blank its first text part.\<close>

definition command_text :: "NipperMessage \<Rightarrow> string" where
  "command_text msg =
     (let t = TrimSpace (mc_Text (nm_Content msg)) in
      if t \<noteq> [] then t
      else case find_first (\<lambda>p. cp_Type p = ''text'' \<and> cp_Text p \<noteq> []) (mc_Parts (nm_Content msg)) of
             None \<Rightarrow> t | Some p \<Rightarrow> TrimSpace (cp_Text p))"

definition handleCommand :: "command_env \<Rightarrow> Runtime \<Rightarrow> NipperMessage \<Rightarrow> Runtime \<times> CommandResult option" where
  "handleCommand env r msg =
     (let txt0 = command_text msg in
      if \<not> HasPrefix txt0 ''/'' then (r, None)
      else let parts = SplitN2 txt0 (CHR '' ''); command = ToLower (hd parts);
               args = (if 1 < length parts then TrimSpace (parts ! 1) else []);
               key = nm_SessionKey msg
           in if command = ''/help'' then (r, Some cmdHelp)
              else if command = ''/new'' \<or> command = ''/reset'' then map_prod id Some (cmdNewSession env r msg)
              else if command = ''/usage'' then (r, Some (cmdUsage env r key))
              else if command = ''/compact'' then map_prod id Some (cmdCompact env r key)
              else if command = ''/status'' then (r, Some (cmdStatus env r key))
              else if command = ''/persona'' then map_prod id Some (cmdPersona r key args)
              else if command = ''/setup'' then map_prod id Some (run_setup env r (nm_UserID msg) args)
              else (r, None))"

section \<open>Properties\<close>

lemma stamp_event_keeps [simp]:
  "ev_Type (stamp_event a p ev) = ev_Type ev" "ev_SessionKey (stamp_event a p ev) = ev_SessionKey ev"
  "ev_Delta (stamp_event a p ev) = ev_Delta ev" "ev_Error (stamp_event a p ev) = ev_Error ev"
  "ev_ResponseID (stamp_event a p ev) = ev_ResponseID ev" "ev_ContextUsage (stamp_event a p ev) = ev_ContextUsage ev"
  "ev_ToolInfo (stamp_event a p ev) = ev_ToolInfo ev" "ev_Thinking (stamp_event a p ev) = ev_Thinking ev"
  by (simp_all add: stamp_event_def)

text \<open>A publication adds at most its own event, at the end, and exactly when it reports success.\<close>

lemma PublishEvent_sent:
  "ep_sent (fst (PublishEvent answers p ev)) = ep_sent p @
     (if snd (PublishEvent answers p ev) = None
      then [(ep_Exchange p, routingKey p (ev_SessionKey ev), stamp_event (answers (ep_calls p)) p ev)] else [])"
  by (auto simp: PublishEvent_def ensureChannel_def routingKey_def stamp_event_def Let_def)

lemma PublishEvent_frame [simp]:
  "ep_UserID (fst (PublishEvent answers p ev)) = ep_UserID p" "ep_Exchange (fst (PublishEvent answers p ev)) = ep_Exchange p"
  "ep_EventsPublish (fst (PublishEvent answers p ev)) = ep_EventsPublish p"
  "ep_calls (fst (PublishEvent answers p ev)) = ep_calls p + 1"
  by (auto simp: PublishEvent_def ensureChannel_def Let_def)

text \<open>
  C36: the command \<^verbatim>\<open>/new\<close>, when it reports success: the session descriptor is fresh and the usage figures are gone; the
  transcript has moved to the archive and is empty, unless its lock was held, in which case it is left in place
  although the answer is the same.
\<close>

theorem new_session_command:
  assumes k: "ParseSessionKey (nm_SessionKey msg) = Inr (u, c, sid)" and sid: "sid \<noteq> []"
    and t: "st_fs (rt_sessions r) (transcriptPath u sid) = Some x"
    and run: "cmdNewSession env r msg = (r', res)" and ok: "cr_Action res = ActionNewSession"
  shows "(if lock_blocked (st_fs (rt_sessions r)) (lockPath u sid) (ce_now env)
          then st_fs (rt_sessions r') (transcriptPath u sid) = Some x
          else st_fs (rt_sessions r') (transcriptPath u sid) = Some (Lines [])
               \<and> st_fs (rt_sessions r') (archivePath u sid (ce_ts env)) = Some x)
    \<and> (\<exists>sess. st_fs (rt_sessions r') (metaPath u sid) = Some (MetaFile sess) \<and> ps_Status sess = StatusActive
          \<and> pm_MessageCount (ps_Metadata sess) = 0)
    \<and> (\<forall>tr. rt_usageTracker r' = Some tr \<longrightarrow> usage_Get tr (nm_SessionKey msg) = None)
    \<and> cr_Response res = ''Session cleared. Starting fresh. Your conversation history has been archived.''"
proof -
  obtain st1 ar where a: "ArchiveSession (rt_sessions r) (nm_SessionKey msg) (ce_ts env) (ce_now env) = (st1, ar)" by force
  obtain st2 cr where c: "CreateSession st1 (session_request r msg) (ce_fresh env) (ce_now env) = (st2, cr)" by force
  obtain sess where s: "cr = Inr sess" using run ok by (cases cr) (auto simp: cmdNewSession_def a c answer_def)
  have req: "sr_UserID (session_request r msg) = u" "sr_SessionID (session_request r msg) = sid"
    by (simp_all add: session_request_def key_parts_def k)
  note step = Create_step [OF c [unfolded s]]
  note files = Create_files [OF c [unfolded s]]
  have id: "ps_ID sess = sid" using step req sid by simp
  have new: "sess = new_session (session_request r msg) sid (ce_now env)"
    using c s req sid by (auto simp: CreateSession_def Let_def split: if_splits sum.splits prod.splits)
  have r': "rt_sessions r' = st2"
    "rt_usageTracker r' = map_option (reset_usage (nm_SessionKey msg) (ps_Key sess)) (rt_usageTracker r)"
    "cr_Response res = ''Session cleared. Starting fresh. Your conversation history has been archived.''"
    using run by (auto simp: cmdNewSession_def a c s)
  have "st_fs st2 (metaPath u sid) = Some (MetaFile sess)" using files(1) req id by simp
  moreover have "ps_Status sess = StatusActive" "pm_MessageCount (ps_Metadata sess) = 0"
    by (simp_all add: new new_session_def)
  moreover have "usage_Get tr (nm_SessionKey msg) = None" if "rt_usageTracker r' = Some tr" for tr
    using that by (auto simp: r' reset_usage_def usage_Get_def usage_Reset_def Let_def)
  moreover have "if lock_blocked (st_fs (rt_sessions r)) (lockPath u sid) (ce_now env)
      then st_fs st2 (transcriptPath u sid) = Some x
      else st_fs st2 (transcriptPath u sid) = Some (Lines []) \<and> st_fs st2 (archivePath u sid (ce_ts env)) = Some x"
  proof (cases "lock_blocked (st_fs (rt_sessions r)) (lockPath u sid) (ce_now env)")
    case True
    then have "st1 = rt_sessions r" using a by (simp add: ArchiveSession_def k)
    then show ?thesis using True files(2) [of u sid] t by simp
  next
    case False
    then have "ar = Inr ()" using a by (simp add: ArchiveSession_def k Let_def)
    note arch = Archive_files [OF k a [unfolded this] t]
    show ?thesis using False arch files(2) [of u sid] files(3) [of u sid "ce_ts env"] req id by simp
  qed
  ultimately show ?thesis using r' by blast
qed

definition demo_user_message :: "string \<Rightarrow> string \<Rightarrow> NipperMessage" where
  "demo_user_message key t =
     \<lparr>nm_MessageID = ''m'', nm_OriginMessageID = ''m'', nm_UserID = ''u'', nm_SessionKey = key,
      nm_ChannelType = ''slack'', nm_ChannelIdentity = ''U1'', nm_Content = \<lparr>mc_Text = t, mc_Parts = []\<rparr>,
      nm_DeliveryContext = zeroDeliveryContext, nm_Meta = None, nm_Timestamp = 1, nm_DedupeKey = []\<rparr>"

definition demo_cfg :: AgentRuntimeConfig where
  "demo_cfg = \<lparr>rc_Provider = ''p'', rc_Model = ''m'', rc_LeanMCPTools = False, rc_SystemPrompt = [], rc_CompactKeepLines = 0,
     rc_AutoCompactionThresholdPercent = 0, rc_Tools = all_on, rc_MaxSteps = 5\<rparr>"

definition demo_runtime :: "SStore \<Rightarrow> Runtime" where
  "demo_runtime st = \<lparr>rt_cfg = demo_cfg, rt_regUserID = ''u'', rt_regDefaultModel = [], rt_sessions = st,
     rt_profiles = Map.empty, rt_usageTracker = Some (NewUsageTracker ''m'' 100), rt_skillsLoader = None,
     rt_contextWindowMax = 100, rt_sessionPersonas = Map.empty, rt_visionUnsupported = False\<rparr>"

definition demo_cmd_env :: command_env where
  "demo_cmd_env = \<lparr>ce_now = 9, ce_ts = ''t'', ce_fresh = ''f'', ce_rfc3339 = (\<lambda>_. []), ce_err_text = (\<lambda>_. []),
     ce_io_text = [], ce_is_number = (\<lambda>_. False), ce_write_ok = True, ce_quote = id\<rparr>"

theorem new_session_command_witness:
  "\<exists>r' res. cmdNewSession demo_cmd_env (demo_runtime demo_chat) (demo_user_message demo_key ''/new'') = (r', res)
     \<and> st_fs (rt_sessions r') (transcriptPath ''u'' ''s'') = Some (Lines [])
     \<and> st_fs (rt_sessions r') (archivePath ''u'' ''s'' ''t'') = Some (Lines [stored (demo_line ''a''), stored (demo_line ''b'')])"
proof -
  have k: "ParseSessionKey (nm_SessionKey (demo_user_message demo_key ''/new'')) = Inr (''u'', ''slack'', ''s'')"
    by (simp add: demo_user_message_def demo_key_parts)
  obtain r' res where run: "cmdNewSession demo_cmd_env (demo_runtime demo_chat) (demo_user_message demo_key ''/new'') = (r', res)"
    and ok: "cr_Action res = ActionNewSession"
    by (simp add: cmdNewSession_def session_request_def key_parts_def k CreateSession_def upsertIndex_def refreshIndexCache_def
        ArchiveSession_def demo_user_message_def demo_key_parts lock_blocked_def rename_def demo_chat_def demo_runtime_def
        Let_def split: option.split)
  have free: "\<not> lock_blocked (st_fs demo_chat) (lockPath ''u'' ''s'') 9" by (simp add: lock_blocked_def demo_chat_files)
  have t: "st_fs (rt_sessions (demo_runtime demo_chat)) (transcriptPath ''u'' ''s'')
      = Some (Lines [stored (demo_line ''a''), stored (demo_line ''b'')])" by (simp add: demo_runtime_def demo_chat_files)
  show ?thesis
    using new_session_command [OF k _ t run ok] free run by (auto simp: demo_runtime_def demo_cmd_env_def)
qed

end
