(* ===== verification/Enrich.thy ===== *)
theory Enrich
  imports AgentInput
begin

text \<open>
  Media enrichment before the model sees a message (\<^verbatim>\<open>internal/agent/enrich\<close>): the pipeline and the speech-to-text
  enricher. Fetching the audio and the answer of the speech server are arguments.
\<close>

section \<open>Enrichers\<close>

record ContentPartView =
  pv_Type :: string
  pv_URL :: string
  pv_MimeType :: string
  pv_Caption :: string

record Enricher =
  en_Supports :: "string \<Rightarrow> bool"
  en_Enrich :: "ContentPartView \<Rightarrow> string + string option"  \<comment> \<open>an error, or the transcript of the result if any\<close>

datatype speech_error = NoURL | MediaFetchFailed string | RequestFailed string | BadStatus nat string | BadAnswer string

text \<open>The speech server: a failed request, or status and body; \<open>sv_decode\<close> is the text of a JSON answer.\<close>

record speech_server =
  sv_fetch :: "string \<Rightarrow> string + string"
  sv_post :: "string \<Rightarrow> string \<Rightarrow> string + nat \<times> string"
  sv_decode :: "string \<Rightarrow> string + string"

definition transcribe :: "speech_server \<Rightarrow> string \<Rightarrow> string \<Rightarrow> speech_error + string" where
  "transcribe v endpoint audio =
     (case sv_post v (endpoint @ ''/inference'') audio of
        Inl e \<Rightarrow> Inl (RequestFailed e)
      | Inr (status, body) \<Rightarrow>
          if status \<noteq> 200 then Inl (BadStatus status body)
          else (case sv_decode v (take (1024 * 1024) body) of Inl e \<Rightarrow> Inl (BadAnswer e) | Inr t \<Rightarrow> Inr (TrimSpace t)))"

definition speech_Enrich :: "speech_server \<Rightarrow> string \<Rightarrow> ContentPartView \<Rightarrow> speech_error + string option" where
  "speech_Enrich v endpoint part =
     (if pv_URL part = [] then Inl NoURL
      else case sv_fetch v (pv_URL part) of
             Inl e \<Rightarrow> Inl (MediaFetchFailed e)
           | Inr audio \<Rightarrow> map_sum id Some (transcribe v endpoint audio))"

definition NewSpeechEnricher :: "speech_server \<Rightarrow> (speech_error \<Rightarrow> string) \<Rightarrow> string \<Rightarrow> Enricher" where
  "NewSpeechEnricher v err_text endpoint =
     \<lparr>en_Supports = (\<lambda>t. t = ''audio''),
      en_Enrich = (\<lambda>part. map_sum err_text id (speech_Enrich v (TrimRight1 endpoint (CHR ''/'')) part))\<rparr>"

section \<open>The pipeline\<close>

definition view_of :: "ContentPart \<Rightarrow> ContentPartView" where
  "view_of p = \<lparr>pv_Type = cp_Type p, pv_URL = cp_URL p, pv_MimeType = cp_MimeType p, pv_Caption = cp_Caption p\<rparr>"

text \<open>One part: the first enricher that supports its type, if any.\<close>

definition enrich_part :: "Enricher list \<Rightarrow> ContentPart \<Rightarrow> string + string option" where
  "enrich_part es p =
     (case find_first (\<lambda>e. en_Supports e (cp_Type p)) es of None \<Rightarrow> Inr None | Some e \<Rightarrow> en_Enrich e (view_of p))"

text \<open>The loop: the parts as they are left, the transcripts, and the error that ended it.\<close>

fun enrich_parts :: "Enricher list \<Rightarrow> ContentPart list \<Rightarrow> ContentPart list \<times> string list \<times> string option" where
  "enrich_parts es [] = ([], [], None)"
| "enrich_parts es (p # ps) =
     (case enrich_part es p of
        Inl err \<Rightarrow> (p # ps, [], Some err)
      | Inr t \<Rightarrow>
          let transcript = (case t of None \<Rightarrow> [] | Some s \<Rightarrow> s); (ps', ts, err) = enrich_parts es ps
          in if transcript = [] then (p # ps', ts, err) else (p\<lparr>cp_Transcript := transcript\<rparr> # ps', transcript # ts, err))"

definition EnrichMessage :: "Enricher list \<Rightarrow> NipperMessage \<Rightarrow> NipperMessage \<times> string option" where
  "EnrichMessage es msg =
     (if es = [] then (msg, None)
      else let content = nm_Content msg; (parts, transcripts, err) = enrich_parts es (mc_Parts content);
               joined = JoinStr transcripts newline;
               txt = (if err \<noteq> None \<or> transcripts = [] then mc_Text content
                      else if mc_Text content = [] then joined
                      else mc_Text content @ newline @ newline @ ''[Voice message]: '' @ joined)
           in (msg\<lparr>nm_Content := \<lparr>mc_Text = txt, mc_Parts = parts\<rparr>\<rparr>, err))"

section \<open>Properties\<close>

lemma EnrichMessage_frame [simp]:
  "nm_SessionKey (fst (EnrichMessage es msg)) = nm_SessionKey msg" "nm_UserID (fst (EnrichMessage es msg)) = nm_UserID msg"
  "nm_DeliveryContext (fst (EnrichMessage es msg)) = nm_DeliveryContext msg"
  by (simp_all add: EnrichMessage_def Let_def split: prod.split)

lemma enrich_parts_ok:
  "enrich_parts es ps = (ps', ts, None) \<Longrightarrow>
     length ps' = length ps \<and> ts = filter (\<lambda>t. t \<noteq> []) (map (\<lambda>p. case enrich_part es p of Inr (Some s) \<Rightarrow> s | _ \<Rightarrow> []) ps)
     \<and> (\<forall>i < length ps. cp_Type (ps' ! i) = cp_Type (ps ! i) \<and> cp_URL (ps' ! i) = cp_URL (ps ! i))"
proof (induction es ps arbitrary: ps' ts rule: enrich_parts.induct)
  case (2 es p ps)
  obtain t where t: "enrich_part es p = Inr t" using 2(2) by (cases "enrich_part es p") auto
  obtain qs us err where r: "enrich_parts es ps = (qs, us, err)" by (cases "enrich_parts es ps")
  have err: "err = None" using 2(2) by (auto simp: t r Let_def split: if_splits)
  note IH = 2(1) [OF t refl, of qs us] 
  show ?case using 2(2) IH r err by (auto simp: t Let_def nth_Cons split: if_splits option.splits nat.splits)
qed simp

text \<open>
  A failure throws away what was already transcribed: when the pipeline stops at an error, the parts before it keep
  their transcripts, so their files are no longer announced to the model, but the text of the message does not have them.
\<close>

theorem failed_enrichment_hides_audio:
  assumes "es \<noteq> []" and "enrich_part es a = Inr (Some t)" and "t \<noteq> []" and "cp_Type a = ''audio''"
    and "enrich_part es b = Inl err"
    and "mc_Parts (nm_Content msg) = [a, b]"
  shows "case EnrichMessage es msg of (msg', res) \<Rightarrow>
      res = Some err \<and> mc_Text (nm_Content msg') = mc_Text (nm_Content msg)
      \<and> mc_Parts (nm_Content msg') = [a\<lparr>cp_Transcript := t\<rparr>, b]
      \<and> filter is_annotated (mc_Parts (nm_Content msg')) = filter is_annotated [b]"
  using assms by (simp add: EnrichMessage_def is_annotated_def Let_def)

text \<open>When nothing fails, every transcript is in the text, in the order of the parts.\<close>

theorem enriched_text_complete:
  assumes "EnrichMessage es msg = (msg', None)" and "es \<noteq> []"
  shows "mc_Text (nm_Content msg') =
    (let ts = filter (\<lambda>t. t \<noteq> []) (map (\<lambda>p. case enrich_part es p of Inr (Some s) \<Rightarrow> s | _ \<Rightarrow> []) (mc_Parts (nm_Content msg)));
         spoken = JoinStr ts newline; typed = mc_Text (nm_Content msg)
     in if ts = [] then typed else if typed = [] then spoken
        else typed @ newline @ newline @ ''[Voice message]: '' @ spoken)"
proof -
  obtain ps ts err where r: "enrich_parts es (mc_Parts (nm_Content msg)) = (ps, ts, err)" by (cases "enrich_parts es (mc_Parts (nm_Content msg))")
  have "err = None" using assms by (simp add: EnrichMessage_def r Let_def)
  then show ?thesis using assms enrich_parts_ok [OF r [unfolded \<open>err = None\<close>]] by (auto simp: EnrichMessage_def r Let_def)
qed

end
