(* ===== verification/AgentRun.thy ===== *)
theory AgentRun
  imports Enrich
begin

text \<open>
  The agent loop (\<^verbatim>\<open>internal/agent/runtime.go\<close>): callbacks of the model and the tools, generation with its retries
  and recoveries, the cleaning of the answer, automatic compaction, the handling of a message and of a delivery.

  The ReAct framework is \<open>hv_generate\<close>: for each call, with the agent's configuration and the input, the callbacks it
  makes, in order, and its result. Broker, clock, identifiers, MCP loader and enrichment answer through the
  environment as well. Logging, metrics and tracing are left out, and so is the context value with the profile's
  coordinates, which only the weather tool reads.
\<close>

section \<open>Callbacks\<close>

text \<open>Values of Go's type \<^verbatim>\<open>any\<close> as the two parsers of skill events distinguish them.\<close>

datatype go_any = GNil | GString string | GFloat int | GInt int | GMap "(string \<times> go_any) list" | GOther

fun any_string :: "go_any option \<Rightarrow> string" where
  "any_string (Some (GString s)) = s"
| "any_string _ = []"

definition parseSkillExecInput :: "go_any \<Rightarrow> string \<times> string" where
  "parseSkillExecInput input =
     (case input of GMap m \<Rightarrow> (any_string (map_of m ''name''), any_string (map_of m ''args'')) | _ \<Rightarrow> ([], []))"

definition parseSkillExecOutput :: "go_any \<Rightarrow> int" where
  "parseSkillExecOutput output =
     (case output of
        GMap m \<Rightarrow> (case map_of m ''exit_code'' of Some (GFloat c) \<Rightarrow> c | Some (GInt c) \<Rightarrow> c | _ \<Rightarrow> - 1)
      | _ \<Rightarrow> - 1)"

text \<open>A tool call is known by a number; its context is what \<^verbatim>\<open>OnStart\<close> stores for \<^verbatim>\<open>OnEnd\<close>.\<close>

datatype callback =
  ToolStart nat string string string time  \<comment> \<open>call, tool, arguments, fresh identifier, clock\<close>
| ToolEnd nat string string time  \<comment> \<open>call, tool, response, clock\<close>
| ToolError nat string string
| ModelEnd "(int \<times> int) option" duration duration "string option" "(string \<times> string) list"
    \<comment> \<open>token usage, time to first token, generation time, reasoning of the message if any, extra fields\<close>
| ModelError string
| SecretResolved string string string  \<comment> \<open>skill, secret, provider: the skill observer\<close>

record call_context =
  cx_toolCallID :: string
  cx_skill :: "(time \<times> string) option"

record run_state =
  rn_pub :: EventPublisher
  rn_accum :: requestTokenAccumulator
  rn_calls :: "nat \<rightharpoonup> call_context"

definition publish :: "(nat \<Rightarrow> pub_answer) \<Rightarrow> NipperEvent \<Rightarrow> run_state \<Rightarrow> run_state" where
  "publish answers ev s = s\<lparr>rn_pub := fst (PublishEvent answers (rn_pub s) ev)\<rparr>"

definition tool_event :: "NipperEventType \<Rightarrow> string \<Rightarrow> string \<Rightarrow> string \<Rightarrow> string \<Rightarrow> string option \<Rightarrow> string option \<Rightarrow> NipperEvent" where
  "tool_event t sessionKey responseID tool callID input output =
     (blank_event t sessionKey)\<lparr>ev_ResponseID := responseID,
       ev_ToolInfo := Some \<lparr>ti_ToolName = tool, ti_ToolCallID = callID, ti_Input = input, ti_Output = output, ti_ExitCode = 0\<rparr>\<rparr>"

definition skill_event :: "NipperEventType \<Rightarrow> string \<Rightarrow> string \<Rightarrow> string \<Rightarrow> string \<Rightarrow> int \<Rightarrow> int \<Rightarrow> NipperEvent" where
  "skill_event t sessionKey responseID skill args exitCode ms =
     (blank_event t sessionKey)\<lparr>ev_ResponseID := responseID,
       ev_SkillInfo := Some \<lparr>si_SkillName = skill, si_HasConfig = False, si_HasEntrypoint = False, si_Args = args,
         si_ExitCode = exitCode, si_DurationMs = ms, si_SecretName = [], si_Provider = []\<rparr>\<rparr>"

definition thinking_event :: "string \<Rightarrow> string \<Rightarrow> NipperEvent" where
  "thinking_event sessionKey reasoning = (blank_event EventTypeThinking sessionKey)\<lparr>ev_Thinking := Some reasoning\<rparr>"

definition RecordSecretResolved :: "(nat \<Rightarrow> pub_answer) \<Rightarrow> string \<Rightarrow> string \<Rightarrow> string \<Rightarrow> string \<Rightarrow> string \<Rightarrow> run_state \<Rightarrow> run_state" where
  "RecordSecretResolved answers key resp skill secret provider s =
     publish answers ((blank_event ''skill_secret_resolved'' key)\<lparr>ev_ResponseID := resp,
       ev_SkillInfo := Some \<lparr>si_SkillName = skill, si_HasConfig = False, si_HasEntrypoint = False, si_Args = [], si_ExitCode = 0,
         si_DurationMs = 0, si_SecretName = secret, si_Provider = provider\<rparr>\<rparr>) s"

definition tool_OnStart ::
  "(nat \<Rightarrow> pub_answer) \<Rightarrow> string \<Rightarrow> string \<Rightarrow> nat \<Rightarrow> string \<Rightarrow> string \<Rightarrow> string \<Rightarrow> time \<Rightarrow> run_state \<Rightarrow> run_state" where
  "tool_OnStart answers key resp n tool args uuid now s =
     (let s1 = publish answers (tool_event EventTypeToolStart key resp tool uuid (Some args) None) s
      in if tool = ''skill_exec'' then
           let (skillName, skillArgs) = parseSkillExecInput (GString args);
               s2 = publish answers (skill_event ''skill_execution_start'' key resp skillName (sanitizeSkillArgs skillArgs) 0 0) s1
           in s2\<lparr>rn_calls := (rn_calls s2)(n \<mapsto> \<lparr>cx_toolCallID = uuid, cx_skill = Some (now, skillName)\<rparr>)\<rparr>
         else s1\<lparr>rn_calls := (rn_calls s1)(n \<mapsto> \<lparr>cx_toolCallID = uuid, cx_skill = None\<rparr>)\<rparr>)"

definition tool_OnEnd ::
  "(nat \<Rightarrow> pub_answer) \<Rightarrow> string \<Rightarrow> string \<Rightarrow> nat \<Rightarrow> string \<Rightarrow> string \<Rightarrow> time \<Rightarrow> run_state \<Rightarrow> run_state" where
  "tool_OnEnd answers key resp n tool response now s =
     (let callID = (case rn_calls s n of None \<Rightarrow> [] | Some c \<Rightarrow> cx_toolCallID c);
          s1 = publish answers (tool_event EventTypeToolEnd key resp tool callID None (Some response)) s
      in if tool = ''skill_exec'' then
           (case Option.bind (rn_calls s n) cx_skill of
              None \<Rightarrow> s1
            | Some (start, skillName) \<Rightarrow>
                publish answers (skill_event ''skill_execution_end'' key resp skillName []
                  (parseSkillExecOutput (GString response)) ((now - start) div Millisecond)) s1)
         else s1)"

definition tool_OnError :: "(nat \<Rightarrow> pub_answer) \<Rightarrow> string \<Rightarrow> string \<Rightarrow> run_state \<Rightarrow> run_state" where
  "tool_OnError answers key err s = publish answers (error_event key ''tool_error'' err True) s"

definition reasoning_of :: "string option \<Rightarrow> (string \<times> string) list \<Rightarrow> string" where
  "reasoning_of message extra =
     (case message of
        None \<Rightarrow> []
      | Some reasoning \<Rightarrow>
          if reasoning \<noteq> [] then reasoning
          else case find_first (\<lambda>k. map_of extra k \<notin> {None, Some []}) [''reasoning'', ''thinking'', ''reasoning_content''] of
                 None \<Rightarrow> [] | Some k \<Rightarrow> the (map_of extra k))"

definition model_OnEnd ::
  "(nat \<Rightarrow> pub_answer) \<Rightarrow> string \<Rightarrow> (int \<times> int) option \<Rightarrow> duration \<Rightarrow> duration \<Rightarrow> string option \<Rightarrow> (string \<times> string) list
     \<Rightarrow> run_state \<Rightarrow> run_state" where
  "model_OnEnd answers key usage ttft gen message extra s =
     (let a1 = (if 0 < ttft \<or> 0 < gen then AddTiming (rn_accum s) ttft gen else rn_accum s);
          a2 = (case usage of None \<Rightarrow> a1 | Some (prompt, completion) \<Rightarrow> accum_Add a1 prompt completion);
          s1 = s\<lparr>rn_accum := a2\<rparr>; reasoning = reasoning_of message extra
      in if reasoning = [] then s1 else publish answers (thinking_event key reasoning) s1)"

fun on_callback :: "(nat \<Rightarrow> pub_answer) \<Rightarrow> string \<Rightarrow> string \<Rightarrow> callback \<Rightarrow> run_state \<Rightarrow> run_state" where
  "on_callback answers key resp (ToolStart n tool args uuid now) s = tool_OnStart answers key resp n tool args uuid now s"
| "on_callback answers key resp (ToolEnd n tool response now) s = tool_OnEnd answers key resp n tool response now s"
| "on_callback answers key resp (ToolError n tool err) s = tool_OnError answers key err s"
| "on_callback answers key resp (ModelEnd usage ttft gen message extra) s = model_OnEnd answers key usage ttft gen message extra s"
| "on_callback answers key resp (ModelError err) s = s"
| "on_callback answers key resp (SecretResolved skill secret provider) s = RecordSecretResolved answers key resp skill secret provider s"

section \<open>The environment of one message\<close>

text \<open>Tools as the agent is given them: behind the guard against repeated calls, or as they are.\<close>

datatype 's bound_tools = Guarded "(toolCallTracker \<times> 's) BaseTool list" | Bare "'s BaseTool list"

record 's react_agent =
  ra_tools :: "'s bound_tools"
  ra_prompt :: string

record 's msg_env =
  hv_cmd :: command_env
  hv_pub :: "nat \<Rightarrow> pub_answer"
  hv_uuid :: string
  hv_elapsed :: duration
  hv_prices :: prices
  hv_to_lower :: "string \<Rightarrow> string"
  hv_to_upper :: "string \<Rightarrow> string"
  hv_alnum :: "rune \<Rightarrow> bool"
  hv_Sum256 :: "string \<Rightarrow> string"
  hv_format_float :: "float64 \<Rightarrow> string"
  hv_vision :: vision_lib
  hv_matcher :: tool_matcher
  hv_whatsapp :: "string \<Rightarrow> string"
  hv_enrichers :: "Enricher list option"
  hv_native :: "'s BaseTool list"
  hv_mcp :: "'s mcp_tools option"
  hv_mcp_later :: "nat \<Rightarrow> 's mcp_tools"  \<comment> \<open>the loader's tools after the wait in the attempt\<close>
  hv_reconnected :: "nat \<Rightarrow> bool"
  hv_cancelled :: "nat \<Rightarrow> bool"
  hv_new_agent :: "nat \<Rightarrow> string option"  \<comment> \<open>the error of each \<^verbatim>\<open>react.NewAgent\<close>\<close>
  hv_generate :: "nat \<Rightarrow> 's react_agent \<Rightarrow> Message list \<Rightarrow> callback list \<times> (string + Message)"

section \<open>Generation\<close>

record 's gen_state =
  gs_run :: run_state
  gs_agent :: "'s react_agent"
  gs_tools :: "'s bound_tools"  \<comment> \<open>the tools of \<^verbatim>\<open>agentCfg\<close>\<close>
  gs_input :: "Message list"
  gs_inlined :: bool
  gs_visionUnsupported :: bool
  gs_generates :: nat  \<comment> \<open>runs of the agent begun; a run calls the model once per step\<close>
  gs_builds :: nat
  gs_waits :: "duration list"  \<comment> \<open>pauses begun, with their full length\<close>

datatype gen_result = Generated Message | GaveUp string | RunCancelled

definition generate_once :: "'s msg_env \<Rightarrow> string \<Rightarrow> 's gen_state \<Rightarrow> 's gen_state \<times> (string + Message)" where
  "generate_once env key st =
     (let (cbs, res) = hv_generate env (gs_generates st) (gs_agent st) (gs_input st)
      in (st\<lparr>gs_run := fold (on_callback (hv_pub env) key (hv_uuid env)) cbs (gs_run st), gs_generates := gs_generates st + 1\<rparr>, res))"

text \<open>One attempt: the call, and once more without the image when the model refuses images.\<close>

definition try_generate ::
  "'s msg_env \<Rightarrow> string \<Rightarrow> Message list \<Rightarrow> Message \<Rightarrow> 's gen_state \<Rightarrow> 's gen_state \<times> (string + Message)" where
  "try_generate env key history userMsgText st =
     (case generate_once env key st of
        (st1, Inr m) \<Rightarrow> (st1, Inr m)
      | (st1, Inl err) \<Rightarrow>
          if gs_inlined st1 \<and> isImagesNotSupportedErr (Some err)
          then generate_once env key (st1\<lparr>gs_visionUnsupported := True, gs_input := history @ [userMsgText], gs_inlined := False\<rparr>)
          else (st1, Inl err))"

definition recovery_hint :: "(string \<Rightarrow> string) \<Rightarrow> string \<Rightarrow> string" where
  "recovery_hint quote tool =
     newline @ newline @ ''[RECOVERY: You called a tool named '' @ quote tool
     @ ''; that tool does not exist. For URL summarization use web_fetch(url), then list_folders, then create_note. Do not call '' @ quote tool
     @ '' as a tool.]''"

definition token_hint :: string where
  "token_hint =
     newline @ newline @ ''[CRITICAL: Your previous response contained raw chat-template tokens (<|channel|>, <|message|>, etc.) instead of valid tool calls. You MUST use the standard JSON tool_call format. Do NOT output <|...|> tokens. To call a tool, produce a proper function_call with name and arguments as JSON.]''"

text \<open>\<^verbatim>\<open>react.NewAgent\<close>; the agent is replaced only when it can be built.\<close>

definition rebuild :: "'s msg_env \<Rightarrow> string \<Rightarrow> 's gen_state \<Rightarrow> 's gen_state \<times> bool" where
  "rebuild env prompt st =
     (let ok = (hv_new_agent env (gs_builds st) = None); st1 = st\<lparr>gs_builds := gs_builds st + 1\<rparr>
      in (if ok then st1\<lparr>gs_agent := \<lparr>ra_tools = gs_tools st1, ra_prompt = prompt\<rparr>\<rparr> else st1, ok))"

definition backoff :: "nat \<Rightarrow> string \<Rightarrow> duration" where
  "backoff attempt err = (if isRateLimitError (Some err) then 60 * Second else int attempt * 2 * Second)"

definition is_mcp_skill :: "Runtime \<Rightarrow> string \<Rightarrow> bool" where
  "is_mcp_skill r tool =
     (tool \<noteq> [] \<and> (case rt_skillsLoader r of
                    None \<Rightarrow> False
                  | Some l \<Rightarrow> (case SkillByName l tool of None \<Rightarrow> False | Some s \<Rightarrow> IsMCPOnly s)))"

text \<open>What follows a failed attempt that is not the last: the recoveries in turn, else a pause.\<close>

text \<open>
  \<^verbatim>\<open>WaitForReconnect\<close> of the loader waits its whole timeout, unless the context ends before: \<open>hv_reconnected\<close> says
  whether it did not. The second result says that the context has ended.
\<close>

definition reconnect_timeout :: duration where "reconnect_timeout = 10 * Second"

definition recover_mcp :: "'s msg_env \<Rightarrow> string \<Rightarrow> nat \<Rightarrow> string \<Rightarrow> 's gen_state \<Rightarrow> 's gen_state \<times> bool \<times> bool" where
  "recover_mcp env prompt attempt err st =
     (if isMCPTransportError (Some err) \<and> hv_mcp env \<noteq> None
      then let st1 = st\<lparr>gs_waits := gs_waits st @ [reconnect_timeout]\<rparr> in
        if hv_reconnected env attempt
        then (fst (rebuild env prompt (st1\<lparr>gs_tools := Bare (currentTools (hv_native env) (Some (hv_mcp_later env attempt)))\<rparr>)),
              True, False)
        else (st1, False, True)
      else (st, False, False))"

definition recover_skill :: "'s msg_env \<Rightarrow> Runtime \<Rightarrow> string \<Rightarrow> string \<Rightarrow> 's gen_state \<Rightarrow> 's gen_state \<times> bool" where
  "recover_skill env r prompt err st =
     (let tool = toolNameFromNotFoundError (Some err) in
      if is_mcp_skill r tool then rebuild env (prompt @ recovery_hint (ce_quote (hv_cmd env)) tool) st else (st, False))"

definition recover_tokens :: "'s msg_env \<Rightarrow> string \<Rightarrow> string \<Rightarrow> 's gen_state \<Rightarrow> 's gen_state \<times> bool" where
  "recover_tokens env prompt err st =
     (if isSpecialTokenLeakage (Some err) then rebuild env (prompt @ token_hint) st else (st, False))"

definition recover ::
  "'s msg_env \<Rightarrow> Runtime \<Rightarrow> string \<Rightarrow> nat \<Rightarrow> string \<Rightarrow> 's gen_state \<Rightarrow> 's gen_state \<times> bool" where
  "recover env r prompt attempt err st0 =
     (let (st1, go1, ended) = recover_mcp env prompt attempt err st0 in if go1 then (st1, True)
      else let (st2, go2) = recover_skill env r prompt err st1 in if go2 then (st2, True)
      else let (st3, go3) = recover_tokens env prompt err st2 in if go3 then (st3, True)
      else if ended then (st3, False)
      else (st3\<lparr>gs_waits := gs_waits st3 @ [backoff attempt err]\<rparr>, \<not> hv_cancelled env attempt))"

definition maxLLMAttempts :: nat where "maxLLMAttempts = 3"

function gen_loop ::
  "'s msg_env \<Rightarrow> Runtime \<Rightarrow> string \<Rightarrow> string \<Rightarrow> Message list \<Rightarrow> Message \<Rightarrow> nat \<Rightarrow> string \<Rightarrow> 's gen_state \<Rightarrow> 's gen_state \<times> gen_result" where
  "gen_loop env r key prompt history userMsgText attempt lastErr st =
     (if maxLLMAttempts < attempt then (st, GaveUp lastErr)
      else case try_generate env key history userMsgText st of
             (st1, Inr m) \<Rightarrow> (st1, Generated m)
           | (st1, Inl err) \<Rightarrow>
               if attempt < maxLLMAttempts then
                 (case recover env r prompt attempt err st1 of
                    (st2, True) \<Rightarrow> gen_loop env r key prompt history userMsgText (attempt + 1) err st2
                  | (st2, False) \<Rightarrow> (st2, RunCancelled))
               else gen_loop env r key prompt history userMsgText (attempt + 1) err st1)"
  by pat_completeness auto
termination
  by (relation "measure (\<lambda>(_, _, _, _, _, _, attempt, _, _). 4 - attempt)") (auto simp: maxLLMAttempts_def)

declare gen_loop.simps [simp del]

end
