(* ===== verification/AgentHandle.thy ===== *)
theory AgentHandle
  imports AgentRun
begin

text \<open>
  One message through the agent (\<^verbatim>\<open>handleMessage\<close>, \<^verbatim>\<open>handleDelivery\<close> and \<^verbatim>\<open>consume\<close> of \<^verbatim>\<open>internal/agent/runtime.go\<close>): the
  session, a shared location, automatic compaction, generation, the cleaning of the answer, the transcript, the
  answer event and the acknowledgement.
\<close>

section \<open>The session\<close>

definition loadOrCreateSession ::
  "command_env \<Rightarrow> Runtime \<Rightarrow> NipperMessage \<Rightarrow> Runtime \<times> (sess_error + PSession \<times> TranscriptLine list)" where
  "loadOrCreateSession env r msg =
     (case GetSession (rt_sessions r) (nm_SessionKey msg) of
        Inr sess \<Rightarrow>
          (r, Inr (sess, case LoadTranscript (rt_sessions r) (nm_SessionKey msg) of Inl _ \<Rightarrow> [] | Inr ls \<Rightarrow> ls))
      | Inl e \<Rightarrow>
          if e \<noteq> SessionNotFound then (r, Inl e)
          else (case CreateSession (rt_sessions r) (session_request r msg) (ce_fresh env) (ce_now env) of
                  (st, Inl e') \<Rightarrow> (r\<lparr>rt_sessions := st\<rparr>, Inl e')
                | (st, Inr sess) \<Rightarrow> (r\<lparr>rt_sessions := st\<rparr>, Inr (sess, []))))"

section \<open>A shared location\<close>

text \<open>\<^verbatim>\<open>x == 0\<close> on the bits of a \<^verbatim>\<open>float64\<close>: both zeros.\<close>

definition float_zero :: "float64 \<Rightarrow> bool" where
  "float_zero x \<longleftrightarrow> x = 0 \<or> x = 0x8000000000000000"

definition extractLocationFromMessage :: "NipperMessage \<Rightarrow> (float64 \<times> float64) option" where
  "extractLocationFromMessage msg =
     map_option (\<lambda>p. (cp_Latitude p, cp_Longitude p))
       (find_first (\<lambda>p. cp_Type p = ''location'' \<and> (\<not> float_zero (cp_Latitude p) \<or> \<not> float_zero (cp_Longitude p)))
         (mc_Parts (nm_Content msg)))"

definition location_note :: string where
  "location_note = ''The user just shared their location and it was not previously saved. You have saved these coordinates to their profile. Ask them if they would like the weather for this location.''"

definition save_location :: "'s msg_env \<Rightarrow> Runtime \<Rightarrow> NipperMessage \<Rightarrow> Runtime \<times> string" where
  "save_location env r msg =
     (case extractLocationFromMessage msg of
        None \<Rightarrow> (r, [])
      | Some (lat, lon) \<Rightarrow>
          (case LoadProfile (rt_profiles r) (nm_UserID msg) of
             None \<Rightarrow> (r, [])
           | Some p \<Rightarrow>
               if up_Latitude p = [] \<or> up_Longitude p = [] then
                 let (fs, p', ok) = SaveProfile (ce_write_ok (hv_cmd env)) (ce_now (hv_cmd env)) (rt_profiles r) (nm_UserID msg)
                                      (p\<lparr>up_Latitude := hv_format_float env lat, up_Longitude := hv_format_float env lon\<rparr>)
                 in if ok then (r\<lparr>rt_profiles := fs\<rparr>, location_note) else (r\<lparr>rt_profiles := fs\<rparr>, [])
               else (r, [])))"

section \<open>Automatic compaction\<close>

definition keep_lines :: "Runtime \<Rightarrow> int" where
  "keep_lines r = (if rc_CompactKeepLines (rt_cfg r) \<le> 0 then 20 else rc_CompactKeepLines (rt_cfg r))"

definition threshold_pct :: "Runtime \<Rightarrow> int" where
  "threshold_pct r =
     (if rc_AutoCompactionThresholdPercent (rt_cfg r) \<le> 0 then 60 else rc_AutoCompactionThresholdPercent (rt_cfg r))"

definition last_fill :: "Runtime \<Rightarrow> string \<Rightarrow> int" where
  "last_fill r key =
     (case rt_usageTracker r of
        None \<Rightarrow> 0
      | Some t \<Rightarrow> (case usage_Get t key of None \<Rightarrow> 0 | Some u \<Rightarrow> su_LastPromptTokens u))"

definition compacted_notice :: "nat \<Rightarrow> string" where
  "compacted_notice n = ''Context compacted. Archived '' @ show_nat n @ '' messages to free space.'' @ newline @ newline"

definition full_notice :: "rat \<Rightarrow> nat \<Rightarrow> int \<Rightarrow> string" where
  "full_notice fill lines keep =
     ''Context usage is '' @ Fixed 0 fill @ ''% but only '' @ show_nat lines @ '' messages in history (need >'' @ show_int keep
     @ '' to compact). Consider sending /new to start fresh.'' @ newline @ newline"

text \<open>The runtime, the transcript for what follows, the new history if it was reloaded, and the notice.\<close>

definition auto_compact ::
  "command_env \<Rightarrow> Runtime \<Rightarrow> string \<Rightarrow> TranscriptLine list \<Rightarrow> Runtime \<times> TranscriptLine list \<times> Message list option \<times> string" where
  "auto_compact env r key transcript =
     (let fill = last_fill r key; threshold = rt_contextWindowMax r * threshold_pct r div 100 in
      if rt_contextWindowMax r = 0 \<or> \<not> threshold < fill then (r, transcript, None, [])
      else case Compact (rt_sessions r) key (nat (keep_lines r)) (ce_ts env) (ce_now env) of
             (st, Inl _) \<Rightarrow> (r\<lparr>rt_sessions := st\<rparr>, transcript, None, [])
           | (st, Inr res) \<Rightarrow>
               let r1 = r\<lparr>rt_sessions := st\<rparr> in
               if co_Compacted res then
                 (case LoadTranscript st key of
                    Inl _ \<Rightarrow> (r1, [], None, compacted_notice (co_ArchivedLineCount res))
                  | Inr ls \<Rightarrow> (r1, ls, Some (TranscriptLinesToEinoMessages ls), compacted_notice (co_ArchivedLineCount res)))
               else
                 let pct = fmul (fdiv (of_int64 fill) (of_int64 (rt_contextWindowMax r))) 100
                 in (r1, transcript, None,
                     if 80 < pct then full_notice pct (co_OriginalLineCount res) (keep_lines r) else []))"

definition topic_notice :: "'s msg_env \<Rightarrow> TranscriptLine list \<Rightarrow> NipperMessage \<Rightarrow> string" where
  "topic_notice env transcript msg =
     (if length transcript < minHistoryForTopicDetection then []
      else case detectTopicChange (hv_to_lower env) (hv_alnum env)
                  (map tl_Content (filter (\<lambda>l. tl_Role l = ''user'') transcript)) (mc_Text (nm_Content msg)) of
             None \<Rightarrow> [] | Some suggestion \<Rightarrow> suggestion @ newline @ newline)"

section \<open>The answer\<close>

definition empty_fallback :: string where
  "empty_fallback = ''Sorry, I wasn'' @ [CHR 0x27] @ ''t able to generate a response. Please try again.''"

definition garbled_fallback :: string where
  "garbled_fallback = ''Sorry, my response was garbled. This can happen near context limits or after model changes. Please try again or send /new to start a fresh session.''"

text \<open>What is made of the model's text: fallback when empty, reasoning and template tokens removed, garbage replaced.\<close>

definition clean_content :: "Message \<Rightarrow> string" where
  "clean_content m =
     (let c0 = (if TrimSpace (me_Content m) = [] \<and> me_ToolCalls m = 0 then empty_fallback else me_Content m);
          (cleaned, thinking) = stripThinkTags c0;
          c1 = (if thinking \<noteq> [] then cleaned else c0);
          c2 = stripChatTemplateTokens c1
      in if isGarbledOutput c2
         then (let salvaged = salvageCleanSuffix c2 in if salvaged \<noteq> [] then salvaged else garbled_fallback)
         else c2)"

definition record_usage :: "'s msg_env \<Rightarrow> string \<Rightarrow> requestTokenAccumulator \<Rightarrow> Runtime \<Rightarrow> Runtime" where
  "record_usage env key a r =
     (let (prompt, completion, steps, lastPrompt) = Totals a in
      if 0 < prompt + completion
      then r\<lparr>rt_usageTracker := map_option (\<lambda>t. Record (hv_prices env) (ce_now (hv_cmd env)) t key prompt completion lastPrompt) (rt_usageTracker r)\<rparr>
      else r)"

definition footer_for :: "'s msg_env \<Rightarrow> Runtime \<Rightarrow> requestTokenAccumulator \<Rightarrow> string" where
  "footer_for env r a =
     (case LoadProfile (rt_profiles r) (rt_regUserID r) of
        None \<Rightarrow> []
      | Some p \<Rightarrow>
          if IsSkillLevelAboveIntermediate (up_SkillLevel p) then
            let (prompt, completion, steps, lastPrompt) = Totals a; (ttft, gen) = LastTiming a;
                ft = (if 0 < ttft \<or> 0 < gen then Some \<lparr>ft_TTFT = ttft, ft_GenerationDuration = gen\<rparr> else None)
            in FormatResponseFooter (hv_prices env) (rc_Model (rt_cfg r)) prompt completion steps lastPrompt
                 (rt_contextWindowMax r) (threshold_pct r) (hv_elapsed env) ft
          else [])"

definition context_usage :: "Runtime \<Rightarrow> string \<Rightarrow> ContextUsage option" where
  "context_usage r key =
     (case rt_usageTracker r of
        None \<Rightarrow> None
      | Some t \<Rightarrow>
          map_option (\<lambda>u. \<lparr>cu_InputTokens = su_TotalInputTokens u, cu_OutputTokens = su_TotalOutputTokens u,
            cu_CacheReadTokens = 0, cu_ContextWindow = su_ContextWindowSize u,
            cu_UsagePercent = float_bits (su_LastUsagePercent u)\<rparr>) (usage_Get t key))"

definition transcript_line :: "command_env \<Rightarrow> string \<Rightarrow> string \<Rightarrow> string \<Rightarrow> TranscriptLine" where
  "transcript_line env role content runID =
     \<lparr>tl_Role = role, tl_Content = content, tl_Timestamp = ce_now env, tl_RunID = runID, tl_TokenCount = 0\<rparr>"

text \<open>Both lines, then the metadata of the session as it was loaded, with two more messages; failures are logged only.\<close>

definition persist ::
  "command_env \<Rightarrow> PSession \<Rightarrow> TranscriptLine \<Rightarrow> TranscriptLine \<Rightarrow> SStore \<Rightarrow> SStore" where
  "persist env sess userLine assistantLine st =
     (let st1 = fst (AppendTranscript st (ps_Key sess) userLine (ce_now env));
          st2 = fst (AppendTranscript st1 (ps_Key sess) assistantLine (ce_now env));
          meta = (ps_Metadata sess)\<lparr>pm_MessageCount := pm_MessageCount (ps_Metadata sess) + 2, pm_LastActivityAt := ce_now env\<rparr>
      in fst (UpdateMeta st2 (ps_Key sess) meta (ce_now env)))"

section \<open>A message\<close>

datatype handle_error = HandlePublishFailed event_publish_error | SessionFailed sess_error | AgentInitFailed string
  | GenerateFailed string | HandleCancelled

type_synonym agent = "Runtime \<times> EventPublisher"

definition start_agent ::
  "'s msg_env \<Rightarrow> 's BaseTool list \<Rightarrow> string \<Rightarrow> Message list \<Rightarrow> bool \<Rightarrow> bool \<Rightarrow> EventPublisher \<Rightarrow> 's gen_state" where
  "start_agent env tools prompt input inlined unsupported p =
     (let guarded = Guarded (snd (wrapToolsWithDedup (hv_Sum256 env) (ce_quote (hv_cmd env)) (sanitizeToolDescriptions tools)))
      in \<lparr>gs_run = \<lparr>rn_pub = p, rn_accum = newAccumulator, rn_calls = Map.empty\<rparr>,
          gs_agent = \<lparr>ra_tools = guarded, ra_prompt = prompt\<rparr>, gs_tools = guarded, gs_input = input, gs_inlined = inlined,
          gs_visionUnsupported = unsupported, gs_generates = 0, gs_builds = 1, gs_waits = []\<rparr>)"

text \<open>The last part, with a generated answer.\<close>

definition deliver_answer ::
  "'s msg_env \<Rightarrow> NipperMessage \<Rightarrow> PSession \<Rightarrow> Message \<Rightarrow> string \<Rightarrow> run_state \<Rightarrow> Message \<Rightarrow> Runtime \<Rightarrow> agent \<times> handle_error option" where
  "deliver_answer env msg sess userMsgText notices run m r =
     (let key = nm_SessionKey msg;
          r1 = record_usage env key (rn_accum run) r;
          content = clean_content m;
          formatted = notices @ formatForChannel (hv_whatsapp env) msg (content @ footer_for env r1 (rn_accum run));
          st = persist (hv_cmd env) sess (transcript_line (hv_cmd env) ''user'' (me_Content userMsgText) (hv_uuid env))
                 (transcript_line (hv_cmd env) (me_Role m) content (hv_uuid env)) (rt_sessions r1);
          r2 = r1\<lparr>rt_sessions := st\<rparr>;
          (p, err) = PublishDone (hv_pub env) (rn_pub run) key (hv_uuid env) formatted (context_usage r2 key)
      in ((r2, p), map_option HandlePublishFailed err))"

definition run_agent ::
  "'s msg_env \<Rightarrow> NipperMessage \<Rightarrow> PSession \<Rightarrow> TranscriptLine list \<Rightarrow> string \<Rightarrow> agent \<Rightarrow> agent \<times> handle_error option" where
  "run_agent env msg sess transcript0 note rp =
     (let (r, p) = rp; key = nm_SessionKey msg;
          userMsgText = NipperMessageToEinoMessage (hv_to_upper env) msg;
          (userMsg, inlined) = (if rt_visionUnsupported r then (userMsgText, False)
                                else NipperMessageToEinoMessageWithInlineImages (hv_to_upper env) (hv_vision env) msg);
          prompt = fst (buildSystemPrompt (hv_to_lower env) r (hv_mcp env) msg note);
          (r1, transcript, reloaded, compactionNotice) = auto_compact (hv_cmd env) r key transcript0;
          history = (case reloaded of None \<Rightarrow> TranscriptLinesToEinoMessages transcript0 | Some h \<Rightarrow> h);
          notices = compactionNotice @ topic_notice env transcript msg;
          tools = agent_tools (hv_to_lower env) (hv_matcher env) r1 (hv_native env) (hv_mcp env) msg
      in case hv_new_agent env 0 of
           Some err \<Rightarrow> ((r1, fst (PublishError (hv_pub env) p key ''agent_init_error'' err True)), Some (AgentInitFailed err))
         | None \<Rightarrow>
             let (st, res) = gen_loop env r1 key prompt history userMsgText 1 []
                               (start_agent env tools prompt (history @ [userMsg]) inlined (rt_visionUnsupported r1) p);
                 r2 = r1\<lparr>rt_visionUnsupported := gs_visionUnsupported st\<rparr>; p2 = rn_pub (gs_run st)
             in case res of
                  Generated m \<Rightarrow> deliver_answer env msg sess userMsgText notices (gs_run st) m r2
                | GaveUp err \<Rightarrow>
                    ((r2, fst (PublishError (hv_pub env) p2 key ''agent_run_error'' err True)), Some (GenerateFailed err))
                | RunCancelled \<Rightarrow> ((r2, p2), Some HandleCancelled))"

definition enriched :: "'s msg_env \<Rightarrow> NipperMessage \<Rightarrow> NipperMessage" where
  "enriched env msg = (case hv_enrichers env of None \<Rightarrow> msg | Some es \<Rightarrow> fst (EnrichMessage es msg))"

definition handleMessage :: "'s msg_env \<Rightarrow> agent \<Rightarrow> NipperMessage \<Rightarrow> agent \<times> handle_error option" where
  "handleMessage env rp msg =
     (let (r, p) = rp in
      case handleCommand (hv_cmd env) r msg of
        (r1, Some res) \<Rightarrow>
          let (p1, err) = PublishDone (hv_pub env) p (nm_SessionKey msg) (hv_uuid env)
                            (formatForChannel (hv_whatsapp env) msg (cr_Response res)) None
          in ((r1, p1), map_option HandlePublishFailed err)
      | (r1, None) \<Rightarrow>
          (case loadOrCreateSession (hv_cmd env) r1 msg of
             (r2, Inl e) \<Rightarrow> ((r2, p), Some (SessionFailed e))
           | (r2, Inr (sess, transcript)) \<Rightarrow>
               let (r3, note) = save_location env r2 msg
               in run_agent env (enriched env msg) sess transcript note (r3, p)))"

section \<open>Deliveries\<close>

datatype disposition = Acked | Nacked

text \<open>The body of a delivery is the decoded item, \<open>None\<close> when it does not decode.\<close>

definition agent_handleDelivery :: "'s msg_env \<Rightarrow> agent \<Rightarrow> QueueItem option \<Rightarrow> agent \<times> handle_error option" where
  "agent_handleDelivery env rp body =
     (case body of
        None \<Rightarrow> (rp, None)
      | Some item \<Rightarrow> (case qi_Message item of None \<Rightarrow> (rp, None) | Some msg \<Rightarrow> handleMessage env rp msg))"

text \<open>The deliveries one after the other, until the channel closes or the context ends.\<close>

fun agent_consume :: "agent \<Rightarrow> ('s msg_env \<times> QueueItem option) list \<Rightarrow> agent \<times> disposition list" where
  "agent_consume rp [] = (rp, [])"
| "agent_consume rp ((env, body) # rest) =
     (let (rp1, err) = agent_handleDelivery env rp body; (rp2, ds) = agent_consume rp1 rest
      in (rp2, (if err = None then Acked else Nacked) # ds))"

section \<open>Runs\<close>

text \<open>What \<^verbatim>\<open>run_agent\<close> comes to once its parts are known.\<close>

lemma run_agent_eq:
  assumes "auto_compact (hv_cmd env) r (nm_SessionKey msg) ls = (r1, tr, re, cn)"
    and "(if rt_visionUnsupported r then (NipperMessageToEinoMessage (hv_to_upper env) msg, False)
          else NipperMessageToEinoMessageWithInlineImages (hv_to_upper env) (hv_vision env) msg) = (um, inl)"
    and "hv_new_agent env 0 = None"
    and "gen_loop env r1 (nm_SessionKey msg) (fst (buildSystemPrompt (hv_to_lower env) r (hv_mcp env) msg extra))
           (case re of None \<Rightarrow> TranscriptLinesToEinoMessages ls | Some h \<Rightarrow> h) (NipperMessageToEinoMessage (hv_to_upper env) msg) 1 []
           (start_agent env (agent_tools (hv_to_lower env) (hv_matcher env) r1 (hv_native env) (hv_mcp env) msg)
             (fst (buildSystemPrompt (hv_to_lower env) r (hv_mcp env) msg extra))
             ((case re of None \<Rightarrow> TranscriptLinesToEinoMessages ls | Some h \<Rightarrow> h) @ [um]) inl (rt_visionUnsupported r1) p) = (st, gr)"
  shows "run_agent env msg sess ls extra (r, p)
    = (let r2 = r1\<lparr>rt_visionUnsupported := gs_visionUnsupported st\<rparr>; p2 = rn_pub (gs_run st)
       in case gr of
            Generated m \<Rightarrow> deliver_answer env msg sess (NipperMessageToEinoMessage (hv_to_upper env) msg)
                             (cn @ topic_notice env tr msg) (gs_run st) m r2
          | GaveUp err \<Rightarrow> ((r2, fst (PublishError (hv_pub env) p2 (nm_SessionKey msg) ''agent_run_error'' err True)), Some (GenerateFailed err))
          | RunCancelled \<Rightarrow> ((r2, p2), Some HandleCancelled))"
  using assms(3,4) unfolding run_agent_def Let_def prod.case assms(1,2) by simp

text \<open>The same, as what there is to know of a run.\<close>

lemma run_agent_parts:
  assumes "auto_compact (hv_cmd env) r (nm_SessionKey msg) ls = (r1, tr, re, cn)" and "hv_new_agent env 0 = None"
  obtains prompt history um input inl st gr where
    "gen_loop env r1 (nm_SessionKey msg) prompt history (NipperMessageToEinoMessage (hv_to_upper env) msg) 1 []
       (start_agent env (agent_tools (hv_to_lower env) (hv_matcher env) r1 (hv_native env) (hv_mcp env) msg) prompt input inl
          (rt_visionUnsupported r1) p) = (st, gr)"
    "run_agent env msg sess ls extra (r, p)
      = (let r2 = r1\<lparr>rt_visionUnsupported := gs_visionUnsupported st\<rparr>; p2 = rn_pub (gs_run st)
         in case gr of
              Generated m \<Rightarrow> deliver_answer env msg sess (NipperMessageToEinoMessage (hv_to_upper env) msg)
                               (cn @ topic_notice env tr msg) (gs_run st) m r2
            | GaveUp err \<Rightarrow> ((r2, fst (PublishError (hv_pub env) p2 (nm_SessionKey msg) ''agent_run_error'' err True)), Some (GenerateFailed err))
            | RunCancelled \<Rightarrow> ((r2, p2), Some HandleCancelled))"
proof -
  obtain um inl where um: "(if rt_visionUnsupported r then (NipperMessageToEinoMessage (hv_to_upper env) msg, False)
      else NipperMessageToEinoMessageWithInlineImages (hv_to_upper env) (hv_vision env) msg) = (um, inl)" by force
  let ?prompt = "fst (buildSystemPrompt (hv_to_lower env) r (hv_mcp env) msg extra)"
  let ?hist = "case re of None \<Rightarrow> TranscriptLinesToEinoMessages ls | Some h \<Rightarrow> h"
  obtain st gr where g: "gen_loop env r1 (nm_SessionKey msg) ?prompt ?hist (NipperMessageToEinoMessage (hv_to_upper env) msg) 1 []
      (start_agent env (agent_tools (hv_to_lower env) (hv_matcher env) r1 (hv_native env) (hv_mcp env) msg) ?prompt (?hist @ [um]) inl
        (rt_visionUnsupported r1) p) = (st, gr)" by force
  show thesis by (rule that [OF g run_agent_eq [OF assms(1) um assms(2) g]])
qed

lemma run_agent_no_agent:
  assumes "auto_compact (hv_cmd env) r (nm_SessionKey msg) ls = (r1, tr, re, cn)" and "hv_new_agent env 0 = Some err"
  shows "run_agent env msg sess ls extra (r, p)
    = ((r1, fst (PublishError (hv_pub env) p (nm_SessionKey msg) ''agent_init_error'' err True)), Some (AgentInitFailed err))"
  using assms by (simp add: run_agent_def split: prod.split)

section \<open>A concrete run\<close>

definition demo_pub_ok :: pub_answer where
  "demo_pub_ok = \<lparr>pa_uuid = ''e'', pa_now = 9, pa_closed = False, pa_open = True, pa_publish = True\<rparr>"

definition demo_publisher :: EventPublisher where
  "demo_publisher = \<lparr>ep_UserID = ''u'', ep_Exchange = ''x'', ep_EventsPublish = ''k'', ep_ch = OpenChannel, ep_sent = [], ep_calls = 0\<rparr>"

definition demo_vision :: vision_lib where
  "demo_vision = \<lparr>vl_fetch = (\<lambda>_. None), vl_base64 = id, vl_reencode = (\<lambda>_. None)\<rparr>"

text \<open>An environment whose model makes the given callbacks and then gives the given result, whatever it is asked.\<close>

definition demo_msg_env :: "callback list \<Rightarrow> string + Message \<Rightarrow> unit msg_env" where
  "demo_msg_env cbs res =
     \<lparr>hv_cmd = demo_cmd_env, hv_pub = (\<lambda>_. demo_pub_ok), hv_uuid = ''id'', hv_elapsed = 1, hv_prices = modelCostPerToken,
      hv_to_lower = id, hv_to_upper = id, hv_alnum = (\<lambda>_. False), hv_Sum256 = id, hv_format_float = (\<lambda>_. []),
      hv_vision = demo_vision, hv_matcher = (\<lambda>_ _ _. []), hv_whatsapp = id, hv_enrichers = None, hv_native = [],
      hv_mcp = None, hv_mcp_later = (\<lambda>_. []), hv_reconnected = (\<lambda>_. False), hv_cancelled = (\<lambda>_. False),
      hv_new_agent = (\<lambda>_. None), hv_generate = (\<lambda>_ _ _. (cbs, res))\<rparr>"

abbreviation demo_ask :: NipperMessage where "demo_ask \<equiv> demo_user_message demo_key ''hi''"

lemma demo_text: "TrimSpace ''hi'' = ''hi''"
  by (simp add: TrimSpace_def runes_ascii IsSpace_def)

lemma demo_no_command: "handleCommand env r demo_ask = (r, None)"
  by (simp add: handleCommand_def command_text_def demo_user_message_def demo_text)

lemma demo_loads:
  "\<exists>sess. loadOrCreateSession demo_cmd_env (demo_runtime demo_chat) demo_ask
       = (demo_runtime demo_chat, Inr (sess, [demo_line ''a'', demo_line ''b'']))
     \<and> ps_Key sess = demo_key \<and> st_fs demo_chat (metaPath ''u'' ''s'') = Some (MetaFile sess)
     \<and> pm_CompactionCount (ps_Metadata sess) = 0 \<and> pm_MessageCount (ps_Metadata sess) = 0"
  using demo_chat_load
  by (simp add: loadOrCreateSession_def GetSession_def demo_user_message_def demo_runtime_def demo_key_parts demo_chat_def
      new_session_def demo_key_def Let_def)

lemma demo_location [simp]: "save_location env r demo_ask = (r, [])"
  by (simp add: save_location_def extractLocationFromMessage_def demo_user_message_def)

lemma demo_generated:
  "gen_loop (demo_msg_env cbs (Inr m)) r key prompt history um 1 [] st
     = (fst (generate_once (demo_msg_env cbs (Inr m)) key st), Generated m)"
  by (simp add: gen_loop.simps maxLLMAttempts_def try_generate_def generate_once_def demo_msg_env_def split: prod.split)

abbreviation start_run :: "EventPublisher \<Rightarrow> run_state" where
  "start_run p \<equiv> \<lparr>rn_pub = p, rn_accum = newAccumulator, rn_calls = Map.empty\<rparr>"

lemma demo_publishes:
  "\<exists>p' fin. PublishDone (\<lambda>_. demo_pub_ok) p key resp reply cu = (p', None) \<and> ep_sent p' = ep_sent p @ [fin]"
proof -
  let ?r = "PublishEvent (\<lambda>_. demo_pub_ok) p (done_event key resp reply cu)"
  have "snd ?r = None" by (simp add: PublishEvent_def ensureChannel_def demo_pub_ok_def Let_def)
  then show ?thesis using PublishEvent_sent [of "\<lambda>_. demo_pub_ok" p "done_event key resp reply cu"]
    by (cases ?r) (simp add: PublishDone_def)
qed

lemma demo_answers:
  assumes "rt_sessions r = demo_chat" and "loadOrCreateSession demo_cmd_env r demo_ask = (r, Inr (sess, ls))"
  shows "\<exists>r' p' fin. handleMessage (demo_msg_env cbs (Inr m)) (r, p) demo_ask = ((r', p'), None)
    \<and> ep_sent p' = ep_sent (rn_pub (fold (on_callback (\<lambda>_. demo_pub_ok) demo_key ''id'') cbs (start_run p))) @ [fin]"
proof -
  let ?env = "demo_msg_env cbs (Inr m)"
  have e: "hv_cmd ?env = demo_cmd_env" "enriched ?env demo_ask = demo_ask" "hv_new_agent ?env 0 = None" "hv_pub ?env = (\<lambda>_. demo_pub_ok)"
    "hv_uuid ?env = ''id''" "hv_generate ?env n a i = (cbs, Inr m)" "nm_SessionKey demo_ask = demo_key" for n a i
    by (simp_all add: demo_msg_env_def enriched_def demo_user_message_def)
  obtain r1 tr re cn where ac: "auto_compact (hv_cmd ?env) r (nm_SessionKey demo_ask) ls = (r1, tr, re, cn)" by (metis prod_cases4)
  obtain prompt history um input inl st gr where
    g: "gen_loop ?env r1 (nm_SessionKey demo_ask) prompt history (NipperMessageToEinoMessage (hv_to_upper ?env) demo_ask) 1 []
         (start_agent ?env (agent_tools (hv_to_lower ?env) (hv_matcher ?env) r1 (hv_native ?env) (hv_mcp ?env) demo_ask) prompt input inl
            (rt_visionUnsupported r1) p) = (st, gr)"
    and run: "run_agent ?env demo_ask sess ls [] (r, p)
      = (let r2 = r1\<lparr>rt_visionUnsupported := gs_visionUnsupported st\<rparr>; p2 = rn_pub (gs_run st)
         in case gr of
              Generated m \<Rightarrow> deliver_answer ?env demo_ask sess (NipperMessageToEinoMessage (hv_to_upper ?env) demo_ask)
                               (cn @ topic_notice ?env tr demo_ask) (gs_run st) m r2
            | GaveUp err \<Rightarrow> ((r2, fst (PublishError (hv_pub ?env) p2 (nm_SessionKey demo_ask) ''agent_run_error'' err True)), Some (GenerateFailed err))
            | RunCancelled \<Rightarrow> ((r2, p2), Some HandleCancelled))"
    by (rule run_agent_parts [OF ac e(3)])
  have gr: "gr = Generated m" using g by (simp add: demo_generated [simplified])
  have st: "gs_run st = fold (on_callback (\<lambda>_. demo_pub_ok) demo_key ''id'') cbs (start_run p)"
    using g by (auto simp: demo_generated [simplified] generate_once_def e start_agent_def Let_def)
  have "\<exists>r' p' fin. deliver_answer ?env demo_ask sess um notices (gs_run st) m r0 = ((r', p'), None)
      \<and> ep_sent p' = ep_sent (rn_pub (gs_run st)) @ [fin]" for um notices r0
    using demo_publishes by (simp add: deliver_answer_def e(4) Let_def split: prod.split) (metis prod.inject)
  then show ?thesis
    using run by (simp add: handleMessage_def e assms(2) demo_no_command Let_def gr flip: st)
qed

lemma demo_handles:
  assumes "rt_sessions r = demo_chat" and "loadOrCreateSession demo_cmd_env r demo_ask = (r, Inr (sess, ls))"
  shows "\<exists>r' p'. handleMessage (demo_msg_env cbs (Inr m)) (r, p) demo_ask = ((r', p'), None)"
  using demo_answers [OF assms] by blast

end
