(* ===== verification/AgentRecord.thy ===== *)
theory AgentRecord
  imports AgentHandle
begin

text \<open>
  What an answered message leaves in the session store: the transcript and the metadata, also after an automatic
  compaction.
\<close>

section \<open>The files of a session\<close>

lemma append_files:
  assumes "ParseSessionKey k = Inr (u, c, sid)" and "\<not> lock_blocked (st_fs s) (lockPath u sid) now"
  shows "st_fs (fst (AppendTranscript s k line now))
    = (st_fs s)(transcriptPath u sid \<mapsto> append_line (st_fs s (transcriptPath u sid)) line, lockPath u sid := None)"
  using assms by (simp add: AppendTranscript_def Let_def)

lemma update_meta_file:
  assumes "ParseSessionKey k = Inr (u, c, sid)" and "st_fs s (metaPath u sid) = Some (MetaFile old)"
  shows "st_fs (fst (UpdateMeta s k m now)) (metaPath u sid) = Some (MetaFile (old\<lparr>ps_Metadata := m, ps_UpdatedAt := now\<rparr>))"
  using assms by (simp add: UpdateMeta_def upsert_fs Let_def)

lemma unlocked: "f p = None \<Longrightarrow> \<not> lock_blocked f p now"
  by (simp add: lock_blocked_def)

lemma persist_files:
  assumes k: "ParseSessionKey (ps_Key sess) = Inr (u, c, sid)" and free: "\<not> lock_blocked (st_fs st) (lockPath u sid) (ce_now env)"
    and t: "st_fs st (transcriptPath u sid) = Some (Lines xs)" and m: "st_fs st (metaPath u sid) = Some (MetaFile old)"
  shows "st_fs (persist env sess ul al st) (transcriptPath u sid) = Some (Lines (xs @ [stored ul, stored al]))"
    and "\<exists>s'. st_fs (persist env sess ul al st) (metaPath u sid) = Some (MetaFile s')
      \<and> ps_Metadata s' = (ps_Metadata sess)\<lparr>pm_MessageCount := pm_MessageCount (ps_Metadata sess) + 2, pm_LastActivityAt := ce_now env\<rparr>"
proof -
  define st1 where "st1 = fst (AppendTranscript st (ps_Key sess) ul (ce_now env))"
  define st2 where "st2 = fst (AppendTranscript st1 (ps_Key sess) al (ce_now env))"
  have f1: "st_fs st1 = (st_fs st)(transcriptPath u sid \<mapsto> Lines (xs @ [stored ul]), lockPath u sid := None)"
    unfolding st1_def using append_files [OF k free] t by (simp add: append_line_def)
  have f2: "st_fs st2 = (st_fs st1)(transcriptPath u sid \<mapsto> Lines (xs @ [stored ul, stored al]), lockPath u sid := None)"
    unfolding st2_def using append_files [OF k unlocked, of st1] by (simp add: f1 append_line_def)
  let ?m = "(ps_Metadata sess)\<lparr>pm_MessageCount := pm_MessageCount (ps_Metadata sess) + 2, pm_LastActivityAt := ce_now env\<rparr>"
  have p: "persist env sess ul al st = fst (UpdateMeta st2 (ps_Key sess) ?m (ce_now env))"
    by (simp add: persist_def st1_def st2_def Let_def)
  have m2: "st_fs st2 (metaPath u sid) = Some (MetaFile old)" by (simp add: f2 f1 m)
  have t2: "st_fs st2 (transcriptPath u sid) = Some (Lines (xs @ [stored ul, stored al]))" by (simp add: f2)
  show "st_fs (persist env sess ul al st) (transcriptPath u sid) = Some (Lines (xs @ [stored ul, stored al]))"
    unfolding p using UpdateMeta_fs [OF k, of "transcriptPath u sid" st2 ?m] t2 by simp
  show "\<exists>s'. st_fs (persist env sess ul al st) (metaPath u sid) = Some (MetaFile s') \<and> ps_Metadata s' = ?m"
    unfolding p update_meta_file [OF k m2] by simp
qed

section \<open>Compaction\<close>

lemma finish_meta:
  assumes k: "ParseSessionKey k = Inr (u, c, sid)" and m: "st_fs s (metaPath u sid) = Some (MetaFile old)"
  shows "\<exists>new. st_fs (fst (finish_compaction s k a r now)) (metaPath u sid) = Some (MetaFile new)"
proof -
  have g: "GetSession s k = Inr old" by (simp add: GetSession_def k m)
  let ?m = "(ps_Metadata old)\<lparr>pm_CompactionCount := pm_CompactionCount (ps_Metadata old) + 1, pm_MessageCount := int r\<rparr>"
  obtain s1 res where u: "UpdateMeta s k ?m now = (s1, res)" by force
  then show ?thesis using update_meta_file [OF k m, of ?m now] g by (cases res) (auto simp: finish_compaction_def u)
qed

lemma commit_files:
  assumes "rewrite_commit (rewrite_prepare f u sid ls) u sid now = (f', r)"
  shows "f' (transcriptPath u sid) = (if r = Inr () then Some (Lines (map stored ls)) else f (transcriptPath u sid))"
    and "f' (metaPath u sid) = f (metaPath u sid)"
    and "lock_blocked f' (lockPath u sid) t \<Longrightarrow> lock_blocked f (lockPath u sid) t"
  using assms by (auto simp: rewrite_commit_def rewrite_prepare_def rename_def lock_blocked_def Let_def split: if_splits)

lemma Compact_files:
  assumes k: "ParseSessionKey k = Inr (u, c, sid)" and c: "Compact s k n ts now = (s', res)"
    and t: "st_fs s (transcriptPath u sid) = Some (Lines xs)" and m: "st_fs s (metaPath u sid) = Some (MetaFile old)"
  shows "(st_fs s' (transcriptPath u sid) = Some (Lines xs)
      \<or> (\<exists>j. st_fs s' (transcriptPath u sid) = Some (Lines (map stored (drop j (line_values xs))))))
    \<and> (\<exists>new. st_fs s' (metaPath u sid) = Some (MetaFile new))
    \<and> (lock_blocked (st_fs s') (lockPath u sid) t0 \<longrightarrow> lock_blocked (st_fs s) (lockPath u sid) t0)"
proof -
  have load: "LoadTranscript s k = (if fits xs then Inr (line_values xs) else Inl LineTooLong)" using Load_Lines [OF k t] .
  consider (same) "s' = s"
    | (tried) j f1 f2 where "f1 = (st_fs s)(compactArchivePath u sid ts \<mapsto> Lines (map stored (take j (line_values xs))))"
        "rewrite_commit (rewrite_prepare f1 u sid (drop j (line_values xs))) u sid now = (f2, Inl LockTimeout)
         \<or> rewrite_commit (rewrite_prepare f1 u sid (drop j (line_values xs))) u sid now = (f2, Inl SessionNotFound)"
        "s' = s\<lparr>st_fs := f2\<rparr>"
    | (finished) j f1 f2 a b where "f1 = (st_fs s)(compactArchivePath u sid ts \<mapsto> Lines (map stored (take j (line_values xs))))"
        "rewrite_commit (rewrite_prepare f1 u sid (drop j (line_values xs))) u sid now = (f2, Inr ())"
        "s' = fst (finish_compaction (s\<lparr>st_fs := f2\<rparr>) k a b now)"
  proof -
    define j where "j = length (line_values xs) - n"
    define f1 where "f1 = (st_fs s)(compactArchivePath u sid ts \<mapsto> Lines (map stored (take j (line_values xs))))"
    obtain f2 r where rc: "rewrite_commit (rewrite_prepare f1 u sid (drop j (line_values xs))) u sid now = (f2, r)" by force
    have r: "r = Inr () \<or> r = Inl LockTimeout \<or> r = Inl SessionNotFound"
      using rc by (auto simp: rewrite_commit_def Let_def split: if_splits option.splits)
    show thesis
    proof (cases "\<not> fits xs \<or> n < 1 \<or> length (line_values xs) \<le> n \<or> st_fs s (compactArchivePath u sid ts) \<noteq> None")
      case True
      then have "s' = s" using c load k
        by (auto simp: Compact_def compact_plan_def writeCompactionArchive_def Let_def split: if_splits)
      then show thesis by (rule same)
    next
      case False
      then have "Compact s k n ts now = (case r of Inl e \<Rightarrow> (s\<lparr>st_fs := f2\<rparr>, Inl e)
          | Inr _ \<Rightarrow> finish_compaction (s\<lparr>st_fs := f2\<rparr>) k (length (take j (line_values xs))) (length (drop j (line_values xs))) now)"
        using load k rc unfolding f1_def by (simp add: Compact_def compact_plan_def writeCompactionArchive_def j_def Let_def split: sum.split)
      then show thesis using c r rc tried [OF f1_def, of f2] finished [OF f1_def, of f2] by (auto split: sum.splits) (metis fst_conv)
    qed
  qed
  then show ?thesis
  proof cases
    case same
    then show ?thesis using t m by simp
  next
    case (tried j f1 f2)
    then have "f2 (transcriptPath u sid) = f1 (transcriptPath u sid)" "f2 (metaPath u sid) = f1 (metaPath u sid)"
      "lock_blocked f2 (lockPath u sid) t0 \<longrightarrow> lock_blocked f1 (lockPath u sid) t0"
      using commit_files [of f1 u sid "drop j (line_values xs)" now f2] by auto
    then show ?thesis using tried t m by (simp add: lock_blocked_def)
  next
    case (finished j f1 f2 a b)
    note cf = commit_files [OF finished(2)]
    have eq: "st_fs s' q = f2 q" if "q \<notin> {metaPath u sid, with_suffix (metaPath u sid) ''.tmp'',
        indexPath u, with_suffix (indexPath u) ''.tmp''}" for q
      using finish_fs [OF k that, of "s\<lparr>st_fs := f2\<rparr>" a b now] finished(3) by simp
    have "st_fs s' (transcriptPath u sid) = Some (Lines (map stored (drop j (line_values xs))))"
      using eq [of "transcriptPath u sid"] cf(1) by simp
    moreover have "\<exists>new. st_fs s' (metaPath u sid) = Some (MetaFile new)"
      using finish_meta [OF k, of "s\<lparr>st_fs := f2\<rparr>" old a b now] cf(2) m finished by simp
    moreover have "lock_blocked (st_fs s') (lockPath u sid) t0 \<longrightarrow> lock_blocked (st_fs s) (lockPath u sid) t0"
      using eq [of "lockPath u sid"] cf(3) [of t0] finished(1) by (simp add: lock_blocked_def)
    ultimately show ?thesis by blast
  qed
qed

lemma auto_compact_files:
  assumes k: "ParseSessionKey key = Inr (u, c, sid)" and a: "auto_compact env r key ls = (r', tr, re, cn)"
    and t: "st_fs (rt_sessions r) (transcriptPath u sid) = Some (Lines xs)"
    and m: "st_fs (rt_sessions r) (metaPath u sid) = Some (MetaFile old)"
  shows "(st_fs (rt_sessions r') (transcriptPath u sid) = Some (Lines xs)
      \<or> (\<exists>j. st_fs (rt_sessions r') (transcriptPath u sid) = Some (Lines (map stored (drop j (line_values xs))))))
    \<and> (\<exists>new. st_fs (rt_sessions r') (metaPath u sid) = Some (MetaFile new))
    \<and> (lock_blocked (st_fs (rt_sessions r')) (lockPath u sid) t0 \<longrightarrow> lock_blocked (st_fs (rt_sessions r)) (lockPath u sid) t0)"
proof (cases "rt_sessions r' = rt_sessions r")
  case True
  then show ?thesis using t m by simp
next
  case False
  obtain st res where c: "Compact (rt_sessions r) key (nat (keep_lines r)) (ce_ts env) (ce_now env) = (st, res)" by force
  have "rt_sessions r' = st"
    using a False by (auto simp: auto_compact_def c Let_def split: if_splits sum.splits)
  then show ?thesis using Compact_files [OF k c t m, of t0] by simp
qed

section \<open>The record of an exchange\<close>

lemma save_location_sessions [simp]: "rt_sessions (fst (save_location env r msg)) = rt_sessions r"
  by (simp add: save_location_def Let_def split: option.split prod.split)

lemma record_usage_sessions [simp]: "rt_sessions (record_usage env key a r) = rt_sessions r"
  by (simp add: record_usage_def Let_def split: prod.split)

definition exchange :: "'s msg_env \<Rightarrow> NipperMessage \<Rightarrow> Message \<Rightarrow> TranscriptLine list" where
  "exchange env msg m =
     [transcript_line (hv_cmd env) ''user'' (me_Content (NipperMessageToEinoMessage (hv_to_upper env) (enriched env msg))) (hv_uuid env),
      transcript_line (hv_cmd env) (me_Role m) (clean_content m) (hv_uuid env)]"

lemma gen_loop_generated:
  "gen_loop env r key prompt history um attempt lastErr st = (st', Generated m)
     \<Longrightarrow> \<exists>n a i. snd (hv_generate env n a i) = Inr m"
proof (induction env r key prompt history um attempt lastErr st arbitrary: st' rule: gen_loop.induct)
  case (1 env r key prompt history um attempt lastErr st)
  have once: "generate_once env key s = (s', Inr m) \<Longrightarrow> \<exists>n a i. snd (hv_generate env n a i) = Inr m" for s s'
    by (auto simp: generate_once_def split: prod.splits) (metis snd_conv)
  have tried: "try_generate env key history um s = (s', Inr m) \<Longrightarrow> \<exists>n a i. snd (hv_generate env n a i) = Inr m" for s s'
    by (auto simp: try_generate_def split: prod.splits sum.splits if_splits dest: once)
  show ?case
    using 1(3) 1(1,2) tried [of st]
    by (auto simp: gen_loop.simps [of env r key prompt history um attempt lastErr st] split: if_splits prod.splits sum.splits bool.splits)
qed

lemma handleMessage_generated:
  assumes c: "handleCommand (hv_cmd env) r msg = (r, None)"
    and l: "loadOrCreateSession (hv_cmd env) r msg = (r2, Inr (sess, ls))"
    and h: "handleMessage env (r, p) msg = ((r', p'), res)"
    and ok: "res = None \<or> (\<exists>e. res = Some (HandlePublishFailed e))"
  shows "\<exists>r3 r4 tr re cn m. rt_sessions r3 = rt_sessions r2 \<and> (\<exists>n a i. snd (hv_generate env n a i) = Inr m)
    \<and> auto_compact (hv_cmd env) r3 (nm_SessionKey msg) ls = (r4, tr, re, cn)
    \<and> rt_sessions r' = persist (hv_cmd env) sess (exchange env msg m ! 0) (exchange env msg m ! 1) (rt_sessions r4)"
proof -
  obtain r3 extra where sl: "save_location env r2 msg = (r3, extra)" by force
  let ?msg = "enriched env msg"
  let ?key = "nm_SessionKey msg"
  have key [simp]: "nm_SessionKey ?msg = ?key" by (simp add: enriched_def split: option.split)
  have ra: "run_agent env ?msg sess ls extra (r3, p) = ((r', p'), res)"
    using h by (simp add: handleMessage_def c l sl)
  obtain r4 tr re cn where ac: "auto_compact (hv_cmd env) r3 ?key ls = (r4, tr, re, cn)" by (metis prod_cases4)
  obtain m run r5 notices where g: "\<exists>n a i. snd (hv_generate env n a i) = Inr m" and d: "deliver_answer env ?msg sess (NipperMessageToEinoMessage (hv_to_upper env) ?msg) notices run m r5
      = ((r', p'), res)" and s5: "rt_sessions r5 = rt_sessions r4"
  proof (cases "hv_new_agent env 0")
    case (Some err)
    then show thesis using ra ok run_agent_no_agent [of env r3 ?msg ls] ac by auto
  next
    case None
    have ac': "auto_compact (hv_cmd env) r3 (nm_SessionKey ?msg) ls = (r4, tr, re, cn)" using ac by simp
    obtain prompt history um input inl st gr where
      g: "gen_loop env r4 (nm_SessionKey ?msg) prompt history (NipperMessageToEinoMessage (hv_to_upper env) ?msg) 1 []
         (start_agent env (agent_tools (hv_to_lower env) (hv_matcher env) r4 (hv_native env) (hv_mcp env) ?msg) prompt input inl
            (rt_visionUnsupported r4) p) = (st, gr)"
      and run: "run_agent env ?msg sess ls extra (r3, p)
        = (let r2 = r4\<lparr>rt_visionUnsupported := gs_visionUnsupported st\<rparr>; p2 = rn_pub (gs_run st)
           in case gr of
                Generated m \<Rightarrow> deliver_answer env ?msg sess (NipperMessageToEinoMessage (hv_to_upper env) ?msg)
                                 (cn @ topic_notice env tr ?msg) (gs_run st) m r2
              | GaveUp err \<Rightarrow> ((r2, fst (PublishError (hv_pub env) p2 (nm_SessionKey ?msg) ''agent_run_error'' err True)), Some (GenerateFailed err))
              | RunCancelled \<Rightarrow> ((r2, p2), Some HandleCancelled))"
      by (rule run_agent_parts [OF ac' None])
    show thesis
    proof (cases gr)
      case (Generated m)
      show thesis
        by (rule that [of m "cn @ topic_notice env tr ?msg" "gs_run st" "r4\<lparr>rt_visionUnsupported := gs_visionUnsupported st\<rparr>",
              OF gen_loop_generated [OF g [unfolded Generated]]])
          (use ra run Generated in \<open>simp_all add: Let_def\<close>)
    qed (use ra run ok in \<open>auto simp: Let_def\<close>)
  qed
  have "rt_sessions r' = persist (hv_cmd env) sess (exchange env msg m ! 0) (exchange env msg m ! 1) (rt_sessions r4)"
    using d s5 by (auto simp: deliver_answer_def exchange_def Let_def split: prod.splits)
  moreover have "rt_sessions r3 = rt_sessions r2" using save_location_sessions [of env r2 msg] sl by simp
  ultimately show ?thesis using ac g by blast
qed

lemma exchange_files:
  assumes c: "handleCommand (hv_cmd env) r msg = (r, None)"
    and l: "loadOrCreateSession (hv_cmd env) r msg = (r2, Inr (sess, ls))"
    and k: "ParseSessionKey (nm_SessionKey msg) = Inr (u, ch, sid)" "ParseSessionKey (ps_Key sess) = Inr (u, ch', sid)"
    and t: "st_fs (rt_sessions r2) (transcriptPath u sid) = Some (Lines xs)"
    and meta: "st_fs (rt_sessions r2) (metaPath u sid) = Some (MetaFile old)"
    and free: "\<not> lock_blocked (st_fs (rt_sessions r2)) (lockPath u sid) (ce_now (hv_cmd env))"
    and h: "handleMessage env (r, p) msg = ((r', p'), res)"
    and ok: "res = None \<or> (\<exists>e. res = Some (HandlePublishFailed e))"
  shows "\<exists>m ys. st_fs (rt_sessions r') (transcriptPath u sid) = Some (Lines (ys @ map stored (exchange env msg m)))
      \<and> suffix (line_values ys) (line_values xs) \<and> (\<exists>n a i. snd (hv_generate env n a i) = Inr m)
      \<and> LoadTranscript (rt_sessions r') (nm_SessionKey msg)
          = (if fits (ys @ map stored (exchange env msg m)) then Inr (line_values ys @ map as_decoded (exchange env msg m))
             else Inl LineTooLong)"
    and "\<exists>sess'. GetSession (rt_sessions r') (nm_SessionKey msg) = Inr sess'
      \<and> ps_Metadata sess' = (ps_Metadata sess)\<lparr>pm_MessageCount := pm_MessageCount (ps_Metadata sess) + 2,
                                                pm_LastActivityAt := ce_now (hv_cmd env)\<rparr>"
proof -
  obtain r3 r4 tr re cn m where r3: "rt_sessions r3 = rt_sessions r2" and g: "\<exists>n a i. snd (hv_generate env n a i) = Inr m"
    and ac: "auto_compact (hv_cmd env) r3 (nm_SessionKey msg) ls = (r4, tr, re, cn)"
    and r': "rt_sessions r' = persist (hv_cmd env) sess (exchange env msg m ! 0) (exchange env msg m ! 1) (rt_sessions r4)"
    using handleMessage_generated [OF c l h ok] by blast
  note files = auto_compact_files [OF k(1) ac, of xs old "ce_now (hv_cmd env)", unfolded r3, OF t meta]
  obtain new where new: "st_fs (rt_sessions r4) (metaPath u sid) = Some (MetaFile new)" using files by blast
  have free4: "\<not> lock_blocked (st_fs (rt_sessions r4)) (lockPath u sid) (ce_now (hv_cmd env))" using files free by blast
  obtain ys where ys: "st_fs (rt_sessions r4) (transcriptPath u sid) = Some (Lines ys)" "suffix (line_values ys) (line_values xs)"
    using files by (auto simp: suffix_drop)
  note pf = persist_files [OF k(2) free4 ys(1) new, of "exchange env msg m ! 0" "exchange env msg m ! 1"]
  have tr: "st_fs (rt_sessions r') (transcriptPath u sid) = Some (Lines (ys @ map stored (exchange env msg m)))"
    using pf(1) by (simp add: r' exchange_def)
  then show "\<exists>m ys. st_fs (rt_sessions r') (transcriptPath u sid) = Some (Lines (ys @ map stored (exchange env msg m)))
      \<and> suffix (line_values ys) (line_values xs) \<and> (\<exists>n a i. snd (hv_generate env n a i) = Inr m)
      \<and> LoadTranscript (rt_sessions r') (nm_SessionKey msg)
          = (if fits (ys @ map stored (exchange env msg m)) then Inr (line_values ys @ map as_decoded (exchange env msg m))
             else Inl LineTooLong)"
    using ys(2) g Load_Lines [OF k(1) tr] by (intro exI [of _ m] exI [of _ ys]) simp
  show "\<exists>sess'. GetSession (rt_sessions r') (nm_SessionKey msg) = Inr sess'
      \<and> ps_Metadata sess' = (ps_Metadata sess)\<lparr>pm_MessageCount := pm_MessageCount (ps_Metadata sess) + 2,
                                                pm_LastActivityAt := ce_now (hv_cmd env)\<rparr>"
    using pf(2) by (auto simp: r' GetSession_def k(1))
qed

text \<open>
  C6: what the transcript keeps of an answered message is two lines, the text given to the model and the cleaned text of
  the answer, nothing that was only for display (notices, footer, channel formatting); before them stands the old
  transcript, or the end of it that a compaction left. Loading gives these lines as long as none is longer than the reader takes.
\<close>

theorem exchange_recorded:
  assumes c: "handleCommand (hv_cmd env) r msg = (r, None)"
    and l: "loadOrCreateSession (hv_cmd env) r msg = (r2, Inr (sess, ls))"
    and k: "ParseSessionKey (nm_SessionKey msg) = Inr (u, ch, sid)" "ParseSessionKey (ps_Key sess) = Inr (u, ch', sid)"
    and t: "st_fs (rt_sessions r2) (transcriptPath u sid) = Some (Lines xs)"
    and meta: "st_fs (rt_sessions r2) (metaPath u sid) = Some (MetaFile old)"
    and free: "\<not> lock_blocked (st_fs (rt_sessions r2)) (lockPath u sid) (ce_now (hv_cmd env))"
    and h: "handleMessage env (r, p) msg = ((r', p'), res)"
    and ok: "res = None \<or> (\<exists>e. res = Some (HandlePublishFailed e))"
  shows "\<exists>m ys. st_fs (rt_sessions r') (transcriptPath u sid) = Some (Lines (ys @ map stored (exchange env msg m)))
      \<and> suffix (line_values ys) (line_values xs) \<and> (\<exists>n a i. snd (hv_generate env n a i) = Inr m)
      \<and> LoadTranscript (rt_sessions r') (nm_SessionKey msg)
          = (if fits (ys @ map stored (exchange env msg m)) then Inr (line_values ys @ map as_decoded (exchange env msg m))
             else Inl LineTooLong)"
  using exchange_files(1) [OF assms] .

text \<open>
  The metadata afterwards are those loaded before, with two more messages: what an automatic compaction in between
  wrote (one more compaction, the number of lines left) is overwritten.
\<close>

theorem metadata_ignores_compaction:
  assumes c: "handleCommand (hv_cmd env) r msg = (r, None)"
    and l: "loadOrCreateSession (hv_cmd env) r msg = (r2, Inr (sess, ls))"
    and k: "ParseSessionKey (nm_SessionKey msg) = Inr (u, ch, sid)" "ParseSessionKey (ps_Key sess) = Inr (u, ch', sid)"
    and t: "st_fs (rt_sessions r2) (transcriptPath u sid) = Some (Lines xs)"
    and meta: "st_fs (rt_sessions r2) (metaPath u sid) = Some (MetaFile old)"
    and free: "\<not> lock_blocked (st_fs (rt_sessions r2)) (lockPath u sid) (ce_now (hv_cmd env))"
    and h: "handleMessage env (r, p) msg = ((r', p'), res)"
    and ok: "res = None \<or> (\<exists>e. res = Some (HandlePublishFailed e))"
  shows "\<exists>sess'. GetSession (rt_sessions r') (nm_SessionKey msg) = Inr sess'
      \<and> ps_Metadata sess' = (ps_Metadata sess)\<lparr>pm_MessageCount := pm_MessageCount (ps_Metadata sess) + 2,
                                                pm_LastActivityAt := ce_now (hv_cmd env)\<rparr>"
  using exchange_files(2) [OF assms] .

section \<open>A run with a compaction\<close>

definition demo_full :: Runtime where
  "demo_full = (demo_runtime demo_chat)\<lparr>rt_cfg := demo_cfg\<lparr>rc_CompactKeepLines := 1\<rparr>,
     rt_usageTracker := Some (Record modelCostPerToken 1 (NewUsageTracker ''m'' 100) demo_key 90 1 90)\<rparr>"

lemma demo_full_loads:
  "\<exists>sess. loadOrCreateSession demo_cmd_env demo_full demo_ask = (demo_full, Inr (sess, [demo_line ''a'', demo_line ''b'']))
     \<and> ps_Key sess = demo_key \<and> st_fs demo_chat (metaPath ''u'' ''s'') = Some (MetaFile sess)
     \<and> pm_CompactionCount (ps_Metadata sess) = 0 \<and> pm_MessageCount (ps_Metadata sess) = 0"
  using demo_loads by (auto simp: loadOrCreateSession_def demo_full_def demo_runtime_def split: sum.splits prod.splits if_splits)

lemma demo_full_env: "hv_cmd (demo_msg_env cbs res) = demo_cmd_env" "rt_sessions demo_full = demo_chat" "ce_now demo_cmd_env = 9"
  by (simp_all add: demo_msg_env_def demo_full_def demo_runtime_def demo_cmd_env_def)

lemma demo_full_run:
  obtains sess r' p' where
    "loadOrCreateSession demo_cmd_env demo_full demo_ask = (demo_full, Inr (sess, [demo_line ''a'', demo_line ''b'']))"
    "handleMessage (demo_msg_env [] (Inr (text_message ''assistant'' ''yo''))) (demo_full, demo_publisher) demo_ask = ((r', p'), None)"
    "ps_Key sess = demo_key" "st_fs demo_chat (metaPath ''u'' ''s'') = Some (MetaFile sess)"
    "pm_CompactionCount (ps_Metadata sess) = 0" "pm_MessageCount (ps_Metadata sess) = 0"
proof -
  obtain sess where l: "loadOrCreateSession demo_cmd_env demo_full demo_ask = (demo_full, Inr (sess, [demo_line ''a'', demo_line ''b'']))"
    and rest: "ps_Key sess = demo_key" "st_fs demo_chat (metaPath ''u'' ''s'') = Some (MetaFile sess)"
    "pm_CompactionCount (ps_Metadata sess) = 0" "pm_MessageCount (ps_Metadata sess) = 0" using demo_full_loads by blast
  obtain r' p' where "handleMessage (demo_msg_env [] (Inr (text_message ''assistant'' ''yo''))) (demo_full, demo_publisher) demo_ask = ((r', p'), None)"
    using demo_handles [OF demo_full_env(2) l] by blast
  then show thesis using that l rest by blast
qed

lemma demo_full_premises:
  "ParseSessionKey (nm_SessionKey demo_ask) = Inr (''u'', ''slack'', ''s'')"
  "st_fs (rt_sessions demo_full) (transcriptPath ''u'' ''s'') = Some (Lines [stored (demo_line ''a''), stored (demo_line ''b'')])"
  "\<not> lock_blocked (st_fs (rt_sessions demo_full)) (lockPath ''u'' ''s'') 9"
  by (simp_all add: demo_user_message_def demo_key_parts demo_full_env demo_chat_files lock_blocked_def)

lemma demo_chat_values: "line_values [stored (demo_line ''a''), stored (demo_line ''b'')] = [demo_line ''a'', demo_line ''b'']"
  using line_values_simps(3) [of "[demo_line ''a'', demo_line ''b'']"] by (simp add: demo_line_stored(1))

theorem exchange_recorded_witness:
  "\<exists>r' p' m ys. handleMessage (demo_msg_env [] (Inr (text_message ''assistant'' ''yo''))) (demo_full, demo_publisher) demo_ask = ((r', p'), None)
     \<and> st_fs (rt_sessions r') (transcriptPath ''u'' ''s'')
         = Some (Lines (ys @ map stored (exchange (demo_msg_env [] (Inr (text_message ''assistant'' ''yo''))) demo_ask m)))
     \<and> suffix (line_values ys) [demo_line ''a'', demo_line ''b'']"
proof -
  obtain sess r' p' where run: "loadOrCreateSession demo_cmd_env demo_full demo_ask = (demo_full, Inr (sess, [demo_line ''a'', demo_line ''b'']))"
    "handleMessage (demo_msg_env [] (Inr (text_message ''assistant'' ''yo''))) (demo_full, demo_publisher) demo_ask = ((r', p'), None)"
    "ps_Key sess = demo_key" "st_fs demo_chat (metaPath ''u'' ''s'') = Some (MetaFile sess)" by (rule demo_full_run)
  have k: "ParseSessionKey (ps_Key sess) = Inr (''u'', ''slack'', ''s'')" by (simp add: run(3) demo_key_parts)
  from exchange_recorded [of "demo_msg_env [] (Inr (text_message ''assistant'' ''yo''))" demo_full demo_ask demo_full sess
        "[demo_line ''a'', demo_line ''b'']", unfolded demo_full_env, OF demo_no_command run(1) demo_full_premises(1) k
        demo_full_premises(2) [unfolded demo_full_env] run(4) demo_full_premises(3) [unfolded demo_full_env] run(2)
        disjI1 [OF refl], unfolded demo_chat_values]
  show ?thesis
    by (elim exE conjE) (rule exI [of _ r'], rule exI [of _ p'], rule exI, rule exI, intro conjI run(2); assumption)
qed

theorem metadata_ignores_compaction_witness:
  "(\<exists>s' res. Compact demo_chat demo_key 1 ''t'' 9 = (s', Inr res) \<and> co_Compacted res \<and> co_CompactionCount res = 1)
   \<and> (\<exists>r' p' sess'. handleMessage (demo_msg_env [] (Inr (text_message ''assistant'' ''yo''))) (demo_full, demo_publisher) demo_ask = ((r', p'), None)
     \<and> GetSession (rt_sessions r') demo_key = Inr sess' \<and> pm_CompactionCount (ps_Metadata sess') = 0
     \<and> pm_MessageCount (ps_Metadata sess') = 2)"
proof
  obtain sess r' p' where run: "loadOrCreateSession demo_cmd_env demo_full demo_ask = (demo_full, Inr (sess, [demo_line ''a'', demo_line ''b'']))"
    "handleMessage (demo_msg_env [] (Inr (text_message ''assistant'' ''yo''))) (demo_full, demo_publisher) demo_ask = ((r', p'), None)"
    "ps_Key sess = demo_key" "st_fs demo_chat (metaPath ''u'' ''s'') = Some (MetaFile sess)"
    "pm_CompactionCount (ps_Metadata sess) = 0" "pm_MessageCount (ps_Metadata sess) = 0" by (rule demo_full_run)
  show "\<exists>s' res. Compact demo_chat demo_key 1 ''t'' 9 = (s', Inr res) \<and> co_Compacted res \<and> co_CompactionCount res = 1"
    using run(4,5)
    by (simp add: Compact_def compact_plan_def demo_chat_load demo_key_parts writeCompactionArchive_def demo_chat_files
        rewrite_commit_def rewrite_prepare_def lock_blocked_def rename_def finish_compaction_def GetSession_def
        UpdateMeta_def Let_def)
  have k: "nm_SessionKey demo_ask = demo_key" by (simp add: demo_user_message_def)
  show "\<exists>r' p' sess'. handleMessage (demo_msg_env [] (Inr (text_message ''assistant'' ''yo''))) (demo_full, demo_publisher) demo_ask = ((r', p'), None)
     \<and> GetSession (rt_sessions r') demo_key = Inr sess' \<and> pm_CompactionCount (ps_Metadata sess') = 0
     \<and> pm_MessageCount (ps_Metadata sess') = 2"
    using metadata_ignores_compaction [of "demo_msg_env [] (Inr (text_message ''assistant'' ''yo''))" demo_full demo_ask demo_full sess
        "[demo_line ''a'', demo_line ''b'']", unfolded demo_full_env, OF demo_no_command run(1) demo_full_premises(1) _
        demo_full_premises(2) [unfolded demo_full_env] run(4) demo_full_premises(3) [unfolded demo_full_env] run(2)] run k
    by (auto simp: demo_key_parts)
qed

end
