(* ===== verification/AgentProps.thy ===== *)
theory AgentProps
  imports AgentHandle
begin

text \<open>
  What the agent loop guarantees: what it publishes for a message, how often it calls the model, and what the
  transcript and the metadata of the session hold afterwards.
\<close>

section \<open>Events on the way\<close>

text \<open>Events published while the model and its tools run: of the message's session, never an answer.\<close>

definition side_event :: "string \<Rightarrow> NipperEvent \<Rightarrow> bool" where
  "side_event key ev \<longleftrightarrow>
     ev_SessionKey ev = key \<and> ev_Type ev \<noteq> EventTypeDone \<and> ev_Type ev \<noteq> EventTypeDelta
     \<and> (ev_Type ev = EventTypeError \<longrightarrow> map_option er_Code (ev_Error ev) = Some ''tool_error'')"

definition adds :: "(NipperEvent \<Rightarrow> bool) \<Rightarrow> EventPublisher \<Rightarrow> EventPublisher \<Rightarrow> bool" where
  "adds P p p' \<longleftrightarrow> (\<exists>new. ep_sent p' = ep_sent p @ new \<and> (\<forall>e \<in> set new. P (snd (snd e))))"

lemma adds_refl [simp]: "adds P p p"
  by (simp add: adds_def)

lemma adds_trans: "adds P p q \<Longrightarrow> adds P q r \<Longrightarrow> adds P p r"
proof -
  assume "adds P p q" "adds P q r"
  then obtain a b where "ep_sent q = ep_sent p @ a" "\<forall>e \<in> set a. P (snd (snd e))"
    and "ep_sent r = ep_sent q @ b" "\<forall>e \<in> set b. P (snd (snd e))"
    by (auto simp: adds_def)
  then show "adds P p r" unfolding adds_def by (intro exI [of _ "a @ b"]) auto
qed

lemma side_event_stamp [simp]: "side_event key (stamp_event a p ev) = side_event key ev"
  by (simp add: side_event_def)

lemma PublishEvent_adds: "side_event key ev \<Longrightarrow> adds (side_event key) p (fst (PublishEvent answers p ev))"
  by (simp add: adds_def PublishEvent_sent)

lemma publish_adds: "side_event key ev \<Longrightarrow> adds (side_event key) (rn_pub s) (rn_pub (publish answers ev s))"
  by (simp add: publish_def PublishEvent_adds)

lemma side_events [simp]:
  "side_event key (tool_event EventTypeToolStart key resp tool cid i out)"
  "side_event key (tool_event EventTypeToolEnd key resp tool cid i out)"
  "side_event key (skill_event ''skill_execution_start'' key resp skill args code ms)"
  "side_event key (skill_event ''skill_execution_end'' key resp skill args code ms)"
  "side_event key (thinking_event key txt0)"
  "side_event key (error_event key ''tool_error'' err rec)"
  by (simp_all add: side_event_def tool_event_def skill_event_def thinking_event_def error_event_def blank_event_def)

lemma publish_fields [simp]: "rn_accum (publish answers ev s) = rn_accum s" "rn_calls (publish answers ev s) = rn_calls s"
  by (simp_all add: publish_def)

lemma publish2_adds:
  "side_event key e1 \<Longrightarrow> side_event key e2 \<Longrightarrow> adds (side_event key) (rn_pub s) (rn_pub (publish a e2 (publish a e1 s)))"
  by (rule adds_trans [OF publish_adds publish_adds])

lemma on_callback_adds: "adds (side_event key) (rn_pub s) (rn_pub (on_callback answers key resp cb s))"
proof (cases cb)
  case (ToolStart n tool args uuid now)
  then show ?thesis
    by (simp add: tool_OnStart_def Let_def publish_adds publish2_adds split: prod.split)
next
  case (ToolEnd n tool response now)
  then show ?thesis
    by (simp add: tool_OnEnd_def Let_def publish_adds publish2_adds split: option.split prod.split)
next
  case (ModelEnd usage ttft gen message extra)
  have "adds (side_event key) (rn_pub (s\<lparr>rn_accum := a\<rparr>)) (rn_pub (publish answers (thinking_event key t) (s\<lparr>rn_accum := a\<rparr>)))" for a t
    by (rule publish_adds) simp
  then show ?thesis by (simp add: ModelEnd model_OnEnd_def Let_def)
qed (simp_all add: tool_OnError_def RecordSecretResolved_def publish_adds, simp add: publish_adds side_event_def blank_event_def)

lemma callbacks_add: "adds (side_event key) (rn_pub s) (rn_pub (fold (on_callback answers key resp) cbs s))"
proof (induction cbs arbitrary: s)
  case (Cons cb cbs)
  then show ?case using adds_trans [OF on_callback_adds Cons.IH] by simp
qed simp

section \<open>Generation\<close>

text \<open>What every step of the generation keeps, and the calls it may make.\<close>

definition calls_left :: "'s gen_state \<Rightarrow> nat" where
  "calls_left st = gs_generates st + (if gs_inlined st then 1 else 0)"

definition gen_rel :: "string \<Rightarrow> nat \<Rightarrow> nat \<Rightarrow> 's gen_state \<Rightarrow> 's gen_state \<Rightarrow> bool" where
  "gen_rel key calls pauses st st' \<longleftrightarrow>
     adds (side_event key) (rn_pub (gs_run st)) (rn_pub (gs_run st')) \<and> calls_left st' \<le> calls_left st + calls
     \<and> (\<exists>ws. gs_waits st' = gs_waits st @ ws \<and> length ws \<le> pauses \<and> set ws \<subseteq> {2 * Second, 4 * Second, 10 * Second, 60 * Second})"

lemma gen_rel_refl [simp]: "gen_rel key 0 0 st st"
  by (simp add: gen_rel_def)

lemma gen_rel_tools [simp]: "gen_rel key c l (st\<lparr>gs_tools := t\<rparr>) st' = gen_rel key c l st st'"
  by (simp add: gen_rel_def calls_left_def)

lemma gen_rel_trans:
  "gen_rel key a m s t \<Longrightarrow> gen_rel key b n t u \<Longrightarrow> a + b \<le> c \<Longrightarrow> m + n \<le> l \<Longrightarrow> gen_rel key c l s u"
  unfolding gen_rel_def
  by (elim conjE exE, intro conjI) (erule adds_trans, assumption, linarith, force)

lemma generate_once_rel:
  assumes "generate_once env key st = (st', res)"
  shows "gen_rel key 1 0 st st' \<and> gs_generates st' = gs_generates st + 1 \<and> gs_inlined st' = gs_inlined st"
  using assms callbacks_add
  by (auto simp: generate_once_def gen_rel_def calls_left_def split: prod.splits)

lemma try_generate_rel:
  assumes "try_generate env key history m st = (st', res)"
  shows "gen_rel key 1 0 st st'"
proof -
  obtain st1 res1 where g1: "generate_once env key st = (st1, res1)" by force
  note r1 = generate_once_rel [OF g1]
  let ?again = "st1\<lparr>gs_visionUnsupported := True, gs_input := history @ [m], gs_inlined := False\<rparr>"
  show ?thesis
  proof (cases "\<exists>err. res1 = Inl err \<and> gs_inlined st1 \<and> isImagesNotSupportedErr (Some err)")
    case True
    then have g2: "generate_once env key ?again = (st', res)" using assms by (auto simp: try_generate_def g1)
    have r2: "gen_rel key 1 0 ?again st'" using generate_once_rel [OF g2] by simp
    have "gen_rel key 0 0 st ?again" using r1 True by (auto simp: gen_rel_def calls_left_def)
    then show ?thesis by (rule gen_rel_trans [OF _ r2]) simp_all
  next
    case False
    then have "st' = st1" using assms by (auto simp: try_generate_def g1 split: sum.splits if_splits)
    then show ?thesis using r1 by simp
  qed
qed

lemma rebuild_rel: "rebuild env prompt st = (st', ok) \<Longrightarrow> gen_rel key 0 0 st st'"
  by (auto simp: rebuild_def gen_rel_def calls_left_def Let_def split: if_splits)

lemma recover_mcp_rel:
  assumes "recover_mcp env prompt attempt err st = (st', go, ended)"
  shows "gen_rel key 0 (if go \<or> ended then 1 else 0) st st'"
proof (cases "isMCPTransportError (Some err) \<and> hv_mcp env \<noteq> None")
  case True
  let ?w = "st\<lparr>gs_waits := gs_waits st @ [reconnect_timeout]\<rparr>"
  let ?t = "?w\<lparr>gs_tools := Bare (currentTools (hv_native env) (Some (hv_mcp_later env attempt)))\<rparr>"
  have w: "gen_rel key 0 1 st ?w" by (simp add: gen_rel_def calls_left_def reconnect_timeout_def)
  have "gen_rel key 0 0 ?t (fst (rebuild env prompt ?t))"
    using rebuild_rel [of env prompt ?t] by (cases "rebuild env prompt ?t") simp
  then have "gen_rel key 0 0 ?w (fst (rebuild env prompt ?t))" by simp
  from gen_rel_trans [OF w this] have "gen_rel key 0 1 st (fst (rebuild env prompt ?t))" by simp
  with w True assms show ?thesis by (auto simp: recover_mcp_def Let_def split: if_splits)
qed (use assms in \<open>auto simp: recover_mcp_def\<close>)

lemma recover_rel:
  assumes "recover env r prompt attempt err st = (st', go)" and "attempt \<in> {1, 2}"
  shows "gen_rel key 0 1 st st'"
proof -
  obtain s1 g1 e1 where 1: "recover_mcp env prompt attempt err st = (s1, g1, e1)" by (metis prod_cases3)
  obtain s2 g2 where 2: "recover_skill env r prompt err s1 = (s2, g2)" by force
  obtain s3 g3 where 3: "recover_tokens env prompt err s2 = (s3, g3)" by force
  note r1 = recover_mcp_rel [OF 1, of key]
  have r2: "gen_rel key 0 0 s1 s2"
    using 2 by (auto simp: recover_skill_def Let_def split: if_splits dest: rebuild_rel)
  have r3: "gen_rel key 0 0 s2 s3"
    using 3 by (auto simp: recover_tokens_def split: if_splits dest: rebuild_rel)
  have w: "gen_rel key 0 1 s3 (s3\<lparr>gs_waits := gs_waits s3 @ [backoff attempt err]\<rparr>)"
    using assms(2) by (auto simp: gen_rel_def calls_left_def backoff_def)
  note r12 = gen_rel_trans [OF r1 r2 order_refl order_refl]
  note r123 = gen_rel_trans [OF r12 r3 order_refl order_refl]
  have short: "gen_rel key 0 1 st s1" "gen_rel key 0 1 st s2" "gen_rel key 0 1 st s3"
    using gen_rel_trans [OF r1 gen_rel_refl, of 0 1] gen_rel_trans [OF r12 gen_rel_refl, of 0 1]
      gen_rel_trans [OF r123 gen_rel_refl, of 0 1] by (simp_all split: if_splits)
  have "gen_rel key 0 1 st (s3\<lparr>gs_waits := gs_waits s3 @ [backoff attempt err]\<rparr>)" if "\<not> g1" "\<not> e1"
    using gen_rel_trans [OF r123 w, of 0 1] that by simp
  with short show ?thesis using assms(1) by (auto simp: recover_def 1 2 3 Let_def split: if_splits)
qed

lemma gen_loop_rel:
  assumes "1 \<le> attempt" and "gen_loop env r key prompt history m attempt lastErr st = (st', res)"
  shows "gen_rel key (4 - attempt) (3 - attempt) st st'"
  using assms
proof (induction env r key prompt history m attempt lastErr st arbitrary: st' res rule: gen_loop.induct)
  case (1 env r key prompt history m attempt lastErr st)
  show ?case
  proof (cases "maxLLMAttempts < attempt")
    case True
    then show ?thesis using 1(4) by (simp add: gen_loop.simps [of env r key prompt history m attempt] gen_rel_def)
  next
    case False
    then have a: "attempt \<le> 3" by (simp add: maxLLMAttempts_def)
    obtain st1 res1 where t: "try_generate env key history m st = (st1, res1)" by force
    note rt = try_generate_rel [OF t]
    show ?thesis
    proof (cases res1)
      case (Inr x)
      then have "st' = st1" using 1(4) False t by (simp add: gen_loop.simps [of env r key prompt history m attempt])
      then show ?thesis using gen_rel_trans [OF rt gen_rel_refl] a by simp
    next
      case (Inl err)
      show ?thesis
      proof (cases "attempt < maxLLMAttempts")
        case lt: True
        obtain st2 go where rec: "recover env r prompt attempt err st1 = (st2, go)" by force
        have a12: "attempt \<in> {1, 2}" using lt 1(3) by (auto simp: maxLLMAttempts_def)
        note rr = gen_rel_trans [OF rt recover_rel [OF rec a12], of 1 1]
        show ?thesis
        proof (cases go)
          case True
          have run: "gen_loop env r key prompt history m (attempt + 1) err st2 = (st', res)"
            using 1(4) False t Inl lt rec True by (simp add: gen_loop.simps [of env r key prompt history m attempt])
          have IH: "gen_rel key (4 - (attempt + 1)) (3 - (attempt + 1)) st2 st'"
            by (rule 1(1) [OF False t [symmetric] Inl lt rec [symmetric] _ _ run]) (simp_all add: True)
          show ?thesis using gen_rel_trans [OF rr IH] a12 by auto
        next
          case no: False
          then have "st' = st2" using 1(4) False t Inl lt rec by (simp add: gen_loop.simps [of env r key prompt history m attempt])
          then show ?thesis using gen_rel_trans [OF rr gen_rel_refl] a12 by auto
        qed
      next
        case ge: False
        then have at: "attempt = 3" using a by (simp add: maxLLMAttempts_def)
        then have "st' = st1"
          using 1(4) False t Inl ge
          by (simp add: at gen_loop.simps [of env r key prompt history m 3] gen_loop.simps [of env r key prompt history m 4] maxLLMAttempts_def)
        then show ?thesis using gen_rel_trans [OF rt gen_rel_refl] at by simp
      qed
    qed
  qed
qed

section \<open>One answer\<close>

definition final_ok :: "string \<Rightarrow> handle_error option \<Rightarrow> NipperEvent list \<Rightarrow> bool" where
  "final_ok key res final \<longleftrightarrow>
     (case res of
        None \<Rightarrow> (\<exists>ev. final = [ev] \<and> ev_Type ev = EventTypeDone \<and> ev_SessionKey ev = key)
      | Some (HandlePublishFailed _) \<Rightarrow> final = []
      | Some (SessionFailed _) \<Rightarrow> final = []
      | Some HandleCancelled \<Rightarrow> final = []
      | Some (AgentInitFailed _) \<Rightarrow> (\<forall>ev \<in> set final. ev_Type ev = EventTypeError \<and> ev_SessionKey ev = key) \<and> length final \<le> 1
      | Some (GenerateFailed _) \<Rightarrow> (\<forall>ev \<in> set final. ev_Type ev = EventTypeError \<and> ev_SessionKey ev = key) \<and> length final \<le> 1)"

definition answers_once :: "string \<Rightarrow> EventPublisher \<Rightarrow> EventPublisher \<Rightarrow> handle_error option \<Rightarrow> bool" where
  "answers_once key p p' res \<longleftrightarrow>
     (\<exists>side final. map (snd \<circ> snd) (ep_sent p') = map (snd \<circ> snd) (ep_sent p) @ side @ final
        \<and> (\<forall>ev \<in> set side. side_event key ev) \<and> final_ok key res final)"

lemma answers_once_after:
  assumes "adds (side_event key) p q" and "map (snd \<circ> snd) (ep_sent p') = map (snd \<circ> snd) (ep_sent q) @ final"
    and "final_ok key res final"
  shows "answers_once key p p' res"
proof -
  obtain new where "ep_sent q = ep_sent p @ new" "\<forall>e \<in> set new. side_event key (snd (snd e))"
    using assms(1) by (auto simp: adds_def)
  then show ?thesis using assms(2,3) unfolding answers_once_def
    by (intro exI [of _ "map (snd \<circ> snd) new"] exI [of _ final]) auto
qed

lemma done_ok:
  assumes "PublishDone answers q key resp reply cu = (p', err)"
  shows "\<exists>final. map (snd \<circ> snd) (ep_sent p') = map (snd \<circ> snd) (ep_sent q) @ final
    \<and> final_ok key (map_option HandlePublishFailed err) final"
proof -
  let ?ev = "done_event key resp reply cu"
  have "ep_sent p' = ep_sent q @ (if err = None then [(ep_Exchange q, routingKey q (ev_SessionKey ?ev),
      stamp_event (answers (ep_calls q)) q ?ev)] else [])"
    using PublishEvent_sent [of answers q ?ev] assms by (simp add: PublishDone_def)
  then show ?thesis by (auto simp: final_ok_def done_event_def blank_event_def)
qed

lemma error_ok:
  "\<exists>final. map (snd \<circ> snd) (ep_sent (fst (PublishError answers q key code err rec))) = map (snd \<circ> snd) (ep_sent q) @ final
    \<and> (\<forall>ev \<in> set final. ev_Type ev = EventTypeError \<and> ev_SessionKey ev = key) \<and> length final \<le> 1"
  by (auto simp: PublishError_def PublishEvent_sent error_event_def blank_event_def)

lemma deliver_answer_once:
  assumes "deliver_answer env msg sess um notices run m r = ((r', p'), res)" and "adds (side_event (nm_SessionKey msg)) p (rn_pub run)"
  shows "answers_once (nm_SessionKey msg) p p' res"
proof -
  obtain reply cu p1 err where "PublishDone (hv_pub env) (rn_pub run) (nm_SessionKey msg) (hv_uuid env) reply cu = (p1, err)"
    and "p' = p1" "res = map_option HandlePublishFailed err"
    using assms(1) by (auto simp: deliver_answer_def Let_def split: prod.splits)
  then show ?thesis using done_ok answers_once_after [OF assms(2)] by blast
qed

lemma run_agent_once:
  assumes "run_agent env msg sess ls extra (r, p) = ((r', p'), res)"
  shows "answers_once (nm_SessionKey msg) p p' res"
proof -
  let ?key = "nm_SessionKey msg"
  obtain r1 tr re cn where ac: "auto_compact (hv_cmd env) r ?key ls = (r1, tr, re, cn)" by (metis prod_cases4)
  show ?thesis
  proof (cases "hv_new_agent env 0")
    case (Some err)
    then have "p' = fst (PublishError (hv_pub env) p ?key ''agent_init_error'' err True)" "res = Some (AgentInitFailed err)"
      using assms run_agent_no_agent [OF ac Some] by auto
    then show ?thesis using error_ok [of "hv_pub env" p ?key "''agent_init_error''" err True] answers_once_after [OF adds_refl]
      by (auto simp: final_ok_def)
  next
    case None
    obtain prompt history um input inl st gr where
      g: "gen_loop env r1 ?key prompt history (NipperMessageToEinoMessage (hv_to_upper env) msg) 1 []
         (start_agent env (agent_tools (hv_to_lower env) (hv_matcher env) r1 (hv_native env) (hv_mcp env) msg) prompt input inl
            (rt_visionUnsupported r1) p) = (st, gr)"
      and run: "run_agent env msg sess ls extra (r, p)
        = (let r2 = r1\<lparr>rt_visionUnsupported := gs_visionUnsupported st\<rparr>; p2 = rn_pub (gs_run st)
           in case gr of
                Generated m \<Rightarrow> deliver_answer env msg sess (NipperMessageToEinoMessage (hv_to_upper env) msg)
                                 (cn @ topic_notice env tr msg) (gs_run st) m r2
              | GaveUp err \<Rightarrow> ((r2, fst (PublishError (hv_pub env) p2 ?key ''agent_run_error'' err True)), Some (GenerateFailed err))
              | RunCancelled \<Rightarrow> ((r2, p2), Some HandleCancelled))"
      by (rule run_agent_parts [OF ac None])
    have rel: "adds (side_event ?key) p (rn_pub (gs_run st))"
      using gen_loop_rel [OF _ g] by (simp add: gen_rel_def start_agent_def Let_def)
    show ?thesis
    proof (cases gr)
      case (Generated m)
      then show ?thesis using assms deliver_answer_once [OF _ rel] unfolding run by (simp add: Let_def)
    next
      case (GaveUp err)
      then have "p' = fst (PublishError (hv_pub env) (rn_pub (gs_run st)) ?key ''agent_run_error'' err True)"
        "res = Some (GenerateFailed err)"
        using assms unfolding run by (auto simp: Let_def)
      then show ?thesis using error_ok [of "hv_pub env" "rn_pub (gs_run st)" ?key "''agent_run_error''" err True]
          answers_once_after [OF rel] by (auto simp: final_ok_def)
    next
      case RunCancelled
      then have "p' = rn_pub (gs_run st)" "res = Some HandleCancelled" using assms unfolding run by (auto simp: Let_def)
      then show ?thesis using answers_once_after [OF rel, of p' "[]"] by (simp add: final_ok_def)
    qed
  qed
qed

lemma enriched_frame [simp]:
  "nm_SessionKey (enriched env msg) = nm_SessionKey msg" "nm_UserID (enriched env msg) = nm_UserID msg"
  by (simp_all add: enriched_def split: option.split)

lemma answered_once:
  assumes "handleMessage env (r, p) msg = ((r', p'), res)"
  shows "answers_once (nm_SessionKey msg) p p' res \<and> ((\<exists>e. res = Some (SessionFailed e)) \<longrightarrow> p' = p)"
proof -
  obtain r1 c where hc: "handleCommand (hv_cmd env) r msg = (r1, c)" by force
  show ?thesis
  proof (cases c)
    case (Some result)
    then obtain p1 err where "PublishDone (hv_pub env) p (nm_SessionKey msg) (hv_uuid env)
        (formatForChannel (hv_whatsapp env) msg (cr_Response result)) None = (p1, err)"
      and eq: "p' = p1" "res = map_option HandlePublishFailed err"
      using assms by (auto simp: handleMessage_def hc split: prod.splits)
    then show ?thesis using done_ok answers_once_after [OF adds_refl] by (auto split: option.splits) blast
  next
    case None
    obtain r2 l where ls: "loadOrCreateSession (hv_cmd env) r1 msg = (r2, l)" by force
    show ?thesis
    proof (cases l)
      case (Inl e)
      then have "p' = p" "res = Some (SessionFailed e)" using assms by (auto simp: handleMessage_def hc None ls)
      then show ?thesis using answers_once_after [OF adds_refl, of p p "[]"] by (simp add: final_ok_def)
    next
      case (Inr x)
      obtain sess tr where x: "x = (sess, tr)" by (cases x)
      obtain r3 extra where sl: "save_location env r2 msg = (r3, extra)" by force
      have ra: "run_agent env (enriched env msg) sess tr extra (r3, p) = ((r', p'), res)"
        using assms by (simp add: handleMessage_def hc None ls Inr x sl)
      have "\<not> (\<exists>e. res = Some (SessionFailed e))"
        using ra by (auto simp: run_agent_def deliver_answer_def Let_def split: prod.splits option.splits gen_result.splits)
      then show ?thesis using run_agent_once [OF ra] by simp
    qed
  qed
qed

text \<open>
  C2: whatever happens on the way, a message gets at most one answer, and the answer comes last: before it there are only
  tool, skill and thinking events of its session (and the errors of tools). A handled message has exactly one event
  of type \<^verbatim>\<open>done\<close>; one that fails has none, and no event at all when its session could not be loaded.
\<close>

theorem one_answer_per_message:
  assumes "handleMessage env (r, p) msg = ((r', p'), res)"
  shows "answers_once (nm_SessionKey msg) p p' res \<and> ((\<exists>e. res = Some (SessionFailed e)) \<longrightarrow> p' = p)"
  by (rule answered_once [OF assms])

theorem one_answer_per_message_witness:
  "\<exists>r' p'. handleMessage (demo_msg_env [ToolError 0 ''bash'' ''boom''] (Inr (text_message ''assistant'' ''yo''))) (demo_runtime demo_chat, demo_publisher) demo_ask
       = ((r', p'), None) \<and> answers_once demo_key demo_publisher p' None"
proof -
  obtain sess where l: "loadOrCreateSession demo_cmd_env (demo_runtime demo_chat) demo_ask
      = (demo_runtime demo_chat, Inr (sess, [demo_line ''a'', demo_line ''b'']))" using demo_loads by blast
  have s: "rt_sessions (demo_runtime demo_chat) = demo_chat" by (simp add: demo_runtime_def)
  obtain r' p' where h: "handleMessage (demo_msg_env [ToolError 0 ''bash'' ''boom''] (Inr (text_message ''assistant'' ''yo'')))
      (demo_runtime demo_chat, demo_publisher) demo_ask = ((r', p'), None)"
    using demo_handles [OF s l] by blast
  have "nm_SessionKey demo_ask = demo_key" by (simp add: demo_user_message_def)
  then show ?thesis using one_answer_per_message [OF h] h by auto
qed

section \<open>Retries\<close>

text \<open>
  C12: for one message the agent is run at most four times, three when no image is inlined (each run calls the model up to
  its configured number of steps), with at most two pauses between the runs, each of two, four, ten or sixty seconds: the
  waiting for a lost MCP connection counts as one.
\<close>

theorem agent_runs_bounded:
  assumes "gen_loop env r key prompt history um 1 lastErr (start_agent env tools prompt0 input inl unsupported p) = (st, res)"
  shows "gs_generates st \<le> (if inl then 4 else 3) \<and> length (gs_waits st) \<le> 2
    \<and> set (gs_waits st) \<subseteq> {2 * Second, 4 * Second, 10 * Second, 60 * Second} \<and> sum_list (gs_waits st) \<le> 120 * Second"
proof -
  let ?start = "start_agent env tools prompt0 input inl unsupported p"
  have s: "gs_generates ?start = 0" "gs_inlined ?start = inl" "gs_waits ?start = []" by (simp_all add: start_agent_def Let_def)
  have rel: "gen_rel key (4 - 1) (3 - 1) ?start st" by (rule gen_loop_rel [OF _ assms]) simp
  then obtain ws where calls: "calls_left st \<le> calls_left ?start + 3" and ws: "gs_waits st = ws" "length ws \<le> 2"
    "set ws \<subseteq> {2 * Second, 4 * Second, 10 * Second, 60 * Second}"
    unfolding gen_rel_def s(3) by auto
  have "sum_list ws \<le> 60 * Second * int (length ws)"
    using ws(3) by (induction ws) (auto simp: algebra_simps)
  also have "\<dots> \<le> 120 * Second" using ws(2) by simp
  finally have "sum_list ws \<le> 120 * Second" .
  moreover have "gs_generates st \<le> (if inl then 4 else 3)" using calls by (auto simp: calls_left_def s split: if_splits)
  ultimately show ?thesis using ws by simp
qed

definition demo_failing :: "unit msg_env" where
  "demo_failing = (demo_msg_env [] (Inl ''429''))\<lparr>hv_cancelled := (\<lambda>_. False)\<rparr>"

theorem agent_runs_bounded_witness:
  "\<exists>st res. gen_loop demo_failing (demo_runtime demo_chat) ''k'' [] [] (text_message ''user'' ''hi'') 1 []
       (start_agent demo_failing [] [] [] False False demo_publisher) = (st, res)
     \<and> gs_generates st \<le> 3 \<and> length (gs_waits st) \<le> 2"
proof -
  obtain st res where g: "gen_loop demo_failing (demo_runtime demo_chat) ''k'' [] [] (text_message ''user'' ''hi'') 1 []
      (start_agent demo_failing [] [] [] False False demo_publisher) = (st, res)" by force
  show ?thesis using agent_runs_bounded [OF g] g by auto
qed

text \<open>
  After a reconnection of the MCP transport the tools are bound as they are: the guard against repeated calls and the
  description repair of the first agent are gone, and lean mode is ignored.
\<close>

theorem guard_lost_on_reconnect:
  assumes "isMCPTransportError (Some err)" and "hv_mcp env \<noteq> None" and "hv_reconnected env attempt"
    and "hv_new_agent env (gs_builds st) = None"
  shows "ra_tools (gs_agent (fst (recover env r prompt attempt err st)))
    = Bare (currentTools (hv_native env) (Some (hv_mcp_later env attempt)))"
  using assms by (simp add: recover_def recover_mcp_def rebuild_def Let_def split: prod.split)

section \<open>What is lost\<close>

text \<open>A message whose session key does not parse is never answered: the fallback for bare keys is not reached.\<close>

theorem bare_key_unanswered:
  assumes "ParseSessionKey (nm_SessionKey msg) = Inl e" and "handleCommand (hv_cmd env) r msg = (r, None)"
  shows "handleMessage env (r, p) msg = ((r, p), Some (SessionFailed (BadKey e)))"
  using assms by (simp add: handleMessage_def loadOrCreateSession_def GetSession_def)

text \<open>The messages a queue item collected are not looked at.\<close>

theorem collected_messages_unread:
  "agent_handleDelivery env rp (Some (item\<lparr>qi_CollectedMessages := ms\<rparr>)) = agent_handleDelivery env rp (Some item)"
  by (simp add: agent_handleDelivery_def)

lemma clean_empty: "stripChatTemplateTokens [] = []" "isGarbledOutput [] = False"
  by (simp_all add: stripChatTemplateTokens_def isGarbledOutput_def Contains_def Index.simps [of "[]"] Let_def)

text \<open>An answer that is only reasoning leaves the user with an empty text: the fallback was decided before.\<close>

theorem reasoning_only_answer_empty:
  "clean_content (text_message ''assistant'' ''<think>plan</think>'') = []"
proof -
  have "\<not> Contains [] openTag" "\<not> Contains ''plan'' closeTag" by (simp_all add: Contains_def Index.simps)
  then have "think_loop (render [] [(''plan'', [])]) = ([[], []], [TrimSpace ''plan''])"
    using think_loop_render [of "[]" "[(''plan'', [])]"] by simp
  moreover have "Contains ''<think>plan</think>'' openTag" by (simp add: Contains_def Index.simps)
  moreover have plan: "TrimSpace ''plan'' = ''plan''" "TrimSpace ''<think>plan</think>'' = ''<think>plan</think>''"
    by (simp_all add: TrimSpace_plain IsSpace_def)
  ultimately have "stripThinkTags ''<think>plan</think>'' = ([], ''plan'')" by (simp add: stripThinkTags_def)
  then show ?thesis using plan by (simp add: clean_content_def text_message_def clean_empty Let_def)
qed

text \<open>The events of a skill run never carry its name or its exit code.\<close>

theorem skill_events_nameless:
  "parseSkillExecInput (GString args) = ([], []) \<and> parseSkillExecOutput (GString out) = - 1"
  by (simp add: parseSkillExecInput_def parseSkillExecOutput_def)

text \<open>A malformed delivery is acknowledged.\<close>

theorem malformed_delivery_acknowledged: "agent_consume rp [(env, None)] = (rp, [Acked])"
  by (simp add: agent_handleDelivery_def)

end
