(* ===== verification/AgentGateway.thy ===== *)
theory AgentGateway
  imports AgentProps Dispatcher
begin

text \<open>
  The agent and the gateway together: what the dispatcher makes of the events the agent publishes for one message.
\<close>

section \<open>Pending deliveries\<close>

lemma pending_run:
  "\<forall>p \<in> set es. ev_SessionKey (snd p) = k
    \<Longrightarrow> pending (ds_registry (handle_all d es)) k = drop (length (filter (\<lambda>p. is_terminal (snd p)) es)) (pending (ds_registry d) k)"
proof (induction es arbitrary: d)
  case (Cons p es)
  obtain env event where p: "p = (env, event)" by force
  have k: "ev_SessionKey event = k" using Cons.prems by (simp add: p)
  have step: "pending (ds_registry (HandleEvent env d (Some event))) k
      = (if is_terminal event then tl (pending (ds_registry d) k) else pending (ds_registry d) k)"
    by (simp add: HandleEvent_registry pending_Consume k)
  show ?case using Cons.IH [of "HandleEvent env d (Some event)"] Cons.prems
    by (simp add: p step drop_Suc)
qed simp

lemma nothing_pending:
  "pending (ds_registry d) (ev_SessionKey event) = [] \<Longrightarrow> ds_log (HandleEvent env d (Some event)) = ds_log d"
  by (simp add: HandleEvent_def Consume_def Lookup_def)

lemma handle_all_append: "handle_all d (xs @ ys) = handle_all (handle_all d xs) ys"
  by (induction d xs rule: handle_all.induct) auto

section \<open>The events of one message\<close>

definition new_events :: "EventPublisher \<Rightarrow> EventPublisher \<Rightarrow> NipperEvent list" where
  "new_events p p' = map (snd \<circ> snd) (drop (length (ep_sent p)) (ep_sent p'))"

lemma new_events_split:
  assumes "map (snd \<circ> snd) (ep_sent p') = map (snd \<circ> snd) (ep_sent p) @ evs"
  shows "new_events p p' = evs"
  using assms by (simp add: new_events_def flip: drop_map)

lemma answered_events:
  assumes "answers_once key p p' None"
  obtains side fin where "new_events p p' = side @ [fin]" "\<forall>ev \<in> set side. side_event key ev"
    "ev_Type fin = EventTypeDone" "ev_SessionKey fin = key"
proof -
  obtain side final where s: "map (snd \<circ> snd) (ep_sent p') = map (snd \<circ> snd) (ep_sent p) @ side @ final"
    "\<forall>ev \<in> set side. side_event key ev" "final_ok key None final"
    using assms by (auto simp: answers_once_def)
  moreover obtain fin where "final = [fin]" "ev_Type fin = EventTypeDone" "ev_SessionKey fin = key"
    using s(3) by (auto simp: final_ok_def)
  ultimately show thesis using that new_events_split [of p' p "side @ final"] by auto
qed

text \<open>Whether a tool failed on the way.\<close>

definition tool_failed :: "NipperEvent list \<Rightarrow> bool" where
  "tool_failed evs = (\<exists>ev \<in> set evs. ev_Type ev = EventTypeError)"

lemma handled_answers:
  "handleMessage env (r, p) msg = ((r', p'), None) \<Longrightarrow> answers_once (nm_SessionKey msg) p p' None"
  using answered_once by blast

text \<open>
  C3: the answer of an agent reaches its channel: when a session waits on a buffering channel and no tool failed on the
  way, the last thing the dispatcher does with the events of a handled message is to deliver one response, to the
  channel the message came from, with the text of the answer; what stays pending are the later deliveries.
\<close>

theorem agent_answer_delivered:
  assumes h: "handleMessage env (r, p) msg = ((r', p'), None)" and "\<not> tool_failed (new_events p p')"
    and "buffering d (nm_SessionKey msg) e q" and "accumulated d (nm_SessionKey msg) = []"
    and "length envs = length (new_events p p')"
  shows "\<exists>resp tries. last (ds_log (handle_all d (zip envs (new_events p p')))) = ResponseTried (dc_ChannelType (de_Context e)) resp tries
     \<and> nr_Text resp = delta_text (last (new_events p p')) \<and> nr_DeliveryContext resp = de_Context e \<and> nr_Meta resp = de_Meta e
     \<and> pending (ds_registry (handle_all d (zip envs (new_events p p')))) (nm_SessionKey msg) = q"
proof -
  let ?k = "nm_SessionKey msg"
  obtain side fin where ev: "new_events p p' = side @ [fin]" and side: "\<forall>ev \<in> set side. side_event ?k ev"
    and fin: "ev_Type fin = EventTypeDone" "ev_SessionKey fin = ?k" using handled_answers [OF h] by (rule answered_events)
  obtain es env where envs: "envs = es @ [env]" "length es = length side"
    using assms(5) ev by (cases envs rule: rev_cases) auto
  have z: "zip envs (side @ [fin]) = zip es side @ [(env, fin)]" using envs by simp
  have in_side: "snd x \<in> set side" if "x \<in> set (zip es side)" for x using that by (metis prod.collapse set_zip_rightD)
  have quiet: "\<forall>x \<in> set (zip es side). \<not> (ev_SessionKey (snd x) = ?k \<and> is_terminal (snd x))"
    using side assms(2) ev in_side by (fastforce simp: side_event_def tool_failed_def is_terminal_def)
  have "filter (\<lambda>x. ev_SessionKey (snd x) = ?k \<and> ev_Type (snd x) = EventTypeDelta) (zip es side) = []"
    using side in_side by (auto simp: filter_empty_conv side_event_def)
  then have no_deltas: "deltas_of ?k (zip es side) = []" by (simp add: deltas_of_def)
  show ?thesis
    using buffered_done [OF assms(3,4) quiet fin(2,1) refl, of env] no_deltas
    by (simp add: ev) (simp add: z handle_all_append, blast)
qed

text \<open>
  C11: a tool error hides the answer: it is a terminal event for the dispatcher and uses up the pending delivery, so that
  the answer that follows finds none and is not delivered anywhere.
\<close>

theorem tool_error_hides_answer:
  assumes h: "handleMessage env (r, p) msg = ((r', p'), None)" and "tool_failed (new_events p p')"
    and "length (pending (ds_registry d) (nm_SessionKey msg)) = 1" and "length envs = length (new_events p p')"
  shows "ds_log (handle_all d (zip envs (new_events p p'))) = ds_log (handle_all d (zip (butlast envs) (butlast (new_events p p'))))
    \<and> ev_Type (last (new_events p p')) = EventTypeDone"
proof -
  let ?k = "nm_SessionKey msg"
  obtain side fin where ev: "new_events p p' = side @ [fin]" and side: "\<forall>ev \<in> set side. side_event ?k ev"
    and fin: "ev_Type fin = EventTypeDone" "ev_SessionKey fin = ?k" using handled_answers [OF h] by (rule answered_events)
  obtain es env where envs: "envs = es @ [env]" "length es = length side"
    using assms(4) ev by (cases envs rule: rev_cases) auto
  have keys: "\<forall>x \<in> set (zip es side). ev_SessionKey (snd x) = ?k"
    using side by (auto simp: side_event_def dest!: set_zip_rightD)
  obtain bad where bad: "bad \<in> set side" "ev_Type bad = EventTypeError"
    using assms(2) ev fin by (auto simp: tool_failed_def)
  then obtain i where "i < length side" "side ! i = bad" by (auto simp: in_set_conv_nth)
  then have "(es ! i, bad) \<in> set (zip es side)" using envs(2) by (auto simp: set_zip)
  then have "filter (\<lambda>x. is_terminal (snd x)) (zip es side) \<noteq> []"
    using bad(2) by (force simp: filter_empty_conv is_terminal_def)
  then have "1 \<le> length (filter (\<lambda>x. is_terminal (snd x)) (zip es side))"
    by (cases "filter (\<lambda>x. is_terminal (snd x)) (zip es side)") auto
  then have "pending (ds_registry (handle_all d (zip es side))) ?k = []"
    using pending_run [OF keys, of d] assms(3) by simp
  then show ?thesis using nothing_pending [of "handle_all d (zip es side)" fin env] fin
    by (simp add: ev envs handle_all_append)
qed

section \<open>A run of both\<close>

definition demo_gateway :: Dispatcher where
  "demo_gateway =
     NewDispatcher \<lparr>rg_entries = [demo_key \<mapsto> [demo_entry ''slack'']]\<rparr>
       [''slack'' \<mapsto> \<lparr>ad_TypingIndicator = False, ad_TypingIndicatorRemover = False\<rparr>]"

lemma demo_gateway_buffers: "buffering demo_gateway demo_key (demo_entry ''slack'') []" "accumulated demo_gateway demo_key = []"
  by (simp_all add: buffering_def demo_gateway_def NewDispatcher_def map_slice_def demo_entry_def
      zeroDeliveryContext_def accumulated_def)

lemma demo_round:
  obtains r' p' fin where "handleMessage (demo_msg_env cbs (Inr m)) (demo_runtime demo_chat, demo_publisher) demo_ask = ((r', p'), None)"
    "ep_sent p' = ep_sent (rn_pub (fold (on_callback (\<lambda>_. demo_pub_ok) demo_key ''id'') cbs (start_run demo_publisher))) @ [fin]"
proof -
  have "rt_sessions (demo_runtime demo_chat) = demo_chat" by (simp add: demo_runtime_def)
  then show thesis using that demo_loads demo_answers by metis
qed

lemma demo_ask_key: "nm_SessionKey demo_ask = demo_key"
  by (simp add: demo_user_message_def)

theorem agent_answer_delivered_witness:
  "\<exists>r' p' resp tries. handleMessage (demo_msg_env [] (Inr (text_message ''assistant'' ''yo''))) (demo_runtime demo_chat, demo_publisher) demo_ask
       = ((r', p'), None)
     \<and> last (ds_log (handle_all demo_gateway (zip [demo_deliver] (new_events demo_publisher p')))) = ResponseTried ''slack'' resp tries
     \<and> nr_Text resp = delta_text (last (new_events demo_publisher p'))"
proof -
  let ?m = "text_message ''assistant'' ''yo''"
  obtain r' p' fin where h: "handleMessage (demo_msg_env [] (Inr ?m)) (demo_runtime demo_chat, demo_publisher) demo_ask = ((r', p'), None)"
    "ep_sent p' = ep_sent demo_publisher @ [fin]" by (rule demo_round [of "[]" ?m]) simp
  then have one: "new_events demo_publisher p' = [snd (snd fin)]" by (simp add: new_events_def)
  obtain side f where "new_events demo_publisher p' = side @ [f]" "ev_Type f = EventTypeDone"
    using handled_answers [OF h(1)] by (rule answered_events)
  then have "\<not> tool_failed (new_events demo_publisher p')" using one by (simp add: tool_failed_def)
  moreover have "buffering demo_gateway (nm_SessionKey demo_ask) (demo_entry ''slack'') []" "accumulated demo_gateway (nm_SessionKey demo_ask) = []"
    unfolding demo_ask_key by (rule demo_gateway_buffers)+
  moreover have "dc_ChannelType (de_Context (demo_entry ''slack'')) = ''slack''" by (simp add: demo_entry_def)
  ultimately show ?thesis
    using agent_answer_delivered [OF h(1), of demo_gateway "demo_entry ''slack''" "[]" "[demo_deliver]"] h(1) one by auto
qed

theorem tool_error_hides_answer_witness:
  "\<exists>r' p' e fin. handleMessage (demo_msg_env [ToolError 0 ''bash'' ''boom''] (Inr (text_message ''assistant'' ''yo'')))
       (demo_runtime demo_chat, demo_publisher) demo_ask = ((r', p'), None)
     \<and> new_events demo_publisher p' = [e, fin] \<and> ev_Type fin = EventTypeDone
     \<and> ds_log (handle_all demo_gateway (zip [demo_deliver, demo_deliver] [e, fin])) = ds_log (handle_all demo_gateway [(demo_deliver, e)])"
proof -
  let ?m = "text_message ''assistant'' ''yo''" and ?cb = "ToolError 0 ''bash'' ''boom''"
  let ?ev = "error_event demo_key ''tool_error'' ''boom'' True"
  obtain r' p' fin where h: "handleMessage (demo_msg_env [?cb] (Inr ?m)) (demo_runtime demo_chat, demo_publisher) demo_ask = ((r', p'), None)"
    "ep_sent p' = ep_sent (fst (PublishEvent (\<lambda>_. demo_pub_ok) demo_publisher ?ev)) @ [fin]"
    by (rule demo_round [of "[?cb]" ?m]) (simp add: tool_OnError_def publish_def)
  have "snd (PublishEvent (\<lambda>_. demo_pub_ok) demo_publisher ?ev) = None"
    by (simp add: PublishEvent_def ensureChannel_def demo_pub_ok_def Let_def)
  then have two: "new_events demo_publisher p' = [stamp_event demo_pub_ok demo_publisher ?ev, snd (snd fin)]"
    using h(2) by (simp add: new_events_def PublishEvent_sent)
  then have failed: "tool_failed (new_events demo_publisher p')" by (simp add: tool_failed_def error_event_def blank_event_def)
  have "length (pending (ds_registry demo_gateway) (nm_SessionKey demo_ask)) = 1"
    by (simp add: demo_ask_key demo_gateway_def NewDispatcher_def map_slice_def)
  then show ?thesis
    using tool_error_hides_answer [OF h(1) failed, of demo_gateway "[demo_deliver, demo_deliver]"] two h(1) by auto
qed

end
