(* ===== verification/Cache.thy ===== *)
theory Cache
  imports Datastore
begin

text \<open>
  The caching repository (\<^verbatim>\<open>internal/datastore/cache.go\<close>) around the SQLite store. The cache library is a parameter: its
  four operations on a state of its own, of which the documented behaviour is a hypothesis. A read looks for its key,
  asks the store on a miss and keeps the answer for its time to live; some writes delete the key or flush the cache.
\<close>

section \<open>The library\<close>

text \<open>A cached value carries its Go type; reading it as another type panics.\<close>

datatype cached_value = CString string | CBool bool | CPolicy "PolicyData option" | CAgent Agent

record 'c cache_lib =
  cl_get :: "'c \<Rightarrow> time \<Rightarrow> string \<Rightarrow> cached_value option"
  cl_set :: "'c \<Rightarrow> time \<Rightarrow> string \<Rightarrow> cached_value \<Rightarrow> duration \<Rightarrow> 'c"
  cl_delete :: "'c \<Rightarrow> string \<Rightarrow> 'c"
  cl_flush :: "'c \<Rightarrow> 'c"

text \<open>
  What the library documents, on a view of its state as a map to values and expiry times. A time to live that is not
  positive has other meanings (the cache's default, or no expiry); the program uses positive ones only.
\<close>

definition documented :: "'c cache_lib \<Rightarrow> ('c \<Rightarrow> string \<rightharpoonup> cached_value \<times> time) \<Rightarrow> bool" where
  "documented lib view \<longleftrightarrow>
     (\<forall>c now k. cl_get lib c now k = (case view c k of Some (v, e) \<Rightarrow> if now \<le> e then Some v else None | None \<Rightarrow> None))
     \<and> (\<forall>c now k v ttl. 0 < ttl \<longrightarrow> view (cl_set lib c now k v ttl) = (view c)(k \<mapsto> (v, now + ttl)))
     \<and> (\<forall>c k. view (cl_delete lib c k) = (view c)(k := None))
     \<and> (\<forall>c. view (cl_flush lib c) = Map.empty)"

section \<open>Keys and reads\<close>

definition identityTTL :: duration where "identityTTL = 60 * Second"
definition allowedTTL :: duration where "allowedTTL = 60 * Second"
definition userTTL :: duration where "userTTL = 60 * Second"
definition policyTTL :: duration where "policyTTL = 300 * Second"
definition agentTTL :: duration where "agentTTL = 60 * Second"

record 'c CachedRepository =
  cr_inner :: Store
  cr_cache :: 'c

definition identityKey :: "string \<Rightarrow> string \<Rightarrow> string" where
  "identityKey channelType channelIdentity = ''identity:'' @ channelType @ '':'' @ channelIdentity"

definition allowedKey :: "string \<Rightarrow> string \<Rightarrow> string" where
  "allowedKey userID channelType = ''allowed:'' @ userID @ '':'' @ channelType"

definition userEnabledKey :: "string \<Rightarrow> string" where
  "userEnabledKey userID = ''user_enabled:'' @ userID"

definition policyKey :: "string \<Rightarrow> string \<Rightarrow> string" where
  "policyKey userID policyType = ''policy:'' @ userID @ '':'' @ policyType"

definition agentTokenKey :: "string \<Rightarrow> string" where
  "agentTokenKey tokenHash = ''agent_token:'' @ tokenHash"

datatype read_error = Inner repo_error | TypePanic

text \<open>
  The common shape of the five reads: the conversion of a hit, of a fresh answer, and the answer of the store. The last
  step of a read that misses, keeping the answer, is a function of its own: other calls can come before it.
\<close>

definition cached_keep :: "'c cache_lib \<Rightarrow> time \<Rightarrow> string \<Rightarrow> duration \<Rightarrow> cached_value \<Rightarrow> 'c CachedRepository \<Rightarrow> 'c CachedRepository" where
  "cached_keep lib now key ttl v r = r\<lparr>cr_cache := cl_set lib (cr_cache r) now key v ttl\<rparr>"

definition cached_read ::
  "'c cache_lib \<Rightarrow> time \<Rightarrow> string \<Rightarrow> duration \<Rightarrow> (cached_value \<Rightarrow> 'a option) \<Rightarrow> ('a \<Rightarrow> cached_value) \<Rightarrow> 'a result
     \<Rightarrow> 'c CachedRepository \<Rightarrow> 'c CachedRepository \<times> (read_error + 'a)" where
  "cached_read lib now key ttl as_a wrap inner r =
     (case cl_get lib (cr_cache r) now key of
        Some v \<Rightarrow> (r, case as_a v of None \<Rightarrow> Inl TypePanic | Some a \<Rightarrow> Inr a)
      | None \<Rightarrow>
          (case inner of
             Inl e \<Rightarrow> (r, Inl (Inner e))
           | Inr a \<Rightarrow> (cached_keep lib now key ttl (wrap a) r, Inr a)))"

fun as_string :: "cached_value \<Rightarrow> string option" where
  "as_string (CString s) = Some s" | "as_string _ = None"

fun as_bool :: "cached_value \<Rightarrow> bool option" where
  "as_bool (CBool b) = Some b" | "as_bool _ = None"

fun as_policy :: "cached_value \<Rightarrow> PolicyData option option" where
  "as_policy (CPolicy p) = Some p" | "as_policy _ = None"

fun as_agent :: "cached_value \<Rightarrow> Agent option" where
  "as_agent (CAgent a) = Some a" | "as_agent _ = None"

definition cached_ResolveIdentity ::
  "'c cache_lib \<Rightarrow> time \<Rightarrow> 'c CachedRepository \<Rightarrow> string \<Rightarrow> string \<Rightarrow> 'c CachedRepository \<times> (read_error + string)" where
  "cached_ResolveIdentity lib now r channelType channelIdentity =
     cached_read lib now (identityKey channelType channelIdentity) identityTTL as_string CString
       (ResolveIdentity (cr_inner r) channelType channelIdentity) r"

definition cached_IsAllowed ::
  "'c cache_lib \<Rightarrow> time \<Rightarrow> 'c CachedRepository \<Rightarrow> string \<Rightarrow> string \<Rightarrow> 'c CachedRepository \<times> (read_error + bool)" where
  "cached_IsAllowed lib now r userID channelType =
     cached_read lib now (allowedKey userID channelType) allowedTTL as_bool CBool (IsAllowed (cr_inner r) userID channelType) r"

definition cached_IsUserEnabled ::
  "'c cache_lib \<Rightarrow> time \<Rightarrow> 'c CachedRepository \<Rightarrow> string \<Rightarrow> 'c CachedRepository \<times> (read_error + bool)" where
  "cached_IsUserEnabled lib now r userID =
     cached_read lib now (userEnabledKey userID) userTTL as_bool CBool (IsUserEnabled (cr_inner r) userID) r"

definition cached_GetUserPolicy ::
  "'c cache_lib \<Rightarrow> time \<Rightarrow> 'c CachedRepository \<Rightarrow> string \<Rightarrow> string \<Rightarrow> 'c CachedRepository \<times> (read_error + PolicyData option)" where
  "cached_GetUserPolicy lib now r userID policyType =
     cached_read lib now (policyKey userID policyType) policyTTL as_policy CPolicy (GetUserPolicy (cr_inner r) userID policyType) r"

definition cached_GetAgentByTokenHash ::
  "'c cache_lib \<Rightarrow> time \<Rightarrow> 'c CachedRepository \<Rightarrow> string \<Rightarrow> 'c CachedRepository \<times> (read_error + Agent)" where
  "cached_GetAgentByTokenHash lib now r tokenHash =
     cached_read lib now (agentTokenKey tokenHash) agentTTL as_agent CAgent (GetAgentByTokenHash (cr_inner r) tokenHash) r"

section \<open>Writes\<close>

text \<open>A write goes to the store; when it succeeds the cache is changed.\<close>

definition cached_write :: "('c \<Rightarrow> 'c) \<Rightarrow> 'c CachedRepository \<Rightarrow> Store \<times> 'a result \<Rightarrow> 'c CachedRepository \<times> 'a result" where
  "cached_write bust r res =
     (case res of
        (s, Inl e) \<Rightarrow> (r\<lparr>cr_inner := s\<rparr>, Inl e)
      | (s, Inr a) \<Rightarrow> (r\<lparr>cr_inner := s, cr_cache := bust (cr_cache r)\<rparr>, Inr a))"

definition cached_AddIdentity :: "'c cache_lib \<Rightarrow> 'c CachedRepository \<Rightarrow> string \<Rightarrow> string \<Rightarrow> string \<Rightarrow> time \<Rightarrow> 'c CachedRepository \<times> unit result" where
  "cached_AddIdentity lib r userID channelType channelIdentity ts =
     cached_write (\<lambda>c. cl_delete lib c (identityKey channelType channelIdentity)) r
       (AddIdentity (cr_inner r) userID channelType channelIdentity ts)"

definition cached_RemoveIdentity :: "'c CachedRepository \<Rightarrow> int \<Rightarrow> 'c CachedRepository \<times> unit result" where
  "cached_RemoveIdentity r rowid = cached_write id r (RemoveIdentity (cr_inner r) rowid)"

definition cached_SetAllowed ::
  "'c cache_lib \<Rightarrow> 'c CachedRepository \<Rightarrow> string \<Rightarrow> string \<Rightarrow> bool \<Rightarrow> string \<Rightarrow> time \<Rightarrow> 'c CachedRepository \<times> unit result" where
  "cached_SetAllowed lib r userID channelType enabled createdBy ts =
     cached_write (\<lambda>c. cl_delete lib c (allowedKey userID channelType)) r
       (SetAllowed (cr_inner r) userID channelType enabled createdBy ts)"

definition cached_RemoveAllowed :: "'c cache_lib \<Rightarrow> 'c CachedRepository \<Rightarrow> string \<Rightarrow> string \<Rightarrow> 'c CachedRepository \<times> unit result" where
  "cached_RemoveAllowed lib r userID channelType =
     cached_write (\<lambda>c. cl_delete lib c (allowedKey userID channelType)) r (RemoveAllowed (cr_inner r) userID channelType)"

definition cached_UpdateUser :: "'c cache_lib \<Rightarrow> 'c CachedRepository \<Rightarrow> string \<Rightarrow> UpdateUserRequest \<Rightarrow> time \<Rightarrow> 'c CachedRepository \<times> User result" where
  "cached_UpdateUser lib r userID updates ts =
     cached_write (\<lambda>c. cl_delete lib c (userEnabledKey userID)) r (UpdateUser (cr_inner r) userID updates ts)"

definition cached_DeleteUser :: "'c cache_lib \<Rightarrow> 'c CachedRepository \<Rightarrow> string \<Rightarrow> 'c CachedRepository \<times> unit result" where
  "cached_DeleteUser lib r userID =
     cached_write (\<lambda>c. cl_delete lib c (userEnabledKey userID)) r (DeleteUser (cr_inner r) userID)"

definition cached_SetUserPolicy :: "'c cache_lib \<Rightarrow> 'c CachedRepository \<Rightarrow> string \<Rightarrow> string \<Rightarrow> PolicyData \<Rightarrow> time \<Rightarrow> 'c CachedRepository \<times> unit result" where
  "cached_SetUserPolicy lib r userID policyType data ts =
     cached_write (\<lambda>c. cl_delete lib c (policyKey userID policyType)) r (SetUserPolicy (cr_inner r) userID policyType data ts)"

definition cached_DeleteUserPolicy :: "'c cache_lib \<Rightarrow> 'c CachedRepository \<Rightarrow> string \<Rightarrow> string \<Rightarrow> 'c CachedRepository \<times> unit result" where
  "cached_DeleteUserPolicy lib r userID policyType =
     cached_write (\<lambda>c. cl_delete lib c (policyKey userID policyType)) r (DeleteUserPolicy (cr_inner r) userID policyType)"

definition cached_RotateAgentToken :: "'c cache_lib \<Rightarrow> 'c CachedRepository \<Rightarrow> string \<Rightarrow> string \<Rightarrow> string \<Rightarrow> time \<Rightarrow> 'c CachedRepository \<times> unit result" where
  "cached_RotateAgentToken lib r agentID newTokenHash newTokenPrefix ts =
     cached_write (cl_flush lib) r (RotateAgentToken (cr_inner r) agentID newTokenHash newTokenPrefix ts)"

definition cached_UpdateAgentStatus ::
  "'c cache_lib \<Rightarrow> 'c CachedRepository \<Rightarrow> string \<Rightarrow> AgentStatus \<Rightarrow> AgentRegistrationMeta option \<Rightarrow> time \<Rightarrow> 'c CachedRepository \<times> unit result" where
  "cached_UpdateAgentStatus lib r agentID status meta ts =
     cached_write (cl_flush lib) r (UpdateAgentStatus (cr_inner r) agentID status meta ts)"

definition cached_DeleteAgent :: "'c cache_lib \<Rightarrow> 'c CachedRepository \<Rightarrow> string \<Rightarrow> 'c CachedRepository \<times> unit result" where
  "cached_DeleteAgent lib r agentID = cached_write (cl_flush lib) r (DeleteAgent (cr_inner r) agentID)"

definition cached_RevokeAgent :: "'c cache_lib \<Rightarrow> 'c CachedRepository \<Rightarrow> string \<Rightarrow> time \<Rightarrow> 'c CachedRepository \<times> unit result" where
  "cached_RevokeAgent lib r agentID ts = cached_write (cl_flush lib) r (RevokeAgent (cr_inner r) agentID ts)"

text \<open>The writes that only pass on, and closing the store.\<close>

definition cached_CreateUser :: "'c CachedRepository \<Rightarrow> CreateUserRequest \<Rightarrow> string \<Rightarrow> time \<Rightarrow> 'c CachedRepository \<times> User result" where
  "cached_CreateUser r req userID ts = cached_write id r (CreateUser (cr_inner r) req userID ts)"

definition cached_ProvisionAgent :: "'c CachedRepository \<Rightarrow> ProvisionAgentRequest \<Rightarrow> time \<Rightarrow> 'c CachedRepository \<times> Agent result" where
  "cached_ProvisionAgent r req ts = cached_write id r (ProvisionAgent (cr_inner r) req ts)"

definition cached_SetAgentRMQUsername :: "'c CachedRepository \<Rightarrow> string \<Rightarrow> string \<Rightarrow> time \<Rightarrow> 'c CachedRepository \<times> unit result" where
  "cached_SetAgentRMQUsername r agentID rmqUsername ts = cached_write id r (SetAgentRMQUsername (cr_inner r) agentID rmqUsername ts)"

definition cached_AddCronJob :: "'c CachedRepository \<Rightarrow> CronJob \<Rightarrow> 'c CachedRepository \<times> unit result" where
  "cached_AddCronJob r job = cached_write id r (AddCronJob (cr_inner r) job)"

definition cached_RemoveCronJob :: "'c CachedRepository \<Rightarrow> string \<Rightarrow> string \<Rightarrow> 'c CachedRepository \<times> unit result" where
  "cached_RemoveCronJob r jobID userID = cached_write id r (RemoveCronJob (cr_inner r) jobID userID)"

definition cached_AddAtJob :: "'c CachedRepository \<Rightarrow> AtJob \<Rightarrow> 'c CachedRepository \<times> unit result" where
  "cached_AddAtJob r job = cached_write id r (AddAtJob (cr_inner r) job)"

definition cached_RemoveAtJob :: "'c CachedRepository \<Rightarrow> string \<Rightarrow> string \<Rightarrow> 'c CachedRepository \<times> unit result" where
  "cached_RemoveAtJob r jobID userID = cached_write id r (RemoveAtJob (cr_inner r) jobID userID)"

definition cached_LogAdminAction :: "'c CachedRepository \<Rightarrow> AdminAuditEntry \<Rightarrow> time \<Rightarrow> 'c CachedRepository \<times> unit result" where
  "cached_LogAdminAction r entry now = cached_write id r (LogAdminAction (cr_inner r) entry now)"

definition cached_Close :: "'c CachedRepository \<Rightarrow> 'c CachedRepository" where
  "cached_Close r = r\<lparr>cr_inner := Close (cr_inner r)\<rparr>"

lemmas cached_writes = cached_AddIdentity_def cached_RemoveIdentity_def cached_SetAllowed_def cached_RemoveAllowed_def
  cached_UpdateUser_def cached_DeleteUser_def cached_SetUserPolicy_def cached_DeleteUserPolicy_def cached_RotateAgentToken_def
  cached_UpdateAgentStatus_def cached_DeleteAgent_def cached_RevokeAgent_def cached_CreateUser_def cached_ProvisionAgent_def
  cached_SetAgentRMQUsername_def cached_AddCronJob_def cached_RemoveCronJob_def cached_AddAtJob_def cached_RemoveAtJob_def
  cached_LogAdminAction_def

section \<open>Runs\<close>

text \<open>
  One write on the repository, with the user it creates or deletes. A write is one step: a read that hits between the
  change of the store and that of the cache answers as it would before the write.
\<close>

datatype user_change = Creates string | Deletes string

inductive cached_step :: "'c cache_lib \<Rightarrow> time \<Rightarrow> user_change option \<Rightarrow> 'c CachedRepository \<Rightarrow> 'c CachedRepository \<Rightarrow> bool" for lib now where
  "cached_step lib now None r (fst (cached_AddIdentity lib r u ct ci now))"
| "cached_step lib now None r (fst (cached_RemoveIdentity r i))"
| "cached_step lib now None r (fst (cached_SetAllowed lib r u ct b who now))"
| "cached_step lib now None r (fst (cached_RemoveAllowed lib r u ct))"
| "cached_step lib now None r (fst (cached_UpdateUser lib r u upd now))"
| "cached_step lib now (Some (Deletes u)) r (fst (cached_DeleteUser lib r u))"
| "CHR '':'' \<notin> set u \<Longrightarrow> cached_step lib now None r (fst (cached_SetUserPolicy lib r u p d now))"
| "CHR '':'' \<notin> set u \<Longrightarrow> cached_step lib now None r (fst (cached_DeleteUserPolicy lib r u p))"
| "cached_step lib now None r (fst (cached_RotateAgentToken lib r a h pre now))"
| "cached_step lib now None r (fst (cached_UpdateAgentStatus lib r a st meta now))"
| "cached_step lib now None r (fst (cached_DeleteAgent lib r a))"
| "cached_step lib now None r (fst (cached_RevokeAgent lib r a now))"
| "cached_step lib now (Some (Creates u)) r (fst (cached_CreateUser r req u now))"
| "cached_step lib now None r (fst (cached_ProvisionAgent r preq now))"
| "cached_step lib now None r (fst (cached_SetAgentRMQUsername r a n now))"
| "cached_step lib now None r (fst (cached_AddCronJob r cj))"
| "cached_step lib now None r (fst (cached_RemoveCronJob r j u))"
| "cached_step lib now None r (fst (cached_AddAtJob r aj))"
| "cached_step lib now None r (fst (cached_RemoveAtJob r j u))"
| "cached_step lib now None r (fst (cached_LogAdminAction r e now))"
| "cached_step lib now None r (cached_Close r)"

section \<open>Queries\<close>

datatype query = QIdentity string string | QAllowed string string | QEnabled string | QPolicy string string | QToken string

fun query_key :: "query \<Rightarrow> string" where
  "query_key (QIdentity ct ci) = identityKey ct ci"
| "query_key (QAllowed u ct) = allowedKey u ct"
| "query_key (QEnabled u) = userEnabledKey u"
| "query_key (QPolicy u p) = policyKey u p"
| "query_key (QToken h) = agentTokenKey h"

fun query_ttl :: "query \<Rightarrow> duration" where
  "query_ttl (QIdentity ct ci) = identityTTL"
| "query_ttl (QAllowed u ct) = allowedTTL"
| "query_ttl (QEnabled u) = userTTL"
| "query_ttl (QPolicy u p) = policyTTL"
| "query_ttl (QToken h) = agentTTL"

fun query_answer :: "Store \<Rightarrow> query \<Rightarrow> cached_value result" where
  "query_answer s (QIdentity ct ci) = map_sum id CString (ResolveIdentity s ct ci)"
| "query_answer s (QAllowed u ct) = map_sum id CBool (IsAllowed s u ct)"
| "query_answer s (QEnabled u) = map_sum id CBool (IsUserEnabled s u)"
| "query_answer s (QPolicy u p) = map_sum id CPolicy (GetUserPolicy s u p)"
| "query_answer s (QToken h) = map_sum id CAgent (GetAgentByTokenHash s h)"

fun plain_query :: "query \<Rightarrow> bool" where
  "plain_query (QIdentity ct ci) \<longleftrightarrow> CHR '':'' \<notin> set ct"
| "plain_query (QAllowed u ct) \<longleftrightarrow> CHR '':'' \<notin> set u"
| "plain_query (QPolicy u p) \<longleftrightarrow> CHR '':'' \<notin> set u"
| "plain_query _ \<longleftrightarrow> True"

lemmas key_defs = identityKey_def allowedKey_def userEnabledKey_def policyKey_def agentTokenKey_def
lemmas ttl_defs = identityTTL_def allowedTTL_def userTTL_def policyTTL_def agentTTL_def

section \<open>Runs of concurrent calls\<close>

text \<open>
  A read that hits changes nothing. A read that misses asks the store at one moment and keeps the answer at a later one;
  its answer is pending in between, with the moment it was given and whether a write came since. The run collects the
  moments it went through and what happened: users created and deleted, and each answer that was kept, with the moments
  it was given and kept and whether a write had come between them.
\<close>

record pending_answer =
  pd_query :: query
  pd_value :: cached_value
  pd_given :: time
  pd_late :: bool

datatype cache_event = Changed user_change | Kept query time time bool

inductive cached_run ::
  "'c cache_lib \<Rightarrow> 'c \<Rightarrow> (time \<times> Store) list \<Rightarrow> cache_event set \<Rightarrow> time \<Rightarrow> pending_answer list \<Rightarrow> 'c CachedRepository \<Rightarrow> bool"
  for lib c0 where
  start: "cached_run lib c0 [(now, s)] {} now [] \<lparr>cr_inner = s, cr_cache = c0\<rparr>"
| writes: "cached_run lib c0 h es now ps r \<Longrightarrow> now \<le> now' \<Longrightarrow> cached_step lib now' l r r'
    \<Longrightarrow> cached_run lib c0 ((now', cr_inner r') # h) (es \<union> Changed ` set_option l) now'
          (map (\<lambda>p. p\<lparr>pd_late := True\<rparr>) ps) r'"
| misses: "cached_run lib c0 h es now ps r \<Longrightarrow> now \<le> now' \<Longrightarrow> plain_query q \<Longrightarrow> query_answer (cr_inner r) q = Inr v
    \<Longrightarrow> cached_run lib c0 ((now', cr_inner r) # h) es now'
          (\<lparr>pd_query = q, pd_value = v, pd_given = now', pd_late = False\<rparr> # ps) r"
| keeps: "cached_run lib c0 h es now (ps @ p # ps') r \<Longrightarrow> now \<le> now'
    \<Longrightarrow> cached_run lib c0 ((now', cr_inner r) # h) (insert (Kept (pd_query p) (pd_given p) now' (pd_late p)) es) now'
          (ps @ ps') (cached_keep lib now' (query_key (pd_query p)) (query_ttl (pd_query p)) (pd_value p) r)"

section \<open>What an entry says\<close>

lemma split_at_first: "c \<notin> set xs \<Longrightarrow> c \<notin> set ys \<Longrightarrow> xs @ c # us = ys @ c # vs \<Longrightarrow> xs = ys \<and> us = vs"
proof (induction xs arbitrary: ys)
  case Nil
  then show ?case by (cases ys) auto
next
  case (Cons x xs)
  then show ?case by (cases ys) auto
qed

lemma query_key_inj: "plain_query q \<Longrightarrow> plain_query q' \<Longrightarrow> query_key q = query_key q' \<Longrightarrow> q = q'"
  by (cases q; cases q') (auto simp: key_defs dest: split_at_first)

lemma query_ttl_pos: "0 < query_ttl q"
  by (cases q) (simp_all add: ttl_defs)

lemma query_ttl_bound: "query_ttl q \<le> 300 * Second"
  by (cases q) (simp_all add: ttl_defs)

lemma documentedD:
  assumes "documented lib view"
  shows "cl_get lib c now k = (case view c k of Some (v, e) \<Rightarrow> if now \<le> e then Some v else None | None \<Rightarrow> None)"
    and "0 < ttl \<Longrightarrow> view (cl_set lib c now k v ttl) = (view c)(k \<mapsto> (v, now + ttl))"
    and "view (cl_delete lib c k) = (view c)(k := None)"
    and "view (cl_flush lib c) = Map.empty"
  using assms by (auto simp: documented_def)

text \<open>
  Every entry is the answer the store gave to a query at a moment of the run, kept later, and expires its time to live
  after that; every pending answer was given by the store.
\<close>

definition entries_from ::
  "('c \<Rightarrow> string \<rightharpoonup> cached_value \<times> time) \<Rightarrow> (time \<times> Store) list \<Rightarrow> cache_event set \<Rightarrow> 'c \<Rightarrow> bool" where
  "entries_from view h es c \<longleftrightarrow>
     (\<forall>k v e. view c k = Some (v, e) \<longrightarrow>
        (\<exists>q t0 s t1 late. plain_query q \<and> k = query_key q \<and> (t0, s) \<in> set h \<and> query_answer s q = Inr v
           \<and> Kept q t0 t1 late \<in> es \<and> e = t1 + query_ttl q))"

definition pending_from :: "(time \<times> Store) list \<Rightarrow> pending_answer list \<Rightarrow> bool" where
  "pending_from h ps \<longleftrightarrow>
     (\<forall>p \<in> set ps. plain_query (pd_query p) \<and> (\<exists>s. (pd_given p, s) \<in> set h \<and> query_answer s (pd_query p) = Inr (pd_value p)))"

lemma entries_from_less:
  assumes "entries_from view h es c" "view c' \<subseteq>\<^sub>m view c" "es \<subseteq> es'"
  shows "entries_from view (x # h) es' c'"
  unfolding entries_from_def
proof (intro allI impI)
  fix k v e assume "view c' k = Some (v, e)"
  then have "view c k = Some (v, e)" using assms(2) unfolding map_le_def by (metis domI)
  then obtain q t0 s t1 late where "plain_query q" "k = query_key q" "(t0, s) \<in> set h" "query_answer s q = Inr v"
    "Kept q t0 t1 late \<in> es" "e = t1 + query_ttl q"
    using assms(1) unfolding entries_from_def by blast
  then show "\<exists>q t0 s t1 late. plain_query q \<and> k = query_key q \<and> (t0, s) \<in> set (x # h) \<and> query_answer s q = Inr v
      \<and> Kept q t0 t1 late \<in> es' \<and> e = t1 + query_ttl q"
    using assms(3) by (intro exI [of _ q] exI [of _ t0] exI [of _ s] exI [of _ t1] exI [of _ late]) auto
qed

lemma bust_less:
  assumes "documented lib view"
  shows "view (cl_delete lib c k) \<subseteq>\<^sub>m view c" "view (cl_flush lib c) \<subseteq>\<^sub>m view c"
  by (simp_all add: documentedD [OF assms] map_le_def)

lemma cached_write_less:
  "(\<And>c. view (bust c) \<subseteq>\<^sub>m view c) \<Longrightarrow> view (cr_cache (fst (cached_write bust r res))) \<subseteq>\<^sub>m view (cr_cache r)"
  by (auto simp: cached_write_def map_le_refl split: prod.split sum.split)

lemma cached_step_less:
  assumes doc: "documented lib view" and st: "cached_step lib now l r r'"
  shows "view (cr_cache r') \<subseteq>\<^sub>m view (cr_cache r)"
  using st
proof cases
  case 21
  then show ?thesis by (simp add: cached_Close_def)
qed (simp_all only: cached_writes, (rule cached_write_less, simp add: bust_less [OF doc])+)

lemma cached_run_entries:
  assumes doc: "documented lib view" and c0: "view c0 = Map.empty" and run: "cached_run lib c0 h es now ps r"
  shows "entries_from view h es (cr_cache r) \<and> pending_from h ps"
  using run
proof induction
  case (start now s)
  then show ?case by (simp add: entries_from_def pending_from_def c0)
next
  case (writes h es now ps r now' l r')
  moreover have "entries_from view ((now', cr_inner r') # h) (es \<union> Changed ` set_option l) (cr_cache r')"
    by (rule entries_from_less [of view h es "cr_cache r"]) (use writes cached_step_less [OF doc writes(3)] in auto)
  ultimately show ?case by (fastforce simp: pending_from_def)
next
  case (misses h es now ps r now' q v)
  moreover have "entries_from view ((now', cr_inner r) # h) es (cr_cache r)"
    by (rule entries_from_less [of view h es "cr_cache r"]) (use misses in auto)
  ultimately show ?case by (fastforce simp: pending_from_def)
next
  case (keeps h es now ps p ps' r now')
  let ?es = "insert (Kept (pd_query p) (pd_given p) now' (pd_late p)) es"
  let ?h = "(now', cr_inner r) # h"
  have old: "entries_from view ?h ?es (cr_cache r)" by (rule entries_from_less [OF _ map_le_refl]) (use keeps in auto)
  obtain s where s: "plain_query (pd_query p)" "(pd_given p, s) \<in> set h" "query_answer s (pd_query p) = Inr (pd_value p)"
    using keeps by (auto simp: pending_from_def)
  have "entries_from view ?h ?es (cl_set lib (cr_cache r) now' (query_key (pd_query p)) (pd_value p) (query_ttl (pd_query p)))"
    unfolding entries_from_def documentedD(2) [OF doc query_ttl_pos]
  proof (intro allI impI)
    fix k v e
    assume k: "((view (cr_cache r))(query_key (pd_query p) \<mapsto> (pd_value p, now' + query_ttl (pd_query p)))) k = Some (v, e)"
    show "\<exists>q t0 s t1 late. plain_query q \<and> k = query_key q \<and> (t0, s) \<in> set ?h \<and> query_answer s q = Inr v
        \<and> Kept q t0 t1 late \<in> ?es \<and> e = t1 + query_ttl q"
    proof (cases "k = query_key (pd_query p)")
      case True
      then show ?thesis using k s by (intro exI [of _ "pd_query p"] exI [of _ "pd_given p"] exI [of _ s] exI [of _ now']) auto
    next
      case False
      then show ?thesis using k old unfolding entries_from_def by auto
    qed
  qed
  then show ?case using keeps by (fastforce simp: cached_keep_def pending_from_def)
qed



lemma cached_run_keeps_first:
  "cached_run lib c0 h es now (p # ps) r \<Longrightarrow> now \<le> now'
    \<Longrightarrow> cached_run lib c0 ((now', cr_inner r) # h) (insert (Kept (pd_query p) (pd_given p) now' (pd_late p)) es) now'
          ps (cached_keep lib now' (query_key (pd_query p)) (query_ttl (pd_query p)) (pd_value p) r)"
  using cached_run.keeps [where ps = "[]"] by simp


section \<open>Answers that stay exact\<close>

text \<open>A cached answer is fresh when the open store would give it now.\<close>

definition fresh :: "('c \<Rightarrow> string \<rightharpoonup> cached_value \<times> time) \<Rightarrow> query \<Rightarrow> 'c CachedRepository \<Rightarrow> bool" where
  "fresh view q r \<longleftrightarrow>
     (\<forall>v e. view (cr_cache r) (query_key q) = Some (v, e) \<longrightarrow> db_open (cr_inner r) \<longrightarrow> query_answer (cr_inner r) q = Inr v)"

definition answer_kept :: "query \<Rightarrow> Store \<Rightarrow> Store \<Rightarrow> bool" where
  "answer_kept q s s' \<longleftrightarrow> (db_open s' \<longrightarrow> db_open s) \<and> (\<forall>v. query_answer s q = Inr v \<longrightarrow> db_open s' \<longrightarrow> query_answer s' q = Inr v)"

lemma answer_kept_refl [simp]: "answer_kept q s s"
  by (simp add: answer_kept_def)

lemma fresh_kept:
  "fresh view q r \<Longrightarrow> answer_kept q (cr_inner r) (cr_inner r') \<Longrightarrow> view (cr_cache r') \<subseteq>\<^sub>m view (cr_cache r) \<Longrightarrow> fresh view q r'"
  unfolding fresh_def answer_kept_def map_le_def by (metis domI)

text \<open>A write either keeps the answer or deletes the entry, and changes nothing when it fails.\<close>

lemma cached_write_fresh:
  assumes f: "fresh view q r" and less: "\<And>c. view (bust c) \<subseteq>\<^sub>m view c"
    and gone: "\<And>c. view (bust c) (query_key q) = None \<or> answer_kept q (cr_inner r) (fst res)"
    and failed: "\<And>e. snd res = Inl e \<Longrightarrow> answer_kept q (cr_inner r) (fst res)"
  shows "fresh view q (fst (cached_write bust r res))"
proof (cases res)
  case (Pair s a)
  show ?thesis
  proof (cases a)
    case (Inl e)
    then show ?thesis using fresh_kept [OF f] failed Pair by (simp add: cached_write_def)
  next
    case (Inr x)
    then have w: "fst (cached_write bust r res) = r\<lparr>cr_inner := s, cr_cache := bust (cr_cache r)\<rparr>"
      using Pair by (simp add: cached_write_def)
    show ?thesis
    proof (cases "view (bust (cr_cache r)) (query_key q)")
      case None
      then show ?thesis by (simp add: w fresh_def)
    next
      case (Some y)
      then have "answer_kept q (cr_inner r) s" using gone [of "cr_cache r"] Pair by simp
      then show ?thesis unfolding w by (intro fresh_kept [OF f]) (simp_all add: less)
    qed
  qed
qed

lemma cached_keep_fresh:
  assumes doc: "documented lib view" and f: "fresh view q r" and q: "plain_query q" "plain_query q'"
    and v: "q = q' \<Longrightarrow> query_answer (cr_inner r) q = Inr v"
  shows "fresh view q (cached_keep lib now (query_key q') (query_ttl q') v r)"
proof (cases "q = q'")
  case True
  then show ?thesis using v by (simp add: fresh_def cached_keep_def documentedD(2) [OF doc query_ttl_pos])
next
  case False
  then have "query_key q \<noteq> query_key q'" using query_key_inj [OF q] by auto
  then show ?thesis using f by (simp add: fresh_def cached_keep_def documentedD(2) [OF doc query_ttl_pos])
qed

text \<open>The tables the writes leave alone.\<close>

lemmas agent_writes = RotateAgentToken_def UpdateAgentStatus_def RevokeAgent_def SetAgentRMQUsername_def update_agent_def DeleteAgent_def
lemmas other_writes = agent_writes ProvisionAgent_def AddCronJob_def RemoveCronJob_def AddAtJob_def RemoveAtJob_def LogAdminAction_def
  AddIdentity_def RemoveIdentity_def SetAllowed_def RemoveAllowed_def

lemma same_tables:
  "db_users s' = db_users s \<Longrightarrow> db_open s' = db_open s \<Longrightarrow> answer_kept (QEnabled u) s s'"
  "db_policies s' = db_policies s \<Longrightarrow> db_open s' = db_open s \<Longrightarrow> answer_kept (QPolicy u p) s s'"
  by (simp_all add: answer_kept_def IsUserEnabled_def GetUserPolicy_def fetch_def)

definition same_accounts :: "Store \<Rightarrow> Store \<Rightarrow> bool" where
  "same_accounts s s' \<longleftrightarrow> db_users s' = db_users s \<and> db_policies s' = db_policies s \<and> db_open s' = db_open s"

lemma other_writes_same [simp]:
  "same_accounts s (fst (AddIdentity s u ct ci ts))"
  "same_accounts s (fst (RemoveIdentity s i))"
  "same_accounts s (fst (SetAllowed s u ct b who ts))"
  "same_accounts s (fst (RemoveAllowed s u ct))"
  "same_accounts s (fst (RotateAgentToken s a h pre ts))"
  "same_accounts s (fst (UpdateAgentStatus s a st meta ts))"
  "same_accounts s (fst (DeleteAgent s a))"
  "same_accounts s (fst (RevokeAgent s a ts))"
  "same_accounts s (fst (ProvisionAgent s preq ts))"
  "same_accounts s (fst (SetAgentRMQUsername s a n ts))"
  "same_accounts s (fst (AddCronJob s cj))"
  "same_accounts s (fst (RemoveCronJob s j u))"
  "same_accounts s (fst (AddAtJob s aj))"
  "same_accounts s (fst (RemoveAtJob s j u))"
  "same_accounts s (fst (LogAdminAction s e ts))"
  by (simp_all add: same_accounts_def other_writes exec_simps)

lemma same_accounts_kept:
  "same_accounts s s' \<Longrightarrow> answer_kept (QEnabled u) s s'" "same_accounts s s' \<Longrightarrow> answer_kept (QPolicy u p) s s'"
  by (simp_all add: same_accounts_def same_tables)

lemma find_first_filter_other: "(\<And>x. P x \<Longrightarrow> Q x) \<Longrightarrow> find_first P (filter Q xs) = find_first P xs"
  by (induction xs) auto

lemma find_first_map_other: "(\<And>x. P x \<Longrightarrow> f x = x) \<Longrightarrow> (\<And>x. P (f x) = P x) \<Longrightarrow> find_first P (map f xs) = find_first P xs"
  by (induction xs) auto

lemma enabled_kept:
  "u \<noteq> u' \<Longrightarrow> answer_kept (QEnabled u) s (fst (CreateUser s req u' ts))"
  "u \<noteq> u' \<Longrightarrow> answer_kept (QEnabled u) s (fst (UpdateUser s u' upd ts))"
  "u \<noteq> u' \<Longrightarrow> answer_kept (QEnabled u) s (fst (DeleteUser s u'))"
  "answer_kept (QEnabled u) s (fst (SetUserPolicy s u' p d ts))"
  "answer_kept (QEnabled u) s (fst (DeleteUserPolicy s u' p))"
      apply (simp add: answer_kept_def CreateUser_def exec_simps IsUserEnabled_def find_first_append split: option.split)
     apply (simp add: answer_kept_def UpdateUser_def exec_simps IsUserEnabled_def GetUser_def find_first_map_other write_user_def
        split: option.split sum.split)
    apply (simp add: answer_kept_def DeleteUser_def exec_simps IsUserEnabled_def find_first_filter_other)
   apply (rule same_tables; simp add: SetUserPolicy_def DeleteUserPolicy_def exec_simps)+
  done

lemma rows_kept:
  assumes "find_first (\<lambda>x. up_UserID x = u \<and> up_PolicyType x = p) (db_policies s')
      = find_first (\<lambda>x. up_UserID x = u \<and> up_PolicyType x = p) (db_policies s)"
    and "db_open s' = db_open s"
  shows "answer_kept (QPolicy u p) s s'"
  using assms by (simp add: answer_kept_def GetUserPolicy_def fetch_def)

lemma policy_kept:
  "answer_kept (QPolicy u p) s (fst (CreateUser s req u' ts))"
  "answer_kept (QPolicy u p) s (fst (UpdateUser s u' upd ts))"
  "u \<noteq> u' \<Longrightarrow> answer_kept (QPolicy u p) s (fst (DeleteUser s u'))"
  "(u, p) \<noteq> (u', p') \<Longrightarrow> answer_kept (QPolicy u p) s (fst (SetUserPolicy s u' p' d ts))"
  "(u, p) \<noteq> (u', p') \<Longrightarrow> answer_kept (QPolicy u p) s (fst (DeleteUserPolicy s u' p'))"
proof -
  show "answer_kept (QPolicy u p) s (fst (CreateUser s req u' ts))"
    by (rule same_tables; simp add: CreateUser_def exec_simps)
  show "answer_kept (QPolicy u p) s (fst (UpdateUser s u' upd ts))"
    by (rule same_tables; simp add: UpdateUser_def GetUser_def exec_simps split: option.split)
  show "answer_kept (QPolicy u p) s (fst (DeleteUser s u'))" if "u \<noteq> u'"
    using that by (intro rows_kept; simp add: DeleteUser_def exec_simps) (auto intro!: find_first_filter_other)
  show "answer_kept (QPolicy u p) s (fst (SetUserPolicy s u' p' d ts))" if other: "(u, p) \<noteq> (u', p')"
  proof -
    have "find_first (\<lambda>x. up_UserID x = u \<and> up_PolicyType x = p)
        (map (\<lambda>p. if up_UserID p = u' \<and> up_PolicyType p = p' then p\<lparr>up_Data := d, up_UpdatedAt := ts\<rparr> else p) (db_policies s))
      = find_first (\<lambda>x. up_UserID x = u \<and> up_PolicyType x = p) (db_policies s)"
      by (rule find_first_map_other) (use other in auto)
    then show ?thesis using other
      by (intro rows_kept; simp add: SetUserPolicy_def exec_simps find_first_append split: option.split) auto
  qed
  show "answer_kept (QPolicy u p) s (fst (DeleteUserPolicy s u' p'))" if "(u, p) \<noteq> (u', p')"
    using that by (intro rows_kept; simp add: DeleteUserPolicy_def exec_simps) (auto intro!: find_first_filter_other)
qed

text \<open>A failed write changes nothing.\<close>

lemma failed_writes:
  "snd (CreateUser s req u ts) = Inl e \<Longrightarrow> answer_kept q s (fst (CreateUser s req u ts))"
  "snd (UpdateUser s u upd ts) = Inl e \<Longrightarrow> answer_kept q s (fst (UpdateUser s u upd ts))"
  "snd (DeleteUser s u) = Inl e \<Longrightarrow> answer_kept q s (fst (DeleteUser s u))"
  "snd (SetUserPolicy s u p d ts) = Inl e \<Longrightarrow> answer_kept q s (fst (SetUserPolicy s u p d ts))"
  "snd (DeleteUserPolicy s u p) = Inl e \<Longrightarrow> answer_kept q s (fst (DeleteUserPolicy s u p))"
      apply (auto simp: CreateUser_def GetUser_def exec_simps find_first_append split: if_splits option.splits) [1]
     apply (auto simp: UpdateUser_def GetUser_def exec_simps split: if_splits option.splits) [1]
    apply (auto simp: DeleteUser_def exec_simps split: if_splits) [1]
   apply (auto simp: SetUserPolicy_def exec_simps split: if_splits) [1]
  apply (auto simp: DeleteUserPolicy_def exec_simps split: if_splits)
  done

lemma same_fresh:
  assumes "fresh view q r" "same_accounts (cr_inner r) (fst res)" "\<And>c. view (bust c) \<subseteq>\<^sub>m view c" "q = QEnabled u \<or> q = QPolicy u p"
  shows "fresh view q (fst (cached_write bust r res))"
  using assms same_accounts_kept by (intro cached_write_fresh) auto

lemma deleted_fresh:
  assumes "documented lib view" "fresh view q r" "k = query_key q \<or> answer_kept q (cr_inner r) (fst res)"
    and "\<And>e. snd res = Inl e \<Longrightarrow> answer_kept q (cr_inner r) (fst res)"
  shows "fresh view q (fst (cached_write (\<lambda>c. cl_delete lib c k) r res))"
  using assms by (intro cached_write_fresh) (auto simp: documentedD [OF assms(1)] bust_less)

lemma cached_step_fresh:
  assumes doc: "documented lib view" and st: "cached_step lib now l r r'" and f: "fresh view q r"
    and q: "q = QEnabled u \<and> l \<noteq> Some (Creates u) \<or> q = QPolicy u p \<and> CHR '':'' \<notin> set u \<and> l \<noteq> Some (Deletes u)"
  shows "fresh view q r'"
proof -
  note gone = deleted_fresh [OF doc f]
  show ?thesis using st
  proof cases
    case (5 w upd)
    then show ?thesis unfolding cached_UpdateUser_def using q
      by (cases "u = w"; simp only:; intro gone) (auto intro: failed_writes enabled_kept policy_kept)
  next
    case (6 w)
    then show ?thesis unfolding cached_DeleteUser_def using q
      by (cases "u = w"; simp only:; intro gone) (auto intro: failed_writes enabled_kept policy_kept)
  next
    case (7 w t d)
    then show ?thesis unfolding cached_SetUserPolicy_def using q
      by (cases "(u, p) = (w, t)"; simp only:; intro gone) (auto intro: failed_writes enabled_kept policy_kept)
  next
    case (8 w t)
    then show ?thesis unfolding cached_DeleteUserPolicy_def using q
      by (cases "(u, p) = (w, t)"; simp only:; intro gone) (auto intro: failed_writes enabled_kept policy_kept)
  next
    case (13 req w)
    then show ?thesis unfolding cached_CreateUser_def using q
      by (simp only:; intro cached_write_fresh [OF f]) (auto intro: enabled_kept policy_kept failed_writes)
  next
    case 21
    then show ?thesis using fresh_kept [OF f] by (simp add: cached_Close_def fresh_def Close_def)
  qed (simp_all only: cached_writes, (rule same_fresh [OF f]; use q bust_less [OF doc] in force)+)
qed

definition pending_fresh :: "query \<Rightarrow> Store \<Rightarrow> pending_answer list \<Rightarrow> bool" where
  "pending_fresh q s ps \<longleftrightarrow> (\<forall>p \<in> set ps. pd_query p = q \<longrightarrow> \<not> pd_late p \<longrightarrow> query_answer s q = Inr (pd_value p))"

lemma cached_run_fresh:
  assumes doc: "documented lib view" and c0: "view c0 = Map.empty" and run: "cached_run lib c0 h es now ps r"
    and q: "q = QEnabled u \<and> Changed (Creates u) \<notin> es \<or> q = QPolicy u p \<and> CHR '':'' \<notin> set u \<and> Changed (Deletes u) \<notin> es"
    and kept: "\<forall>t0 t1. Kept q t0 t1 True \<notin> es"
  shows "fresh view q r \<and> pending_fresh q (cr_inner r) ps"
  using run q kept
proof induction
  case (start now s)
  then show ?case by (simp add: fresh_def c0 pending_fresh_def)
next
  case (writes h es now ps r now' l r')
  then have "q = QEnabled u \<and> l \<noteq> Some (Creates u) \<or> q = QPolicy u p \<and> CHR '':'' \<notin> set u \<and> l \<noteq> Some (Deletes u)" by auto
  then show ?case using writes cached_step_fresh [OF doc writes(3)] by (auto simp: pending_fresh_def)
next
  case (misses h es now ps r now' q' v)
  then show ?case by (auto simp: pending_fresh_def)
next
  case (keeps h es now ps p' ps' r now')
  have plain: "plain_query q" using keeps.prems(1) by auto
  have pq: "plain_query (pd_query p')"
    using cached_run_entries [OF doc c0 keeps(1)] by (simp add: pending_from_def)
  have ih: "fresh view q r \<and> pending_fresh q (cr_inner r) (ps @ p' # ps')" using keeps by auto
  have "query_answer (cr_inner r) q = Inr (pd_value p')" if "q = pd_query p'"
    using ih that keeps.prems(2) by (cases "pd_late p'") (auto simp: pending_fresh_def)
  then have "fresh view q (cached_keep lib now' (query_key (pd_query p')) (query_ttl (pd_query p')) (pd_value p') r)"
    using ih by (intro cached_keep_fresh [OF doc _ plain pq]) auto
  then show ?case using ih by (auto simp: pending_fresh_def cached_keep_def)
qed

lemma fresh_read:
  assumes doc: "documented lib view" and f: "fresh view q r" and op: "db_open (cr_inner r)"
    and q: "key = query_key q" "query_answer (cr_inner r) q = map_sum id wrap inner" and as_a: "\<And>a. as_a (wrap a) = Some a"
  shows "snd (cached_read lib now key ttl as_a wrap inner r) = map_sum Inner id inner"
proof (cases "cl_get lib (cr_cache r) now key")
  case None
  then show ?thesis by (simp add: cached_read_def split: sum.split)
next
  case (Some v)
  then obtain e where "view (cr_cache r) key = Some (v, e)" by (auto simp: documentedD [OF doc] split: option.splits if_splits)
  then have "map_sum id wrap inner = Inr v" using f op q by (auto simp: fresh_def)
  then obtain a where "inner = Inr a" "v = wrap a" by (cases inner) auto
  then show ?thesis using Some as_a by (simp add: cached_read_def)
qed

section \<open>Properties\<close>


lemmas cached_reads = cached_ResolveIdentity_def cached_IsAllowed_def cached_IsUserEnabled_def cached_GetUserPolicy_def
  cached_GetAgentByTokenHash_def



text \<open>The reads of the repository are steps of the runs: a read without interruption is a hit, or a miss and a keep.\<close>

fun cached_after :: "'c cache_lib \<Rightarrow> time \<Rightarrow> 'c CachedRepository \<Rightarrow> query \<Rightarrow> 'c CachedRepository" where
  "cached_after lib now r (QIdentity ct ci) = fst (cached_ResolveIdentity lib now r ct ci)"
| "cached_after lib now r (QAllowed u ct) = fst (cached_IsAllowed lib now r u ct)"
| "cached_after lib now r (QEnabled u) = fst (cached_IsUserEnabled lib now r u)"
| "cached_after lib now r (QPolicy u p) = fst (cached_GetUserPolicy lib now r u p)"
| "cached_after lib now r (QToken h) = fst (cached_GetAgentByTokenHash lib now r h)"

lemma cached_after_cases:
  "cached_after lib now r q = r \<or> (\<exists>v. query_answer (cr_inner r) q = Inr v
     \<and> cached_after lib now r q = cached_keep lib now (query_key q) (query_ttl q) v r)"
  by (cases q) (auto simp: cached_reads cached_read_def split: option.split sum.split)

lemma cached_read_runs:
  assumes run: "cached_run lib c0 h es now ps r" and "now \<le> now'" and q: "plain_query q"
  shows "\<exists>h' es' n. n \<le> now' \<and> es' \<subseteq> insert (Kept q now' now' False) es \<and> cached_run lib c0 h' es' n ps (cached_after lib now' r q)"
  using cached_after_cases [of lib now' r q]
proof (elim disjE exE conjE)
  assume "cached_after lib now' r q = r"
  then show ?thesis using run assms(2) by (metis subset_insertI)
next
  fix v assume v: "query_answer (cr_inner r) q = Inr v"
    "cached_after lib now' r q = cached_keep lib now' (query_key q) (query_ttl q) v r"
  from cached_run_keeps_first [OF cached_run.misses [OF run assms(2) q v(1)] order_refl] v(2)
  show ?thesis by (intro exI conjI order_refl) auto
qed


text \<open>
  C38: with the store open, a policy read through the cache is exactly the store's, and whether a user is enabled is exactly
  what the store says, in every run in which no read of this policy or flag kept its answer after a write had come since
  the store gave it, unless the user was deleted (for policies) or created (for the flag) in the run. User ids are free of
  colons for policies.
\<close>

theorem cached_exact:
  assumes "documented lib view" "view c0 = Map.empty" "cached_run lib c0 h es now ps r" "db_open (cr_inner r)"
  shows "(Changed (Creates u) \<notin> es \<and> (\<forall>t0 t1. Kept (QEnabled u) t0 t1 True \<notin> es) \<longrightarrow>
         snd (cached_IsUserEnabled lib t r u) = map_sum Inner id (IsUserEnabled (cr_inner r) u))
    \<and> (CHR '':'' \<notin> set u \<and> Changed (Deletes u) \<notin> es \<and> (\<forall>t0 t1. Kept (QPolicy u p) t0 t1 True \<notin> es) \<longrightarrow>
         snd (cached_GetUserPolicy lib t r u p) = map_sum Inner id (GetUserPolicy (cr_inner r) u p))"
proof (intro conjI impI)
  assume "Changed (Creates u) \<notin> es \<and> (\<forall>t0 t1. Kept (QEnabled u) t0 t1 True \<notin> es)"
  then have "fresh view (QEnabled u) r" using cached_run_fresh [OF assms(1-3), of "QEnabled u" u] by blast
  then show "snd (cached_IsUserEnabled lib t r u) = map_sum Inner id (IsUserEnabled (cr_inner r) u)"
    unfolding cached_IsUserEnabled_def by (rule fresh_read [OF assms(1) _ assms(4)]) simp_all
next
  assume "CHR '':'' \<notin> set u \<and> Changed (Deletes u) \<notin> es \<and> (\<forall>t0 t1. Kept (QPolicy u p) t0 t1 True \<notin> es)"
  then have "fresh view (QPolicy u p) r" using cached_run_fresh [OF assms(1-3), of "QPolicy u p" u p] by blast
  then show "snd (cached_GetUserPolicy lib t r u p) = map_sum Inner id (GetUserPolicy (cr_inner r) u p)"
    unfolding cached_GetUserPolicy_def by (rule fresh_read [OF assms(1) _ assms(4)]) simp_all
qed

section \<open>What the writes forget\<close>

text \<open>Deleting a user leaves the cached owner of the user's identities and the cached agents; the store has lost both.\<close>

lemma deleted_user_still_resolved:
  assumes "documented lib view"
    and "cl_get lib (cr_cache r) t (identityKey ct ci) = Some (CString u)" "cl_get lib (cr_cache r) t (agentTokenKey h) = Some (CAgent a)"
  shows "snd (cached_ResolveIdentity lib t (fst (cached_DeleteUser lib r u)) ct ci) = Inr u
    \<and> snd (cached_GetAgentByTokenHash lib t (fst (cached_DeleteUser lib r u)) h) = Inr a"
proof -
  have "cl_get lib (cr_cache (fst (cached_DeleteUser lib r u))) t k = cl_get lib (cr_cache r) t k" if "k \<noteq> userEnabledKey u" for k
    using that by (simp add: cached_DeleteUser_def cached_write_def documentedD [OF assms(1)] split: prod.split sum.split)
  then show ?thesis using assms(2,3) by (simp add: cached_reads cached_read_def key_defs)
qed

text \<open>A new row for all channels does not reach the cached answers for one channel, nor does the removal of an identity.\<close>

lemma wildcard_change_unseen:
  assumes "documented lib view" "cl_get lib (cr_cache r) t (allowedKey u ct) = Some (CBool b)" "ct \<noteq> ''*''"
  shows "snd (cached_IsAllowed lib t (fst (cached_SetAllowed lib r u ''*'' b' who now)) u ct) = Inr b"
  using assms(2,3)
  by (simp add: cached_IsAllowed_def cached_SetAllowed_def cached_read_def cached_write_def documentedD [OF assms(1)] allowedKey_def
      split: prod.split sum.split)

lemma removed_identity_still_resolved:
  assumes "cl_get lib (cr_cache r) t (identityKey ct ci) = Some (CString u)"
  shows "snd (cached_ResolveIdentity lib t (fst (cached_RemoveIdentity r i)) ct ci) = Inr u"
  using assms by (simp add: cached_ResolveIdentity_def cached_RemoveIdentity_def cached_read_def cached_write_def split: prod.split sum.split)

section \<open>A run\<close>

text \<open>A library that keeps a map.\<close>

definition map_lib :: "(string \<rightharpoonup> cached_value \<times> time) cache_lib" where
  "map_lib =
     \<lparr>cl_get = (\<lambda>c now k. case c k of Some (v, e) \<Rightarrow> if now \<le> e then Some v else None | None \<Rightarrow> None),
      cl_set = (\<lambda>c now k v ttl. c(k \<mapsto> (v, now + ttl))), cl_delete = (\<lambda>c k. c(k := None)), cl_flush = (\<lambda>c. Map.empty)\<rparr>"

lemma map_lib_documented: "documented map_lib id"
  by (simp add: documented_def map_lib_def)

text \<open>A user is read as enabled, disabled, and read again.\<close>

definition cache_demo_user :: User where
  "cache_demo_user = \<lparr>us_ID = ''usr_1'', us_Name = ''ann'', us_Enabled = True, us_DefaultModel = [], us_CreatedAt = 1,
     us_UpdatedAt = 1, us_Preferences = Map.empty\<rparr>"

definition cache_demo_off :: UpdateUserRequest where
  "cache_demo_off = \<lparr>ur_Name = None, ur_DefaultModel = None, ur_Enabled = Some False, ur_Preferences = None\<rparr>"

definition cache_demo0 :: "(string \<rightharpoonup> cached_value \<times> time) CachedRepository" where
  "cache_demo0 = \<lparr>cr_inner = emptyStore\<lparr>db_users := [cache_demo_user]\<rparr>, cr_cache = Map.empty\<rparr>"

definition cache_demo1 :: "(string \<rightharpoonup> cached_value \<times> time) CachedRepository" where
  "cache_demo1 = fst (cached_IsUserEnabled map_lib 10 cache_demo0 ''usr_1'')"

definition cache_demo2 :: "(string \<rightharpoonup> cached_value \<times> time) CachedRepository" where
  "cache_demo2 = fst (cached_UpdateUser map_lib cache_demo1 ''usr_1'' cache_demo_off 20)"

lemma cache_demo_user_enabled: "query_answer (cr_inner cache_demo0) (QEnabled ''usr_1'') = Inr (CBool True)"
  by (simp add: cache_demo0_def IsUserEnabled_def fetch_def emptyStore_def cache_demo_user_def)

lemma cache_demo1_keep: "cache_demo1 = cached_keep map_lib 10 (userEnabledKey ''usr_1'') userTTL (CBool True) cache_demo0"
  by (simp add: cache_demo1_def cached_IsUserEnabled_def cached_read_def IsUserEnabled_def fetch_def cache_demo0_def map_lib_def
      emptyStore_def cache_demo_user_def)

lemma cache_demo_miss:
  "cached_run map_lib Map.empty [(10, cr_inner cache_demo0), (5, cr_inner cache_demo0)] {} 10
     [\<lparr>pd_query = QEnabled ''usr_1'', pd_value = CBool True, pd_given = 10, pd_late = False\<rparr>] cache_demo0"
proof -
  have "cached_run map_lib Map.empty [(5, cr_inner cache_demo0)] {} 5 [] cache_demo0"
    unfolding cache_demo0_def by (simp add: cached_run.start)
  from cached_run.misses [OF this _ _ cache_demo_user_enabled, of 10] show ?thesis by simp
qed

lemma cache_demo_run1:
  "cached_run map_lib Map.empty [(10, cr_inner cache_demo0), (10, cr_inner cache_demo0), (5, cr_inner cache_demo0)]
     {Kept (QEnabled ''usr_1'') 10 10 False} 10 [] cache_demo1"
  using cached_run_keeps_first [OF cache_demo_miss order_refl] by (simp add: cache_demo1_keep)

lemma cache_demo_run2:
  "cached_run map_lib Map.empty
     [(20, cr_inner cache_demo2), (10, cr_inner cache_demo0), (10, cr_inner cache_demo0), (5, cr_inner cache_demo0)]
     {Kept (QEnabled ''usr_1'') 10 10 False} 20 [] cache_demo2"
  using cached_run.writes [OF cache_demo_run1 _ cached_step.intros(5), of 20 "''usr_1''" cache_demo_off]
  by (simp add: cache_demo2_def)

lemma cache_demo_stores:
  "cr_inner cache_demo1 = cr_inner cache_demo0" "db_open (cr_inner cache_demo2)"
  "IsUserEnabled (cr_inner cache_demo2) ''usr_1'' = Inr False" "IsUserEnabled (cr_inner cache_demo0) ''usr_1'' = Inr True"
  by (simp_all add: cache_demo1_def cache_demo2_def cache_demo0_def cached_IsUserEnabled_def cached_UpdateUser_def cached_read_def
      cached_write_def cached_keep_def IsUserEnabled_def UpdateUser_def GetUser_def exec_simps apply_updates_def write_user_def cache_demo_off_def
      cache_demo_user_def emptyStore_def map_lib_def)

theorem cached_exact_witness:
  "snd (cached_IsUserEnabled map_lib 30 cache_demo2 ''usr_1'') = Inr False"
  using cached_exact [OF map_lib_documented _ cache_demo_run2 cache_demo_stores(2), of "''usr_1''" 30 "[]"]
  by (simp add: cache_demo_stores)


text \<open>
  A read that asked the store before the user was disabled can keep its answer after the write has removed the entry: the
  user then reads as enabled until that entry expires.
\<close>

definition cache_demo_stale :: "(string \<rightharpoonup> cached_value \<times> time) CachedRepository" where
  "cache_demo_stale = cached_keep map_lib 30 (userEnabledKey ''usr_1'') userTTL (CBool True)
     (fst (cached_UpdateUser map_lib cache_demo0 ''usr_1'' cache_demo_off 20))"

lemma stale_answer_kept:
  "\<exists>h. cached_run map_lib Map.empty h {Kept (QEnabled ''usr_1'') 10 30 True} 30 [] cache_demo_stale"
  "IsUserEnabled (cr_inner cache_demo_stale) ''usr_1'' = Inr False"
  "snd (cached_IsUserEnabled map_lib (30 + 60 * Second) cache_demo_stale ''usr_1'') = Inr True"
proof -
  show "\<exists>h. cached_run map_lib Map.empty h {Kept (QEnabled ''usr_1'') 10 30 True} 30 [] cache_demo_stale"
    using cached_run_keeps_first [OF cached_run.writes [OF cache_demo_miss _ cached_step.intros(5), of 20 "''usr_1''" cache_demo_off, simplified], of 30]
    by (auto simp: cache_demo_stale_def)
  show "IsUserEnabled (cr_inner cache_demo_stale) ''usr_1'' = Inr False"
    by (simp add: cache_demo_stale_def cache_demo0_def cached_keep_def cached_UpdateUser_def cached_write_def IsUserEnabled_def
        UpdateUser_def GetUser_def exec_simps apply_updates_def write_user_def cache_demo_off_def cache_demo_user_def emptyStore_def)
  show "snd (cached_IsUserEnabled map_lib (30 + 60 * Second) cache_demo_stale ''usr_1'') = Inr True"
    by (simp add: cached_IsUserEnabled_def cached_read_def cache_demo_stale_def cached_keep_def map_lib_def userTTL_def)
qed

end
