(* ===== verification/Spec2Isabelle.thy ===== *)
theory Spec2Isabelle
  imports GoStrings RateLimit Router Dispatcher SessionStore FileLock MessageQueue Listings Scheduler JobApi Registration
    ReplyText Lifecycle HealthMon Webhook AgentTools Redelivery WhatsApp Slack ChannelAdapters ChannelTypes Notify
    AgentRecord AgentGateway Cache
begin

text \<open>
  Open-Nipper is a gateway between chat platforms and per-user agents. A webhook or a channel
  adapter hands a message to the router, which resolves the user, asks the allowlist guard, derives the
  session, registers where the answer must go, suppresses duplicates and publishes the message to the
  user's queue. The agent answers with events; a consumer hands them to the dispatcher, which finds the
  registered delivery, accumulates or streams the text and delivers it through the channel's
  adapter. Around this core stand the datastore, the session store with its lock, the job scheduler
  and its endpoints, agent registration, health monitoring, the shutdown manager, and the agent's own
  handling of tools and model output.

  \<^bold>\<open>Theories and sources.\<close>
  \<^item> \<^verbatim>\<open>Prelude\<close>, \<^verbatim>\<open>GoStrings\<close>: time, map and list operations; the functions of Go's \<^verbatim>\<open>strings\<close>,
    \<^verbatim>\<open>unicode/utf8\<close> and \<^verbatim>\<open>encoding/json\<close> the sources use, on byte strings.
  \<^item> \<^verbatim>\<open>Models\<close>: \<^verbatim>\<open>internal/models\<close>, each struct a record and each enumeration a datatype or string.
  \<^item> \<^verbatim>\<open>RateLimit\<close>, \<^verbatim>\<open>Dedup\<close>, \<^verbatim>\<open>Registry\<close>: \<^verbatim>\<open>internal/ratelimit\<close>, and the deduplicator and delivery
    registry of \<^verbatim>\<open>internal/gateway\<close>.
  \<^item> \<^verbatim>\<open>SessionKey\<close>, \<^verbatim>\<open>Resolver\<close>: \<^verbatim>\<open>pkg/session/key.go\<close> and \<^verbatim>\<open>internal/gateway/resolver.go\<close>.
  \<^item> \<^verbatim>\<open>Datastore\<close>, \<^verbatim>\<open>Listings\<close>: the SQLite tables as lists with the constraints of the migrations, every
    read and write of \<^verbatim>\<open>internal/datastore/sqlite\<close>. \<^verbatim>\<open>Cache\<close>: the caching repository of
    \<^verbatim>\<open>internal/datastore/cache.go\<close>, on a cache library that is an argument. \<^verbatim>\<open>Guard\<close>: \<^verbatim>\<open>internal/allowlist/guard.go\<close>.
  \<^item> \<^verbatim>\<open>Router\<close>, \<^verbatim>\<open>Dispatcher\<close>, \<^verbatim>\<open>MessageQueue\<close>: \<^verbatim>\<open>internal/gateway/router.go\<close>, \<^verbatim>\<open>dispatcher.go\<close> and
    \<^verbatim>\<open>internal/queue\<close>. Timers and goroutines of the router are entries of its state that a run may fire.
  \<^item> \<^verbatim>\<open>SessionStore\<close>, \<^verbatim>\<open>FileLock\<close>: \<^verbatim>\<open>pkg/session\<close>, with the files as a map from paths to contents.
  \<^item> \<^verbatim>\<open>Scheduler\<close>, \<^verbatim>\<open>JobApi\<close>, \<^verbatim>\<open>Registration\<close>: \<^verbatim>\<open>internal/channels/cron/scheduler.go\<close>, the job endpoints
    and \<^verbatim>\<open>register.go\<close> of \<^verbatim>\<open>internal/gateway\<close>.
  \<^item> \<^verbatim>\<open>Webhook\<close>: \<^verbatim>\<open>internal/gateway/webhook.go\<close> and the signature checks of the channel packages, with
    64-bit words for the clock.
  \<^item> \<^verbatim>\<open>HealthMon\<close>, \<^verbatim>\<open>Lifecycle\<close>: \<^verbatim>\<open>healthmon.go\<close>, \<^verbatim>\<open>heartbeat_store.go\<close> and \<^verbatim>\<open>internal/lifecycle\<close>.
  \<^item> \<^verbatim>\<open>ReplyText\<close>, \<^verbatim>\<open>AgentTools\<close>: the text functions of \<^verbatim>\<open>internal/agent/runtime.go\<close>, and the tool policy,
    repeated-call guard and keyword search of \<^verbatim>\<open>internal/agent\<close>.
  \<^item> \<^verbatim>\<open>Profile\<close>, \<^verbatim>\<open>Usage\<close>, \<^verbatim>\<open>GoFloat\<close>, \<^verbatim>\<open>Skills\<close>: \<^verbatim>\<open>profile.go\<close> with the setup command, \<^verbatim>\<open>usage.go\<close>, the
    rounding of Go's \<^verbatim>\<open>float64\<close> on rationals, and \<^verbatim>\<open>skills/\<close> with \<^verbatim>\<open>tools/skill_exec.go\<close>.
  \<^item> \<^verbatim>\<open>AgentCommands\<close>, \<^verbatim>\<open>AgentInput\<close>, \<^verbatim>\<open>Enrich\<close>: \<^verbatim>\<open>publisher.go\<close> and \<^verbatim>\<open>commands.go\<close>; what the model is given
    (\<^verbatim>\<open>convert.go\<close>, \<^verbatim>\<open>multimodal_user.go\<close>, \<^verbatim>\<open>topic.go\<close>, the prompt and tool selection of \<^verbatim>\<open>runtime.go\<close>); \<^verbatim>\<open>enrich/\<close>.
  \<^item> \<^verbatim>\<open>AgentRun\<close>, \<^verbatim>\<open>AgentHandle\<close>: the callbacks and the generation loop, and \<^verbatim>\<open>handleMessage\<close>, \<^verbatim>\<open>handleDelivery\<close> and
    \<^verbatim>\<open>consume\<close> of \<^verbatim>\<open>runtime.go\<close>. The ReAct agent with its language model is a function from the number of the
    call, the bound tools and prompt and the input to the callbacks it makes and its result.
    \<^verbatim>\<open>AgentProps\<close>, \<^verbatim>\<open>AgentRecord\<close>: what a handled message publishes, how often the model is called, what the
    transcript and metadata hold afterwards. \<^verbatim>\<open>AgentGateway\<close>: the agent's events in the gateway's dispatcher.

  \<^item> \<^verbatim>\<open>QueueChannels\<close>, \<^verbatim>\<open>WhatsApp\<close>, \<^verbatim>\<open>Slack\<close>: normalisers and delivery of the packages under
    \<^verbatim>\<open>internal/channels\<close>. \<^verbatim>\<open>ChannelAdapters\<close>: the MQTT and RabbitMQ adapters with their
    subscriptions and connections. \<^verbatim>\<open>Notify\<close>: \<^verbatim>\<open>agent_notify_handler.go\<close> and the cron adapter.
  \<^item> \<^verbatim>\<open>Redelivery\<close>, \<^verbatim>\<open>ChannelTypes\<close>: the RabbitMQ adapter joined to the router, and the typing of
    channel metadata through router, registry and dispatcher.

  State is passed explicitly: an operation takes the state and returns the changed one, an error
  is a value of a sum type, and a log component of the state records the effects on the outside (messages
  published, deliveries attempted). What the code asks of others, the clock, fresh identifiers, the
  broker, an adapter, SHA-256, is an argument of the operation that asks.

  \<^bold>\<open>Interfaces.\<close> Locales state what one part relies on in another and are interpreted on the
  model's own definitions: the queue laws of the registry, the repository laws of the guard and the router
  on the SQLite store, and the job tables of the scheduler for both kinds of jobs.

  \<^bold>\<open>What the lemmas show.\<close> Who gets through (guard, router, webhook, registration, job endpoints,
  tool policy); that nothing is lost, doubled or sent to the wrong place (collect buffers, registry,
  dispatcher, queue topology, transcripts, compaction, the agent's answers); that limits hold exactly (rate limiter,
  deduplicator, retries, lock waiting, repeated tool calls, calls of the model); that the stores keep their invariants; that
  optimised or stateful routines agree with plain references (cleanup, the exchange sort of the matcher, the
  degraded clock, salvage). This theory joins the parts: the path of a message from the router to
  the delivery of its answer, and what a scheduled job may do. Some theorems record where the code does not
  do what it means to do; they are stated as the code behaves.

  \<^bold>\<open>Bounds and termination.\<close> Loops over data are structural or have a measure. The lock loop runs on the list
  of what its system calls answer, and \<^verbatim>\<open>lock_wait_bounded\<close> bounds its length; the retry loop of the dispatcher
  and the generation loop of the agent count the code's three attempts, and \<^verbatim>\<open>agent_runs_bounded\<close> bounds the calls
  they make. No other definition has fuel.

  \<^bold>\<open>Not modelled.\<close> Logging, tracing and metrics; HTTP servers, response encoding and the admin API; the AMQP,
  SQLite and MQTT client libraries and the gateway's own broker connection; URL parsing, downloads from S3 and the
  rewriting of markdown for WhatsApp; the language model clients, the MCP transports and the container sandbox,
  whose answers the agent loop receives; the tools that fetch pages, documents, search results and the
  weather; the command line and the configuration loader. The manifest lists each with its
  reason.
\<close>

section \<open>From a message to its answer\<close>

lemma dispatch_publishes:
  "dispatch_accepted deps env n rt m = (rt', Routed) \<Longrightarrow>
     \<exists>item. MessagePublished item \<in> set (rt_log rt') \<and> qi_Message item = Some m"
  by (auto simp: dispatch_accepted_def buildQueueItem_def Let_def split: prod.splits if_splits)

text \<open>The handler the gateway gives to its event consumer; it never reports an error.\<close>

definition gateway_handler :: "(NipperEvent \<Rightarrow> deliver_env) \<Rightarrow> Dispatcher \<Rightarrow> NipperEvent \<Rightarrow> Dispatcher \<times> bool" where
  "gateway_handler denv d event = (HandleEvent (denv event) d (Some event), False)"

definition decoded :: "NipperEvent option list \<Rightarrow> NipperEvent list" where
  "decoded bodies = List.map_filter id bodies"

definition settlements_of :: "NipperEvent option list \<Rightarrow> settlement list" where
  "settlements_of bodies = map (\<lambda>b. if b = None then NackDrop else Ack) bodies"

text \<open>The deltas of a session among the decodable deliveries, joined.\<close>

definition session_text :: "string \<Rightarrow> NipperEvent option list \<Rightarrow> string" where
  "session_text k bodies =
     concat (map delta_text (filter (\<lambda>e. ev_SessionKey e = k \<and> ev_Type e = EventTypeDelta) (decoded bodies)))"

lemma handle_all_foldl:
  "handle_all d (map (\<lambda>e. (denv e, e)) es) = foldl (\<lambda>d e. HandleEvent (denv e) d (Some e)) d es"
  by (induction es arbitrary: d) simp_all

text \<open>The deliveries of a run of the consumer, over all its connections, when it settled all of them.\<close>

lemma consumer_dispatches:
  assumes run: "consumer_Start (Some (gateway_handler denv)) d rounds = (d', settled, ended)"
    and bodies: "concat (map round_taken rounds) = bodies" "length settled = length bodies"
  shows "d' = handle_all d (map (\<lambda>e. (denv e, e)) (decoded bodies)) \<and> settled = settlements_of bodies"
proof -
  have "consume_rounds (gateway_handler denv) d rounds = (d', settled, ended)"
    using run by (simp add: consumer_Start_def)
  then obtain n where n: "settle_all (gateway_handler denv) d (concat (map round_taken (take n rounds))) = (d', settled)"
    using consumer_settles_all [of "gateway_handler denv" d rounds d' settled ended] by auto
  have "bodies = concat (map round_taken (take n rounds)) @ concat (map round_taken (drop n rounds))"
    using bodies(1) by (metis append_take_drop_id concat_append map_append)
  moreover have "length settled = length (concat (map round_taken (take n rounds)))" by (rule settle_all_length [OF n])
  ultimately have "concat (map round_taken (take n rounds)) = bodies" using bodies(2) by simp
  with n have "settle_all (gateway_handler denv) d bodies = (d', settled)" by simp
  moreover have "settle_all (gateway_handler denv) d bodies =
      (foldl (\<lambda>d e. fst (gateway_handler denv d e)) d (List.map_filter id bodies), map (\<lambda>b. if b = None then NackDrop else Ack) bodies)"
    by (rule settle_all_total) (simp add: gateway_handler_def)
  ultimately show ?thesis
    by (simp add: gateway_handler_def handle_all_foldl decoded_def settlements_of_def)
qed

lemma handle_all_snoc: "handle_all d (es @ [(env, e)]) = HandleEvent env (handle_all d es) (Some e)"
  by (induction es arbitrary: d) auto

text \<open>
  C1: an accepted message is answered where it came from. Let the router publish a message whose session
  has no open delivery, with a delivery context that buffers (no streaming, no broadcast reply) and names a
  channel with an adapter, and let nothing be accumulated for the session yet. Then whatever the broker
  delivers to the consumer afterwards, decodable or not, for this session or others, over any number of
  connections, up to the first final event of this session: each undecodable delivery is dropped and each
  other one acknowledged, and the final event makes one response, whose text is the session's deltas in
  order or, when there are none, the text of the final event, with the delivery context and metadata of
  the message; no delivery of the session stays open.
\<close>

theorem answer_returns_to_sender:
  assumes "handleNormalizedMessage deps env n rt (Some m) = (rt', Routed)"
    and k: "k = nm_SessionKey (prepared deps env rt m)" "pending (rt_registry rt) k = []"
    and ctx: "ctx = nm_DeliveryContext m" "\<not> SupportsStreaming (dc_Capabilities ctx)" "dc_ReplyMode ctx \<noteq> ''broadcast''"
    and d: "ds_registry d = rt_registry rt'" "ds_adapters d (dc_ChannelType ctx) \<noteq> None" "accumulated d k = []"
    and events: "\<forall>e \<in> set (decoded bodies). \<not> (ev_SessionKey e = k \<and> is_terminal e)"
    and final: "ev_SessionKey event = k" "ev_Type event = EventTypeDone"
    and loop: "consumer_Start (Some (gateway_handler denv)) d rounds = (d', settled, ended)"
    and taken: "concat (map round_taken rounds) = bodies @ [Some event]" "length settled = length (bodies @ [Some event])"
  shows "(\<exists>item. MessagePublished item \<in> set (rt_log rt') \<and> qi_Message item = Some (prepared deps env rt m))
    \<and> settled = map (\<lambda>b. if b = None then NackDrop else Ack) (bodies @ [Some event])
    \<and> (\<exists>resp tries. last (ds_log d') = ResponseTried (dc_ChannelType ctx) resp tries
        \<and> nr_DeliveryContext resp = ctx \<and> nr_Meta resp = nm_Meta m
        \<and> nr_Text resp = (if session_text k bodies = [] then delta_text event else session_text k bodies))
    \<and> pending (ds_registry d') k = []"
  using assms(1)
proof (cases rule: handle_cases)
  case (entered st0 st)
  let ?m = "prepared deps env rt m" and ?rt = "rt\<lparr>rt_store := st\<rparr>"
  have accepted: "dispatch_accepted deps env n (after_dedup deps env ?rt ?m) ?m = (rt', Routed)"
    using entered(1) by (auto simp: register_and_dedup_eq split: if_splits)
  let ?e = "\<lparr>de_Context = ctx, de_Meta = nm_Meta m, de_InboundParts = mc_Parts (nm_Content m), de_CreatedAt = en_registered_at env\<rparr>"
  have "pending (rt_registry rt') k = [?e]"
    using k dispatch_registry [OF accepted] by (simp add: after_dedup_def pending_Register prepared_keeps ctx(1))
  then have b: "buffering d k ?e []" using d ctx by (simp add: buffering_def)
  let ?es = "map (\<lambda>e. (denv e, e)) (decoded bodies)"
  have es: "\<forall>p \<in> set ?es. \<not> (ev_SessionKey (snd p) = k \<and> is_terminal (snd p))" using events by auto
  have "decoded (bodies @ [Some event]) = decoded bodies @ [event]"
    by (simp add: decoded_def List.map_filter_def)
  then have d': "d' = HandleEvent (denv event) (handle_all d ?es) (Some event)"
    and settled: "settled = settlements_of (bodies @ [Some event])"
    using consumer_dispatches [OF loop taken] by (simp_all add: handle_all_snoc)
  have joined: "deltas_of k ?es = session_text k bodies" by (simp add: deltas_of_def session_text_def filter_map o_def)
  obtain resp tries where "last (ds_log d') = ResponseTried (dc_ChannelType ctx) resp tries"
    "nr_Text resp = (if session_text k bodies = [] then delta_text event else session_text k bodies)"
    "nr_DeliveryContext resp = ctx" "nr_Meta resp = nm_Meta m" "pending (ds_registry d') k = []"
    using buffered_answer_complete [OF b d(3) es final d'] unfolding joined by auto
  with dispatch_publishes [OF accepted] settled show ?thesis unfolding settlements_of_def by blast
qed simp_all


definition reply_message :: NipperMessage where
  "reply_message = (slack_message ''x'' ''hi'')\<lparr>nm_DeliveryContext := zeroDeliveryContext\<lparr>dc_ChannelType := ''slack''\<rparr>\<rparr>"

abbreviation plain_key :: string where
  "plain_key \<equiv> BuildSessionKey ''usr_1'' ''slack'' ''U1''"

lemma plain_fields [simp]:
  "nm_UserID reply_message = ''usr_1''" "nm_ChannelType reply_message = ''slack''" "nm_ChannelIdentity reply_message = ''U1''"
  "nm_DeliveryContext reply_message = zeroDeliveryContext\<lparr>dc_ChannelType := ''slack''\<rparr>"
  "dp_repo queue_deps = sqlite_repo" "dp_publisher queue_deps = True" "dp_config queue_deps = None"
  by (simp_all add: reply_message_def queue_deps_def)

lemma reply_same:
  "stamp demo_env reply_message = reply_message" "reply_message\<lparr>nm_UserID := ''usr_1''\<rparr> = reply_message"
  by (simp_all add: reply_message_def slack_message_def stamp_def zero_time_def)

lemma plain_prepared: "prepared queue_deps demo_env rt reply_message = reply_message\<lparr>nm_SessionKey := plain_key\<rparr>"
proof -
  have "deriveSessionID reply_message = ''U1''"
    using slack_message_key [of "''x''" "''hi''"]
    by (simp add: reply_message_def deriveSessionID_def channel_context_def slack_message_def Sanitize_fixed safe_component_def
        safe_char_def safe_rune_def)
  then show ?thesis by (simp add: prepared_def reply_same Let_def)
qed

lemma plain_routed:
  obtains rt' where "handleNormalizedMessage queue_deps demo_env False demo_router (Some reply_message) = (rt', Routed)"
proof -
  have ok: "store_wf demo_denied" "db_open demo_denied" using demo_admits_start by (auto simp: demo_admits_def)
  obtain st b where gb: "Guard_Check sqlite_repo demo_denied ''usr_1'' ''slack'' ''U1'' 3 = (st, Inr b)"
    using check_answers [OF ok(2,1)] by blast
  have b using sq.check_exact [OF ok(1) gb] demo_admits_start by (simp add: sq_permits demo_admits_def)
  have "handleNormalizedMessage queue_deps demo_env False demo_router (Some reply_message)
      = resolve_session queue_deps demo_env False (demo_router\<lparr>rt_store := st\<rparr>) reply_message"
    using gb \<open>b\<close> by (simp add: handleNormalizedMessage_def reply_same Let_def)
  moreover have "\<exists>rt'. resolve_session queue_deps demo_env False (demo_router\<lparr>rt_store := st\<rparr>) reply_message = (rt', Routed)"
    by (simp add: resolve_session_def Resolve_def register_and_dedup_eq is_dup_def NewDeduplicator_def IsDuplicate_def
        dispatch_accepted_def queueModeFor_def demo_env_def Let_def)
  ultimately show thesis using that by auto
qed

definition plain_events :: "NipperEvent option list" where
  "plain_events = [Some (demo_event EventTypeDelta plain_key (Some ''Hello'')), None]"

text \<open>The connection is lost after the first two deliveries; the final event comes on the next one.\<close>

definition plain_rounds :: "consume_round list" where
  "plain_rounds =
     (let ok = \<lparr>ce_opened = True, ce_qos = True, ce_deliveries = True\<rparr> in
      [\<lparr>cr_env = ok, cr_stimuli = map Arrives plain_events @ [DeliveriesClosed], cr_cancelled = None, cr_next = PauseOver\<rparr>,
       \<lparr>cr_env = ok\<lparr>ce_opened := False\<rparr>, cr_stimuli = [], cr_cancelled = None, cr_next = PauseOver\<rparr>,
       \<lparr>cr_env = ok, cr_stimuli = [Arrives (Some (demo_event EventTypeDone plain_key None)), CtxDone], cr_cancelled = None,
        cr_next = CtxEnded\<rparr>])"

lemma plain_rounds_taken:
  "concat (map round_taken plain_rounds) = plain_events @ [Some (demo_event EventTypeDone plain_key None)]"
  by (simp add: plain_rounds_def plain_events_def round_taken_def Let_def)

lemma plain_rounds_settled:
  "consumer_Start (Some (gateway_handler denv)) d plain_rounds = (d', settled, ended) \<Longrightarrow> length settled = 3"
  by (auto simp: consumer_Start_def plain_rounds_def plain_events_def consume_def handleDelivery_def gateway_handler_def Let_def)

theorem answer_returns_to_sender_witness:
  "\<exists>rt' d' settled ended resp tries.
     handleNormalizedMessage queue_deps demo_env False demo_router (Some reply_message) = (rt', Routed)
     \<and> consumer_Start (Some (gateway_handler (\<lambda>_. demo_deliver)))
         (NewDispatcher (rt_registry rt') [''slack'' \<mapsto> \<lparr>ad_TypingIndicator = False, ad_TypingIndicatorRemover = False\<rparr>])
         plain_rounds = (d', settled, ended)
     \<and> settled = [Ack, NackDrop, Ack]
     \<and> last (ds_log d') = ResponseTried ''slack'' resp tries \<and> nr_Text resp = ''Hello''"
proof -
  obtain rt' where h: "handleNormalizedMessage queue_deps demo_env False demo_router (Some reply_message) = (rt', Routed)"
    by (rule plain_routed)
  let ?d = "NewDispatcher (rt_registry rt') [''slack'' \<mapsto> \<lparr>ad_TypingIndicator = False, ad_TypingIndicatorRemover = False\<rparr>]"
  obtain d' settled ended where c: "consumer_Start (Some (gateway_handler (\<lambda>_. demo_deliver))) ?d
      plain_rounds = (d', settled, ended)"
    by (metis prod_cases3)
  have n: "length settled = length (plain_events @ [Some (demo_event EventTypeDone plain_key None)])"
    using plain_rounds_settled [OF c] by (simp add: plain_events_def)
  have "decoded plain_events = [demo_event EventTypeDelta plain_key (Some ''Hello'')]"
    by (simp add: decoded_def plain_events_def List.map_filter_def)
  then have ev: "\<forall>e \<in> set (decoded plain_events). \<not> (ev_SessionKey e = plain_key \<and> is_terminal e)"
    and joined: "session_text plain_key plain_events = ''Hello''"
    by (simp_all add: is_terminal_def session_text_def delta_text_def)
  have k: "plain_key = nm_SessionKey (prepared queue_deps demo_env demo_router reply_message)"
    by (simp add: plain_prepared)
  have p: "pending (rt_registry demo_router) plain_key = []"
    by (simp add: demo_router_def NewRouter_def NewRegistry_def map_slice_def)
  have d: "ds_registry ?d = rt_registry rt'" "ds_adapters ?d ''slack'' \<noteq> None" "accumulated ?d plain_key = []"
    by (simp_all add: NewDispatcher_def accumulated_def)
  have "settled = map (\<lambda>b. if b = None then NackDrop else Ack) (plain_events @ [Some (demo_event EventTypeDone plain_key None)])
      \<and> (\<exists>resp tries. last (ds_log d') = ResponseTried ''slack'' resp tries \<and> nr_Text resp = ''Hello'')"
    using answer_returns_to_sender [OF h k p refl _ _ d(1) _ d(3) ev _ _ c plain_rounds_taken n] d(2)
    by (auto simp: zeroDeliveryContext_def joined)
  then show ?thesis using h c by (auto simp: plain_events_def)
qed

section \<open>Scheduled jobs and the guard\<close>

lemma dispatch_store:
  "dispatch_accepted deps env n rt m = (rt', out) \<Longrightarrow> rt_store rt' = rt_store rt \<and> out \<noteq> Rejected"
  by (auto simp: dispatch_accepted_def onAccepted_def enqueueCollect_def open_buffer_def Let_def
      split: prod.splits option.splits if_splits)

lemma register_store:
  "register_and_dedup deps env n rt m = (rt', out) \<Longrightarrow> rt_store rt' = rt_store rt \<and> out \<noteq> Rejected"
  by (auto simp: register_and_dedup_eq after_dedup_def dest!: dispatch_store split: if_splits)

text \<open>
  A scheduled job runs as its user whatever the user's standing. The message of a job that fires is
  never rejected: for every store, the router goes straight on to registration, deduplication and the
  queue. A user who is disabled or deleted stays able to start the agent through jobs added before.
\<close>

theorem scheduled_job_skips_guard:
  assumes "fireJob fenv s job = Some m" "cj_UserID job \<noteq> []"
    and "handleNormalizedMessage deps env n rt (Some m) = (rt', out)"
  shows "(rt', out) = register_and_dedup deps env n rt (prepared deps env rt m)
    \<and> nm_UserID (prepared deps env rt m) = cj_UserID job \<and> rt_store rt' = rt_store rt \<and> out \<noteq> Rejected"
proof -
  have m: "nm_UserID m = cj_UserID job" "nm_ChannelType m = ChannelTypeCron"
    using assms(1) by (auto simp: fireJob_def job_message_def split: if_splits)
  then have r: "register_and_dedup deps env n rt (prepared deps env rt m) = (rt', out)"
    using cron_enters [of m deps env n rt] assms(2,3) by simp
  have "nm_UserID (prepared deps env rt m) = cj_UserID job"
    using m assms(2) by (simp add: prepared_def stamp_def Let_def)
  with r register_store [OF r] show ?thesis by simp
qed

definition night_job :: CronJob where
  "night_job = \<lparr>cj_ID = ''nightly'', cj_Schedule = ''0 0 3 * * *'', cj_UserID = ''usr_gone'', cj_Prompt = ''report'', cj_NotifyChannels = []\<rparr>"

definition fire_times :: fire_env where
  "fire_times = \<lparr>fe_uuid = ''m'', fe_now = 5, fe_now_text = ''t''\<rparr>"

definition empty_router :: "Store Router" where
  "empty_router = NewRouter emptyStore NewRegistry (NewDeduplicator 30)"

theorem scheduled_job_skips_guard_witness:
  "\<exists>m rt' out. fireJob fire_times (SetHandler NewScheduler) night_job = Some m
     \<and> \<not> active_user (rt_store empty_router) ''usr_gone''
     \<and> handleNormalizedMessage queue_deps demo_env False empty_router (Some m) = (rt', out)
     \<and> nm_UserID (prepared queue_deps demo_env empty_router m) = ''usr_gone'' \<and> out \<noteq> Rejected"
proof -
  obtain m where m: "fireJob fire_times (SetHandler NewScheduler) night_job = Some m"
    by (auto simp: fireJob_def SetHandler_def)
  obtain rt' out where h: "handleNormalizedMessage queue_deps demo_env False empty_router (Some m) = (rt', out)" by force
  have "\<not> active_user (rt_store empty_router) ''usr_gone''"
    by (simp add: active_user_def empty_router_def NewRouter_def emptyStore_def)
  moreover have "nm_UserID (prepared queue_deps demo_env empty_router m) = ''usr_gone'' \<and> out \<noteq> Rejected"
    using scheduled_job_skips_guard [OF m _ h] by (simp add: night_job_def)
  ultimately show ?thesis using m h by blast
qed

end
